(* ===== verification/Prelude.thy ===== *)
theory Prelude
  imports Main "HOL-Library.Word" "HOL-Library.Finite_Map" "HOL-Library.List_Lexorder"
begin

text \<open>
  Shared vocabulary of the development: the machine types of the Rust sources, the result type
  with its bind, the part of the standard library that several crates use (big-endian integers,
  slices, UTF-8 validation, ASCII case folding, decimal and octal rendering) and the generic
  lemmas about them that the component theories rest on.
\<close>

section \<open>Machine types\<close>

type_synonym u8 = "8 word"
type_synonym u16 = "16 word"
type_synonym u32 = "32 word"
type_synonym u64 = "64 word"

text \<open>A byte buffer, and equally the UTF-8 bytes of a Rust string.\<close>

type_synonym bytes = "u8 list"

named_theorems result_simps \<open>unfolding rules of the result type\<close>
named_theorems codec_simps \<open>evaluation rules of encoders and decoders\<close>

section \<open>The result type\<close>

datatype ('e, 'a) result = Err 'e | Ok 'a

fun rbind :: "('e, 'a) result \<Rightarrow> ('a \<Rightarrow> ('e, 'b) result) \<Rightarrow> ('e, 'b) result" where
  "rbind (Err e) f = Err e"
| "rbind (Ok x) f = f x"

fun is_ok :: "('e, 'a) result \<Rightarrow> bool" where
  "is_ok (Err e) = False"
| "is_ok (Ok x) = True"

fun map_err :: "('e \<Rightarrow> 'f) \<Rightarrow> ('e, 'a) result \<Rightarrow> ('f, 'a) result" where
  "map_err g (Err e) = Err (g e)"
| "map_err g (Ok x) = Ok x"

text \<open>\<open>Option::ok_or_else\<close>.\<close>

fun ok_or :: "'e \<Rightarrow> 'a option \<Rightarrow> ('e, 'a) result" where
  "ok_or e None = Err e"
| "ok_or e (Some x) = Ok x"

text \<open>An early return guarded by a condition: \<open>if c { return Err(e); }\<close>.\<close>

definition fail_if :: "bool \<Rightarrow> 'e \<Rightarrow> ('e, unit) result" where
  "fail_if c e = (if c then Err e else Ok ())"

text \<open>A \<open>for\<close> loop whose body may leave with \<open>?\<close>.\<close>

fun rfold :: "('a \<Rightarrow> 's \<Rightarrow> ('e, 's) result) \<Rightarrow> 'a list \<Rightarrow> 's \<Rightarrow> ('e, 's) result" where
  "rfold f [] s = Ok s"
| "rfold f (x # xs) s = rbind (f x s) (rfold f xs)"

fun rmap :: "('a \<Rightarrow> ('e, 'b) result) \<Rightarrow> 'a list \<Rightarrow> ('e, 'b list) result" where
  "rmap f [] = Ok []"
| "rmap f (x # xs) = rbind (f x) (\<lambda>y. rbind (rmap f xs) (\<lambda>ys. Ok (y # ys)))"

section \<open>Standard library: integers\<close>

text \<open>\<open>to_be_bytes\<close> of an n-byte unsigned integer and its inverse.\<close>

fun be_bytes :: "nat \<Rightarrow> nat \<Rightarrow> bytes" where
  "be_bytes 0 v = []"
| "be_bytes (Suc n) v = be_bytes n (v div 256) @ [word_of_nat v]"

definition be_nat :: "bytes \<Rightarrow> nat" where
  "be_nat bs = foldl (\<lambda>acc b. acc * 256 + unat b) 0 bs"

definition u16_be :: "u16 \<Rightarrow> bytes" where "u16_be v = be_bytes 2 (unat v)"
definition u32_be :: "u32 \<Rightarrow> bytes" where "u32_be v = be_bytes 4 (unat v)"
definition u64_be :: "u64 \<Rightarrow> bytes" where "u64_be v = be_bytes 8 (unat v)"

definition u16_from_be :: "bytes \<Rightarrow> u16" where "u16_from_be bs = word_of_nat (be_nat bs)"
definition u32_from_be :: "bytes \<Rightarrow> u32" where "u32_from_be bs = word_of_nat (be_nat bs)"
definition u64_from_be :: "bytes \<Rightarrow> u64" where "u64_from_be bs = word_of_nat (be_nat bs)"

text \<open>
  \<open>usize\<close> is a natural number below \<open>2 ^ 64\<close>: the supported targets are 64-bit. A buffer never
  reaches that length, so \<open>len as u64\<close> keeps its value on every buffer that exists.
\<close>

definition usize_limit :: nat where "usize_limit = 2 ^ 64"

definition checked_add :: "nat \<Rightarrow> nat \<Rightarrow> nat option" where
  "checked_add a b = (if a + b < usize_limit then Some (a + b) else None)"

definition usize_try_from :: "u64 \<Rightarrow> nat option" where
  "usize_try_from v = (if unat v < usize_limit then Some (unat v) else None)"

text \<open>\<open>slice.get(a..b)\<close>.\<close>

definition slice_get :: "bytes \<Rightarrow> nat \<Rightarrow> nat \<Rightarrow> bytes option" where
  "slice_get bs a b = (if a \<le> b \<and> b \<le> length bs then Some (take (b - a) (drop a bs)) else None)"

section \<open>Standard library: text\<close>

text \<open>The bytes of an ASCII literal, and the rendering of bytes inside an error message.\<close>

definition ascii :: "string \<Rightarrow> bytes" where
  "ascii s = map (\<lambda>c. word_of_nat (of_char c)) s"

definition render :: "bytes \<Rightarrow> string" where
  "render bs = map (\<lambda>b. char_of (unat b)) bs"

text \<open>\<open>{}\<close> and \<open>{:o}\<close> of an unsigned integer.\<close>

fun digits_in :: "nat \<Rightarrow> nat \<Rightarrow> string" where
  "digits_in b n =
     (if b < 2 \<or> n < b then [char_of (48 + n)]
      else digits_in b (n div b) @ [char_of (48 + n mod b)])"

declare digits_in.simps [simp del]

definition dec :: "nat \<Rightarrow> string" where "dec n = digits_in 10 n"
definition oct :: "nat \<Rightarrow> string" where "oct n = digits_in 8 n"

definition is_ascii_bytes :: "bytes \<Rightarrow> bool" where
  "is_ascii_bytes bs \<longleftrightarrow> (\<forall>b \<in> set bs. b < 0x80)"

definition to_ascii_lower :: "u8 \<Rightarrow> u8" where
  "to_ascii_lower b = (if 0x41 \<le> b \<and> b \<le> 0x5A then b + 0x20 else b)"

definition to_ascii_upper :: "u8 \<Rightarrow> u8" where
  "to_ascii_upper b = (if 0x61 \<le> b \<and> b \<le> 0x7A then b - 0x20 else b)"

definition is_ascii_alphanumeric :: "u8 \<Rightarrow> bool" where
  "is_ascii_alphanumeric b \<longleftrightarrow>
     (0x30 \<le> b \<and> b \<le> 0x39) \<or> (0x41 \<le> b \<and> b \<le> 0x5A) \<or> (0x61 \<le> b \<and> b \<le> 0x7A)"

definition eq_ignore_ascii_case :: "bytes \<Rightarrow> bytes \<Rightarrow> bool" where
  "eq_ignore_ascii_case a b \<longleftrightarrow> map to_ascii_lower a = map to_ascii_lower b"

text \<open>\<open>str::split\<close> on a single ASCII byte: always at least one piece, empty pieces included.\<close>

fun split_on :: "u8 \<Rightarrow> bytes \<Rightarrow> bytes list" where
  "split_on d [] = [[]]"
| "split_on d (b # bs) =
     (if b = d then [] # split_on d bs
      else (case split_on d bs of [] \<Rightarrow> [[b]] | p # ps \<Rightarrow> (b # p) # ps))"

text \<open>\<open>core::str::from_utf8\<close>: well-formed UTF-8 as the standard library checks it.\<close>

definition utf8_cont :: "u8 \<Rightarrow> bool" where
  "utf8_cont b \<longleftrightarrow> 0x80 \<le> b \<and> b \<le> 0xBF"

fun utf8_valid :: "bytes \<Rightarrow> bool" where
  "utf8_valid [] = True"
| "utf8_valid (b # bs) =
     (if b < 0x80 then utf8_valid bs
      else if 0xC2 \<le> b \<and> b \<le> 0xDF then
        (case bs of c1 # r \<Rightarrow> utf8_cont c1 \<and> utf8_valid r | _ \<Rightarrow> False)
      else if 0xE0 \<le> b \<and> b \<le> 0xEF then
        (case bs of c1 # c2 # r \<Rightarrow>
           utf8_cont c1 \<and> utf8_cont c2 \<and> (b = 0xE0 \<longrightarrow> 0xA0 \<le> c1)
             \<and> (b = 0xED \<longrightarrow> c1 \<le> 0x9F) \<and> utf8_valid r
         | _ \<Rightarrow> False)
      else if 0xF0 \<le> b \<and> b \<le> 0xF4 then
        (case bs of c1 # c2 # c3 # r \<Rightarrow>
           utf8_cont c1 \<and> utf8_cont c2 \<and> utf8_cont c3 \<and> (b = 0xF0 \<longrightarrow> 0x90 \<le> c1)
             \<and> (b = 0xF4 \<longrightarrow> c1 \<le> 0x8F) \<and> utf8_valid r
         | _ \<Rightarrow> False)
      else False)"

section \<open>Lemmas: results\<close>

lemma rbind_cong [fundef_cong]:
  "m = m' \<Longrightarrow> (\<And>x. m' = Ok x \<Longrightarrow> f x = f' x) \<Longrightarrow> rbind m f = rbind m' f'"
  by (cases m) auto

lemma rbind_eq_Ok [simp]: "rbind m f = Ok y \<longleftrightarrow> (\<exists>x. m = Ok x \<and> f x = Ok y)"
  by (cases m) auto

lemma Ok_eq_rbind [simp]: "Ok y = rbind m f \<longleftrightarrow> (\<exists>x. m = Ok x \<and> f x = Ok y)"
  by (cases m) auto

lemma rbind_pair_eq_Ok:
  "rbind m (\<lambda>(a, b). f a b) = Ok y \<longleftrightarrow> (\<exists>a b. m = Ok (a, b) \<and> f a b = Ok y)"
  by (cases m) auto

lemma rbind_assoc: "rbind (rbind m f) g = rbind m (\<lambda>x. rbind (f x) g)"
  by (cases m) auto

lemma is_ok_iff: "is_ok m \<longleftrightarrow> (\<exists>x. m = Ok x)"
  by (cases m) auto

lemma map_err_eq_Ok [simp]: "map_err g m = Ok y \<longleftrightarrow> m = Ok y"
  by (cases m) auto

lemma ok_or_eq_Ok [simp]: "ok_or e m = Ok y \<longleftrightarrow> m = Some y"
  by (cases m) auto

lemma fail_if_eq_Ok [simp]: "fail_if c e = Ok u \<longleftrightarrow> \<not> c"
  by (simp add: fail_if_def)

lemma fail_if_False [simp]: "fail_if False e = Ok ()"
  and fail_if_True [simp]: "fail_if True e = Err e"
  by (simp_all add: fail_if_def)

lemma fail_if_eq_Err [simp]: "fail_if c e = Err e' \<longleftrightarrow> c \<and> e' = e"
  by (auto simp: fail_if_def)

lemma rfold_append: "rfold f (xs @ ys) s = rbind (rfold f xs s) (rfold f ys)"
proof (induction xs arbitrary: s)
  case (Cons x xs)
  show ?case
    by (cases "f x s") (simp_all add: Cons.IH)
qed simp

lemma rfold_Ok_unit: "rfold (\<lambda>x (_ :: unit). f x) xs u = Ok v \<longleftrightarrow> (\<forall>x \<in> set xs. f x = Ok ())"
  by (induction xs) auto

lemma rmap_eq_Ok: "rmap f xs = Ok ys \<longleftrightarrow> list_all2 (\<lambda>x y. f x = Ok y) xs ys"
  by (induction xs arbitrary: ys) (auto simp: list_all2_Cons1)

section \<open>Lemmas: big-endian integers\<close>

lemma length_be_bytes [simp]: "length (be_bytes n v) = n"
  by (induction n arbitrary: v) auto

lemma be_bytes_2 [codec_simps]: "be_bytes 2 v = [word_of_nat (v div 256), word_of_nat v]"
  by (simp add: numeral_2_eq_2)

lemma be_bytes_add: "be_bytes (m + n) v = be_bytes m (v div 256 ^ n) @ be_bytes n v"
  by (induction n arbitrary: v) (simp_all add: div_mult2_eq)

lemma be_bytes_4 [codec_simps]: "be_bytes 4 v = be_bytes 2 (v div 65536) @ be_bytes 2 v"
  using be_bytes_add [of 2 2 v] by simp

lemma be_bytes_8 [codec_simps]: "be_bytes 8 v = be_bytes 4 (v div 4294967296) @ be_bytes 4 v"
  using be_bytes_add [of 4 4 v] by simp

lemma be_nat_Nil [simp]: "be_nat [] = 0"
  by (simp add: be_nat_def)

lemma be_nat_snoc [simp]: "be_nat (bs @ [b]) = be_nat bs * 256 + unat b"
  by (simp add: be_nat_def)

lemma unat_word8_of_nat: "unat (word_of_nat v :: u8) = v mod 256"
  by (simp add: unat_of_nat)

lemma be_nat_be_bytes: "be_nat (be_bytes n v) = v mod 256 ^ n"
proof (induction n arbitrary: v)
  case (Suc n)
  have "v mod 256 ^ Suc n = 256 * (v div 256 mod 256 ^ n) + v mod 256"
    by (simp add: mod_mult2_eq)
  then show ?case
    using Suc by (simp add: unat_word8_of_nat)
qed simp

lemma be_nat_less: "be_nat bs < 256 ^ length bs"
proof (induction bs rule: rev_induct)
  case (snoc b bs)
  have "unat b < 256"
    using unsigned_less [of b, where 'a = nat] by simp
  then show ?case
    using snoc by simp
qed simp

lemma be_bytes_be_nat: "be_bytes (length bs) (be_nat bs) = bs"
proof (induction bs rule: rev_induct)
  case (snoc b bs)
  have "unat b < 256"
    using unsigned_less [of b, where 'a = nat] by simp
  moreover have "(256 :: u8) = 0"
    by simp
  then have "word_of_nat (be_nat bs * 256 + unat b) = b"
    by (simp only: of_nat_add of_nat_mult of_nat_numeral) simp
  ultimately show ?case
    using snoc by simp
qed simp

lemma length_u16_be [simp]: "length (u16_be v) = 2"
  by (simp add: u16_be_def)

lemma length_u32_be [simp]: "length (u32_be v) = 4"
  by (simp add: u32_be_def)

lemma length_u64_be [simp]: "length (u64_be v) = 8"
  by (simp add: u64_be_def)

lemmas be_defs [codec_simps] = u16_be_def u32_be_def u64_be_def

lemma u16_from_be_be [simp]: "u16_from_be (u16_be v) = v"
proof -
  have "unat v < 65536"
    using unsigned_less [of v, where 'a = nat] by simp
  then show ?thesis
    by (simp add: u16_from_be_def u16_be_def be_nat_be_bytes)
qed

lemma u32_from_be_be [simp]: "u32_from_be (u32_be v) = v"
proof -
  have "unat v < 4294967296"
    using unsigned_less [of v, where 'a = nat] by simp
  then show ?thesis
    by (simp add: u32_from_be_def u32_be_def be_nat_be_bytes)
qed

lemma u64_from_be_be [simp]: "u64_from_be (u64_be v) = v"
proof -
  have "unat v < 18446744073709551616"
    using unsigned_less [of v, where 'a = nat] by simp
  then show ?thesis
    by (simp add: u64_from_be_def u64_be_def be_nat_be_bytes)
qed

lemma u16_be_from_be: "length bs = 2 \<Longrightarrow> u16_be (u16_from_be bs) = bs"
  using be_nat_less [of bs] be_bytes_be_nat [of bs]
  by (simp add: u16_from_be_def u16_be_def unat_of_nat)

lemma u32_be_from_be: "length bs = 4 \<Longrightarrow> u32_be (u32_from_be bs) = bs"
  using be_nat_less [of bs] be_bytes_be_nat [of bs]
  by (simp add: u32_from_be_def u32_be_def unat_of_nat)

lemma u64_be_from_be: "length bs = 8 \<Longrightarrow> u64_be (u64_from_be bs) = bs"
  using be_nat_less [of bs] be_bytes_be_nat [of bs]
  by (simp add: u64_from_be_def u64_be_def unat_of_nat)

lemma u16_be_inject [simp]: "u16_be a = u16_be b \<longleftrightarrow> a = b"
  by (metis u16_from_be_be)

lemma u32_be_inject [simp]: "u32_be a = u32_be b \<longleftrightarrow> a = b"
  by (metis u32_from_be_be)

lemma u64_be_inject [simp]: "u64_be a = u64_be b \<longleftrightarrow> a = b"
  by (metis u64_from_be_be)

lemma usize_try_from_Some [simp]: "usize_try_from v = Some (unat v)"
  using unsigned_less [of v, where 'a = nat] by (simp add: usize_try_from_def usize_limit_def)

lemma unat_len_u64: "n < usize_limit \<Longrightarrow> unat (word_of_nat n :: u64) = n"
  by (simp add: usize_limit_def unat_of_nat)

section \<open>Lemmas: slices and text\<close>

lemma checked_add_eq_Some [simp]:
  "checked_add a b = Some c \<longleftrightarrow> c = a + b \<and> a + b < usize_limit"
  by (auto simp: checked_add_def)

lemma slice_get_eq_Some:
  "slice_get bs a b = Some s \<longleftrightarrow>
     (\<exists>pre post. bs = pre @ s @ post \<and> length pre = a \<and> b = a + length s)"
proof
  assume "slice_get bs a b = Some s"
  then have "a \<le> b" "b \<le> length bs" and s: "s = take (b - a) (drop a bs)"
    by (simp_all add: slice_get_def split: if_splits)
  moreover from this have "bs = take a bs @ s @ drop b bs"
    using append_take_drop_id [of "b - a" "drop a bs"] append_take_drop_id [of a bs] by simp
  ultimately show "\<exists>pre post. bs = pre @ s @ post \<and> length pre = a \<and> b = a + length s"
    by (intro exI [of _ "take a bs"] exI [of _ "drop b bs"]) auto
qed (auto simp: slice_get_def)

lemma slice_get_prefix [simp]: "slice_get (pre @ s @ post) (length pre) (length pre + length s) = Some s"
  by (simp add: slice_get_def)

lemma split_on_not_Nil [simp]: "split_on d bs \<noteq> []"
  by (cases bs) (auto split: list.splits)

lemma split_on_no_delim: "p \<in> set (split_on d bs) \<Longrightarrow> d \<notin> set p"
  by (induction bs arbitrary: p) (auto split: if_splits list.splits)

lemma set_split_on: "p \<in> set (split_on d bs) \<Longrightarrow> set p \<subseteq> set bs"
proof (induction bs arbitrary: p)
  case (Cons b bs)
  show ?case
  proof (cases "split_on d bs")
    case (Cons q qs)
    then show ?thesis
      using Cons.prems Cons.IH [of q] Cons.IH [of p] by (auto split: if_splits)
  qed simp
qed simp

text \<open>Joining the pieces of a split with the delimiter gives the string back.\<close>

fun join_with :: "u8 \<Rightarrow> bytes list \<Rightarrow> bytes" where
  "join_with d [] = []"
| "join_with d [p] = p"
| "join_with d (p # q # ps) = p @ d # join_with d (q # ps)"

lemma join_with_Cons: "ps \<noteq> [] \<Longrightarrow> join_with d (p # ps) = p @ d # join_with d ps"
  by (cases ps) auto

lemma join_split: "join_with d (split_on d bs) = bs"
proof (induction bs)
  case (Cons b bs)
  show ?case
  proof (cases "split_on d bs")
    case (Cons p ps)
    then show ?thesis
      using Cons.IH by (cases ps) auto
  qed simp
qed simp

lemma utf8_valid_ascii: "is_ascii_bytes bs \<Longrightarrow> utf8_valid bs"
  by (induction bs) (auto simp: is_ascii_bytes_def)

end
