(* ===== verification/Prikk_Error.thy ===== *)
theory Prikk_Error
  imports Prelude
begin

text \<open>
  The error taxonomy of \<open>prikk-error\<close>: one constructor per variant of \<open>PrikkError\<close>, carrying the
  message text the source builds, the classification of decode failures and the rendering of an
  error. Text that comes from the standard library's own error values (the reason inside a
  UTF-8 or I/O error) is not reproduced.
\<close>

datatype prikk_error =
    CanonicalEncoding string
  | InvalidObjectId string
  | InvalidSignature string
  | InvalidName string
  | NonAsciiRepoPath bytes
  | ObjectTypeMismatch string string
  | UnsupportedFormatVersion u32
  | MalformedData string
  | Integrity string
  | LockConflict string
  | Precondition string
  | IncompletePublication string
  | AmbiguousGenerationLog string
  | UnsupportedObjectType string
  | ObjectOverBound u64 u64
  | CountOverBound string string u64 u64
  | BundleNonFastForward string string string
  | ForgedPublicationSignature string string
  | MaintainerKeyIdBound string bool string
  | Io "string option" string

type_synonym 'a res = "(prikk_error, 'a) result"

datatype decode_failure_kind = Corrupt | OutsideVersionRule

definition decode_failure_kind :: "prikk_error \<Rightarrow> decode_failure_kind" where
  "decode_failure_kind e =
     (case e of NonAsciiRepoPath _ \<Rightarrow> OutsideVersionRule | _ \<Rightarrow> Corrupt)"

definition display_error :: "prikk_error \<Rightarrow> string" where
  "display_error e = (case e of
     CanonicalEncoding msg \<Rightarrow> ''canonical encoding error: '' @ msg
   | InvalidObjectId msg \<Rightarrow> ''invalid object id: '' @ msg
   | InvalidSignature msg \<Rightarrow> ''invalid signature: '' @ msg
   | InvalidName msg \<Rightarrow> ''invalid name: '' @ msg
   | NonAsciiRepoPath path \<Rightarrow> ''invalid name: '' @ render path
       @ '' is outside what this version of prikk accepts, and a newer version of prikk may have written it''
   | ObjectTypeMismatch ex ac \<Rightarrow> ''object type mismatch: expected '' @ ex @ '', got '' @ ac
   | UnsupportedFormatVersion v \<Rightarrow> ''unsupported format version: '' @ dec (unat v)
   | MalformedData msg \<Rightarrow> ''malformed persisted data: '' @ msg
   | Integrity msg \<Rightarrow> ''integrity error: '' @ msg
   | LockConflict msg \<Rightarrow> ''lock conflict: '' @ msg
   | Precondition msg \<Rightarrow> ''precondition not met: '' @ msg
   | IncompletePublication msg \<Rightarrow> ''precondition not met: '' @ msg
   | BundleNonFastForward _ _ msg \<Rightarrow> ''precondition not met: '' @ msg
   | ForgedPublicationSignature _ msg \<Rightarrow> ''precondition not met: '' @ msg
   | MaintainerKeyIdBound _ _ msg \<Rightarrow> ''precondition not met: '' @ msg
   | AmbiguousGenerationLog msg \<Rightarrow> ''ambiguous generation log: '' @ msg
   | UnsupportedObjectType msg \<Rightarrow> ''unsupported object type: '' @ msg
   | ObjectOverBound d b \<Rightarrow> ''an object declares '' @ dec (unat d)
       @ '' bytes, over the per-object bound of '' @ dec (unat b) @ '' bytes''
   | CountOverBound what unit d b \<Rightarrow> what @ '' declares '' @ dec (unat d) @ '' '' @ unit
       @ '', over the bound of '' @ dec (unat b)
   | Io _ ctx \<Rightarrow> ''i/o error: '' @ ctx)"

end
