(* ===== verification/Canonical.thy ===== *)
theory Canonical
  imports Prikk_Error
begin

text \<open>
  The canonical TLV encoding: the writer of \<open>prikk-object/src/canonical.rs\<close> and the field cursor
  that reads it back. The cursor exists in the sources as textual copies
  (\<open>PatchPayloadFieldCursor\<close>, \<open>BlobCursor\<close>, \<open>BlockCanonicalCursor\<close>, \<open>TlvCursor\<close>) that differ
  only in the error variant they raise; here it is one definition with that variant as its first
  argument. The lemmas show that reading inverts writing in both directions.
\<close>

section \<open>Writer\<close>

datatype wire_type =
    WBool | WU16 | WU32 | WU64 | WEnumU16 | WString | WBytes | WObjectId | WRepoPath | WRecord
  | WRecordListItem

fun wire_code :: "wire_type \<Rightarrow> u8" where
  "wire_code WBool = 0x01"
| "wire_code WU16 = 0x02"
| "wire_code WU32 = 0x03"
| "wire_code WU64 = 0x04"
| "wire_code WEnumU16 = 0x05"
| "wire_code WString = 0x10"
| "wire_code WBytes = 0x11"
| "wire_code WObjectId = 0x12"
| "wire_code WRepoPath = 0x13"
| "wire_code WRecord = 0x20"
| "wire_code WRecordListItem = 0x21"

declare wire_code.simps [simp del]

record canonical_writer =
  w_bytes :: bytes
  w_last_tag :: "u16 option"

definition new_writer :: canonical_writer where
  "new_writer = \<lparr>w_bytes = [], w_last_tag = None\<rparr>"

type_synonym 'a encoder = "'a \<Rightarrow> canonical_writer \<Rightarrow> canonical_writer res"

definition tag_order_msg :: "u16 \<Rightarrow> u16 \<Rightarrow> string" where
  "tag_order_msg tag prev =
     ''field tag order violation: '' @ dec (unat tag) @ '' after '' @ dec (unat prev)"

definition field_raw :: "u16 \<Rightarrow> wire_type \<Rightarrow> bytes \<Rightarrow> canonical_writer \<Rightarrow> canonical_writer res" where
  "field_raw tag wire value w =
     (if tag = 0 then Err (CanonicalEncoding ''field tag 0 is reserved'')
      else
        rbind (case w_last_tag w of
                 Some prev \<Rightarrow> fail_if (tag < prev) (CanonicalEncoding (tag_order_msg tag prev))
               | None \<Rightarrow> Ok ())
          (\<lambda>_. Ok \<lparr>w_bytes = w_bytes w @ u16_be tag @ [wire_code wire]
                     @ u64_be (word_of_nat (length value)) @ value,
                  w_last_tag = Some tag\<rparr>))"

definition field_string :: "u16 \<Rightarrow> bytes encoder" where
  "field_string tag value = field_raw tag WString value"

definition field_string_opt :: "u16 \<Rightarrow> bytes option encoder" where
  "field_string_opt tag value w =
     (case value of Some v \<Rightarrow> field_string tag v w | None \<Rightarrow> Ok w)"

definition field_bytes :: "u16 \<Rightarrow> bytes encoder" where
  "field_bytes tag value = field_raw tag WBytes value"

definition field_u32 :: "u16 \<Rightarrow> u32 encoder" where
  "field_u32 tag value = field_raw tag WU32 (u32_be value)"

definition field_u64 :: "u16 \<Rightarrow> u64 encoder" where
  "field_u64 tag value = field_raw tag WU64 (u64_be value)"

definition field_bool :: "u16 \<Rightarrow> bool encoder" where
  "field_bool tag value = field_raw tag WBool (if value then [1] else [0])"

definition field_u16 :: "u16 \<Rightarrow> u16 encoder" where
  "field_u16 tag value = field_raw tag WU16 (u16_be value)"

definition field_enum_u16 :: "u16 \<Rightarrow> u16 encoder" where
  "field_enum_u16 tag value = field_raw tag WEnumU16 (u16_be value)"

text \<open>An object id is its 32 bytes here; the type itself is introduced with the identifiers.\<close>

definition field_object_id :: "u16 \<Rightarrow> bytes encoder" where
  "field_object_id tag value = field_raw tag WObjectId value"

definition field_repo_path :: "u16 \<Rightarrow> bytes encoder" where
  "field_repo_path tag value = field_raw tag WRepoPath value"

definition to_canonical_bytes :: "'a encoder \<Rightarrow> 'a \<Rightarrow> bytes res" where
  "to_canonical_bytes enc x = rbind (enc x new_writer) (\<lambda>w. Ok (w_bytes w))"

definition field_record :: "'a encoder \<Rightarrow> u16 \<Rightarrow> 'a encoder" where
  "field_record enc tag value w =
     rbind (to_canonical_bytes enc value) (\<lambda>nested. field_raw tag WRecord nested w)"

definition repeated_record :: "'a encoder \<Rightarrow> u16 \<Rightarrow> 'a list encoder" where
  "repeated_record enc tag values w = rfold (field_record enc tag) values w"

definition field_record_list_item :: "'a encoder \<Rightarrow> u16 \<Rightarrow> 'a encoder" where
  "field_record_list_item enc tag value w =
     rbind (to_canonical_bytes enc value) (\<lambda>nested. field_raw tag WRecordListItem nested w)"

definition repeated_record_list :: "'a encoder \<Rightarrow> u16 \<Rightarrow> 'a list encoder" where
  "repeated_record_list enc tag values w = rfold (field_record_list_item enc tag) values w"

definition repeated_string :: "u16 \<Rightarrow> bytes list encoder" where
  "repeated_string tag values w = rfold (field_string tag) values w"

definition repeated_object_id :: "u16 \<Rightarrow> bytes list encoder" where
  "repeated_object_id tag values w = rfold (field_object_id tag) values w"

text \<open>\<open>windows(2).all(left < right)\<close>.\<close>

fun is_strictly_sorted :: "'a::linorder list \<Rightarrow> bool" where
  "is_strictly_sorted (x # y # zs) \<longleftrightarrow> x < y \<and> is_strictly_sorted (y # zs)"
| "is_strictly_sorted _ \<longleftrightarrow> True"

definition is_contiguous_op_seq :: "u32 list \<Rightarrow> bool" where
  "is_contiguous_op_seq values \<longleftrightarrow> (\<forall>(idx, value) \<in> set (enumerate 0 values). unat value = idx + 1)"

section \<open>Field cursor\<close>

record tlv_cursor =
  cur_bytes :: bytes
  cur_pos :: nat
  cur_last_tag :: "u16 option"

record tlv_field =
  fld_tag :: u16
  fld_wire :: u8
  fld_value :: bytes

type_synonym mk_error = "string \<Rightarrow> prikk_error"

definition new_cursor :: "bytes \<Rightarrow> tlv_cursor" where
  "new_cursor bs = \<lparr>cur_bytes = bs, cur_pos = 0, cur_last_tag = None\<rparr>"

definition cur_read_exact :: "mk_error \<Rightarrow> nat \<Rightarrow> tlv_cursor \<Rightarrow> (bytes \<times> tlv_cursor) res" where
  "cur_read_exact mk len c =
     rbind (ok_or (mk ''canonical range overflow'') (checked_add (cur_pos c) len))
       (\<lambda>end'. rbind (ok_or (mk ''unexpected end of canonical payload'')
                         (slice_get (cur_bytes c) (cur_pos c) end'))
          (\<lambda>slice. Ok (slice, c\<lparr>cur_pos := end'\<rparr>)))"

definition cur_read_u8 :: "mk_error \<Rightarrow> tlv_cursor \<Rightarrow> (u8 \<times> tlv_cursor) res" where
  "cur_read_u8 mk c =
     rbind (cur_read_exact mk 1 c)
       (\<lambda>(bs, c'). case bs of b # _ \<Rightarrow> Ok (b, c') | [] \<Rightarrow> Err (mk ''unexpected empty byte''))"

definition next_field :: "mk_error \<Rightarrow> tlv_cursor \<Rightarrow> (tlv_field option \<times> tlv_cursor) res" where
  "next_field mk c =
     (if cur_pos c = length (cur_bytes c) then Ok (None, c)
      else
        rbind (cur_read_exact mk 2 c) (\<lambda>(tag_bytes, c1).
        let tag = u16_from_be tag_bytes in
        rbind (fail_if (tag = 0) (mk ''field tag 0 is reserved'')) (\<lambda>_.
        rbind (case cur_last_tag c of
                 Some prev \<Rightarrow> fail_if (tag < prev) (mk (tag_order_msg tag prev))
               | None \<Rightarrow> Ok ()) (\<lambda>_.
        rbind (cur_read_u8 mk (c1\<lparr>cur_last_tag := Some tag\<rparr>)) (\<lambda>(wire, c2).
        rbind (cur_read_exact mk 8 c2) (\<lambda>(len_bytes, c3).
        rbind (ok_or (mk ''canonical field length does not fit usize'')
                 (usize_try_from (u64_from_be len_bytes))) (\<lambda>len.
        rbind (cur_read_exact mk len c3) (\<lambda>(value, c4).
        Ok (Some \<lparr>fld_tag = tag, fld_wire = wire, fld_value = value\<rparr>, c4)))))))))"

definition require_wire :: "mk_error \<Rightarrow> tlv_field \<Rightarrow> wire_type \<Rightarrow> unit res" where
  "require_wire mk f expected =
     (if fld_wire f = wire_code expected then Ok ()
      else Err (mk (''field '' @ dec (unat (fld_tag f)) @ '' has wrong wire type: expected ''
                     @ dec (unat (wire_code expected)) @ '', got '' @ dec (unat (fld_wire f)))))"

definition field_read_array :: "mk_error \<Rightarrow> nat \<Rightarrow> tlv_field \<Rightarrow> bytes res" where
  "field_read_array mk n f =
     (if length (fld_value f) \<noteq> n
      then Err (mk (''field '' @ dec (unat (fld_tag f)) @ '' expected '' @ dec n @ '' bytes, got ''
                     @ dec (length (fld_value f))))
      else Ok (fld_value f))"

section \<open>Layout of a record\<close>

text \<open>
  The bytes of one field and of a sequence of fields, and the sequences a writer can produce:
  tags positive and not decreasing, lengths within \<open>u64\<close>.
\<close>

definition fbytes :: "tlv_field \<Rightarrow> bytes" where
  "fbytes f = u16_be (fld_tag f) @ fld_wire f # u64_be (word_of_nat (length (fld_value f))) @ fld_value f"

definition fields_bytes :: "tlv_field list \<Rightarrow> bytes" where
  "fields_bytes fs = concat (map fbytes fs)"

fun tags_from :: "u16 option \<Rightarrow> tlv_field list \<Rightarrow> bool" where
  "tags_from l [] = True"
| "tags_from l (f # fs) \<longleftrightarrow>
     fld_tag f \<noteq> 0 \<and> (case l of None \<Rightarrow> True | Some t \<Rightarrow> t \<le> fld_tag f) \<and> tags_from (Some (fld_tag f)) fs"

definition wf_fields :: "tlv_field list \<Rightarrow> bool" where
  "wf_fields fs \<longleftrightarrow> tags_from None fs \<and> (\<forall>f \<in> set fs. length (fld_value f) < usize_limit)"

abbreviation tf :: "u16 \<Rightarrow> wire_type \<Rightarrow> bytes \<Rightarrow> tlv_field" where
  "tf tag wire value \<equiv> \<lparr>fld_tag = tag, fld_wire = wire_code wire, fld_value = value\<rparr>"

section \<open>Lemmas: one step of the cursor\<close>

lemma cur_read_exact_eq_Ok:
  "cur_read_exact mk len c = Ok (s, c') \<longleftrightarrow>
     (\<exists>pre post. cur_bytes c = pre @ s @ post \<and> length pre = cur_pos c \<and> length s = len)
     \<and> cur_pos c + len < usize_limit \<and> c' = c\<lparr>cur_pos := cur_pos c + len\<rparr>"
  by (auto simp: cur_read_exact_def slice_get_eq_Some)

lemma cur_read_exact_at:
  assumes "cur_bytes c = pre @ s @ post" "length pre = cur_pos c"
    and "length (cur_bytes c) < usize_limit" "n = length s"
  shows "cur_read_exact mk n c = Ok (s, c\<lparr>cur_pos := cur_pos c + n\<rparr>)"
  using assms by (auto simp: cur_read_exact_eq_Ok)

lemma cur_read_u8_at:
  assumes "cur_bytes c = pre @ b # post" "length pre = cur_pos c"
    and "length (cur_bytes c) < usize_limit"
  shows "cur_read_u8 mk c = Ok (b, c\<lparr>cur_pos := cur_pos c + 1\<rparr>)"
  using cur_read_exact_at [of c pre "[b]" post 1 mk] assms by (simp add: cur_read_u8_def)

lemma cur_read_u8_OkD:
  assumes "cur_read_u8 mk c = Ok (b, c')"
  shows "(\<exists>pre post. cur_bytes c = pre @ b # post \<and> length pre = cur_pos c)
     \<and> c' = c\<lparr>cur_pos := cur_pos c + 1\<rparr>"
proof -
  obtain bs c1 where r: "cur_read_exact mk 1 c = Ok (bs, c1)"
    and "(case bs of b # _ \<Rightarrow> Ok (b, c1) | [] \<Rightarrow> Err (mk ''unexpected empty byte'')) = Ok (b, c')"
    using assms by (auto simp: cur_read_u8_def)
  then obtain r where "bs = b # r" "c1 = c'"
    by (cases bs) auto
  then show ?thesis
    using r by (auto simp: cur_read_exact_eq_Ok)
qed

lemma length_fbytes: "length (fbytes f) = 11 + length (fld_value f)"
  by (simp add: fbytes_def)

lemma fields_bytes_simps [simp]:
  "fields_bytes [] = []"
  "fields_bytes (f # fs) = fbytes f @ fields_bytes fs"
  "fields_bytes (fs @ gs) = fields_bytes fs @ fields_bytes gs"
  by (simp_all add: fields_bytes_def)

text \<open>The cursor in front of an encoded field reads exactly that field.\<close>

lemma next_field_at:
  assumes bs: "cur_bytes c = pre @ fbytes f @ rest" and pos: "cur_pos c = length pre"
    and lim: "length (cur_bytes c) < usize_limit" and tags: "tags_from (cur_last_tag c) [f]"
  shows "next_field mk c =
    Ok (Some f, c\<lparr>cur_pos := cur_pos c + length (fbytes f), cur_last_tag := Some (fld_tag f)\<rparr>)"
proof -
  let ?len = "u64_be (word_of_nat (length (fld_value f)))"
  let ?c1 = "c\<lparr>cur_pos := cur_pos c + 2\<rparr>"
  let ?c1' = "?c1\<lparr>cur_last_tag := Some (fld_tag f)\<rparr>"
  let ?c2 = "?c1'\<lparr>cur_pos := cur_pos ?c1' + 1\<rparr>"
  let ?c3 = "?c2\<lparr>cur_pos := cur_pos ?c2 + 8\<rparr>"
  have r1: "cur_read_exact mk 2 c = Ok (u16_be (fld_tag f), ?c1)"
    using assms by (intro cur_read_exact_at [where pre = pre]) (auto simp: fbytes_def)
  have r2: "cur_read_u8 mk ?c1' = Ok (fld_wire f, ?c2)"
    using assms by (intro cur_read_u8_at [where pre = "pre @ u16_be (fld_tag f)"]) (auto simp: fbytes_def)
  have r3: "cur_read_exact mk 8 ?c2 = Ok (?len, ?c3)"
    using assms
    by (intro cur_read_exact_at [where pre = "pre @ u16_be (fld_tag f) @ [fld_wire f]"])
      (auto simp: fbytes_def)
  have r4: "cur_read_exact mk (length (fld_value f)) ?c3 =
      Ok (fld_value f, ?c3\<lparr>cur_pos := cur_pos ?c3 + length (fld_value f)\<rparr>)"
    using assms
    by (intro cur_read_exact_at [where pre = "pre @ u16_be (fld_tag f) @ [fld_wire f] @ ?len"])
      (auto simp: fbytes_def)
  have len: "unat (word_of_nat (length (fld_value f)) :: u64) = length (fld_value f)"
    using lim by (intro unat_len_u64) (simp add: bs length_fbytes)
  have "cur_pos c \<noteq> length (cur_bytes c)"
    by (simp add: bs pos length_fbytes)
  then show ?thesis
    using tags r1 r2 r3 r4 len
    by (cases c; cases f; cases "cur_last_tag c")
      (simp_all add: next_field_def Let_def length_fbytes not_less ac_simps del: add_2_eq_Suc add_2_eq_Suc')
qed

text \<open>Whatever the cursor reads is an encoded field at its position.\<close>

lemma next_field_SomeD:
  assumes "next_field mk c = Ok (Some f, c')"
  shows "\<exists>pre rest. cur_bytes c = pre @ fbytes f @ rest \<and> length pre = cur_pos c
      \<and> length (fld_value f) < usize_limit \<and> tags_from (cur_last_tag c) [f]
      \<and> c' = c\<lparr>cur_pos := cur_pos c + length (fbytes f), cur_last_tag := Some (fld_tag f)\<rparr>"
proof -
  let ?ord = "\<lambda>tag. case cur_last_tag c of
      Some prev \<Rightarrow> fail_if (tag < prev) (mk (tag_order_msg tag prev)) | None \<Rightarrow> Ok ()"
  from assms obtain tb c1 where r1: "cur_read_exact mk 2 c = Ok (tb, c1)"
    by (cases "cur_read_exact mk 2 c") (auto simp: next_field_def Let_def split: if_splits)
  with assms have t0: "u16_from_be tb \<noteq> 0" and ord: "?ord (u16_from_be tb) = Ok ()"
    by (auto simp: next_field_def Let_def split: if_splits)
  with assms r1 obtain wire c2
    where r2: "cur_read_u8 mk (c1\<lparr>cur_last_tag := Some (u16_from_be tb)\<rparr>) = Ok (wire, c2)"
    by (cases "cur_read_u8 mk (c1\<lparr>cur_last_tag := Some (u16_from_be tb)\<rparr>)")
      (auto simp: next_field_def Let_def split: if_splits)
  with assms r1 t0 ord obtain lb c3 where r3: "cur_read_exact mk 8 c2 = Ok (lb, c3)"
    by (cases "cur_read_exact mk 8 c2") (auto simp: next_field_def Let_def split: if_splits)
  with assms r1 r2 t0 ord obtain vl
    where r4: "cur_read_exact mk (unat (u64_from_be lb)) c3 = Ok (vl, c')"
      and f: "f = \<lparr>fld_tag = u16_from_be tb, fld_wire = wire, fld_value = vl\<rparr>"
    by (cases "cur_read_exact mk (unat (u64_from_be lb)) c3")
      (auto simp: next_field_def Let_def split: if_splits)
  obtain p1 q1 where b1: "cur_bytes c = p1 @ tb @ q1" "length p1 = cur_pos c" "length tb = 2"
      and c1: "c1 = c\<lparr>cur_pos := cur_pos c + 2\<rparr>"
    using r1 by (auto simp: cur_read_exact_eq_Ok)
  obtain p2 q2 where b2: "cur_bytes c = p2 @ wire # q2" "length p2 = cur_pos c + 2"
      and c2: "c2 = c\<lparr>cur_pos := cur_pos c + 3, cur_last_tag := Some (u16_from_be tb)\<rparr>"
    using cur_read_u8_OkD [OF r2] by (auto simp: c1)
  obtain p3 q3 where b3: "cur_bytes c = p3 @ lb @ q3" "length p3 = cur_pos c + 3" "length lb = 8"
      and c3: "c3 = c\<lparr>cur_pos := cur_pos c + 11, cur_last_tag := Some (u16_from_be tb)\<rparr>"
    using r3 by (auto simp: cur_read_exact_eq_Ok c2)
  obtain p4 q4 where b4: "cur_bytes c = p4 @ vl @ q4" "length p4 = cur_pos c + 11"
      "length vl = unat (u64_from_be lb)"
      and c4: "c' = c\<lparr>cur_pos := cur_pos c + 11 + length vl, cur_last_tag := Some (u16_from_be tb)\<rparr>"
    using r4 by (auto simp: cur_read_exact_eq_Ok c3)
  have "p2 = p1 @ tb \<and> wire # q2 = q1"
    using b1 b2 append_eq_append_conv [of p2 "p1 @ tb" "wire # q2" q1] by auto
  moreover have "p3 = p2 @ [wire] \<and> lb @ q3 = q2"
    using b2 b3 append_eq_append_conv [of p3 "p2 @ [wire]" "lb @ q3" q2] by auto
  moreover have "p4 = p3 @ lb \<and> vl @ q4 = q3"
    using b3 b4 append_eq_append_conv [of p4 "p3 @ lb" "vl @ q4" q3] by auto
  moreover have "u64_be (word_of_nat (length vl)) = lb"
    using b3 b4 by (simp add: u64_be_from_be)
  ultimately have "cur_bytes c = p1 @ fbytes f @ q4"
    using b1 b4 by (simp add: f fbytes_def u16_be_from_be)
  moreover have "length vl < usize_limit"
    using b4 unsigned_less [of "u64_from_be lb", where 'a = nat] by (simp add: usize_limit_def)
  moreover have "tags_from (cur_last_tag c) [f]"
    using t0 ord by (auto simp: f not_less split: option.splits)
  ultimately show ?thesis
    using b1 c4 by (intro exI [of _ p1] exI [of _ q4]) (simp add: f length_fbytes)
qed

lemma next_field_None_iff: "next_field mk c = Ok (None, c') \<longleftrightarrow> cur_pos c = length (cur_bytes c) \<and> c' = c"
proof
  assume none: "next_field mk c = Ok (None, c')"
  have "cur_pos c = length (cur_bytes c)"
  proof (rule ccontr)
    assume "cur_pos c \<noteq> length (cur_bytes c)"
    with none show False
      by (auto simp: next_field_def Let_def)
  qed
  with none show "cur_pos c = length (cur_bytes c) \<and> c' = c"
    by (simp add: next_field_def)
qed (simp add: next_field_def)

lemma next_field_progress:
  assumes "next_field mk c = Ok (Some f, c')"
  shows "length (cur_bytes c') - cur_pos c' < length (cur_bytes c) - cur_pos c"
  using next_field_SomeD [OF assms] by (auto simp: length_fbytes)

section \<open>The field loop\<close>

text \<open>
  \<open>while let Some(field) = cursor.next_field()? { ... }\<close>: the loop every decoder runs, with the
  body as a step on the decoder's local variables.
\<close>

function scan_fields ::
  "mk_error \<Rightarrow> (tlv_field \<Rightarrow> 's \<Rightarrow> 's res) \<Rightarrow> tlv_cursor \<Rightarrow> 's \<Rightarrow> 's res" where
  "scan_fields mk step c s =
     (case next_field mk c of
        Err e \<Rightarrow> Err e
      | Ok (None, c') \<Rightarrow> Ok s
      | Ok (Some f, c') \<Rightarrow> (case step f s of Err e \<Rightarrow> Err e | Ok s' \<Rightarrow> scan_fields mk step c' s'))"
  by pat_completeness auto
termination
  by (relation "measure (\<lambda>(mk, step, c, s). length (cur_bytes c) - cur_pos c)")
    (auto dest: next_field_progress)

declare scan_fields.simps [simp del]

definition decode_fields :: "mk_error \<Rightarrow> (tlv_field \<Rightarrow> 's \<Rightarrow> 's res) \<Rightarrow> 's \<Rightarrow> bytes \<Rightarrow> 's res" where
  "decode_fields mk step s bs = scan_fields mk step (new_cursor bs) s"

text \<open>The whole field sequence of a buffer.\<close>

definition parse_fields :: "mk_error \<Rightarrow> bytes \<Rightarrow> tlv_field list res" where
  "parse_fields mk = decode_fields mk (\<lambda>f fs. Ok (fs @ [f])) []"

lemma scan_fields_at:
  assumes "cur_bytes c = pre @ fields_bytes fs" "cur_pos c = length pre"
    and "length (cur_bytes c) < usize_limit" "tags_from (cur_last_tag c) fs"
  shows "scan_fields mk step c s = rfold step fs s"
  using assms
proof (induction fs arbitrary: pre c s)
  case Nil
  then show ?case
    by (simp add: scan_fields.simps next_field_None_iff [THEN iffD2])
next
  case (Cons f fs)
  let ?c' = "c\<lparr>cur_pos := cur_pos c + length (fbytes f), cur_last_tag := Some (fld_tag f)\<rparr>"
  have "next_field mk c = Ok (Some f, ?c')"
    using Cons.prems by (intro next_field_at [where pre = pre and rest = "fields_bytes fs"]) auto
  moreover have "scan_fields mk step ?c' s' = rfold step fs s'" for s'
    using Cons.prems by (intro Cons.IH [where pre = "pre @ fbytes f"]) auto
  ultimately show ?case
    by (simp add: scan_fields.simps [of mk step c] split: result.splits)
qed

lemma scan_fields_OkD:
  assumes "scan_fields mk step c s = Ok s'" "cur_pos c \<le> length (cur_bytes c)"
  shows "\<exists>pre fs. cur_bytes c = pre @ fields_bytes fs \<and> length pre = cur_pos c
    \<and> tags_from (cur_last_tag c) fs \<and> (\<forall>f \<in> set fs. length (fld_value f) < usize_limit)
    \<and> rfold step fs s = Ok s'"
  using assms
proof (induction mk step c s rule: scan_fields.induct)
  case (1 mk step c s)
  show ?case
  proof (cases "next_field mk c")
    case (Ok r)
    show ?thesis
    proof (cases "fst r")
      case None
      then have "next_field mk c = Ok (None, snd r)"
        using Ok by (cases r) simp
      moreover from this have "s' = s"
        using 1(2) by (simp add: scan_fields.simps)
      ultimately show ?thesis
        by (intro exI [of _ "cur_bytes c"] exI [of _ "[]"]) (simp add: next_field_None_iff)
    next
      case (Some f)
      then have nf: "next_field mk c = Ok (Some f, snd r)"
        using Ok by (cases r) simp
      obtain s1 where s1: "step f s = Ok s1" and rec: "scan_fields mk step (snd r) s1 = Ok s'"
        using 1(2) nf by (auto simp: scan_fields.simps [of mk step c] split: result.splits)
      obtain pre rest where b: "cur_bytes c = pre @ fbytes f @ rest" "length pre = cur_pos c"
          and l: "length (fld_value f) < usize_limit" and t: "tags_from (cur_last_tag c) [f]"
          and c': "snd r = c\<lparr>cur_pos := cur_pos c + length (fbytes f), cur_last_tag := Some (fld_tag f)\<rparr>"
        using next_field_SomeD [OF nf] by blast
      have "cur_pos (snd r) \<le> length (cur_bytes (snd r))"
        using b by (simp add: c')
      from "1.IH" [OF nf refl refl s1 rec this]
      obtain pre' fs where "cur_bytes (snd r) = pre' @ fields_bytes fs" "length pre' = cur_pos (snd r)"
          "tags_from (cur_last_tag (snd r)) fs" "\<forall>f \<in> set fs. length (fld_value f) < usize_limit"
          "rfold step fs s1 = Ok s'"
        by blast
      moreover from this b have "pre' = pre @ fbytes f \<and> fields_bytes fs = rest"
        using append_eq_append_conv [of pre' "pre @ fbytes f" "fields_bytes fs" rest] by (simp add: c')
      ultimately show ?thesis
        using b l t s1 by (intro exI [of _ pre] exI [of _ "f # fs"]) (auto simp: c')
    qed
  qed (use 1(2) in \<open>simp add: scan_fields.simps\<close>)
qed

lemma wf_fields_le_bytes:
  "length (fields_bytes fs) < usize_limit \<Longrightarrow> f \<in> set fs \<Longrightarrow> length (fld_value f) < usize_limit"
  by (induction fs) (auto simp: length_fbytes)

lemma wf_fieldsI:
  "tags_from None fs \<Longrightarrow> length (fields_bytes fs) < usize_limit \<Longrightarrow> wf_fields fs"
  by (simp add: wf_fields_def wf_fields_le_bytes)

text \<open>On the bytes of a field sequence the loop is the fold of its body over that sequence.\<close>

lemma decode_fields_bytes:
  assumes "tags_from None fs" "length (fields_bytes fs) < usize_limit"
  shows "decode_fields mk step s (fields_bytes fs) = rfold step fs s"
  unfolding decode_fields_def
  by (rule scan_fields_at [where pre = "[]"]) (use assms in \<open>simp_all add: new_cursor_def\<close>)

lemma decode_fields_OkD:
  assumes "decode_fields mk step s bs = Ok s'"
  obtains fs where "bs = fields_bytes fs" "wf_fields fs" "rfold step fs s = Ok s'"
  using scan_fields_OkD [OF assms [unfolded decode_fields_def]]
  by (auto simp: new_cursor_def wf_fields_def)

lemma rfold_snoc_all: "rfold (\<lambda>f fs. Ok (fs @ [f])) xs acc = Ok (acc @ xs)"
  by (induction xs arbitrary: acc) auto

lemma parse_fields_iff:
  assumes "length bs < usize_limit"
  shows "parse_fields mk bs = Ok fs \<longleftrightarrow> bs = fields_bytes fs \<and> wf_fields fs"
proof
  assume "parse_fields mk bs = Ok fs"
  then show "bs = fields_bytes fs \<and> wf_fields fs"
    unfolding parse_fields_def by (auto elim!: decode_fields_OkD simp: rfold_snoc_all)
next
  assume "bs = fields_bytes fs \<and> wf_fields fs"
  then show "parse_fields mk bs = Ok fs"
    using assms by (simp add: parse_fields_def decode_fields_bytes wf_fields_def rfold_snoc_all)
qed

section \<open>Lemmas: the writer\<close>

text \<open>The state of a writer that has emitted a field sequence.\<close>

definition writer_of :: "tlv_field list \<Rightarrow> canonical_writer" where
  "writer_of fs = \<lparr>w_bytes = fields_bytes fs,
     w_last_tag = (if fs = [] then None else Some (fld_tag (last fs)))\<rparr>"

definition can_emit :: "tlv_field list \<Rightarrow> u16 \<Rightarrow> bool" where
  "can_emit fs t \<longleftrightarrow> t \<noteq> 0 \<and> (fs = [] \<or> fld_tag (last fs) \<le> t)"

lemma new_writer_of: "new_writer = writer_of []"
  by (simp add: new_writer_def writer_of_def)

lemma w_bytes_writer_of [simp]: "w_bytes (writer_of fs) = fields_bytes fs"
  by (simp add: writer_of_def)

lemma can_emit_simps [simp]:
  "can_emit [] t \<longleftrightarrow> t \<noteq> 0"
  "can_emit (fs @ [f]) t \<longleftrightarrow> t \<noteq> 0 \<and> fld_tag f \<le> t"
  "can_emit [f] t \<longleftrightarrow> t \<noteq> 0 \<and> fld_tag f \<le> t"
  "can_emit (f # g # fs) t \<longleftrightarrow> can_emit (g # fs) t"
  by (auto simp: can_emit_def)

lemma can_emit_map [simp]:
  "can_emit (fs @ map g vs) t \<longleftrightarrow> (if vs = [] then can_emit fs t else t \<noteq> 0 \<and> fld_tag (g (last vs)) \<le> t)"
  "can_emit (map g vs) t \<longleftrightarrow> (if vs = [] then t \<noteq> 0 else t \<noteq> 0 \<and> fld_tag (g (last vs)) \<le> t)"
  by (auto simp: can_emit_def last_map)

lemma can_emit_append [simp]:
  "can_emit (fs @ f # gs) t \<longleftrightarrow> can_emit (f # gs) t"
  by (simp add: can_emit_def)

lemma can_emit_Cons_map [simp]:
  "can_emit (f # map g vs) t \<longleftrightarrow> (if vs = [] then t \<noteq> 0 \<and> fld_tag f \<le> t else t \<noteq> 0 \<and> fld_tag (g (last vs)) \<le> t)"
  "can_emit (f # map g vs @ h # hs) t \<longleftrightarrow> can_emit (h # hs) t"
  by (auto simp: can_emit_def last_map)

lemma field_raw_writer_of:
  "field_raw t wr v (writer_of fs) =
     (if can_emit fs t then Ok (writer_of (fs @ [tf t wr v]))
      else if t = 0 then Err (CanonicalEncoding ''field tag 0 is reserved'')
      else Err (CanonicalEncoding (tag_order_msg t (fld_tag (last fs)))))"
  by (auto simp: field_raw_def writer_of_def can_emit_def fbytes_def not_less fail_if_def)

lemma field_raw_Ok [simp]:
  "field_raw t wr v (writer_of fs) = Ok w \<longleftrightarrow> can_emit fs t \<and> w = writer_of (fs @ [tf t wr v])"
  by (auto simp: field_raw_writer_of)

lemma tags_from_append:
  "tags_from l (fs @ [f]) \<longleftrightarrow>
     tags_from l fs \<and> fld_tag f \<noteq> 0
     \<and> (if fs = [] then (case l of None \<Rightarrow> True | Some t \<Rightarrow> t \<le> fld_tag f) else fld_tag (last fs) \<le> fld_tag f)"
  by (induction fs arbitrary: l) auto

lemma tags_from_iff:
  "tags_from l fs \<longleftrightarrow> sorted (map fld_tag fs)
     \<and> (\<forall>f \<in> set fs. fld_tag f \<noteq> 0 \<and> (case l of None \<Rightarrow> True | Some t \<Rightarrow> t \<le> fld_tag f))"
  by (induction fs arbitrary: l) (auto split: option.splits)

lemma tags_from_emit: "can_emit fs (fld_tag f) \<Longrightarrow> tags_from None fs \<Longrightarrow> tags_from None (fs @ [f])"
  by (auto simp: tags_from_append can_emit_def)

lemma rfold_writer:
  assumes "\<And>x fs w. enc x (writer_of fs) = Ok w \<longleftrightarrow>
      (\<exists>v. val x = Ok v \<and> can_emit fs t \<and> w = writer_of (fs @ [tf t wr v]))"
  shows "rfold enc xs (writer_of fs) = Ok w \<longleftrightarrow>
      (\<exists>vs. rmap val xs = Ok vs \<and> (xs = [] \<or> can_emit fs t) \<and> w = writer_of (fs @ map (tf t wr) vs))"
proof (induction xs arbitrary: fs w)
  case (Cons x xs)
  have "can_emit (fs @ [tf t wr v]) t \<longleftrightarrow> t \<noteq> 0" for v
    by simp
  then show ?case
    by (auto simp: assms Cons.IH can_emit_def)
qed auto

lemma rmap_Ok_id [simp]: "rmap Ok xs = Ok xs"
  by (induction xs) auto

lemma repeated_object_id_Ok [simp]:
  "repeated_object_id t vs (writer_of fs) = Ok w \<longleftrightarrow>
     (vs = [] \<or> can_emit fs t) \<and> w = writer_of (fs @ map (tf t WObjectId) vs)"
  unfolding repeated_object_id_def
  by (subst rfold_writer [where val = Ok and wr = WObjectId and t = t]) (auto simp: field_object_id_def)

lemma repeated_string_Ok [simp]:
  "repeated_string t vs (writer_of fs) = Ok w \<longleftrightarrow>
     (vs = [] \<or> can_emit fs t) \<and> w = writer_of (fs @ map (tf t WString) vs)"
  unfolding repeated_string_def
  by (subst rfold_writer [where val = Ok and wr = WString and t = t]) (auto simp: field_string_def)

lemma field_record_Ok [simp]:
  "field_record enc t x (writer_of fs) = Ok w \<longleftrightarrow>
     (\<exists>v. to_canonical_bytes enc x = Ok v \<and> can_emit fs t \<and> w = writer_of (fs @ [tf t WRecord v]))"
  by (auto simp: field_record_def)

lemma repeated_record_Ok [simp]:
  "repeated_record enc t xs (writer_of fs) = Ok w \<longleftrightarrow>
     (\<exists>vs. rmap (to_canonical_bytes enc) xs = Ok vs \<and> (xs = [] \<or> can_emit fs t)
        \<and> w = writer_of (fs @ map (tf t WRecord) vs))"
  unfolding repeated_record_def by (rule rfold_writer) simp

lemma field_record_list_item_Ok [simp]:
  "field_record_list_item enc t x (writer_of fs) = Ok w \<longleftrightarrow>
     (\<exists>v. to_canonical_bytes enc x = Ok v \<and> can_emit fs t
        \<and> w = writer_of (fs @ [tf t WRecordListItem v]))"
  by (auto simp: field_record_list_item_def)

lemma repeated_record_list_Ok [simp]:
  "repeated_record_list enc t xs (writer_of fs) = Ok w \<longleftrightarrow>
     (\<exists>vs. rmap (to_canonical_bytes enc) xs = Ok vs \<and> (xs = [] \<or> can_emit fs t)
        \<and> w = writer_of (fs @ map (tf t WRecordListItem) vs))"
  unfolding repeated_record_list_def by (rule rfold_writer) simp

lemma field_string_opt_Ok [simp]:
  "field_string_opt t v (writer_of fs) = Ok w \<longleftrightarrow>
     (case v of None \<Rightarrow> w = writer_of fs
      | Some x \<Rightarrow> can_emit fs t \<and> w = writer_of (fs @ [tf t WString x]))"
  by (auto simp: field_string_opt_def field_string_def split: option.splits)

lemmas field_defs = field_string_def field_bytes_def field_u32_def field_u64_def field_bool_def
  field_u16_def field_enum_u16_def field_object_id_def field_repo_path_def

lemma wire_code_inject [simp]: "wire_code a = wire_code b \<longleftrightarrow> a = b"
  by (cases a; cases b) (simp_all add: wire_code.simps)

lemma require_wire_tf [simp]: "require_wire mk (tf t a v) b = Ok () \<longleftrightarrow> a = b"
  by (simp add: require_wire_def)

lemma require_wire_same [simp]: "require_wire mk (tf t a v) a = Ok ()"
  by simp

lemma field_read_array_Ok [simp]: "field_read_array mk n f = Ok v \<longleftrightarrow> v = fld_value f \<and> length v = n"
  by (auto simp: field_read_array_def)

section \<open>Ordering checks\<close>

lemma is_strictly_sorted_iff: "is_strictly_sorted xs \<longleftrightarrow> sorted_wrt (<) xs"
proof (induction xs rule: is_strictly_sorted.induct)
  case (1 x y zs)
  then show ?case
    by (auto intro: less_trans)
qed auto

lemma is_contiguous_op_seq_nth:
  "is_contiguous_op_seq vs \<longleftrightarrow> (\<forall>i < length vs. unat (vs ! i) = Suc i)"
proof -
  have "(\<forall>p \<in> set (enumerate 0 vs). P (fst p) (snd p)) \<longleftrightarrow> (\<forall>i < length vs. P i (vs ! i))" for P
    by (metis add.right_neutral diff_zero fst_conv in_set_enumerate_eq le0 snd_conv)
  then show ?thesis
    by (simp add: is_contiguous_op_seq_def split_beta)
qed

lemma is_contiguous_op_seq_iff:
  "is_contiguous_op_seq vs \<longleftrightarrow> map unat vs = [1..<Suc (length vs)]"
  unfolding is_contiguous_op_seq_nth list_eq_iff_nth_eq length_map length_upt
  by (auto simp del: upt_Suc)

section \<open>Properties\<close>

text \<open>A sequence of writes on a fresh writer.\<close>

definition emit_all :: "(u16 \<times> wire_type \<times> bytes) list \<Rightarrow> canonical_writer res" where
  "emit_all fs = rfold (\<lambda>(t, wr, v). field_raw t wr v) fs new_writer"

lemma emit_all_from:
  "rfold (\<lambda>(t, wr, v). field_raw t wr v) fs (writer_of gs) = Ok w \<Longrightarrow> tags_from None gs \<Longrightarrow>
     w = writer_of (gs @ map (\<lambda>(t, wr, v). tf t wr v) fs)
     \<and> tags_from None (gs @ map (\<lambda>(t, wr, v). tf t wr v) fs)"
proof (induction fs arbitrary: gs)
  case (Cons f fs)
  obtain t wr v where f: "f = (t, wr, v)"
    by (cases f)
  have emit: "can_emit gs t" and
      rec: "rfold (\<lambda>(t, wr, v). field_raw t wr v) fs (writer_of (gs @ [tf t wr v])) = Ok w"
    using Cons.prems(1) by (auto simp: f)
  have "tags_from None (gs @ [tf t wr v])"
    using emit Cons.prems(2) by (intro tags_from_emit) simp_all
  from Cons.IH [OF rec this] show ?case
    by (simp add: f)
qed auto

text \<open>Whatever fields a caller manages to write with \<open>CanonicalWriter\<close>, a field cursor
  run over the finished buffer yields exactly those fields, in that order, and then stops.\<close>

theorem canonical_round_trip:
  assumes "emit_all fs = Ok w" and "length (w_bytes w) < usize_limit"
  shows "parse_fields mk (w_bytes w) = Ok (map (\<lambda>(t, wr, v). tf t wr v) fs)"
proof -
  have "w = writer_of (map (\<lambda>(t, wr, v). tf t wr v) fs)"
      and "tags_from None (map (\<lambda>(t, wr, v). tf t wr v) fs)"
    using emit_all_from [of fs "[]" w] assms(1) by (simp_all add: emit_all_def new_writer_of)
  with assms(2) show ?thesis
    by (simp add: parse_fields_iff wf_fieldsI)
qed

theorem canonical_round_trip_witness:
  "parse_fields MalformedData (w_bytes (writer_of [tf 1 WU16 [0, 7], tf 2 WString [104, 105]]))
     = Ok [tf 1 WU16 [0, 7], tf 2 WString [104, 105]]"
  using canonical_round_trip
    [of "[(1, WU16, [0, 7]), (2, WString, [104, 105])]"
        "writer_of [tf 1 WU16 [0, 7], tf 2 WString [104, 105]]" MalformedData]
  by (simp add: emit_all_def new_writer_of length_fbytes usize_limit_def)

text \<open>C18 (equivalence): a buffer is accepted by the cursor as a field sequence exactly when it is the
  concatenation of the encodings of those fields, with positive tags that never decrease. The encoding
  of a field sequence is therefore unique, and no byte string has two readings.\<close>

theorem canonical_parse_exact:
  assumes "length bs < usize_limit"
  shows "parse_fields mk bs = Ok fs \<longleftrightarrow> bs = fields_bytes fs \<and> wf_fields fs"
  using assms by (rule parse_fields_iff)

theorem canonical_parse_exact_witness:
  "parse_fields MalformedData [0, 3, 1, 0, 0, 0, 0, 0, 0, 0, 1, 9] = Ok [tf 3 WBool [9]]"
  using canonical_parse_exact [of "[0, 3, 1, 0, 0, 0, 0, 0, 0, 0, 1, 9]" MalformedData "[tf 3 WBool [9]]"]
  by (simp add: usize_limit_def wf_fields_def fbytes_def wire_code.simps codec_simps)

text \<open>The writer refuses tag 0 and every tag below the last one written, and accepts
  every other field; a refused field reports which rule it broke.\<close>

theorem field_raw_outcome:
  "field_raw t wr v (writer_of fs) =
     (if t = 0 then Err (CanonicalEncoding ''field tag 0 is reserved'')
      else if fs \<noteq> [] \<and> t < fld_tag (last fs)
        then Err (CanonicalEncoding (tag_order_msg t (fld_tag (last fs))))
      else Ok (writer_of (fs @ [tf t wr v])))"
  by (auto simp: field_raw_writer_of can_emit_def)

end
