(* ===== verification/Object_Id.thy ===== *)
theory Object_Id
  imports Prikk_Error
begin

text \<open>
  Object type codes, object identifiers and their lowercase-hex form
  (\<open>prikk-object/src/id.rs\<close>, the hex helpers of \<open>prikk-hash\<close>), and node identities and kinds
  (\<open>payload/node.rs\<close>, \<open>payload/blob.rs\<close>). SHA-256 comes from a third-party crate: it is the
  argument \<open>sha256\<close> of the definitions that hash.
\<close>

section \<open>Object types\<close>

datatype object_type =
    Patch | Block | RefState | RefUpdate | Tag | Attestation | Blob | BlockSummaryCache
  | RecoveryNote | RecognitionClaim

fun object_type_code :: "object_type \<Rightarrow> u16" where
  "object_type_code Patch = 0x01"
| "object_type_code Block = 0x02"
| "object_type_code RefState = 0x03"
| "object_type_code RefUpdate = 0x04"
| "object_type_code Tag = 0x05"
| "object_type_code Attestation = 0x06"
| "object_type_code Blob = 0x07"
| "object_type_code BlockSummaryCache = 0x08"
| "object_type_code RecoveryNote = 0x09"
| "object_type_code RecognitionClaim = 0x0B"

definition ALL_OBJECT_TYPES :: "object_type list" where
  "ALL_OBJECT_TYPES =
     [Patch, Block, RefState, RefUpdate, Tag, Attestation, Blob, BlockSummaryCache, RecoveryNote,
      RecognitionClaim]"

definition RETIRED_CODES :: "(u16 \<times> string) list" where
  "RETIRED_CODES = [(0x0A, ''project-genesis'')]"

definition object_type_from_code :: "u16 \<Rightarrow> object_type res" where
  "object_type_from_code code =
     (case List.find (\<lambda>(retired, _). retired = code) RETIRED_CODES of
        Some (_, name) \<Rightarrow> Err (MalformedData (''object type code '' @ dec (unat code)
            @ '' is retired (formerly '' @ name @ '') and must never be reused''))
      | None \<Rightarrow>
          (case List.find (\<lambda>t. object_type_code t = code) ALL_OBJECT_TYPES of
             Some t \<Rightarrow> Ok t
           | None \<Rightarrow> Err (MalformedData (''unknown object type code: '' @ dec (unat code)))))"

fun object_type_name :: "object_type \<Rightarrow> string" where
  "object_type_name Patch = ''patch''"
| "object_type_name Block = ''block''"
| "object_type_name RefState = ''ref-state''"
| "object_type_name RefUpdate = ''ref-update''"
| "object_type_name Tag = ''tag''"
| "object_type_name Attestation = ''attestation''"
| "object_type_name Blob = ''blob''"
| "object_type_name BlockSummaryCache = ''block-summary-cache''"
| "object_type_name RecoveryNote = ''recovery-note''"
| "object_type_name RecognitionClaim = ''recognition-claim''"

section \<open>Object identifiers\<close>

text \<open>The array type of the source fixes the length; \<open>wf_id\<close> states it.\<close>

datatype object_id = ObjectId (id_bytes: bytes)

definition wf_id :: "object_id \<Rightarrow> bool" where
  "wf_id i \<longleftrightarrow> length (id_bytes i) = 32"

instantiation object_id :: linorder
begin

definition less_eq_object_id :: "object_id \<Rightarrow> object_id \<Rightarrow> bool" where
  "a \<le> b \<longleftrightarrow> id_bytes a \<le> id_bytes b"

definition less_object_id :: "object_id \<Rightarrow> object_id \<Rightarrow> bool" where
  "a < b \<longleftrightarrow> id_bytes a < id_bytes b"

instance
  by standard (auto simp: less_eq_object_id_def less_object_id_def object_id.expand)

end

definition OBJECT_ID_DOMAIN :: bytes where
  "OBJECT_ID_DOMAIN = ascii ''PRIKK-OBJECT-ID-v1''"

definition object_id_preimage :: "object_type \<Rightarrow> u32 \<Rightarrow> bytes \<Rightarrow> bytes" where
  "object_id_preimage object_type schema_version canonical_payload =
     OBJECT_ID_DOMAIN @ u16_be (object_type_code object_type) @ u32_be schema_version
     @ u64_be (word_of_nat (length canonical_payload)) @ canonical_payload"

definition from_canonical_payload ::
  "(bytes \<Rightarrow> bytes) \<Rightarrow> object_type \<Rightarrow> u32 \<Rightarrow> bytes \<Rightarrow> object_id" where
  "from_canonical_payload sha256 object_type schema_version canonical_payload =
     ObjectId (sha256 (object_id_preimage object_type schema_version canonical_payload))"

definition hex_char :: "u8 \<Rightarrow> u8" where
  "hex_char v = (if v \<le> 9 then 0x30 + v else if 10 \<le> v \<and> v \<le> 15 then 0x61 + (v - 10) else 0x3F)"

definition to_hex :: "bytes \<Rightarrow> bytes" where
  "to_hex bs = concat (map (\<lambda>byte. [hex_char (drop_bit 4 byte), hex_char (and byte 0x0F)]) bs)"

definition object_id_to_hex :: "object_id \<Rightarrow> bytes" where
  "object_id_to_hex i = to_hex (id_bytes i)"

definition hex_value :: "u8 \<Rightarrow> u8 res" where
  "hex_value byte =
     (if 0x30 \<le> byte \<and> byte \<le> 0x39 then Ok (byte - 0x30)
      else if 0x61 \<le> byte \<and> byte \<le> 0x66 then Ok (byte - 0x61 + 10)
      else Err (InvalidObjectId ''object IDs must use lowercase hex only''))"

fun hex_pairs :: "bytes \<Rightarrow> bytes res" where
  "hex_pairs (high # low # rest) =
     rbind (hex_value high) (\<lambda>h. rbind (hex_value low) (\<lambda>l.
     rbind (hex_pairs rest) (\<lambda>out. Ok (or (push_bit 4 h) l # out))))"
| "hex_pairs _ = Ok []"

definition object_id_from_str :: "bytes \<Rightarrow> object_id res" where
  "object_id_from_str s =
     (if length s \<noteq> 64 then
        Err (InvalidObjectId (''expected 64 lowercase hex chars, got '' @ dec (length s)))
      else rbind (hex_pairs s) (\<lambda>out. Ok (ObjectId out)))"

section \<open>Node identities and kinds\<close>

datatype node_id = NodeId (node_bytes: bytes)

instantiation node_id :: linorder
begin

definition less_eq_node_id :: "node_id \<Rightarrow> node_id \<Rightarrow> bool" where
  "a \<le> b \<longleftrightarrow> node_bytes a \<le> node_bytes b"

definition less_node_id :: "node_id \<Rightarrow> node_id \<Rightarrow> bool" where
  "a < b \<longleftrightarrow> node_bytes a < node_bytes b"

instance
  by standard (auto simp: less_eq_node_id_def less_node_id_def node_id.expand)

end

definition wf_node_id :: "node_id \<Rightarrow> bool" where
  "wf_node_id n \<longleftrightarrow> length (node_bytes n) = 32"

definition node_id_try_from_bytes :: "bytes \<Rightarrow> node_id res" where
  "node_id_try_from_bytes bs =
     (if bs = replicate 32 0 then Err (MalformedData ''node_id must be nonzero'') else Ok (NodeId bs))"

definition node_id_is_zero :: "node_id \<Rightarrow> bool" where
  "node_id_is_zero n \<longleftrightarrow> node_bytes n = replicate 32 0"

text \<open>\<open>{:#06x}\<close> of a 16-bit code.\<close>

definition hex4 :: "u16 \<Rightarrow> string" where
  "hex4 code = ''0x'' @ render (to_hex (u16_be code))"

datatype blob_kind = BlobText | BlobBinary | BlobSnapshot

fun blob_kind_code :: "blob_kind \<Rightarrow> u16" where
  "blob_kind_code BlobText = 1"
| "blob_kind_code BlobBinary = 2"
| "blob_kind_code BlobSnapshot = 3"

definition blob_kind_from_code :: "u16 \<Rightarrow> blob_kind res" where
  "blob_kind_from_code code =
     (if code = 1 then Ok BlobText else if code = 2 then Ok BlobBinary
      else if code = 3 then Ok BlobSnapshot
      else Err (MalformedData (''unknown or reserved blob_kind code: '' @ hex4 code)))"

datatype node_kind = TextFile | BinaryFile | Symlink

fun node_kind_code :: "node_kind \<Rightarrow> u16" where
  "node_kind_code TextFile = 1"
| "node_kind_code BinaryFile = 2"
| "node_kind_code Symlink = 3"

definition node_kind_from_code :: "u16 \<Rightarrow> node_kind res" where
  "node_kind_from_code code =
     (if code = 1 then Ok TextFile else if code = 2 then Ok BinaryFile
      else if code = 3 then Ok Symlink
      else Err (MalformedData (''unknown or reserved node_kind code: '' @ hex4 code)))"

fun node_kind_from_file_blob_kind :: "blob_kind \<Rightarrow> node_kind res" where
  "node_kind_from_file_blob_kind BlobText = Ok TextFile"
| "node_kind_from_file_blob_kind BlobBinary = Ok BinaryFile"
| "node_kind_from_file_blob_kind BlobSnapshot =
     Err (MalformedData ''file node must not reference a SNAPSHOT blob'')"

section \<open>Lemmas\<close>

lemma object_type_from_code_code [simp]: "object_type_from_code (object_type_code t) = Ok t"
  by (cases t) (simp_all add: object_type_from_code_def RETIRED_CODES_def ALL_OBJECT_TYPES_def)

lemma object_type_from_code_Ok: "object_type_from_code c = Ok t \<longleftrightarrow> c = object_type_code t"
proof
  assume "object_type_from_code c = Ok t"
  then show "c = object_type_code t"
    by (auto simp: object_type_from_code_def find_Some_iff split: option.splits)
qed simp

lemma object_type_code_inject [simp]: "object_type_code a = object_type_code b \<longleftrightarrow> a = b"
proof
  assume "object_type_code a = object_type_code b"
  then have "object_type_from_code (object_type_code a) = object_type_from_code (object_type_code b)"
    by (rule arg_cong)
  then show "a = b"
    by simp
qed simp

lemma blob_kind_from_code_code [simp]: "blob_kind_from_code (blob_kind_code k) = Ok k"
  by (cases k) (simp_all add: blob_kind_from_code_def)

lemma node_kind_from_code_code [simp]: "node_kind_from_code (node_kind_code k) = Ok k"
  by (cases k) (simp_all add: node_kind_from_code_def)

lemma object_id_preimage_inject:
  "object_id_preimage t v p = object_id_preimage t' v' p' \<longleftrightarrow> t = t' \<and> v = v' \<and> p = p'"
  by (auto simp: object_id_preimage_def)

lemma length_to_hex [simp]: "length (to_hex bs) = 2 * length bs"
  by (induction bs) (simp_all add: to_hex_def)

lemma hex_char_less: "v \<le> 15 \<Longrightarrow> hex_value (hex_char v) = Ok v"
proof -
  assume v: "v \<le> 15"
  then have "unat v \<le> 15"
    by (simp add: word_le_nat_alt)
  show "hex_value (hex_char v) = Ok v"
  proof (cases "v \<le> 9")
    case True
    then have "0x30 \<le> 0x30 + v \<and> 0x30 + v \<le> 0x39"
      by (auto simp: word_le_nat_alt unat_word_ariths)
    then show ?thesis
      using True by (simp add: hex_char_def hex_value_def)
  next
    case False
    then have "10 \<le> v" "unat v \<ge> 10"
      by (auto simp: word_le_nat_alt)
    then have "0x61 \<le> 0x61 + (v - 10) \<and> 0x61 + (v - 10) \<le> 0x66" "\<not> 0x61 + (v - 10) \<le> 0x39"
      using \<open>unat v \<le> 15\<close> by (auto simp: word_le_nat_alt unat_word_ariths unat_sub)
    then show ?thesis
      using v False \<open>10 \<le> v\<close> by (simp add: hex_char_def hex_value_def)
  qed
qed

lemma nibbles: "drop_bit 4 (b :: u8) \<le> 15" "and b 0x0F \<le> 15"
  "or (push_bit 4 (drop_bit 4 b)) (and b 0x0F) = b"
proof -
  have "unat b < 256"
    using unsigned_less [of b, where 'a = nat] by simp
  then show "drop_bit 4 b \<le> 15"
    by (simp add: word_le_nat_alt drop_bit_eq_div unat_div)
  show "and b 0x0F \<le> 15"
    by (rule word_and_le1)
  show "or (push_bit 4 (drop_bit 4 b)) (and b 0x0F) = b"
  proof -
    have "and b 0x0F = take_bit 4 b"
      by (simp add: take_bit_eq_mask mask_eq_exp_minus_1)
    then show ?thesis
      by (auto simp: bit_simps intro!: bit_word_eqI)
  qed
qed

lemma hex_pairs_to_hex: "hex_pairs (to_hex bs) = Ok bs"
proof (induction bs)
  case (Cons b bs)
  have "to_hex (b # bs) = hex_char (drop_bit 4 b) # hex_char (and b 0x0F) # to_hex bs"
    by (simp add: to_hex_def)
  then show ?case
    by (simp add: Cons.IH hex_char_less nibbles)
qed (simp add: to_hex_def)

lemma hex_value_Ok: "hex_value c = Ok v \<Longrightarrow> v \<le> 15 \<and> hex_char v = c"
  by (auto simp: hex_value_def hex_char_def word_le_nat_alt unat_word_ariths unat_sub split: if_splits)

lemma join_nibbles:
  assumes "h \<le> 15" "l \<le> (15 :: u8)"
  shows "drop_bit 4 (or (push_bit 4 h) l) = h" "and (or (push_bit 4 h) l) 0x0F = l"
proof -
  have h: "take_bit 4 h = h" and l: "take_bit 4 l = l"
    using assms by (simp_all add: take_bit_eq_mod word_unat_eq_iff unat_mod word_le_nat_alt)
  have "and x 0x0F = take_bit 4 x" for x :: u8
    by (simp add: take_bit_eq_mask mask_eq_exp_minus_1)
  moreover have "take_bit 4 (or (push_bit 4 h) l) = take_bit 4 l"
    by (auto simp: bit_simps intro!: bit_word_eqI)
  ultimately show "and (or (push_bit 4 h) l) 0x0F = l"
    using l by simp
  have "drop_bit 4 (or (push_bit 4 (take_bit 4 h)) (take_bit 4 l)) = take_bit 4 h"
    by (auto simp: bit_simps intro!: bit_word_eqI)
  then show "drop_bit 4 (or (push_bit 4 h) l) = h"
    by (simp add: h l)
qed

lemma hex_pairs_Ok: "hex_pairs s = Ok bs \<Longrightarrow> even (length s) \<Longrightarrow> to_hex bs = s \<and> length bs = length s div 2"
proof (induction s arbitrary: bs rule: hex_pairs.induct)
  case (1 high low rest)
  then obtain h l out b where v: "hex_value high = Ok h" "hex_value low = Ok l"
      and out: "hex_pairs rest = Ok out" and bs: "bs = b # out" and b: "b = or (push_bit 4 h) l"
    by auto
  have hl: "h \<le> 15 \<and> hex_char h = high" "l \<le> 15 \<and> hex_char l = low"
    using v hex_value_Ok by blast+
  then have "drop_bit 4 b = h" "and b 0x0F = l"
    unfolding b by (simp_all only: join_nibbles)
  moreover have "to_hex out = rest \<and> length out = length rest div 2"
    using 1 v out by simp
  ultimately show ?case
    using hl by (simp add: bs to_hex_def)
qed (auto simp: to_hex_def)

section \<open>Properties\<close>

text \<open>C27 (round trip): parsing the lowercase hex of an object id gives the id back, and the parser
  accepts no other spelling of it: whatever it accepts prints as exactly the text it was given.\<close>

theorem object_id_hex_round_trip:
  "object_id_from_str s = Ok i \<longleftrightarrow> wf_id i \<and> s = object_id_to_hex i"
proof
  assume "object_id_from_str s = Ok i"
  then show "wf_id i \<and> s = object_id_to_hex i"
    using hex_pairs_Ok [of s "id_bytes i"]
    by (auto simp: object_id_from_str_def wf_id_def object_id_to_hex_def split: if_splits)
next
  assume "wf_id i \<and> s = object_id_to_hex i"
  then show "object_id_from_str s = Ok i"
    by (simp add: object_id_from_str_def wf_id_def object_id_to_hex_def hex_pairs_to_hex)
qed

text \<open>C29 (safety): object identity binds the object type, the schema version and the payload: two
  objects with the same id agree on all three, unless they exhibit two different preimages with the
  same SHA-256 digest.\<close>

theorem object_id_binding:
  assumes "from_canonical_payload sha256 t v p = from_canonical_payload sha256 t' v' p'"
  shows "(t = t' \<and> v = v' \<and> p = p')
    \<or> (object_id_preimage t v p \<noteq> object_id_preimage t' v' p'
       \<and> sha256 (object_id_preimage t v p) = sha256 (object_id_preimage t' v' p'))"
  using assms by (auto simp: from_canonical_payload_def object_id_preimage_inject)

theorem object_id_binding_witness:
  "from_canonical_payload (\<lambda>_. replicate 32 0) Blob 1 [7] = from_canonical_payload (\<lambda>_. replicate 32 0) Tag 2 [8]
     \<and> object_id_preimage Blob 1 [7] \<noteq> object_id_preimage Tag 2 [8]"
proof -
  have "from_canonical_payload (\<lambda>_. replicate 32 0) Blob 1 [7] = from_canonical_payload (\<lambda>_. replicate 32 0) Tag 2 [8]"
    by (simp add: from_canonical_payload_def)
  with object_id_binding [OF this] show ?thesis
    by simp
qed

text \<open>Every live object type is recovered from its code, no other code is accepted,
  and the retired code \<open>0x0A\<close> is refused with the message that names its retirement.\<close>

theorem object_type_codes:
  "(object_type_from_code c = Ok t \<longleftrightarrow> c = object_type_code t)
   \<and> object_type_from_code 0x0A =
       Err (MalformedData ''object type code 10 is retired (formerly project-genesis) and must never be reused'')"
proof -
  have "dec 10 = ''10''"
    by (simp add: dec_def digits_in.simps char_of_def bit_0)
  then have "object_type_from_code 0x0A =
      Err (MalformedData ''object type code 10 is retired (formerly project-genesis) and must never be reused'')"
    by (simp add: object_type_from_code_def RETIRED_CODES_def)
  then show ?thesis
    by (simp add: object_type_from_code_Ok)
qed

end
