(* ===== verification/Envelope.thy ===== *)
theory Envelope
  imports Canonical Object_Id "HOL-Library.Product_Lexorder"
begin

text \<open>
  Signatures and object envelopes (\<open>prikk-object/src/signature.rs\<close>, \<open>envelope.rs\<close>): key-id and
  shape checks, the signed preimage, the canonical order of signatures, strict validation,
  insertion of a signature and the canonical encoding of the envelope.
\<close>

section \<open>Comparison\<close>

datatype ordering = Less | Equal | Greater

definition cmp :: "'a::linorder \<Rightarrow> 'a \<Rightarrow> ordering" where
  "cmp a b = (if a < b then Less else if a = b then Equal else Greater)"

fun then_with :: "ordering \<Rightarrow> ordering \<Rightarrow> ordering" where
  "then_with Equal o2 = o2"
| "then_with o1 o2 = o1"

text \<open>\<open>slice::binary_search_by\<close> on a slice sorted consistently with the comparison: the matching
  position (left), or the position where the element would be inserted (right).\<close>

definition binary_search_by :: "('a \<Rightarrow> ordering) \<Rightarrow> 'a list \<Rightarrow> nat + nat" where
  "binary_search_by f xs =
     (let i = length (takeWhile (\<lambda>x. f x = Less) xs)
      in if i < length xs \<and> f (xs ! i) = Equal then Inl i else Inr i)"

section \<open>Signatures\<close>

datatype signature_algorithm = Ed25519

fun algorithm_code :: "signature_algorithm \<Rightarrow> u16" where
  "algorithm_code Ed25519 = 1"

definition algorithm_from_code :: "u16 \<Rightarrow> signature_algorithm res" where
  "algorithm_from_code code =
     (if code = 1 then Ok Ed25519
      else Err (InvalidSignature (''unknown signature algorithm code: '' @ dec (unat code))))"

datatype signer_role = Author | Maintainer | Ci | Audit

fun role_code :: "signer_role \<Rightarrow> u16" where
  "role_code Author = 1"
| "role_code Maintainer = 2"
| "role_code Ci = 3"
| "role_code Audit = 4"

definition role_from_code :: "u16 \<Rightarrow> signer_role res" where
  "role_from_code code =
     (if code = 1 then Ok Author else if code = 2 then Ok Maintainer
      else if code = 3 then Ok Ci else if code = 4 then Ok Audit
      else Err (InvalidSignature (''unknown signer role code: '' @ dec (unat code))))"

record signature =
  sig_algorithm :: signature_algorithm
  sig_key_id :: bytes
  sig_bytes :: bytes
  sig_created_at :: u64
  sig_role :: signer_role

definition SIGNATURE_DOMAIN :: bytes where "SIGNATURE_DOMAIN = ascii ''prikk.sig.v1''"

definition SIGNATURE_KEY_ID_MAX_LEN :: nat where "SIGNATURE_KEY_ID_MAX_LEN = 128"

definition ED25519_SIGNATURE_LEN :: nat where "ED25519_SIGNATURE_LEN = 64"

definition validate_key_id :: "bytes \<Rightarrow> unit res" where
  "validate_key_id key_id =
     (if key_id = [] then Err (InvalidSignature ''signature key_id must not be empty'')
      else if length key_id > SIGNATURE_KEY_ID_MAX_LEN then
        Err (InvalidSignature (''signature key_id must be at most '' @ dec SIGNATURE_KEY_ID_MAX_LEN
               @ '' bytes''))
      else if \<not> list_all (\<lambda>byte. is_ascii_alphanumeric byte \<or> byte = 0x2D \<or> byte = 0x5F) key_id then
        Err (InvalidSignature
          (''signature key_id must contain only ASCII letters, digits, '-' or '_'' @ [CHR 0x27]))
      else Ok ())"

definition signed_bytes ::
  "signature_algorithm \<Rightarrow> object_type \<Rightarrow> object_id \<Rightarrow> signer_role \<Rightarrow> bytes \<Rightarrow> bytes res" where
  "signed_bytes algorithm object_type object_id role key_id =
     rbind (validate_key_id key_id) (\<lambda>_.
     if length key_id < 2 ^ 16 then
       Ok (SIGNATURE_DOMAIN @ u16_be (algorithm_code algorithm) @ u16_be (object_type_code object_type)
           @ id_bytes object_id @ u16_be (role_code role) @ u16_be (word_of_nat (length key_id))
           @ key_id)
     else Err (InvalidSignature
       ''signature key_id is too long for the signature preimage length field''))"

definition signature_validate :: "signature \<Rightarrow> unit res" where
  "signature_validate s =
     rbind (validate_key_id (sig_key_id s)) (\<lambda>_.
     fail_if (sig_bytes s = []) (InvalidSignature ''signature bytes must not be empty''))"

definition signature_validate_shape :: "signature \<Rightarrow> unit res" where
  "signature_validate_shape s =
     (case sig_algorithm s of Ed25519 \<Rightarrow>
        if length (sig_bytes s) = ED25519_SIGNATURE_LEN then Ok ()
        else Err (InvalidSignature (''Ed25519 signature must be '' @ dec ED25519_SIGNATURE_LEN
               @ '' bytes, got '' @ dec (length (sig_bytes s)))))"

definition canonical_cmp :: "signature \<Rightarrow> signature \<Rightarrow> ordering" where
  "canonical_cmp a b =
     then_with (cmp (sig_key_id a) (sig_key_id b))
       (then_with (cmp (role_code (sig_role a)) (role_code (sig_role b)))
         (then_with (cmp (algorithm_code (sig_algorithm a)) (algorithm_code (sig_algorithm b)))
           (cmp (sig_bytes a) (sig_bytes b))))"

definition encode_signature :: "signature encoder" where
  "encode_signature s w =
     rbind (field_u32 1 (ucast (algorithm_code (sig_algorithm s))) w) (\<lambda>w.
     rbind (field_string 2 (sig_key_id s) w) (\<lambda>w.
     rbind (field_bytes 3 (sig_bytes s) w) (\<lambda>w.
     rbind (field_u64 4 (sig_created_at s) w) (\<lambda>w.
     field_u32 5 (ucast (role_code (sig_role s))) w))))"

section \<open>Envelopes\<close>

record object_envelope =
  env_type :: object_type
  env_schema :: u32
  env_payload :: bytes
  env_signatures :: "signature list"

record signature_envelope_issues =
  malformed_shape :: bool
  duplicate :: bool
  noncanonical_order :: bool

definition unsigned_envelope :: "object_type \<Rightarrow> u32 \<Rightarrow> bytes \<Rightarrow> object_envelope" where
  "unsigned_envelope object_type schema_version canonical_payload =
     \<lparr>env_type = object_type, env_schema = schema_version, env_payload = canonical_payload,
      env_signatures = []\<rparr>"

definition envelope_object_id :: "(bytes \<Rightarrow> bytes) \<Rightarrow> object_envelope \<Rightarrow> object_id" where
  "envelope_object_id sha256 e =
     from_canonical_payload sha256 (env_type e) (env_schema e) (env_payload e)"

definition envelope_validate :: "object_envelope \<Rightarrow> unit res" where
  "envelope_validate e =
     (if env_schema e = 0 then Err (UnsupportedFormatVersion 0)
      else rfold (\<lambda>s _. signature_validate s) (env_signatures e) ())"

text \<open>\<open>windows(2).any(...)\<close>.\<close>

fun any_adjacent :: "('a \<Rightarrow> 'a \<Rightarrow> bool) \<Rightarrow> 'a list \<Rightarrow> bool" where
  "any_adjacent P (x # y # zs) \<longleftrightarrow> P x y \<or> any_adjacent P (y # zs)"
| "any_adjacent P _ \<longleftrightarrow> False"

text \<open>\<open>sort_unstable_by\<close> with a comparison: an insertion sort.\<close>

fun insert_by :: "('a \<Rightarrow> 'a \<Rightarrow> ordering) \<Rightarrow> 'a \<Rightarrow> 'a list \<Rightarrow> 'a list" where
  "insert_by c x [] = [x]"
| "insert_by c x (y # ys) = (if c y x = Less then y # insert_by c x ys else x # y # ys)"

definition sort_by :: "('a \<Rightarrow> 'a \<Rightarrow> ordering) \<Rightarrow> 'a list \<Rightarrow> 'a list" where
  "sort_by c xs = foldr (insert_by c) xs []"

definition signature_issues :: "object_envelope \<Rightarrow> signature_envelope_issues res" where
  "signature_issues e =
     rbind (envelope_validate e) (\<lambda>_.
     Ok \<lparr>malformed_shape = list_ex (\<lambda>s. \<not> is_ok (signature_validate_shape s)) (env_signatures e),
         duplicate = any_adjacent (\<lambda>a b. canonical_cmp a b = Equal)
           (sort_by canonical_cmp (env_signatures e)),
         noncanonical_order = any_adjacent (\<lambda>a b. canonical_cmp a b = Greater) (env_signatures e)\<rparr>)"

definition validate_strict :: "object_envelope \<Rightarrow> unit res" where
  "validate_strict e =
     rbind (signature_issues e) (\<lambda>issues.
     rbind (fail_if (malformed_shape issues)
       (InvalidSignature ''envelope contains a signature with malformed algorithm shape'')) (\<lambda>_.
     rbind (fail_if (duplicate issues)
       (InvalidSignature ''envelope contains a duplicate signature tuple'')) (\<lambda>_.
     fail_if (noncanonical_order issues)
       (InvalidSignature ''envelope signatures are not in canonical order''))))"

definition add_signature :: "signature \<Rightarrow> object_envelope \<Rightarrow> object_envelope res" where
  "add_signature s e =
     rbind (validate_strict e) (\<lambda>_.
     rbind (signature_validate s) (\<lambda>_.
     rbind (signature_validate_shape s) (\<lambda>_.
     case binary_search_by (\<lambda>existing. canonical_cmp existing s) (env_signatures e) of
       Inl _ \<Rightarrow> Err (InvalidSignature ''envelope contains a duplicate signature tuple'')
     | Inr index \<Rightarrow>
         Ok (e\<lparr>env_signatures := take index (env_signatures e) @ s # drop index (env_signatures e)\<rparr>))))"

definition encode_envelope :: "object_envelope encoder" where
  "encode_envelope e w =
     rbind (validate_strict e) (\<lambda>_.
     rbind (field_u32 1 (ucast (object_type_code (env_type e))) w) (\<lambda>w.
     rbind (field_u32 2 (env_schema e) w) (\<lambda>w.
     rbind (field_bytes 3 (env_payload e) w) (\<lambda>w.
     repeated_record encode_signature 4 (env_signatures e) w))))"

section \<open>Lemmas: canonical order\<close>

text \<open>The tuple by which signatures are ordered; the creation time is not part of it.\<close>

definition sig_tuple :: "signature \<Rightarrow> bytes \<times> u16 \<times> u16 \<times> bytes" where
  "sig_tuple s =
     (sig_key_id s, role_code (sig_role s), algorithm_code (sig_algorithm s), sig_bytes s)"

lemma cmp_simps [simp]:
  "cmp a b = Less \<longleftrightarrow> a < b" "cmp a b = Equal \<longleftrightarrow> a = b" "cmp a b = Greater \<longleftrightarrow> b < a"
  by (auto simp: cmp_def)

lemma then_with_simps:
  "then_with a b = Less \<longleftrightarrow> a = Less \<or> (a = Equal \<and> b = Less)"
  "then_with a b = Equal \<longleftrightarrow> a = Equal \<and> b = Equal"
  "then_with a b = Greater \<longleftrightarrow> a = Greater \<or> (a = Equal \<and> b = Greater)"
  by (cases a; simp)+

lemma canonical_cmp_tuple [simp]:
  "canonical_cmp a b = Less \<longleftrightarrow> sig_tuple a < sig_tuple b"
  "canonical_cmp a b = Equal \<longleftrightarrow> sig_tuple a = sig_tuple b"
  "canonical_cmp a b = Greater \<longleftrightarrow> sig_tuple b < sig_tuple a"
  unfolding canonical_cmp_def sig_tuple_def then_with_simps cmp_simps by auto

lemma any_adjacent_map: "any_adjacent (\<lambda>a b. P (f a) (f b)) xs \<longleftrightarrow> any_adjacent P (map f xs)"
  by (induction xs rule: induct_list012) auto

lemma map_insert_by: "map sig_tuple (insert_by canonical_cmp x ys) = insort (sig_tuple x) (map sig_tuple ys)"
  by (induction ys) auto

lemma map_sort_by: "map sig_tuple (sort_by canonical_cmp xs) = sort (map sig_tuple xs)"
  unfolding sort_by_def sort_key_def by (induction xs) (simp_all add: map_insert_by)

lemma any_adjacent_sorted_eq: "sorted xs \<Longrightarrow> any_adjacent (=) xs \<longleftrightarrow> \<not> distinct (xs :: 'a::linorder list)"
proof (induction xs rule: induct_list012)
  case (3 x y zs)
  then show ?case
    by (auto simp: less_le)
qed auto

lemma no_descent_sorted: "\<not> any_adjacent (\<lambda>a b. b < a) xs \<longleftrightarrow> sorted (xs :: 'a::linorder list)"
proof (induction xs rule: induct_list012)
  case (3 x y zs)
  then show ?case
    by (fastforce simp: not_less intro: order_trans)
qed auto

lemma duplicate_iff:
  "any_adjacent (\<lambda>a b. canonical_cmp a b = Equal) (sort_by canonical_cmp xs) \<longleftrightarrow> \<not> distinct (map sig_tuple xs)"
proof -
  have "any_adjacent (\<lambda>a b. sig_tuple a = sig_tuple b) (sort_by canonical_cmp xs)
      \<longleftrightarrow> any_adjacent (=) (sort (map sig_tuple xs))"
    by (simp only: any_adjacent_map [of "(=)" sig_tuple] map_sort_by)
  then show ?thesis
    by (simp add: any_adjacent_sorted_eq)
qed

lemma noncanonical_iff:
  "any_adjacent (\<lambda>a b. canonical_cmp a b = Greater) xs \<longleftrightarrow> \<not> sorted (map sig_tuple xs)"
  using no_descent_sorted [of "map sig_tuple xs"]
  by (auto simp: any_adjacent_map [of "\<lambda>a b. b < a" sig_tuple, symmetric])

lemma envelope_validate_iff:
  "envelope_validate e = Ok () \<longleftrightarrow>
     env_schema e \<noteq> 0 \<and> (\<forall>s \<in> set (env_signatures e). signature_validate s = Ok ())"
  by (simp add: envelope_validate_def rfold_Ok_unit)

text \<open>An envelope in the form every writer must produce.\<close>

definition strict_envelope :: "object_envelope \<Rightarrow> bool" where
  "strict_envelope e \<longleftrightarrow>
     env_schema e \<noteq> 0
     \<and> (\<forall>s \<in> set (env_signatures e). signature_validate s = Ok () \<and> signature_validate_shape s = Ok ())
     \<and> sorted_wrt (<) (map sig_tuple (env_signatures e))"

lemma validate_strict_iff: "validate_strict e = Ok () \<longleftrightarrow> strict_envelope e"
  by (auto simp: validate_strict_def signature_issues_def envelope_validate_iff
      duplicate_iff [unfolded canonical_cmp_tuple] noncanonical_iff [unfolded canonical_cmp_tuple] strict_envelope_def list_ex_iff is_ok_iff strict_sorted_iff)

lemma takeWhile_less_split:
  assumes "sorted_wrt (<) xs" and "x \<notin> set xs"
  shows "sorted_wrt (<) (takeWhile (\<lambda>y. y < x) xs @ x # dropWhile (\<lambda>y. y < x) (xs :: 'a::linorder list))"
  using assms
proof (induction xs)
  case (Cons y ys)
  show ?case
  proof (cases "y < x")
    case True
    have "set (takeWhile (\<lambda>y. y < x) ys) \<union> set (dropWhile (\<lambda>y. y < x) ys) = set ys"
      by (metis set_append takeWhile_dropWhile_id)
    then have "\<forall>z \<in> set (takeWhile (\<lambda>y. y < x) ys @ x # dropWhile (\<lambda>y. y < x) ys). y < z"
      using Cons.prems True by auto
    then show ?thesis
      using Cons True by simp
  next
    case False
    then have "x < y"
      using Cons.prems by auto
    then show ?thesis
      using Cons.prems False by (auto intro: less_trans)
  qed
qed simp

lemma takeWhile_map_tuple:
  "takeWhile (\<lambda>y. y < sig_tuple s) (map sig_tuple xs) = map sig_tuple (takeWhile (\<lambda>x. sig_tuple x < sig_tuple s) xs)"
  "dropWhile (\<lambda>y. y < sig_tuple s) (map sig_tuple xs) = map sig_tuple (dropWhile (\<lambda>x. sig_tuple x < sig_tuple s) xs)"
  by (simp_all add: takeWhile_map dropWhile_map comp_def)

lemma search_miss:
  assumes "sorted_wrt (<) (map sig_tuple xs)"
  shows "binary_search_by (\<lambda>x. canonical_cmp x s) xs =
    (let i = length (takeWhile (\<lambda>x. sig_tuple x < sig_tuple s) xs)
     in if sig_tuple s \<in> sig_tuple ` set xs then Inl i else Inr i)"
proof -
  let ?p = "\<lambda>x. sig_tuple x < sig_tuple s"
  let ?i = "length (takeWhile ?p xs)"
  have "(?i < length xs \<and> sig_tuple (xs ! ?i) = sig_tuple s) \<longleftrightarrow> sig_tuple s \<in> sig_tuple ` set xs"
  proof
    assume "sig_tuple s \<in> sig_tuple ` set xs"
    then obtain j where j: "j < length xs" "sig_tuple (xs ! j) = sig_tuple s"
      by (auto simp: in_set_conv_nth)
    then have "?i \<le> j"
      using nth_mem takeWhile_nth [of j ?p xs] set_takeWhileD [of "xs ! j" ?p xs]
      by (metis leI less_irrefl nth_mem)
    moreover have "\<not> ?i < j"
    proof
      assume "?i < j"
      then have "sig_tuple (xs ! ?i) < sig_tuple (xs ! j)"
        using sorted_wrt_nth_less [OF assms, of ?i j] j by simp
      moreover have "\<not> ?p (xs ! ?i)"
        using \<open>?i < j\<close> j by (intro nth_length_takeWhile) simp
      ultimately show False
        by (simp add: j)
    qed
    ultimately show "?i < length xs \<and> sig_tuple (xs ! ?i) = sig_tuple s"
      using j by simp
  next
    assume hit: "?i < length xs \<and> sig_tuple (xs ! ?i) = sig_tuple s"
    then show "sig_tuple s \<in> sig_tuple ` set xs"
      by (intro image_eqI [where x = "xs ! ?i"]) (simp_all only: nth_mem)
  qed
  then show ?thesis
    by (simp add: binary_search_by_def Let_def)
qed

lemma add_signature_Ok:
  assumes "strict_envelope e" "signature_validate s = Ok ()" "signature_validate_shape s = Ok ()"
    and "sig_tuple s \<notin> sig_tuple ` set (env_signatures e)"
  shows "\<exists>pre post. env_signatures e = pre @ post
    \<and> add_signature s e = Ok (e\<lparr>env_signatures := pre @ s # post\<rparr>)
    \<and> strict_envelope (e\<lparr>env_signatures := pre @ s # post\<rparr>)"
proof -
  let ?xs = "env_signatures e" and ?p = "\<lambda>x. sig_tuple x < sig_tuple s"
  have sorted: "sorted_wrt (<) (map sig_tuple ?xs)"
    using assms(1) by (simp add: strict_envelope_def)
  have "take (length (takeWhile ?p ?xs)) ?xs = takeWhile ?p ?xs"
      "drop (length (takeWhile ?p ?xs)) ?xs = dropWhile ?p ?xs"
    by (simp_all add: takeWhile_eq_take [symmetric] dropWhile_eq_drop [symmetric])
  then have "add_signature s e = Ok (e\<lparr>env_signatures := takeWhile ?p ?xs @ s # dropWhile ?p ?xs\<rparr>)"
    using assms by (simp add: add_signature_def validate_strict_iff search_miss [OF sorted] Let_def)
  moreover have "sorted_wrt (<) (map sig_tuple (takeWhile ?p ?xs @ s # dropWhile ?p ?xs))"
    using takeWhile_less_split [of "map sig_tuple ?xs" "sig_tuple s"] sorted assms(4)
    by (simp add: takeWhile_map_tuple)
  ultimately show ?thesis
    using assms
    by (intro exI [of _ "takeWhile ?p ?xs"] exI [of _ "dropWhile ?p ?xs"])
      (auto simp: strict_envelope_def dest: set_takeWhileD set_dropWhileD)
qed

lemma add_signature_duplicate:
  assumes "strict_envelope e" "signature_validate s = Ok ()" "signature_validate_shape s = Ok ()"
    and "sig_tuple s \<in> sig_tuple ` set (env_signatures e)"
  shows "add_signature s e = Err (InvalidSignature ''envelope contains a duplicate signature tuple'')"
proof -
  have "validate_strict e = Ok ()"
    using assms(1) by (simp add: validate_strict_iff)
  then show ?thesis
    using assms search_miss [of "env_signatures e" s]
    by (simp add: add_signature_def Let_def strict_envelope_def)
qed

section \<open>Properties\<close>

text \<open>Strict validation accepts an envelope exactly when its schema version is not
  zero, every signature passes the key-id and shape checks, and the signatures are strictly
  increasing in the tuple (key id, role, algorithm, signature bytes), hence without duplicates.\<close>

theorem validate_strict_exact: "validate_strict e = Ok () \<longleftrightarrow> strict_envelope e"
  by (rule validate_strict_iff)


definition sample_signature :: signature where
  "sample_signature = \<lparr>sig_algorithm = Ed25519, sig_key_id = [0x61], sig_bytes = replicate 64 7,
     sig_created_at = 5, sig_role = Author\<rparr>"

lemma sample_signature_ok:
  "signature_validate sample_signature = Ok ()" "signature_validate_shape sample_signature = Ok ()"
  by (simp_all add: sample_signature_def signature_validate_def signature_validate_shape_def
      validate_key_id_def SIGNATURE_KEY_ID_MAX_LEN_def ED25519_SIGNATURE_LEN_def is_ascii_alphanumeric_def)


text \<open>C26 (safety): the bytes a signature covers determine the algorithm, the object type, the object
  id, the role and the key id, so a signature never carries over to another object, role or key; and
  they never coincide with the preimage of an object id.\<close>

theorem signed_bytes_binding:
  assumes "signed_bytes a t i r k = Ok bs" and "signed_bytes a' t' i' r' k' = Ok bs"
    and "wf_id i" and "wf_id i'"
  shows "a = a' \<and> t = t' \<and> i = i' \<and> r = r' \<and> k = k' \<and> bs \<noteq> object_id_preimage t'' v p"
proof -
  have "role_code r = role_code r' \<longleftrightarrow> r = r'"
    by (cases r; cases r') simp_all
  moreover have "algorithm_code a = algorithm_code a' \<longleftrightarrow> a = a'"
    by (cases a; cases a') simp
  moreover have "bs \<noteq> object_id_preimage t'' v p"
    using assms(1)
    by (auto simp: signed_bytes_def object_id_preimage_def SIGNATURE_DOMAIN_def OBJECT_ID_DOMAIN_def
        ascii_def split: if_splits)
  ultimately show ?thesis
    using assms by (auto simp: signed_bytes_def wf_id_def object_id.expand split: if_splits)
qed

theorem signed_bytes_binding_witness:
  "\<exists>bs. signed_bytes Ed25519 Blob (ObjectId (replicate 32 9)) Author [0x61] = Ok bs
     \<and> bs \<noteq> object_id_preimage Blob 1 []"
proof -
  let ?i = "ObjectId (replicate 32 9)"
  obtain bs where "signed_bytes Ed25519 Blob ?i Author [0x61] = Ok bs"
    by (auto simp: signed_bytes_def validate_key_id_def SIGNATURE_KEY_ID_MAX_LEN_def is_ascii_alphanumeric_def)
  moreover from this have "bs \<noteq> object_id_preimage Blob 1 []"
    using signed_bytes_binding [of Ed25519 Blob ?i Author "[0x61]" bs Ed25519 Blob ?i Author "[0x61]" Blob 1 "[]"]
    by (simp add: wf_id_def)
  ultimately show ?thesis
    by blast
qed

end
