(* ===== verification/Codec.thy ===== *)
theory Codec
  imports Canonical Object_Id
begin

text \<open>
  The contract between a payload encoder and its decoder: on the values the encoder accepts,
  decoding gives the value back, or the view of it that the decoder reconstructs. From it follow,
  once for every payload, that the encoding determines the view and that an object id determines
  the view of the payload it was computed from. Each payload theory interprets this contract on its
  own encoder and decoder.
\<close>

locale payload_codec =
  fixes encode :: "'a \<Rightarrow> bytes res"
    and decode :: "bytes \<Rightarrow> 'b res"
    and wf :: "'a \<Rightarrow> bool"
    and view :: "'a \<Rightarrow> 'b"
  assumes decode_encode:
    "wf x \<Longrightarrow> encode x = Ok bs \<Longrightarrow> length bs < usize_limit \<Longrightarrow> decode bs = Ok (view x)"
begin

lemma encode_inject:
  assumes "wf x" "wf y" "encode x = Ok bs" "encode y = Ok bs" "length bs < usize_limit"
  shows "view x = view y"
  using decode_encode [OF assms(1,3,5)] decode_encode [OF assms(2,4,5)] by simp

lemma identity_determines_view:
  assumes "wf x" "wf y" "encode x = Ok a" "encode y = Ok b" "length a < usize_limit"
    and "from_canonical_payload H t v a = from_canonical_payload H t' v' b"
  shows "view x = view y \<or> (object_id_preimage t v a \<noteq> object_id_preimage t' v' b
    \<and> H (object_id_preimage t v a) = H (object_id_preimage t' v' b))"
proof (cases "a = b")
  case True
  then show ?thesis
    using encode_inject assms by blast
next
  case False
  then show ?thesis
    using assms(6) by (simp add: from_canonical_payload_def object_id_preimage_inject)
qed

end

end
