(* ===== verification/File_Codec.thy ===== *)
theory File_Codec
  imports Envelope Codec
begin

text \<open>
  The on-disk form of an object envelope (\<open>prikk-store/src/foundation/file_codec.rs\<close>), the checked
  byte cursor it is read with (\<open>byte_cursor.rs\<close>), the length conversions of \<open>fsutil.rs\<close> and the
  schema admission table of \<open>format.rs\<close>. The lemmas show that decoding inverts encoding, that the
  file form of an envelope is unique, and what reading a bounded frame gives in every case.
\<close>

section \<open>Byte cursor\<close>

record byte_cursor =
  bc_bytes :: bytes
  bc_pos :: nat

definition new_byte_cursor :: "bytes \<Rightarrow> byte_cursor" where
  "new_byte_cursor bs = \<lparr>bc_bytes = bs, bc_pos = 0\<rparr>"

definition bounded_capacity :: "byte_cursor \<Rightarrow> nat \<Rightarrow> nat \<Rightarrow> nat" where
  "bounded_capacity c count min_element_len =
     (let remaining = length (bc_bytes c) - bc_pos c
      in min count (remaining div max min_element_len 1))"

definition is_finished :: "byte_cursor \<Rightarrow> bool" where
  "is_finished c \<longleftrightarrow> bc_pos c = length (bc_bytes c)"

definition read_exact :: "nat \<Rightarrow> byte_cursor \<Rightarrow> (bytes \<times> byte_cursor) res" where
  "read_exact len c =
     rbind (ok_or (MalformedData ''record length overflow'') (checked_add (bc_pos c) len))
       (\<lambda>end'. rbind (ok_or (MalformedData ''unexpected end of record'')
                         (slice_get (bc_bytes c) (bc_pos c) end'))
          (\<lambda>slice. Ok (slice, c\<lparr>bc_pos := end'\<rparr>)))"

definition read_u16 :: "byte_cursor \<Rightarrow> (u16 \<times> byte_cursor) res" where
  "read_u16 c = rbind (read_exact 2 c) (\<lambda>(bs, c). Ok (u16_from_be bs, c))"

definition read_u32 :: "byte_cursor \<Rightarrow> (u32 \<times> byte_cursor) res" where
  "read_u32 c = rbind (read_exact 4 c) (\<lambda>(bs, c). Ok (u32_from_be bs, c))"

definition read_u64 :: "byte_cursor \<Rightarrow> (u64 \<times> byte_cursor) res" where
  "read_u64 c = rbind (read_exact 8 c) (\<lambda>(bs, c). Ok (u64_from_be bs, c))"

definition read_string_u16 :: "byte_cursor \<Rightarrow> (bytes \<times> byte_cursor) res" where
  "read_string_u16 c =
     rbind (read_u16 c) (\<lambda>(len, c).
     rbind (read_exact (unat len) c) (\<lambda>(bs, c).
     if utf8_valid bs then Ok (bs, c) else Err (MalformedData ''invalid utf-8 string: '')))"

text \<open>\<open>usize::try_from(u32)\<close> succeeds on every value.\<close>

definition read_bytes_u32 :: "byte_cursor \<Rightarrow> (bytes \<times> byte_cursor) res" where
  "read_bytes_u32 c =
     rbind (read_u32 c) (\<lambda>(len, c).
     rbind (ok_or (MalformedData ''u32 length does not fit usize'')
       (if unat len < usize_limit then Some (unat len) else None)) (\<lambda>len. read_exact len c))"

definition read_bytes_u64 :: "byte_cursor \<Rightarrow> (bytes \<times> byte_cursor) res" where
  "read_bytes_u64 c =
     rbind (read_u64 c) (\<lambda>(len, c).
     rbind (ok_or (MalformedData ''u64 length does not fit usize'') (usize_try_from len))
       (\<lambda>len. read_exact len c))"

section \<open>Length conversions and pushes\<close>

definition len_to_u16 :: "nat \<Rightarrow> u16 res" where
  "len_to_u16 len = (if len < 2 ^ 16 then Ok (word_of_nat len) else Err (MalformedData ''length exceeds u16''))"

definition len_to_u32 :: "nat \<Rightarrow> u32 res" where
  "len_to_u32 len = (if len < 2 ^ 32 then Ok (word_of_nat len) else Err (MalformedData ''length exceeds u32''))"

definition len_to_u64 :: "nat \<Rightarrow> u64 res" where
  "len_to_u64 len = (if len < 2 ^ 64 then Ok (word_of_nat len) else Err (MalformedData ''length exceeds u64''))"

definition push_string_u16 :: "bytes \<Rightarrow> bytes \<Rightarrow> bytes res" where
  "push_string_u16 out value = rbind (len_to_u16 (length value)) (\<lambda>len. Ok (out @ u16_be len @ value))"

definition push_bytes_u32 :: "bytes \<Rightarrow> bytes \<Rightarrow> bytes res" where
  "push_bytes_u32 out value = rbind (len_to_u32 (length value)) (\<lambda>len. Ok (out @ u32_be len @ value))"

definition push_bytes_u64 :: "bytes \<Rightarrow> bytes \<Rightarrow> bytes res" where
  "push_bytes_u64 out value = rbind (len_to_u64 (length value)) (\<lambda>len. Ok (out @ u64_be len @ value))"

section \<open>Envelope files\<close>

definition ENVELOPE_FILE_MAGIC :: bytes where "ENVELOPE_FILE_MAGIC = ascii ''POBJ0001''"

definition push_signature :: "signature \<Rightarrow> bytes \<Rightarrow> bytes res" where
  "push_signature s out =
     rbind (push_string_u16 (out @ u16_be (algorithm_code (sig_algorithm s)) @ u16_be (role_code (sig_role s)))
       (sig_key_id s)) (\<lambda>out.
     push_bytes_u32 (out @ u64_be (sig_created_at s)) (sig_bytes s))"

definition encode_envelope_fields :: "object_envelope \<Rightarrow> bytes res" where
  "encode_envelope_fields e =
     rbind (push_bytes_u64
       (ENVELOPE_FILE_MAGIC @ u16_be (object_type_code (env_type e)) @ u32_be (env_schema e))
       (env_payload e)) (\<lambda>out.
     rbind (len_to_u32 (length (env_signatures e))) (\<lambda>count.
     rfold push_signature (env_signatures e) (out @ u32_be count)))"

definition encode_envelope_file :: "object_envelope \<Rightarrow> bytes res" where
  "encode_envelope_file e = rbind (validate_strict e) (\<lambda>_. encode_envelope_fields e)"

definition read_signature :: "byte_cursor \<Rightarrow> (signature \<times> byte_cursor) res" where
  "read_signature c =
     rbind (read_u16 c) (\<lambda>(a, c). rbind (algorithm_from_code a) (\<lambda>algorithm.
     rbind (read_u16 c) (\<lambda>(r, c). rbind (role_from_code r) (\<lambda>signer_role.
     rbind (read_string_u16 c) (\<lambda>(key_id, c).
     rbind (read_u64 c) (\<lambda>(created_at, c).
     rbind (read_bytes_u32 c) (\<lambda>(signature_bytes, c).
     Ok (\<lparr>sig_algorithm = algorithm, sig_key_id = key_id, sig_bytes = signature_bytes,
          sig_created_at = created_at, sig_role = signer_role\<rparr>, c))))))))"

fun read_signatures :: "nat \<Rightarrow> byte_cursor \<Rightarrow> (signature list \<times> byte_cursor) res" where
  "read_signatures 0 c = Ok ([], c)"
| "read_signatures (Suc n) c =
     rbind (read_signature c) (\<lambda>(s, c). rbind (read_signatures n c) (\<lambda>(ss, c). Ok (s # ss, c)))"

definition decode_envelope_file :: "bytes \<Rightarrow> object_envelope res" where
  "decode_envelope_file bs =
     rbind (read_exact 8 (new_byte_cursor bs)) (\<lambda>(magic, c).
     rbind (fail_if (magic \<noteq> ENVELOPE_FILE_MAGIC) (MalformedData ''invalid object file magic'')) (\<lambda>_.
     rbind (read_u16 c) (\<lambda>(code, c). rbind (object_type_from_code code) (\<lambda>object_type.
     rbind (read_u32 c) (\<lambda>(schema_version, c).
     rbind (read_bytes_u64 c) (\<lambda>(canonical_payload, c).
     rbind (read_u32 c) (\<lambda>(signature_count, c).
     rbind (read_signatures (unat signature_count) c) (\<lambda>(signatures, c).
     rbind (fail_if (\<not> is_finished c) (MalformedData ''trailing bytes in object file'')) (\<lambda>_.
     let envelope = \<lparr>env_type = object_type, env_schema = schema_version,
                     env_payload = canonical_payload, env_signatures = signatures\<rparr>
     in rbind (envelope_validate envelope) (\<lambda>_. Ok envelope))))))))))"

definition read_bounded_object_frame :: "byte_cursor \<Rightarrow> nat \<Rightarrow> (bytes \<times> byte_cursor) res" where
  "read_bounded_object_frame c max_object_bytes =
     rbind (read_u64 c) (\<lambda>(declared_bytes, c).
     rbind (len_to_u64 max_object_bytes) (\<lambda>bound_bytes.
     if declared_bytes > bound_bytes then Err (ObjectOverBound declared_bytes bound_bytes)
     else rbind (ok_or (MalformedData ''u64 length does not fit usize'') (usize_try_from declared_bytes))
            (\<lambda>len. read_exact len c)))"

section \<open>Schema admission\<close>

definition admitted_schemas :: "object_type \<Rightarrow> u32 list option" where
  "admitted_schemas t = (case t of
       Block \<Rightarrow> Some [2]
     | RefState \<Rightarrow> Some [1, 2]
     | Patch \<Rightarrow> Some [1, 2, 3, 4]
     | RefUpdate \<Rightarrow> Some [1]
     | Tag \<Rightarrow> Some [1]
     | Attestation \<Rightarrow> Some [1]
     | Blob \<Rightarrow> Some [1]
     | RecognitionClaim \<Rightarrow> Some [1]
     | BlockSummaryCache \<Rightarrow> None
     | RecoveryNote \<Rightarrow> None)"

fun show_list :: "u32 list \<Rightarrow> string" where
  "show_list [] = ''''"
| "show_list [v] = dec (unat v)"
| "show_list (v # vs) = dec (unat v) @ '', '' @ show_list vs"

definition validate_format2_schema :: "object_envelope \<Rightarrow> unit res" where
  "validate_format2_schema e =
     (case admitted_schemas (env_type e) of
        None \<Rightarrow> Err (Integrity (object_type_name (env_type e)
                  @ '' is not authorized in a format-2 identity position''))
      | Some accepted \<Rightarrow>
          if env_schema e \<notin> set accepted then
            Err (Integrity (''format-2 '' @ object_type_name (env_type e)
              @ '' does not accept envelope schema '' @ dec (unat (env_schema e)) @ '' (accepted: [''
              @ show_list accepted @ ''])''))
          else Ok ())"

definition validate_object_envelope :: "object_envelope \<Rightarrow> unit res" where
  "validate_object_envelope e = rbind (validate_strict e) (\<lambda>_. validate_format2_schema e)"

section \<open>Lemmas: the cursor\<close>

text \<open>The cursor that has consumed \<open>pre\<close> and still has \<open>rest\<close> in front of it.\<close>

definition cur_at :: "bytes \<Rightarrow> bytes \<Rightarrow> byte_cursor" where
  "cur_at pre rest = \<lparr>bc_bytes = pre @ rest, bc_pos = length pre\<rparr>"

lemma new_byte_cursor_at: "new_byte_cursor bs = cur_at [] bs"
  by (simp add: new_byte_cursor_def cur_at_def)

lemma is_finished_at [simp]: "is_finished (cur_at pre rest) \<longleftrightarrow> rest = []"
  by (simp add: is_finished_def cur_at_def)

lemma read_exact_at:
  "read_exact n (cur_at pre rest) = Ok (s, c) \<longleftrightarrow>
     (\<exists>rest'. rest = s @ rest' \<and> length s = n \<and> c = cur_at (pre @ s) rest')
     \<and> length pre + n < usize_limit"
proof
  assume "read_exact n (cur_at pre rest) = Ok (s, c)"
  then obtain p q where "pre @ rest = p @ s @ q" "length p = length pre" "length s = n"
      "length pre + n < usize_limit" "c = \<lparr>bc_bytes = pre @ rest, bc_pos = length pre + n\<rparr>"
    by (auto simp: read_exact_def cur_at_def slice_get_eq_Some)
  then show "(\<exists>rest'. rest = s @ rest' \<and> length s = n \<and> c = cur_at (pre @ s) rest')
     \<and> length pre + n < usize_limit"
    by (auto simp: cur_at_def)
qed (auto simp: read_exact_def cur_at_def slice_get_def)

lemma read_fixed_at:
  assumes "\<And>v. f (g v) = v" "\<And>v. length (g v) = n" "\<And>bs. length bs = n \<Longrightarrow> g (f bs) = bs"
  shows "rbind (read_exact n (cur_at pre rest)) (\<lambda>(bs, c). Ok (f bs, c)) = Ok (v, c) \<longleftrightarrow>
     (\<exists>rest'. rest = g v @ rest' \<and> c = cur_at (pre @ g v) rest') \<and> length pre + n < usize_limit"
proof
  assume "rbind (read_exact n (cur_at pre rest)) (\<lambda>(bs, c). Ok (f bs, c)) = Ok (v, c)"
  then obtain bs where "read_exact n (cur_at pre rest) = Ok (bs, c)" "v = f bs"
    by (auto simp: rbind_pair_eq_Ok)
  then show "(\<exists>rest'. rest = g v @ rest' \<and> c = cur_at (pre @ g v) rest') \<and> length pre + n < usize_limit"
    using assms(3) by (auto simp: read_exact_at)
next
  assume "(\<exists>rest'. rest = g v @ rest' \<and> c = cur_at (pre @ g v) rest') \<and> length pre + n < usize_limit"
  then have "read_exact n (cur_at pre rest) = Ok (g v, c)"
    using assms(2) by (auto simp: read_exact_at)
  then show "rbind (read_exact n (cur_at pre rest)) (\<lambda>(bs, c). Ok (f bs, c)) = Ok (v, c)"
    by (simp add: assms(1))
qed

lemma read_u16_at:
  "read_u16 (cur_at pre rest) = Ok (v, c) \<longleftrightarrow>
     (\<exists>rest'. rest = u16_be v @ rest' \<and> c = cur_at (pre @ u16_be v) rest') \<and> length pre + 2 < usize_limit"
  unfolding read_u16_def by (rule read_fixed_at) (simp_all add: u16_be_from_be)

lemma read_u32_at:
  "read_u32 (cur_at pre rest) = Ok (v, c) \<longleftrightarrow>
     (\<exists>rest'. rest = u32_be v @ rest' \<and> c = cur_at (pre @ u32_be v) rest') \<and> length pre + 4 < usize_limit"
  unfolding read_u32_def by (rule read_fixed_at) (simp_all add: u32_be_from_be)

lemma read_u64_at:
  "read_u64 (cur_at pre rest) = Ok (v, c) \<longleftrightarrow>
     (\<exists>rest'. rest = u64_be v @ rest' \<and> c = cur_at (pre @ u64_be v) rest') \<and> length pre + 8 < usize_limit"
  unfolding read_u64_def by (rule read_fixed_at) (simp_all add: u64_be_from_be)

lemma len_u16: "n < 65536 \<Longrightarrow> unat (word_of_nat n :: u16) = n"
  by (simp add: unat_of_nat)

lemma len_u32: "n < 4294967296 \<Longrightarrow> unat (word_of_nat n :: u32) = n"
  by (simp add: unat_of_nat)

lemma unat_u16_less: "unat (v :: u16) < 65536"
  using unsigned_less [of v, where 'a = nat] by simp

lemma unat_u32_less: "unat (v :: u32) < 4294967296"
  using unsigned_less [of v, where 'a = nat] by simp

lemma u32_fits_usize [simp]: "unat (v :: u32) < usize_limit"
  using unat_u32_less [of v] by (simp add: usize_limit_def)

lemma unat_u64_less: "unat (v :: u64) < usize_limit"
  using unsigned_less [of v, where 'a = nat] by (simp add: usize_limit_def)

lemma read_string_u16_at:
  "read_string_u16 (cur_at pre rest) = Ok (v, c) \<longleftrightarrow>
     utf8_valid v \<and> length v < 65536 \<and> length pre + 2 + length v < usize_limit \<and>
     (\<exists>rest'. rest = u16_be (word_of_nat (length v)) @ v @ rest'
        \<and> c = cur_at (pre @ u16_be (word_of_nat (length v)) @ v) rest')"
proof
  assume "read_string_u16 (cur_at pre rest) = Ok (v, c)"
  then show "utf8_valid v \<and> length v < 65536 \<and> length pre + 2 + length v < usize_limit \<and>
     (\<exists>rest'. rest = u16_be (word_of_nat (length v)) @ v @ rest'
        \<and> c = cur_at (pre @ u16_be (word_of_nat (length v)) @ v) rest')"
    by (auto simp: read_string_u16_def rbind_pair_eq_Ok read_u16_at read_exact_at unat_u16_less
        split: if_splits)
next
  assume rhs: "utf8_valid v \<and> length v < 65536 \<and> length pre + 2 + length v < usize_limit \<and>
     (\<exists>rest'. rest = u16_be (word_of_nat (length v)) @ v @ rest'
        \<and> c = cur_at (pre @ u16_be (word_of_nat (length v)) @ v) rest')"
  then obtain rest' where rest: "rest = u16_be (word_of_nat (length v)) @ v @ rest'"
      and c: "c = cur_at (pre @ u16_be (word_of_nat (length v)) @ v) rest'"
    by blast
  have "read_u16 (cur_at pre rest) =
      Ok (word_of_nat (length v), cur_at (pre @ u16_be (word_of_nat (length v))) (v @ rest'))"
    using rhs by (auto simp: read_u16_at rest)
  moreover have "read_exact (length v) (cur_at (pre @ u16_be (word_of_nat (length v))) (v @ rest')) = Ok (v, c)"
    using rhs by (auto simp: read_exact_at c)
  ultimately show "read_string_u16 (cur_at pre rest) = Ok (v, c)"
    using rhs by (simp add: read_string_u16_def len_u16)
qed

lemma read_bytes_u32_at:
  "read_bytes_u32 (cur_at pre rest) = Ok (v, c) \<longleftrightarrow>
     length v < 4294967296 \<and> length pre + 4 + length v < usize_limit \<and>
     (\<exists>rest'. rest = u32_be (word_of_nat (length v)) @ v @ rest'
        \<and> c = cur_at (pre @ u32_be (word_of_nat (length v)) @ v) rest')"
proof
  assume "read_bytes_u32 (cur_at pre rest) = Ok (v, c)"
  then show "length v < 4294967296 \<and> length pre + 4 + length v < usize_limit \<and>
     (\<exists>rest'. rest = u32_be (word_of_nat (length v)) @ v @ rest'
        \<and> c = cur_at (pre @ u32_be (word_of_nat (length v)) @ v) rest')"
    by (auto simp: read_bytes_u32_def rbind_pair_eq_Ok read_u32_at read_exact_at unat_u32_less)
next
  assume rhs: "length v < 4294967296 \<and> length pre + 4 + length v < usize_limit \<and>
     (\<exists>rest'. rest = u32_be (word_of_nat (length v)) @ v @ rest'
        \<and> c = cur_at (pre @ u32_be (word_of_nat (length v)) @ v) rest')"
  then obtain rest' where rest: "rest = u32_be (word_of_nat (length v)) @ v @ rest'"
      and c: "c = cur_at (pre @ u32_be (word_of_nat (length v)) @ v) rest'"
    by blast
  have "read_u32 (cur_at pre rest) =
      Ok (word_of_nat (length v), cur_at (pre @ u32_be (word_of_nat (length v))) (v @ rest'))"
    using rhs by (auto simp: read_u32_at rest)
  moreover have "read_exact (length v) (cur_at (pre @ u32_be (word_of_nat (length v))) (v @ rest')) = Ok (v, c)"
    using rhs by (auto simp: read_exact_at c)
  ultimately show "read_bytes_u32 (cur_at pre rest) = Ok (v, c)"
    using rhs by (simp add: read_bytes_u32_def len_u32)
qed

lemma read_bytes_u64_at:
  "read_bytes_u64 (cur_at pre rest) = Ok (v, c) \<longleftrightarrow>
     length pre + 8 + length v < usize_limit \<and>
     (\<exists>rest'. rest = u64_be (word_of_nat (length v)) @ v @ rest'
        \<and> c = cur_at (pre @ u64_be (word_of_nat (length v)) @ v) rest')"
proof
  assume "read_bytes_u64 (cur_at pre rest) = Ok (v, c)"
  then show "length pre + 8 + length v < usize_limit \<and>
     (\<exists>rest'. rest = u64_be (word_of_nat (length v)) @ v @ rest'
        \<and> c = cur_at (pre @ u64_be (word_of_nat (length v)) @ v) rest')"
    by (auto simp: read_bytes_u64_def rbind_pair_eq_Ok read_u64_at read_exact_at)
next
  assume rhs: "length pre + 8 + length v < usize_limit \<and>
     (\<exists>rest'. rest = u64_be (word_of_nat (length v)) @ v @ rest'
        \<and> c = cur_at (pre @ u64_be (word_of_nat (length v)) @ v) rest')"
  then obtain rest' where rest: "rest = u64_be (word_of_nat (length v)) @ v @ rest'"
      and c: "c = cur_at (pre @ u64_be (word_of_nat (length v)) @ v) rest'"
    by blast
  have "read_u64 (cur_at pre rest) =
      Ok (word_of_nat (length v), cur_at (pre @ u64_be (word_of_nat (length v))) (v @ rest'))"
    using rhs by (auto simp: read_u64_at rest)
  moreover have "read_exact (length v) (cur_at (pre @ u64_be (word_of_nat (length v))) (v @ rest')) = Ok (v, c)"
    using rhs by (auto simp: read_exact_at c)
  ultimately show "read_bytes_u64 (cur_at pre rest) = Ok (v, c)"
    using rhs by (simp add: read_bytes_u64_def unat_len_u64)
qed

lemmas cursor_at = read_exact_at read_u16_at read_u32_at read_u64_at read_string_u16_at
  read_bytes_u32_at read_bytes_u64_at

text \<open>The same facts as evaluation rules.\<close>

lemma cursor_eval:
  "length pre + 2 < usize_limit \<Longrightarrow> read_u16 (cur_at pre (u16_be a @ rest)) = Ok (a, cur_at (pre @ u16_be a) rest)"
  "length pre + 4 < usize_limit \<Longrightarrow> read_u32 (cur_at pre (u32_be b @ rest)) = Ok (b, cur_at (pre @ u32_be b) rest)"
  "length pre + 8 < usize_limit \<Longrightarrow> read_u64 (cur_at pre (u64_be d @ rest)) = Ok (d, cur_at (pre @ u64_be d) rest)"
  "utf8_valid v \<Longrightarrow> length v < 65536 \<Longrightarrow> length pre + 2 + length v < usize_limit \<Longrightarrow>
     read_string_u16 (cur_at pre (u16_be (word_of_nat (length v)) @ v @ rest)) =
       Ok (v, cur_at (pre @ u16_be (word_of_nat (length v)) @ v) rest)"
  "length v < 4294967296 \<Longrightarrow> length pre + 4 + length v < usize_limit \<Longrightarrow>
     read_bytes_u32 (cur_at pre (u32_be (word_of_nat (length v)) @ v @ rest)) =
       Ok (v, cur_at (pre @ u32_be (word_of_nat (length v)) @ v) rest)"
  "length pre + 8 + length v < usize_limit \<Longrightarrow>
     read_bytes_u64 (cur_at pre (u64_be (word_of_nat (length v)) @ v @ rest)) =
       Ok (v, cur_at (pre @ u64_be (word_of_nat (length v)) @ v) rest)"
  by (auto simp: cursor_at)

section \<open>Lemmas: envelope files\<close>

definition sig_file :: "signature \<Rightarrow> bytes" where
  "sig_file s = u16_be (algorithm_code (sig_algorithm s)) @ u16_be (role_code (sig_role s))
     @ u16_be (word_of_nat (length (sig_key_id s))) @ sig_key_id s @ u64_be (sig_created_at s)
     @ u32_be (word_of_nat (length (sig_bytes s))) @ sig_bytes s"

definition sig_fits :: "signature \<Rightarrow> bool" where
  "sig_fits s \<longleftrightarrow> length (sig_key_id s) < 65536 \<and> length (sig_bytes s) < 4294967296"

definition envelope_file :: "object_envelope \<Rightarrow> bytes" where
  "envelope_file e = ENVELOPE_FILE_MAGIC @ u16_be (object_type_code (env_type e)) @ u32_be (env_schema e)
     @ u64_be (word_of_nat (length (env_payload e))) @ env_payload e
     @ u32_be (word_of_nat (length (env_signatures e))) @ concat (map sig_file (env_signatures e))"

definition envelope_fits :: "object_envelope \<Rightarrow> bool" where
  "envelope_fits e \<longleftrightarrow> length (env_payload e) < usize_limit \<and> length (env_signatures e) < 4294967296
     \<and> (\<forall>s \<in> set (env_signatures e). sig_fits s)"

lemma push_signature_Ok: "push_signature s out = Ok out' \<longleftrightarrow> sig_fits s \<and> out' = out @ sig_file s"
  by (auto simp: push_signature_def push_string_u16_def push_bytes_u32_def len_to_u16_def
      len_to_u32_def sig_fits_def sig_file_def)

lemma push_signatures_Ok:
  "rfold push_signature ss out = Ok out' \<longleftrightarrow>
     (\<forall>s \<in> set ss. sig_fits s) \<and> out' = out @ concat (map sig_file ss)"
  by (induction ss arbitrary: out) (auto simp: push_signature_Ok)

lemma encode_envelope_fields_Ok:
  "encode_envelope_fields e = Ok bs \<longleftrightarrow> envelope_fits e \<and> bs = envelope_file e"
  by (auto simp: encode_envelope_fields_def push_bytes_u64_def len_to_u64_def len_to_u32_def
      push_signatures_Ok envelope_fits_def envelope_file_def usize_limit_def)

lemma algorithm_from_code_Ok: "algorithm_from_code c = Ok a \<longleftrightarrow> c = algorithm_code a"
  by (cases a) (simp add: algorithm_from_code_def)

lemma role_from_code_Ok: "role_from_code c = Ok r \<longleftrightarrow> c = role_code r"
  by (cases r) (auto simp: role_from_code_def)

lemma read_signature_eval:
  assumes "sig_fits s" "utf8_valid (sig_key_id s)" "length pre + length (sig_file s) < usize_limit"
  shows "read_signature (cur_at pre (sig_file s @ rest)) = Ok (s, cur_at (pre @ sig_file s) rest)"
  using assms algorithm_from_code_Ok [of "algorithm_code (sig_algorithm s)" "sig_algorithm s"]
    role_from_code_Ok [of "role_code (sig_role s)" "sig_role s"]
  by (simp add: read_signature_def sig_file_def sig_fits_def cursor_eval)

lemma read_signature_OkD:
  assumes "read_signature (cur_at pre rest) = Ok (s, c)"
  shows "sig_fits s \<and> (\<exists>rest'. rest = sig_file s @ rest' \<and> c = cur_at (pre @ sig_file s) rest')"
  using assms
  by (auto simp: read_signature_def rbind_pair_eq_Ok cursor_at algorithm_from_code_Ok role_from_code_Ok
      sig_fits_def sig_file_def)

lemma read_signatures_eval:
  assumes "\<forall>s \<in> set ss. sig_fits s \<and> utf8_valid (sig_key_id s)"
    and "length pre + length (concat (map sig_file ss)) < usize_limit"
  shows "read_signatures (length ss) (cur_at pre (concat (map sig_file ss) @ rest)) =
    Ok (ss, cur_at (pre @ concat (map sig_file ss)) rest)"
  using assms by (induction ss arbitrary: pre) (simp_all add: read_signature_eval)

lemma read_signatures_OkD:
  assumes "read_signatures n (cur_at pre rest) = Ok (ss, c)"
  shows "length ss = n \<and> (\<forall>s \<in> set ss. sig_fits s)
    \<and> (\<exists>rest'. rest = concat (map sig_file ss) @ rest' \<and> c = cur_at (pre @ concat (map sig_file ss)) rest')"
  using assms
proof (induction n arbitrary: pre rest ss)
  case (Suc n)
  then obtain s c1 ss' where s: "read_signature (cur_at pre rest) = Ok (s, c1)"
      and ss: "read_signatures n c1 = Ok (ss', c)" "ss = s # ss'"
    by (auto simp: rbind_pair_eq_Ok)
  from read_signature_OkD [OF s] obtain rest' where "sig_fits s" "rest = sig_file s @ rest'"
      "c1 = cur_at (pre @ sig_file s) rest'"
    by blast
  with Suc.IH [of "pre @ sig_file s" rest' ss'] ss show ?case
    by auto
qed simp

lemma key_id_utf8: "validate_key_id k = Ok () \<Longrightarrow> utf8_valid k"
proof -
  assume "validate_key_id k = Ok ()"
  then have "list_all (\<lambda>byte. is_ascii_alphanumeric byte \<or> byte = 0x2D \<or> byte = 0x5F) k"
    by (simp add: validate_key_id_def split: if_splits)
  moreover have "is_ascii_alphanumeric b \<or> b = 0x2D \<or> b = 0x5F \<Longrightarrow> b < 0x80" for b
    by (auto simp: is_ascii_alphanumeric_def word_le_nat_alt word_less_nat_alt)
  ultimately show "utf8_valid k"
    by (intro utf8_valid_ascii) (auto simp: is_ascii_bytes_def list_all_iff)
qed

lemma decode_envelope_fields:
  assumes "envelope_fits e" "envelope_validate e = Ok ()" "length (envelope_file e) < usize_limit"
  shows "decode_envelope_file (envelope_file e) = Ok e"
proof -
  have keys: "\<forall>s \<in> set (env_signatures e). sig_fits s \<and> utf8_valid (sig_key_id s)"
    using assms(1,2)
    by (auto simp: envelope_validate_iff signature_validate_def envelope_fits_def intro: key_id_utf8)
  have magic: "read_exact 8 (cur_at [] (ENVELOPE_FILE_MAGIC @ rest)) =
      Ok (ENVELOPE_FILE_MAGIC, cur_at ENVELOPE_FILE_MAGIC rest)" for rest
    by (simp add: read_exact_at ENVELOPE_FILE_MAGIC_def ascii_def usize_limit_def)
  have count: "unat (word_of_nat (length (env_signatures e)) :: u32) = length (env_signatures e)"
    using assms(1) by (intro len_u32) (simp add: envelope_fits_def)
  have len: "length ENVELOPE_FILE_MAGIC = 8"
    by (simp add: ENVELOPE_FILE_MAGIC_def ascii_def)
  have eta: "\<lparr>env_type = env_type e, env_schema = env_schema e, env_payload = env_payload e,
      env_signatures = env_signatures e\<rparr> = e"
    by (cases e) simp
  note sigs = read_signatures_eval [OF keys, where rest = "[]", simplified]
  show ?thesis
    using assms
    by (simp add: decode_envelope_file_def new_byte_cursor_at envelope_file_def magic cursor_eval
        len count sigs Let_def eta)
qed

lemma decode_envelope_file_OkD:
  assumes "decode_envelope_file bs = Ok e"
  shows "bs = envelope_file e \<and> envelope_fits e \<and> envelope_validate e = Ok ()"
proof -
  obtain c1 c2 c3 c4 c5 c6 code count where
    r1: "read_exact 8 (cur_at [] bs) = Ok (ENVELOPE_FILE_MAGIC, c1)" and
    r2: "read_u16 c1 = Ok (code, c2)" and code: "object_type_from_code code = Ok (env_type e)" and
    r3: "read_u32 c2 = Ok (env_schema e, c3)" and
    r4: "read_bytes_u64 c3 = Ok (env_payload e, c4)" and
    r5: "read_u32 c4 = Ok (count, c5)" and
    r6: "read_signatures (unat count) c5 = Ok (env_signatures e, c6)" and
    fin: "is_finished c6" and val: "envelope_validate e = Ok ()"
    using assms by (auto simp: decode_envelope_file_def rbind_pair_eq_Ok new_byte_cursor_at Let_def)
  obtain b1 where c1: "bs = ENVELOPE_FILE_MAGIC @ b1" "c1 = cur_at ENVELOPE_FILE_MAGIC b1"
    using r1 by (auto simp: read_exact_at)
  obtain p2 b2 where c2: "b1 = u16_be (object_type_code (env_type e)) @ b2" "c2 = cur_at p2 b2"
    using r2 code by (auto simp: c1 read_u16_at object_type_from_code_Ok)
  obtain p3 b3 where c3: "b2 = u32_be (env_schema e) @ b3" "c3 = cur_at p3 b3"
    using r3 by (auto simp: c2 read_u32_at)
  obtain p4 b4 where c4: "b3 = u64_be (word_of_nat (length (env_payload e))) @ env_payload e @ b4"
      "c4 = cur_at p4 b4" "length (env_payload e) < usize_limit"
    using r4 by (auto simp: c3 read_bytes_u64_at)
  obtain p5 b5 where c5: "b4 = u32_be count @ b5" "c5 = cur_at p5 b5"
    using r5 by (auto simp: c4 read_u32_at)
  obtain p6 b6 where c6: "b5 = concat (map sig_file (env_signatures e)) @ b6" "c6 = cur_at p6 b6"
      "length (env_signatures e) = unat count" "\<forall>s \<in> set (env_signatures e). sig_fits s"
    using read_signatures_OkD [OF r6 [unfolded c5]] by auto
  have "b6 = []"
    using fin by (simp add: c6)
  then show ?thesis
    using val c1 c2 c3 c4 c5 c6 unat_u32_less [of count]
    by (simp add: envelope_file_def envelope_fits_def)
qed

lemma encode_envelope_file_Ok:
  "encode_envelope_file e = Ok bs \<longleftrightarrow> strict_envelope e \<and> envelope_fits e \<and> bs = envelope_file e"
  by (auto simp: encode_envelope_file_def validate_strict_iff encode_envelope_fields_Ok)

lemma strict_validate: "strict_envelope e \<Longrightarrow> envelope_validate e = Ok ()"
  by (simp add: strict_envelope_def envelope_validate_iff)

interpretation envelope_codec: payload_codec encode_envelope_file decode_envelope_file "\<lambda>_. True" "\<lambda>x. x"
  by unfold_locales (simp add: encode_envelope_file_Ok decode_envelope_fields strict_validate)

section \<open>Properties\<close>

text \<open>C22 (round trip): an envelope written by \<open>encode_envelope_file\<close> is read back unchanged by
  \<open>decode_envelope_file\<close>, signatures included, and the encoder produces an output for every strict
  envelope whose parts fit their length fields.\<close>

theorem envelope_file_round_trip:
  assumes "strict_envelope e" and "envelope_fits e" and "length (envelope_file e) < usize_limit"
  shows "\<exists>bs. encode_envelope_file e = Ok bs \<and> decode_envelope_file bs = Ok e"
  using assms envelope_codec.decode_encode by (auto simp: encode_envelope_file_Ok)

theorem envelope_file_round_trip_witness:
  "\<exists>bs. encode_envelope_file (unsigned_envelope Blob 1 [1, 2, 3]) = Ok bs
     \<and> decode_envelope_file bs = Ok (unsigned_envelope Blob 1 [1, 2, 3])"
  by (rule envelope_file_round_trip)
    (simp_all add: strict_envelope_def envelope_fits_def envelope_file_def unsigned_envelope_def
      ENVELOPE_FILE_MAGIC_def ascii_def usize_limit_def)

text \<open>C23 (equivalence): the file form of an envelope is unique. A byte string decodes to an envelope
  exactly when it is that envelope's encoding, so no trailing, reordered or padded bytes are ever
  accepted as the same envelope.\<close>

theorem envelope_file_unique:
  assumes "length bs < usize_limit"
  shows "decode_envelope_file bs = Ok e \<longleftrightarrow>
    encode_envelope_fields e = Ok bs \<and> envelope_validate e = Ok ()"
  using assms decode_envelope_fields [of e] decode_envelope_file_OkD [of bs e]
  by (auto simp: encode_envelope_fields_Ok)

theorem envelope_file_unique_witness:
  "decode_envelope_file (envelope_file (unsigned_envelope Tag 1 [9])) = Ok (unsigned_envelope Tag 1 [9])"
  using envelope_file_unique [of "envelope_file (unsigned_envelope Tag 1 [9])" "unsigned_envelope Tag 1 [9]"]
  by (simp add: envelope_fits_def envelope_file_def unsigned_envelope_def encode_envelope_fields_Ok
      envelope_validate_iff ENVELOPE_FILE_MAGIC_def ascii_def usize_limit_def)

text \<open>C24 (bounds): what reading a bounded object frame gives, in every case. A declared length above the
  bound is refused from its length prefix alone, whatever follows. A declared length up to and including
  the bound is accepted exactly when that many bytes follow; the frame is then those bytes and the cursor
  stands behind them. A longer declaration than the buffer holds is reported as the end of the record, or
  as an overflow when the end position does not fit.\<close>

theorem bounded_frame:
  assumes "max_object_bytes < usize_limit" and "length pre + 8 < usize_limit"
  shows "read_bounded_object_frame (cur_at pre (u64_be n @ rest)) max_object_bytes =
    (if unat n > max_object_bytes then Err (ObjectOverBound n (word_of_nat max_object_bytes))
     else if length pre + 8 + unat n \<ge> usize_limit then Err (MalformedData ''record length overflow'')
     else if unat n > length rest then Err (MalformedData ''unexpected end of record'')
     else Ok (take (unat n) rest, cur_at (pre @ u64_be n @ take (unat n) rest) (drop (unat n) rest)))"
proof -
  have bound: "len_to_u64 max_object_bytes = Ok (word_of_nat max_object_bytes)"
    using assms by (simp add: len_to_u64_def usize_limit_def)
  have over: "n > word_of_nat max_object_bytes \<longleftrightarrow> unat n > max_object_bytes"
    using assms by (simp add: word_less_nat_alt unat_len_u64)
  have "read_exact (unat n) (cur_at (pre @ u64_be n) rest) =
      (if length pre + 8 + unat n \<ge> usize_limit then Err (MalformedData ''record length overflow'')
       else if unat n > length rest then Err (MalformedData ''unexpected end of record'')
       else Ok (take (unat n) rest, cur_at (pre @ u64_be n @ take (unat n) rest) (drop (unat n) rest)))"
    by (auto simp: read_exact_def cur_at_def slice_get_def checked_add_def)
  then show ?thesis
    using assms(2) by (simp add: read_bounded_object_frame_def cursor_eval bound over)
qed

theorem bounded_frame_witness:
  "read_bounded_object_frame (cur_at [] (u64_be 2 @ [7, 8, 9])) 2 = Ok ([7, 8], cur_at (u64_be 2 @ [7, 8]) [9])
   \<and> read_bounded_object_frame (cur_at [] (u64_be 3 @ [7, 8, 9])) 2 = Err (ObjectOverBound 3 2)
   \<and> read_bounded_object_frame (cur_at [] (u64_be 2 @ [7])) 2 = Err (MalformedData ''unexpected end of record'')"
  using bounded_frame [of 2 "[]" 2 "[7, 8, 9]"] bounded_frame [of 2 "[]" 3 "[7, 8, 9]"]
    bounded_frame [of 2 "[]" 2 "[7]"]
  by (simp add: usize_limit_def)

end
