(* ===== verification/Blob_Block.thy ===== *)
theory Blob_Block
  imports Codec
begin

text \<open>
  Blob and block payloads (\<open>prikk-object/src/payload/blob.rs\<close>, \<open>block.rs\<close>): their canonical
  encoders and decoders. The lemmas show the round trip of both, that a blob's bytes are the only
  ones that decode to it, and that the block decoder accepts more byte strings than the block
  encoder can produce.
\<close>

section \<open>Blob\<close>

record blob_payload =
  blob_kind_of :: blob_kind
  blob_content :: bytes
  blob_declared_size :: u64

definition new_blob :: "blob_kind \<Rightarrow> bytes \<Rightarrow> blob_payload" where
  "new_blob kind content =
     \<lparr>blob_kind_of = kind, blob_content = content, blob_declared_size = word_of_nat (length content)\<rparr>"

definition size_mismatch :: "u64 \<Rightarrow> bytes \<Rightarrow> string" where
  "size_mismatch declared content =
     ''Blob declared_size '' @ dec (unat declared) @ '' does not match content length ''
     @ dec (length content)"

definition encode_blob :: "blob_payload encoder" where
  "encode_blob b w =
     (if blob_declared_size b \<noteq> word_of_nat (length (blob_content b)) then
        Err (CanonicalEncoding (size_mismatch (blob_declared_size b) (blob_content b)))
      else
        rbind (field_enum_u16 1 (blob_kind_code (blob_kind_of b)) w) (\<lambda>w.
        rbind (field_bytes 2 (blob_content b) w) (\<lambda>w.
        field_u64 3 (blob_declared_size b) w)))"

record blob_locals =
  bl_kind :: "blob_kind option"
  bl_content :: "bytes option"
  bl_size :: "u64 option"

definition blob_step :: "tlv_field \<Rightarrow> blob_locals \<Rightarrow> blob_locals res" where
  "blob_step f l =
     (if fld_tag f = 1 then
        if bl_kind l \<noteq> None then Err (MalformedData ''duplicate Blob blob_kind field'')
        else rbind (require_wire MalformedData f WEnumU16) (\<lambda>_.
             rbind (field_read_array MalformedData 2 f) (\<lambda>v.
             rbind (blob_kind_from_code (u16_from_be v)) (\<lambda>k. Ok (l\<lparr>bl_kind := Some k\<rparr>))))
      else if fld_tag f = 2 then
        if bl_content l \<noteq> None then Err (MalformedData ''duplicate Blob content field'')
        else rbind (require_wire MalformedData f WBytes) (\<lambda>_. Ok (l\<lparr>bl_content := Some (fld_value f)\<rparr>))
      else if fld_tag f = 3 then
        if bl_size l \<noteq> None then Err (MalformedData ''duplicate Blob declared_size field'')
        else rbind (require_wire MalformedData f WU64) (\<lambda>_.
             rbind (field_read_array MalformedData 8 f) (\<lambda>v. Ok (l\<lparr>bl_size := Some (u64_from_be v)\<rparr>)))
      else Err (MalformedData (''unknown Blob field tag: '' @ dec (unat (fld_tag f)))))"

text \<open>The \<open>BlobCursor\<close> copy of the field cursor: the shared loop with \<open>MalformedData\<close>.\<close>

definition blob_cursor_loop :: "(tlv_field \<Rightarrow> 's \<Rightarrow> 's res) \<Rightarrow> 's \<Rightarrow> bytes \<Rightarrow> 's res" where
  "blob_cursor_loop = decode_fields MalformedData"

definition decode_blob :: "bytes \<Rightarrow> blob_payload res" where
  "decode_blob bs =
     rbind (blob_cursor_loop blob_step \<lparr>bl_kind = None, bl_content = None, bl_size = None\<rparr> bs) (\<lambda>l.
     rbind (ok_or (MalformedData ''Blob missing blob_kind'') (bl_kind l)) (\<lambda>kind.
     rbind (ok_or (MalformedData ''Blob missing content'') (bl_content l)) (\<lambda>content.
     rbind (ok_or (MalformedData ''Blob missing declared_size'') (bl_size l)) (\<lambda>size.
     if size \<noteq> word_of_nat (length content) then Err (MalformedData (size_mismatch size content))
     else Ok \<lparr>blob_kind_of = kind, blob_content = content, blob_declared_size = size\<rparr>))))"

section \<open>Block\<close>

datatype block_kind = BRoot | BNormal | BMerge | BRepair | BImport

fun block_kind_code :: "block_kind \<Rightarrow> u16" where
  "block_kind_code BRoot = 1"
| "block_kind_code BNormal = 2"
| "block_kind_code BMerge = 3"
| "block_kind_code BRepair = 4"
| "block_kind_code BImport = 5"

definition block_kind_from_code :: "u32 \<Rightarrow> block_kind res" where
  "block_kind_from_code code =
     (if code = 1 then Ok BRoot else if code = 2 then Ok BNormal else if code = 3 then Ok BMerge
      else if code = 4 then Ok BRepair else if code = 5 then Ok BImport
      else Err (MalformedData (''unknown block kind code: '' @ dec (unat code))))"

record block_payload =
  parent_block_ids :: "object_id list"
  block_kind_of :: block_kind
  block_patch_ids :: "object_id list"
  state_merkle_root :: bytes
  snapshot_blob_ref :: "object_id option"
  mainline_parent_id :: "object_id option"
  merge_baseline_block_id :: "object_id option"

definition field_object_id_opt :: "u16 \<Rightarrow> object_id option encoder" where
  "field_object_id_opt tag v w =
     (case v of Some i \<Rightarrow> field_object_id tag (id_bytes i) w | None \<Rightarrow> Ok w)"

definition encode_block :: "block_payload encoder" where
  "encode_block b w =
     (if \<not> is_strictly_sorted (parent_block_ids b) then
        Err (CanonicalEncoding ''parent_block_ids must be sorted and unique'')
      else
        rbind (repeated_object_id 1 (map id_bytes (parent_block_ids b)) w) (\<lambda>w.
        rbind (field_enum_u16 2 (block_kind_code (block_kind_of b)) w) (\<lambda>w.
        rbind (repeated_object_id 3 (map id_bytes (block_patch_ids b)) w) (\<lambda>w.
        rbind (field_bytes 4 (state_merkle_root b) w) (\<lambda>w.
        rbind (field_object_id_opt 5 (snapshot_blob_ref b) w) (\<lambda>w.
        rbind (field_object_id_opt 6 (mainline_parent_id b) w) (\<lambda>w.
        field_object_id_opt 7 (merge_baseline_block_id b) w)))))))"

record block_locals =
  kl_parents :: "object_id list"
  kl_kind :: "block_kind option"
  kl_patches :: "object_id list"
  kl_root :: "bytes option"
  kl_snapshot :: "object_id option"
  kl_mainline :: "object_id option"
  kl_baseline :: "object_id option"

definition block_read_object_id :: "tlv_field \<Rightarrow> object_id res" where
  "block_read_object_id f =
     rbind (require_wire MalformedData f WObjectId) (\<lambda>_.
     rbind (field_read_array MalformedData 32 f) (\<lambda>v. Ok (ObjectId v)))"

definition block_read_enum_u16 :: "tlv_field \<Rightarrow> u16 res" where
  "block_read_enum_u16 f =
     rbind (require_wire MalformedData f WEnumU16) (\<lambda>_.
     rbind (field_read_array MalformedData 2 f) (\<lambda>v. Ok (u16_from_be v)))"

definition block_step :: "tlv_field \<Rightarrow> block_locals \<Rightarrow> block_locals res" where
  "block_step f l =
     (if fld_tag f = 1 then
        rbind (block_read_object_id f) (\<lambda>i. Ok (l\<lparr>kl_parents := kl_parents l @ [i]\<rparr>))
      else if fld_tag f = 2 then
        if kl_kind l \<noteq> None then Err (MalformedData ''duplicate Block kind field'')
        else rbind (block_read_enum_u16 f) (\<lambda>v.
             rbind (block_kind_from_code (ucast v)) (\<lambda>k. Ok (l\<lparr>kl_kind := Some k\<rparr>)))
      else if fld_tag f = 3 then
        rbind (block_read_object_id f) (\<lambda>i. Ok (l\<lparr>kl_patches := kl_patches l @ [i]\<rparr>))
      else if fld_tag f = 4 then
        if kl_root l \<noteq> None then Err (MalformedData ''duplicate Block state_merkle_root field'')
        else rbind (field_read_array MalformedData 32 f) (\<lambda>v. Ok (l\<lparr>kl_root := Some v\<rparr>))
      else if fld_tag f = 5 then
        if kl_snapshot l \<noteq> None then Err (MalformedData ''duplicate Block snapshot_blob_ref field'')
        else rbind (block_read_object_id f) (\<lambda>i. Ok (l\<lparr>kl_snapshot := Some i\<rparr>))
      else if fld_tag f = 6 then
        if kl_mainline l \<noteq> None then Err (MalformedData ''duplicate Block mainline_parent_id field'')
        else rbind (block_read_object_id f) (\<lambda>i. Ok (l\<lparr>kl_mainline := Some i\<rparr>))
      else if fld_tag f = 7 then
        if kl_baseline l \<noteq> None then Err (MalformedData ''duplicate Block merge_baseline_block_id field'')
        else rbind (block_read_object_id f) (\<lambda>i. Ok (l\<lparr>kl_baseline := Some i\<rparr>))
      else Err (MalformedData (''unknown Block field tag: '' @ dec (unat (fld_tag f)))))"

text \<open>The \<open>BlockCanonicalCursor\<close> copy of the field cursor.\<close>

definition block_cursor_loop :: "(tlv_field \<Rightarrow> 's \<Rightarrow> 's res) \<Rightarrow> 's \<Rightarrow> bytes \<Rightarrow> 's res" where
  "block_cursor_loop = decode_fields MalformedData"

definition block_init :: block_locals where
  "block_init = \<lparr>kl_parents = [], kl_kind = None, kl_patches = [], kl_root = None,
     kl_snapshot = None, kl_mainline = None, kl_baseline = None\<rparr>"

definition decode_block :: "bytes \<Rightarrow> block_payload res" where
  "decode_block bs =
     rbind (block_cursor_loop block_step block_init bs) (\<lambda>l.
     rbind (ok_or (MalformedData ''Block missing kind'') (kl_kind l)) (\<lambda>kind.
     rbind (ok_or (MalformedData ''Block missing state_merkle_root'') (kl_root l)) (\<lambda>root.
     if \<not> is_strictly_sorted (kl_parents l) then
       Err (MalformedData ''Block parent IDs are not sorted and unique'')
     else Ok \<lparr>parent_block_ids = kl_parents l, block_kind_of = kind, block_patch_ids = kl_patches l,
              state_merkle_root = root, snapshot_blob_ref = kl_snapshot l,
              mainline_parent_id = kl_mainline l, merge_baseline_block_id = kl_baseline l\<rparr>)))"

section \<open>Lemmas: blob\<close>

definition blob_fields :: "blob_payload \<Rightarrow> tlv_field list" where
  "blob_fields b =
     [tf 1 WEnumU16 (u16_be (blob_kind_code (blob_kind_of b))), tf 2 WBytes (blob_content b),
      tf 3 WU64 (u64_be (blob_declared_size b))]"

definition wf_blob :: "blob_payload \<Rightarrow> bool" where
  "wf_blob b \<longleftrightarrow> blob_declared_size b = word_of_nat (length (blob_content b))"

lemma encode_blob_Ok:
  "to_canonical_bytes encode_blob b = Ok bs \<longleftrightarrow> wf_blob b \<and> bs = fields_bytes (blob_fields b)"
  by (auto simp: to_canonical_bytes_def encode_blob_def new_writer_of field_defs blob_fields_def wf_blob_def)

lemma decode_blob_fields:
  assumes "wf_blob b" "length (fields_bytes (blob_fields b)) < usize_limit"
  shows "decode_blob (fields_bytes (blob_fields b)) = Ok b"
proof -
  have "tags_from None (blob_fields b)"
    by (simp add: blob_fields_def)
  then show ?thesis
    using assms
    by (simp add: decode_blob_def blob_cursor_loop_def decode_fields_bytes)
      (simp add: blob_fields_def blob_step_def field_read_array_def wf_blob_def)
qed

interpretation blob_codec: payload_codec "to_canonical_bytes encode_blob" decode_blob "\<lambda>_. True" "\<lambda>x. x"
  by unfold_locales (simp add: encode_blob_Ok decode_blob_fields)

text \<open>A decoder with at-most-once fields sees every tag at most once.\<close>

lemma blob_step_tags:
  "blob_step f l = Ok l' \<Longrightarrow>
     fld_tag f \<in> {1, 2, 3}
     \<and> (fld_tag f = 1 \<longrightarrow> bl_kind l = None) \<and> (bl_kind l' = None \<longleftrightarrow> bl_kind l = None \<and> fld_tag f \<noteq> 1)
     \<and> (fld_tag f = 2 \<longrightarrow> bl_content l = None) \<and> (bl_content l' = None \<longleftrightarrow> bl_content l = None \<and> fld_tag f \<noteq> 2)
     \<and> (fld_tag f = 3 \<longrightarrow> bl_size l = None) \<and> (bl_size l' = None \<longleftrightarrow> bl_size l = None \<and> fld_tag f \<noteq> 3)"
  by (auto simp: blob_step_def split: if_splits)

lemma blob_loop_tags:
  "rfold blob_step fs l = Ok l' \<Longrightarrow>
     distinct (map fld_tag fs) \<and> set (map fld_tag fs) \<subseteq> {1, 2, 3}
     \<and> (1 \<in> set (map fld_tag fs) \<longrightarrow> bl_kind l = None)
     \<and> (bl_kind l' = None \<longleftrightarrow> bl_kind l = None \<and> 1 \<notin> set (map fld_tag fs))
     \<and> (2 \<in> set (map fld_tag fs) \<longrightarrow> bl_content l = None)
     \<and> (bl_content l' = None \<longleftrightarrow> bl_content l = None \<and> 2 \<notin> set (map fld_tag fs))
     \<and> (3 \<in> set (map fld_tag fs) \<longrightarrow> bl_size l = None)
     \<and> (bl_size l' = None \<longleftrightarrow> bl_size l = None \<and> 3 \<notin> set (map fld_tag fs))"
proof (induction fs arbitrary: l)
  case (Cons f fs)
  then obtain l1 where step: "blob_step f l = Ok l1" and rec: "rfold blob_step fs l1 = Ok l'"
    by auto
  have "fld_tag f \<notin> set (map fld_tag fs)"
    using blob_step_tags [OF step] Cons.IH [OF rec] by auto
  then show ?case
    using blob_step_tags [OF step] Cons.IH [OF rec] by (simp del: set_map)
qed simp

lemma decode_blob_OkD:
  assumes "decode_blob bs = Ok b"
  shows "wf_blob b \<and> bs = fields_bytes (blob_fields b)"
proof -
  obtain l where loop: "blob_cursor_loop blob_step \<lparr>bl_kind = None, bl_content = None, bl_size = None\<rparr> bs = Ok l"
      and l: "bl_kind l = Some (blob_kind_of b)" "bl_content l = Some (blob_content b)"
        "bl_size l = Some (blob_declared_size b)" and wf: "wf_blob b"
    using assms by (auto simp: decode_blob_def wf_blob_def split: if_splits)
  obtain fs where bs: "bs = fields_bytes fs" and "wf_fields fs"
      and fold: "rfold blob_step fs \<lparr>bl_kind = None, bl_content = None, bl_size = None\<rparr> = Ok l"
    using loop by (auto simp: blob_cursor_loop_def elim: decode_fields_OkD)
  then have sorted: "sorted (map fld_tag fs)"
    by (simp add: wf_fields_def tags_from_iff)
  have "distinct (map fld_tag fs)" "set (map fld_tag fs) = {1, 2, 3}"
    using blob_loop_tags [OF fold] l by auto
  then have "map fld_tag fs = [1, 2, 3]"
    using sorted by (intro sorted_distinct_set_unique) auto
  then obtain w1 v1 w2 v2 w3 v3 where fs: "fs = [\<lparr>fld_tag = 1, fld_wire = w1, fld_value = v1\<rparr>,
      \<lparr>fld_tag = 2, fld_wire = w2, fld_value = v2\<rparr>, \<lparr>fld_tag = 3, fld_wire = w3, fld_value = v3\<rparr>]"
    by (auto simp: map_eq_Cons_conv) (metis tlv_field.surjective unit.exhaust)
  have "blob_kind_from_code (u16_from_be v) = Ok k \<Longrightarrow> length v = 2 \<Longrightarrow> u16_be (blob_kind_code k) = v" for v k
    by (auto simp: blob_kind_from_code_def u16_be_from_be split: if_splits)
      (metis u16_be_from_be)+
  then have "fs = blob_fields b"
    using fold l u64_be_from_be [of v3, symmetric]
    by (auto simp: fs blob_step_def blob_fields_def require_wire_def split: if_splits)
  with bs wf show ?thesis
    by simp
qed

section \<open>Lemmas: block\<close>

definition opt_field :: "u16 \<Rightarrow> object_id option \<Rightarrow> tlv_field list" where
  "opt_field tag v = (case v of None \<Rightarrow> [] | Some i \<Rightarrow> [tf tag WObjectId (id_bytes i)])"

definition block_fields :: "block_payload \<Rightarrow> tlv_field list" where
  "block_fields b =
     map (tf 1 WObjectId) (map id_bytes (parent_block_ids b))
     @ [tf 2 WEnumU16 (u16_be (block_kind_code (block_kind_of b)))]
     @ map (tf 3 WObjectId) (map id_bytes (block_patch_ids b))
     @ [tf 4 WBytes (state_merkle_root b)]
     @ opt_field 5 (snapshot_blob_ref b) @ opt_field 6 (mainline_parent_id b)
     @ opt_field 7 (merge_baseline_block_id b)"

text \<open>What the array types of the source guarantee of a block.\<close>

definition wf_block :: "block_payload \<Rightarrow> bool" where
  "wf_block b \<longleftrightarrow> (\<forall>i \<in> set (parent_block_ids b) \<union> set (block_patch_ids b). wf_id i)
     \<and> length (state_merkle_root b) = 32
     \<and> pred_option wf_id (snapshot_blob_ref b) \<and> pred_option wf_id (mainline_parent_id b)
     \<and> pred_option wf_id (merge_baseline_block_id b)"

lemma field_object_id_opt_Ok:
  "field_object_id_opt t v (writer_of fs) = Ok w \<longleftrightarrow>
     (v = None \<or> can_emit fs t) \<and> w = writer_of (fs @ opt_field t v)"
  by (auto simp: field_object_id_opt_def opt_field_def field_defs split: option.splits)

lemma encode_block_Ok:
  "to_canonical_bytes encode_block b = Ok bs \<longleftrightarrow>
     is_strictly_sorted (parent_block_ids b) \<and> bs = fields_bytes (block_fields b)"
  by (auto simp: to_canonical_bytes_def encode_block_def new_writer_of field_defs block_fields_def
      field_object_id_opt_Ok opt_field_def split: option.splits)

lemma block_parents_fold:
  "\<forall>i \<in> set ids. wf_id i \<Longrightarrow>
     rfold block_step (map (tf 1 WObjectId) (map id_bytes ids)) l = Ok (l\<lparr>kl_parents := kl_parents l @ ids\<rparr>)"
  by (induction ids arbitrary: l) (simp_all add: block_step_def block_read_object_id_def wf_id_def field_read_array_def)

lemma block_patches_fold:
  "\<forall>i \<in> set ids. wf_id i \<Longrightarrow>
     rfold block_step (map (tf 3 WObjectId) (map id_bytes ids)) l = Ok (l\<lparr>kl_patches := kl_patches l @ ids\<rparr>)"
  by (induction ids arbitrary: l) (simp_all add: block_step_def block_read_object_id_def wf_id_def field_read_array_def)

lemma block_kind_round_trip [simp]: "block_kind_from_code (ucast (block_kind_code k)) = Ok k"
  by (cases k) (simp_all add: block_kind_from_code_def)

lemma block_fields_tags: "tags_from None (block_fields b)"
  by (auto simp: tags_from_iff block_fields_def sorted_append opt_field_def comp_def map_replicate_const
      split: option.splits)

lemma block_fold:
  assumes "wf_block b"
  shows "rfold block_step (block_fields b) block_init =
    Ok \<lparr>kl_parents = parent_block_ids b, kl_kind = Some (block_kind_of b), kl_patches = block_patch_ids b,
        kl_root = Some (state_merkle_root b), kl_snapshot = snapshot_blob_ref b,
        kl_mainline = mainline_parent_id b, kl_baseline = merge_baseline_block_id b\<rparr>"
proof -
  have parents: "\<forall>i \<in> set (parent_block_ids b). wf_id i" and patches: "\<forall>i \<in> set (block_patch_ids b). wf_id i"
    using assms by (auto simp: wf_block_def)
  show ?thesis
    using assms
    unfolding block_fields_def rfold_append block_parents_fold [OF parents] rbind.simps
      block_patches_fold [OF patches]
    by (cases "snapshot_blob_ref b"; cases "mainline_parent_id b"; cases "merge_baseline_block_id b")
      (simp_all add: rfold_append block_patches_fold [OF patches, unfolded map_map] block_init_def
        block_step_def block_read_object_id_def block_read_enum_u16_def opt_field_def wf_block_def
        wf_id_def field_read_array_def)
qed

lemma decode_block_fields:
  assumes "wf_block b" "is_strictly_sorted (parent_block_ids b)"
    and "length (fields_bytes (block_fields b)) < usize_limit"
  shows "decode_block (fields_bytes (block_fields b)) = Ok b"
  using assms
  by (simp add: decode_block_def block_cursor_loop_def decode_fields_bytes block_fields_tags block_fold)

interpretation block_codec: payload_codec "to_canonical_bytes encode_block" decode_block wf_block "\<lambda>x. x"
  by unfold_locales (simp add: encode_block_Ok decode_block_fields)

section \<open>Properties\<close>

text \<open>Blob bytes and blob values correspond one to one. A byte string decodes to a
  blob exactly when it is that blob's canonical encoding; in particular every encoded blob decodes to
  itself, and a blob whose declared size differs from its content length has no encoding.\<close>

theorem blob_codec_exact:
  assumes "length bs < usize_limit"
  shows "decode_blob bs = Ok b \<longleftrightarrow> to_canonical_bytes encode_blob b = Ok bs"
  using assms decode_blob_OkD [of bs b] blob_codec.decode_encode [of b bs]
  by (auto simp: encode_blob_Ok)

theorem blob_codec_exact_witness:
  "decode_blob (fields_bytes (blob_fields (new_blob BlobText [104, 105]))) = Ok (new_blob BlobText [104, 105])"
  using blob_codec_exact [of "fields_bytes (blob_fields (new_blob BlobText [104, 105]))" "new_blob BlobText [104, 105]"]
  by (simp add: encode_blob_Ok wf_blob_def new_blob_def blob_fields_def length_fbytes usize_limit_def)

text \<open>C30 (round trip): every block payload with sorted, duplicate-free parents is encoded, and
  decoding the bytes gives the payload back with the order of its patches intact.\<close>

theorem block_round_trip:
  assumes "wf_block b" and "sorted_wrt (<) (parent_block_ids b)"
    and "length (fields_bytes (block_fields b)) < usize_limit"
  shows "\<exists>bs. to_canonical_bytes encode_block b = Ok bs \<and> decode_block bs = Ok b"
  using assms block_codec.decode_encode [of b] by (auto simp: encode_block_Ok is_strictly_sorted_iff)

definition sample_block :: block_payload where
  "sample_block = \<lparr>parent_block_ids = [], block_kind_of = BRoot,
     block_patch_ids = [ObjectId (replicate 32 1)], state_merkle_root = replicate 32 2,
     snapshot_blob_ref = None, mainline_parent_id = None, merge_baseline_block_id = None\<rparr>"

lemma sample_block_ok:
  "wf_block sample_block" "length (fields_bytes (block_fields sample_block)) < usize_limit"
  by (simp_all add: sample_block_def wf_block_def wf_id_def block_fields_def opt_field_def length_fbytes
      usize_limit_def)

theorem block_round_trip_witness:
  "\<exists>bs. to_canonical_bytes encode_block sample_block = Ok bs \<and> decode_block bs = Ok sample_block"
  by (rule block_round_trip [OF sample_block_ok(1) _ sample_block_ok(2)]) (simp add: sample_block_def)

lemma fields_bytes_inject:
  assumes "fields_bytes fs = fields_bytes gs" "tags_from None fs" "tags_from None gs"
    and "length (fields_bytes fs) < usize_limit"
  shows "fs = gs"
proof -
  let ?read = "\<lambda>f fs. Ok (fs @ [f]) :: tlv_field list res"
  have fs: "decode_fields MalformedData ?read [] (fields_bytes fs) = Ok fs"
    unfolding decode_fields_bytes [OF assms(2,4)] by (simp add: rfold_snoc_all)
  have "decode_fields MalformedData ?read [] (fields_bytes gs) = Ok gs"
    unfolding decode_fields_bytes [OF assms(3) assms(4) [unfolded assms(1)]] by (simp add: rfold_snoc_all)
  from trans [OF sym [OF fs [unfolded assms(1)]] this] show ?thesis
    by simp
qed

text \<open>The fields of a block with the state root written under the wire type of a string.\<close>

definition lax_block_fields :: "block_payload \<Rightarrow> tlv_field list" where
  "lax_block_fields b = map (\<lambda>f. if fld_tag f = 4 then tf 4 WString (fld_value f) else f) (block_fields b)"

lemma lax_fold: "rfold block_step (lax_block_fields b) l = rfold block_step (block_fields b) l"
proof -
  have "block_step (if fld_tag f = 4 then tf 4 WString (fld_value f) else f) = block_step f" for f
    by (simp add: fun_eq_iff block_step_def field_read_array_def)
  then have "rfold block_step (map (\<lambda>f. if fld_tag f = 4 then tf 4 WString (fld_value f) else f) fs) l
      = rfold block_step fs l" for fs
    by (induction fs arbitrary: l) (auto intro!: rbind_cong simp del: if_split)
  then show ?thesis
    by (simp add: lax_block_fields_def)
qed

lemma lax_tags: "tags_from None (lax_block_fields b)"
proof -
  have "map fld_tag (lax_block_fields b) = map fld_tag (block_fields b)"
    by (simp add: lax_block_fields_def)
  moreover have "\<forall>f \<in> set (lax_block_fields b). fld_tag f \<noteq> 0"
    using block_fields_tags [of b] by (auto simp: tags_from_iff lax_block_fields_def)
  ultimately show ?thesis
    using block_fields_tags [of b] by (simp add: tags_from_iff)
qed

lemma lax_length: "length (fields_bytes (lax_block_fields b)) = length (fields_bytes (block_fields b))"
proof -
  have "length (fields_bytes (map (\<lambda>f. if fld_tag f = 4 then tf 4 WString (fld_value f) else f) fs))
      = length (fields_bytes fs)" for fs
    by (induction fs) (simp_all add: length_fbytes)
  then show ?thesis
    by (simp add: lax_block_fields_def)
qed

lemma lax_not_encoded: "lax_block_fields b \<noteq> block_fields b'"
proof
  assume eq: "lax_block_fields b = block_fields b'"
  have "tf 4 WBytes (state_merkle_root b) \<in> set (block_fields b)"
    by (simp add: block_fields_def)
  then have "tf 4 WString (state_merkle_root b) \<in> set (lax_block_fields b)"
    unfolding lax_block_fields_def by force
  then show False
    unfolding eq by (auto simp: block_fields_def opt_field_def wire_code.simps split: option.splits)
qed

text \<open>C31 (safety): the block decoder is laxer than the encoder. It reads the state root without looking
  at the field's wire type, so for every block that the encoder writes there are further bytes that decode
  to the same block and that the encoder produces for no payload at all.\<close>

theorem block_decode_not_canonical:
  assumes "wf_block b" and "is_strictly_sorted (parent_block_ids b)"
    and "length (fields_bytes (block_fields b)) < usize_limit"
  shows "\<exists>bs. decode_block bs = Ok b \<and> (\<forall>b'. to_canonical_bytes encode_block b' \<noteq> Ok bs)"
proof (intro exI conjI allI)
  let ?bs = "fields_bytes (lax_block_fields b)"
  show "decode_block ?bs = Ok b"
    using assms
    by (simp add: decode_block_def block_cursor_loop_def decode_fields_bytes lax_tags lax_length lax_fold block_fold)
  show "to_canonical_bytes encode_block b' \<noteq> Ok ?bs" for b'
    using fields_bytes_inject [OF _ lax_tags block_fields_tags, of b b'] assms(3) lax_not_encoded [of b b']
      lax_length [of b] by (auto simp: encode_block_Ok)
qed

theorem block_decode_not_canonical_witness:
  "\<exists>bs. decode_block bs = Ok sample_block \<and> (\<forall>b'. to_canonical_bytes encode_block b' \<noteq> Ok bs)"
  by (rule block_decode_not_canonical [OF sample_block_ok(1) _ sample_block_ok(2)]) (simp add: sample_block_def)

end
