(* ===== verification/Repo_Path.thy ===== *)
theory Repo_Path
  imports Prikk_Error
begin

text \<open>
  Repository-relative paths: the lexical grammar of \<open>prikk-object/src/path.rs\<close> and the validated
  path type and collision check of \<open>prikk-replay/src/path.rs\<close>. A string is its UTF-8 bytes. The
  lemmas give the grammar in closed form and show that an accepted path stays below the
  repository root, never enters the metadata directory, and that the collision check accepts
  exactly the path lists without two spellings of one name.
\<close>

section \<open>Lexical grammar\<close>

definition ascii_fold :: "bytes \<Rightarrow> bytes" where
  "ascii_fold name = map to_ascii_lower name"

definition MAX_COMPONENT_LEN :: nat where "MAX_COMPONENT_LEN = 255"

definition MAX_TOTAL_LEN :: nat where "MAX_TOTAL_LEN = 1024"

definition windows_device_names :: "bytes list" where
  "windows_device_names = map ascii
     [''CON'', ''PRN'', ''AUX'', ''NUL'',
      ''COM1'', ''COM2'', ''COM3'', ''COM4'', ''COM5'', ''COM6'', ''COM7'', ''COM8'', ''COM9'',
      ''LPT1'', ''LPT2'', ''LPT3'', ''LPT4'', ''LPT5'', ''LPT6'', ''LPT7'', ''LPT8'', ''LPT9'']"

definition is_windows_reserved_name :: "bytes \<Rightarrow> bool" where
  "is_windows_reserved_name component =
     (let base = map to_ascii_upper (hd (split_on 0x2E component))
      in base \<in> set windows_device_names)"

definition ends_with :: "bytes \<Rightarrow> u8 \<Rightarrow> bool" where
  "ends_with s b \<longleftrightarrow> s \<noteq> [] \<and> last s = b"

definition validate_component :: "bytes \<Rightarrow> unit res" where
  "validate_component component =
     (if component = [] then Err (InvalidName ''empty path components are not allowed'')
      else if length component > MAX_COMPONENT_LEN then
        Err (InvalidName (''path component exceeds '' @ dec MAX_COMPONENT_LEN @ '' bytes (''
               @ dec (length component) @ '' bytes)''))
      else if component = ascii ''.'' \<or> component = ascii ''..'' then
        Err (InvalidName ''dot path components are not allowed'')
      else if ends_with component 0x20 \<or> ends_with component 0x2E then
        Err (InvalidName ''path components must not end with space or dot'')
      else if is_windows_reserved_name component then
        Err (InvalidName (''Windows reserved path component is not allowed: '' @ render component))
      else Ok ())"

fun validate_components :: "nat \<Rightarrow> bytes list \<Rightarrow> unit res" where
  "validate_components index [] = Ok ()"
| "validate_components index (component # rest) =
     (if index = 0 \<and> eq_ignore_ascii_case component (ascii ''.prikk'') then
        Err (InvalidName ''repository paths must not target the .prikk metadata directory'')
      else rbind (validate_component component) (\<lambda>_. validate_components (Suc index) rest))"

definition validate_repo_path :: "bytes \<Rightarrow> unit res" where
  "validate_repo_path value =
     (if value = [] then Err (InvalidName ''repository path must not be empty'')
      else if length value > MAX_TOTAL_LEN then
        Err (InvalidName (''repository path exceeds '' @ dec MAX_TOTAL_LEN @ '' bytes (''
               @ dec (length value) @ '' bytes)''))
      else if hd value = 0x2F then Err (InvalidName ''absolute paths are not allowed'')
      else if 0x5C \<in> set value then
        Err (InvalidName ''backslashes are not allowed in repository paths'')
      else if 0x3A \<in> set value then
        Err (InvalidName ''colon characters are not allowed in repository paths'')
      else if \<not> is_ascii_bytes value then Err (NonAsciiRepoPath value)
      else if \<exists>byte \<in> set value. byte < 0x20 \<or> byte = 0x7F then
        Err (InvalidName ''control characters are not allowed in repository paths'')
      else validate_components 0 (split_on 0x2F value))"

section \<open>Validated paths\<close>

datatype repo_path = RepoPath (path_str: bytes)

definition repo_path_parse :: "bytes \<Rightarrow> repo_path res" where
  "repo_path_parse value = rbind (validate_repo_path value) (\<lambda>_. Ok (RepoPath value))"

fun collisions_from :: "bytes set \<Rightarrow> bytes set \<Rightarrow> repo_path list \<Rightarrow> unit res" where
  "collisions_from exact folded [] = Ok ()"
| "collisions_from exact folded (path # rest) =
     (if path_str path \<in> exact then
        Err (InvalidName (''duplicate repository path: '' @ render (path_str path)))
      else if ascii_fold (path_str path) \<in> folded then
        Err (InvalidName (''case-insensitive path collision involving: '' @ render (path_str path)))
      else collisions_from (insert (path_str path) exact)
             (insert (ascii_fold (path_str path)) folded) rest)"

definition validate_no_path_collisions :: "repo_path list \<Rightarrow> unit res" where
  "validate_no_path_collisions paths = collisions_from {} {} paths"

instantiation repo_path :: linorder
begin

definition less_eq_repo_path :: "repo_path \<Rightarrow> repo_path \<Rightarrow> bool" where
  "p \<le> q \<longleftrightarrow> path_str p \<le> path_str q"

definition less_repo_path :: "repo_path \<Rightarrow> repo_path \<Rightarrow> bool" where
  "p < q \<longleftrightarrow> path_str p < path_str q"

instance
  by standard (auto simp: less_eq_repo_path_def less_repo_path_def repo_path.expand)

end

section \<open>The grammar in closed form\<close>

text \<open>A Windows device name: what precedes the first dot reads, in any letter case, \<open>con\<close>, \<open>prn\<close>, \<open>aux\<close>,
  \<open>nul\<close>, or \<open>com\<close> or \<open>lpt\<close> with one digit from 1 to 9.\<close>

definition names_device :: "bytes \<Rightarrow> bool" where
  "names_device c \<longleftrightarrow> (let base = ascii_fold (takeWhile (\<lambda>b. b \<noteq> 0x2E) c)
     in base \<in> {ascii ''con'', ascii ''prn'', ascii ''aux'', ascii ''nul''}
        \<or> (\<exists>d. 0x31 \<le> d \<and> d \<le> 0x39 \<and> (base = ascii ''com'' @ [d] \<or> base = ascii ''lpt'' @ [d])))"

definition component_ok :: "bytes \<Rightarrow> bool" where
  "component_ok c \<longleftrightarrow>
     c \<noteq> [] \<and> length c \<le> 255 \<and> last c \<noteq> 0x20 \<and> last c \<noteq> 0x2E \<and> \<not> names_device c"

definition path_ok :: "bytes \<Rightarrow> bool" where
  "path_ok p \<longleftrightarrow>
     length p \<le> 1024
     \<and> (\<forall>b \<in> set p. 0x20 \<le> b \<and> b < 0x7F \<and> b \<noteq> 0x5C \<and> b \<noteq> 0x3A)
     \<and> (\<forall>c \<in> set (split_on 0x2F p). component_ok c)
     \<and> ascii_fold (hd (split_on 0x2F p)) \<noteq> ascii ''.prikk''"

lemma ascii_dot: "ascii ''.'' = [0x2E]" and ascii_dotdot: "ascii ''..'' = [0x2E, 0x2E]"
  by (simp_all add: ascii_def)

lemma hd_split_on: "hd (split_on b c) = takeWhile (\<lambda>x. x \<noteq> b) c"
  by (induction c) (auto split: list.splits)

lemma ascii_case_conv:
  "to_ascii_lower (to_ascii_upper b) = to_ascii_lower b" "to_ascii_upper (to_ascii_lower b) = to_ascii_upper b"
  by (auto simp: to_ascii_lower_def to_ascii_upper_def word_le_nat_alt unat_sub_if' unat_word_ariths(1))

lemma upper_eq_lower_eq:
  "map to_ascii_upper x = map to_ascii_upper y \<longleftrightarrow> map to_ascii_lower x = map to_ascii_lower y"
proof
  assume "map to_ascii_upper x = map to_ascii_upper y"
  then have "map to_ascii_lower (map to_ascii_upper x) = map to_ascii_lower (map to_ascii_upper y)"
    by (rule arg_cong)
  then show "map to_ascii_lower x = map to_ascii_lower y"
    by (simp add: ascii_case_conv comp_def)
next
  assume "map to_ascii_lower x = map to_ascii_lower y"
  then have "map to_ascii_upper (map to_ascii_lower x) = map to_ascii_upper (map to_ascii_lower y)"
    by (rule arg_cong)
  then show "map to_ascii_upper x = map to_ascii_upper y"
    by (simp add: ascii_case_conv comp_def)
qed

definition lower_device_names :: "bytes list" where
  "lower_device_names = map ascii [''con'', ''prn'', ''aux'', ''nul''] @
     concat (map (\<lambda>d. [ascii ''com'' @ [d], ascii ''lpt'' @ [d]]) [0x31, 0x32, 0x33, 0x34, 0x35, 0x36, 0x37, 0x38, 0x39])"

lemma device_names_upper: "set windows_device_names = map to_ascii_upper ` set lower_device_names"
  by (simp add: windows_device_names_def lower_device_names_def ascii_def to_ascii_upper_def insert_commute)

lemma device_names_lower: "\<forall>n \<in> set lower_device_names. map to_ascii_lower n = n"
  by (simp add: lower_device_names_def ascii_def to_ascii_lower_def)

lemma digit_range:
  "(0x31 :: u8) \<le> d \<and> d \<le> 0x39 \<longleftrightarrow> d \<in> {0x31, 0x32, 0x33, 0x34, 0x35, 0x36, 0x37, 0x38, 0x39}"
  by (auto simp: word_le_nat_alt word_unat_eq_iff)

lemma lower_device_names_iff:
  "base \<in> set lower_device_names \<longleftrightarrow> base \<in> {ascii ''con'', ascii ''prn'', ascii ''aux'', ascii ''nul''}
     \<or> (\<exists>d. 0x31 \<le> d \<and> d \<le> 0x39 \<and> (base = ascii ''com'' @ [d] \<or> base = ascii ''lpt'' @ [d]))"
proof -
  have "(\<exists>d. 0x31 \<le> d \<and> d \<le> 0x39 \<and> (base = ascii ''com'' @ [d] \<or> base = ascii ''lpt'' @ [d])) \<longleftrightarrow>
      (\<exists>d \<in> {0x31, 0x32, 0x33, 0x34, 0x35, 0x36, 0x37, 0x38, 0x39}. base = ascii ''com'' @ [d] \<or> base = ascii ''lpt'' @ [d])"
    using digit_range by blast
  then show ?thesis
    by (auto simp: lower_device_names_def)
qed

lemma is_windows_reserved_name_iff: "is_windows_reserved_name c \<longleftrightarrow> names_device c"
proof -
  let ?base = "takeWhile (\<lambda>b. b \<noteq> 0x2E) c"
  have "is_windows_reserved_name c \<longleftrightarrow> (\<exists>n \<in> set lower_device_names. map to_ascii_upper ?base = map to_ascii_upper n)"
    by (auto simp: is_windows_reserved_name_def device_names_upper hd_split_on)
  also have "\<dots> \<longleftrightarrow> ascii_fold ?base \<in> set lower_device_names"
    using device_names_lower by (auto simp: upper_eq_lower_eq ascii_fold_def)
  also have "\<dots> \<longleftrightarrow> names_device c"
    by (simp add: lower_device_names_iff names_device_def Let_def)
  finally show ?thesis .
qed

lemma validate_component_iff: "validate_component c = Ok () \<longleftrightarrow> component_ok c"
  by (auto simp: validate_component_def component_ok_def ends_with_def MAX_COMPONENT_LEN_def
      ascii_dot ascii_dotdot is_windows_reserved_name_iff)

lemma fold_dot_prikk: "map to_ascii_lower (ascii ''.prikk'') = ascii ''.prikk''"
  by (simp add: ascii_def to_ascii_lower_def)

lemma validate_components_Suc:
  "validate_components (Suc n) cs = Ok () \<longleftrightarrow> (\<forall>c \<in> set cs. component_ok c)"
  by (induction cs arbitrary: n) (auto simp: validate_component_iff)

lemma validate_components_0:
  "cs \<noteq> [] \<Longrightarrow> validate_components 0 cs = Ok () \<longleftrightarrow>
     (\<forall>c \<in> set cs. component_ok c) \<and> ascii_fold (hd cs) \<noteq> ascii ''.prikk''"
  by (cases cs)
    (auto simp: validate_component_iff validate_components_Suc eq_ignore_ascii_case_def
      ascii_fold_def fold_dot_prikk)

lemma byte_class:
  "(b :: u8) < 0x80 \<and> \<not> (b < 0x20 \<or> b = 0x7F) \<longleftrightarrow> 0x20 \<le> b \<and> b < 0x7F"
  by (auto simp: word_less_nat_alt word_le_nat_alt word_unat_eq_iff)

lemma path_ok_head:
  assumes "path_ok p"
  shows "p \<noteq> [] \<and> hd p \<noteq> 0x2F"
proof (cases p)
  case Nil
  then show ?thesis
    using assms by (simp add: path_ok_def component_ok_def)
next
  case (Cons b bs)
  show ?thesis
    using assms by (auto simp: Cons path_ok_def component_ok_def split: if_splits)
qed

lemma validate_repo_path_iff: "validate_repo_path p = Ok () \<longleftrightarrow> path_ok p"
proof
  assume ok: "validate_repo_path p = Ok ()"
  then have "\<forall>b \<in> set p. b < 0x80 \<and> \<not> (b < 0x20 \<or> b = 0x7F)"
    by (auto simp: validate_repo_path_def is_ascii_bytes_def split: if_splits)
  then have "\<forall>b \<in> set p. 0x20 \<le> b \<and> b < 0x7F"
    unfolding byte_class .
  with ok show "path_ok p"
    by (auto simp: validate_repo_path_def path_ok_def MAX_TOTAL_LEN_def validate_components_0
        split: if_splits)
next
  assume ok: "path_ok p"
  then have "\<forall>b \<in> set p. b < 0x80 \<and> \<not> (b < 0x20 \<or> b = 0x7F)"
    unfolding byte_class by (auto simp: path_ok_def)
  with ok path_ok_head [OF ok] show "validate_repo_path p = Ok ()"
    by (auto simp: validate_repo_path_def path_ok_def is_ascii_bytes_def MAX_TOTAL_LEN_def
        validate_components_0)
qed

lemma repo_path_parse_Ok: "repo_path_parse v = Ok p \<longleftrightarrow> p = RepoPath v \<and> path_ok v"
  by (auto simp: repo_path_parse_def validate_repo_path_iff)

lemma collisions_from_iff:
  assumes "ascii_fold ` exact = folded"
  shows "collisions_from exact folded ps = Ok () \<longleftrightarrow>
    distinct (map (ascii_fold \<circ> path_str) ps) \<and> folded \<inter> (ascii_fold \<circ> path_str) ` set ps = {}"
  using assms
proof (induction ps arbitrary: exact folded)
  case (Cons p ps)
  have "ascii_fold ` insert (path_str p) exact = insert (ascii_fold (path_str p)) folded"
    using Cons.prems by simp
  from Cons.IH [OF this] show ?case
    using Cons.prems by auto
qed simp

lemma ascii_fold_idem [simp]: "ascii_fold (ascii_fold p) = ascii_fold p"
proof -
  have "to_ascii_lower (to_ascii_lower b) = to_ascii_lower b" for b
    by (auto simp: to_ascii_lower_def word_le_nat_alt unat_word_ariths)
  then show ?thesis
    by (simp add: ascii_fold_def)
qed

section \<open>Properties\<close>

text \<open>
  How a file system walks a relative path: an empty or \<open>.\<close> component stays, \<open>..\<close> leaves the
  current directory (and fails above the root), anything else descends.
\<close>

fun walk :: "bytes list \<Rightarrow> bytes list \<Rightarrow> bytes list option" where
  "walk dirs [] = Some dirs"
| "walk dirs (c # cs) =
     (if c = [] \<or> c = ascii ''.'' then walk dirs cs
      else if c = ascii ''..'' then (if dirs = [] then None else walk (butlast dirs) cs)
      else walk (dirs @ [c]) cs)"

lemma component_ok_plain: "component_ok c \<Longrightarrow> c \<noteq> [] \<and> c \<noteq> ascii ''.'' \<and> c \<noteq> ascii ''..''"
  by (auto simp: component_ok_def ascii_dot ascii_dotdot)

lemma walk_plain: "\<forall>c \<in> set cs. component_ok c \<Longrightarrow> walk dirs cs = Some (dirs @ cs)"
  by (induction cs arbitrary: dirs) (auto dest: component_ok_plain)

text \<open>C20 (equivalence): \<open>validate_repo_path\<close> accepts exactly the paths of at most 1024 printable ASCII
  bytes without backslash or colon, all of whose slash-separated components are non-empty, at most
  255 bytes long, do not end in a space or a dot and do not name a Windows device, and whose first
  component is not \<open>.prikk\<close> in any letter case. A component names a device when what precedes its first
  dot reads, in any letter case, \<open>con\<close>, \<open>prn\<close>, \<open>aux\<close>, \<open>nul\<close>, or \<open>com\<close> or \<open>lpt\<close> with one digit from
  1 to 9.\<close>

theorem validate_repo_path_exact: "validate_repo_path p = Ok () \<longleftrightarrow> path_ok p"
  by (rule validate_repo_path_iff)

text \<open>C21 (safety): a path that \<open>RepoPath::parse\<close> accepts descends from the root through each of its
  components and never steps up or sideways, so it names a file strictly inside the repository and
  outside \<open>.prikk\<close> on case-insensitive file systems as well; the path text is kept unchanged.\<close>

theorem repo_path_contained:
  assumes "repo_path_parse v = Ok p"
  shows "path_str p = v \<and> walk [] (split_on 0x2F v) = Some (split_on 0x2F v)
    \<and> join_with 0x2F (split_on 0x2F v) = v
    \<and> \<not> eq_ignore_ascii_case (hd (split_on 0x2F v)) (ascii ''.prikk'')"
  using assms
  by (auto simp: repo_path_parse_Ok path_ok_def walk_plain join_split eq_ignore_ascii_case_def
      ascii_fold_def fold_dot_prikk)

theorem repo_path_contained_witness:
  "repo_path_parse (ascii ''a/b'') = Ok (RepoPath (ascii ''a/b''))
     \<and> walk [] (split_on 0x2F (ascii ''a/b'')) = Some (split_on 0x2F (ascii ''a/b''))"
proof -
  have "path_ok (ascii ''a/b'')"
    by (simp add: path_ok_def component_ok_def ascii_def ascii_fold_def to_ascii_lower_def
        names_device_def)
  then have "repo_path_parse (ascii ''a/b'') = Ok (RepoPath (ascii ''a/b''))"
    by (simp add: repo_path_parse_Ok)
  then show ?thesis
    using repo_path_contained [of "ascii ''a/b''" "RepoPath (ascii ''a/b'')"] by simp
qed

text \<open>C28 (equivalence): the collision check accepts a list of paths exactly when their ASCII-case-folded
  spellings are pairwise different; the separate test for exact duplicates never decides the outcome.\<close>

theorem no_path_collisions_exact:
  "validate_no_path_collisions ps = Ok () \<longleftrightarrow> distinct (map (ascii_fold \<circ> path_str) ps)"
  by (simp add: validate_no_path_collisions_def collisions_from_iff)

end
