(* ===== verification/Patch_Payload.thy ===== *)
theory Patch_Payload
  imports Codec Repo_Path "HOL-Library.Product_Lexorder"
begin

text \<open>
  Patch payloads as they are authored (\<open>prikk-object/src/payload/common.rs\<close>, \<open>patch.rs\<close>,
  \<open>patch/operations.rs\<close>): the seven operation kinds with their validation and canonical encoding,
  the patch record and its purpose field. Records keep the source's field names with a prefix for
  the struct. The SHA-256 that binds an edit's old text to its hash is the argument \<open>sha256\<close>.
\<close>

section \<open>Conditions and intent\<close>

datatype intent = Feature | Fix | Refactor | Docs | Test

fun intent_code :: "intent \<Rightarrow> u16" where
  "intent_code Feature = 1"
| "intent_code Fix = 2"
| "intent_code Refactor = 3"
| "intent_code Docs = 4"
| "intent_code Test = 5"

datatype operation_condition =
    OldContentHash bytes
  | AnchorExists bytes
  | PathExists bytes
  | PathAbsent bytes

text \<open>The derived order of the enum: variants in declaration order, then the payload.\<close>

fun condition_key :: "operation_condition \<Rightarrow> nat \<times> bytes" where
  "condition_key (OldContentHash h) = (0, h)"
| "condition_key (AnchorExists a) = (1, a)"
| "condition_key (PathExists p) = (2, p)"
| "condition_key (PathAbsent p) = (3, p)"

lemma condition_key_inject: "condition_key a = condition_key b \<Longrightarrow> a = b"
  by (cases a; cases b) simp_all

instantiation operation_condition :: linorder
begin

definition less_eq_operation_condition :: "operation_condition \<Rightarrow> operation_condition \<Rightarrow> bool" where
  "a \<le> b \<longleftrightarrow> condition_key a \<le> condition_key b"

definition less_operation_condition :: "operation_condition \<Rightarrow> operation_condition \<Rightarrow> bool" where
  "a < b \<longleftrightarrow> condition_key a < condition_key b"

instance
  by standard
    (auto simp: less_eq_operation_condition_def less_operation_condition_def
      intro: condition_key_inject)

end

datatype operation_condition_entry =
  OperationConditionEntry (entry_key: bytes) (entry_value: operation_condition)

instantiation operation_condition_entry :: linorder
begin

definition less_eq_operation_condition_entry ::
  "operation_condition_entry \<Rightarrow> operation_condition_entry \<Rightarrow> bool" where
  "a \<le> b \<longleftrightarrow> (entry_key a, entry_value a) \<le> (entry_key b, entry_value b)"

definition less_operation_condition_entry ::
  "operation_condition_entry \<Rightarrow> operation_condition_entry \<Rightarrow> bool" where
  "a < b \<longleftrightarrow> (entry_key a, entry_value a) < (entry_key b, entry_value b)"

instance
  by standard
    (auto simp: less_eq_operation_condition_entry_def less_operation_condition_entry_def
      operation_condition_entry.expand)

end

definition encode_condition :: "operation_condition encoder" where
  "encode_condition c w = (case c of
     OldContentHash h \<Rightarrow> rbind (field_u32 1 1 w) (field_bytes 2 h)
   | AnchorExists a \<Rightarrow> rbind (field_u32 1 2 w) (field_string 2 a)
   | PathExists p \<Rightarrow> rbind (field_u32 1 3 w) (field_string 2 p)
   | PathAbsent p \<Rightarrow> rbind (field_u32 1 4 w) (field_string 2 p))"

definition encode_condition_entry :: "operation_condition_entry encoder" where
  "encode_condition_entry e w =
     rbind (field_string 1 (entry_key e) w) (\<lambda>w. field_record encode_condition 2 (entry_value e) w)"

section \<open>Operations\<close>

definition TEXT_SPAN_HASH_BYTES :: nat where "TEXT_SPAN_HASH_BYTES = 32"

definition PATCH_PARENT_IDS_RETIRED_SCHEMA :: u32 where "PATCH_PARENT_IDS_RETIRED_SCHEMA = 2"
definition PATCH_TEXT_SPAN_V2_SCHEMA :: u32 where "PATCH_TEXT_SPAN_V2_SCHEMA = 3"
definition PATCH_MESSAGE_SCHEMA :: u32 where "PATCH_MESSAGE_SCHEMA = 4"
definition TEXT_SPAN_ANCHOR_MIN_LEN :: u32 where "TEXT_SPAN_ANCHOR_MIN_LEN = 64"

definition text_span_hash :: "(bytes \<Rightarrow> bytes) \<Rightarrow> bytes \<Rightarrow> bytes" where
  "text_span_hash sha256 bs = sha256 bs"

definition validate_text_anchor_id :: "bytes \<Rightarrow> unit res" where
  "validate_text_anchor_id value =
     (if value = [] then Err (CanonicalEncoding ''text anchor id must not be empty'')
      else if \<not> is_ascii_bytes value then Err (CanonicalEncoding ''text anchor id must be ASCII in v1'')
      else if \<exists>byte \<in> set value. byte < 0x21 \<or> byte = 0x7F then
        Err (CanonicalEncoding ''text anchor id must not contain whitespace or control characters'')
      else Ok ())"

definition CANONICAL_FILE_MODES :: "u32 list" where
  "CANONICAL_FILE_MODES = [33188, 33261]"

definition is_canonical_file_mode :: "u32 \<Rightarrow> bool" where
  "is_canonical_file_mode mode \<longleftrightarrow> mode \<in> set CANONICAL_FILE_MODES"

definition authoring_path_error :: "prikk_error \<Rightarrow> prikk_error" where
  "authoring_path_error e = (case e of
     NonAsciiRepoPath path \<Rightarrow> InvalidName
       (''this version of prikk does not accept non-ASCII repository paths: '' @ render path)
   | other \<Rightarrow> other)"

definition bad_mode_msg :: "string \<Rightarrow> u32 \<Rightarrow> string" where
  "bad_mode_msg what mode =
     what @ '' 0o'' @ oct (unat mode) @ '' is not one of prikk's canonical file modes''"

record create_file =
  cf_path :: bytes
  cf_node_id :: node_id
  cf_blob_id :: object_id
  cf_mode :: u32

definition validate_create_file :: "create_file \<Rightarrow> unit res" where
  "validate_create_file c =
     rbind (fail_if (node_id_is_zero (cf_node_id c)) (CanonicalEncoding ''CreateFile node_id must be nonzero'')) (\<lambda>_.
     rbind (map_err authoring_path_error (validate_repo_path (cf_path c))) (\<lambda>_.
     fail_if (\<not> is_canonical_file_mode (cf_mode c))
       (CanonicalEncoding (bad_mode_msg ''CreateFile mode'' (cf_mode c)))))"

definition encode_create_file :: "create_file encoder" where
  "encode_create_file c w =
     rbind (validate_create_file c) (\<lambda>_.
     rbind (field_repo_path 1 (cf_path c) w) (\<lambda>w.
     rbind (field_bytes 2 (node_bytes (cf_node_id c)) w) (\<lambda>w.
     rbind (field_object_id 3 (id_bytes (cf_blob_id c)) w) (\<lambda>w.
     field_u32 4 (cf_mode c) w))))"

datatype delete_node_preimage =
    PreFile (pre_old_blob_id: object_id) (pre_old_mode: u32)
  | PreSymlink (pre_old_target: bytes)

record delete_node =
  dn_path :: bytes
  dn_node_id :: node_id
  dn_old_node_kind :: node_kind
  dn_preimage :: delete_node_preimage

definition validate_delete_node :: "delete_node \<Rightarrow> unit res" where
  "validate_delete_node d =
     rbind (fail_if (node_id_is_zero (dn_node_id d)) (CanonicalEncoding ''DeleteNode node_id must be nonzero'')) (\<lambda>_.
     rbind (map_err authoring_path_error (validate_repo_path (dn_path d))) (\<lambda>_.
     rbind (fail_if (\<not> (case (dn_old_node_kind d, dn_preimage d) of
              (TextFile, PreFile _ _) \<Rightarrow> True
            | (BinaryFile, PreFile _ _) \<Rightarrow> True
            | (Symlink, PreSymlink _) \<Rightarrow> True
            | _ \<Rightarrow> False))
       (CanonicalEncoding ''DeleteNode old_node_kind does not match preimage discriminator'')) (\<lambda>_.
     case dn_preimage d of
       PreFile _ old_mode \<Rightarrow> fail_if (\<not> is_canonical_file_mode old_mode)
         (CanonicalEncoding (bad_mode_msg ''DeleteNode old_mode'' old_mode))
     | PreSymlink _ \<Rightarrow> Ok ())))"

definition encode_delete_node :: "delete_node encoder" where
  "encode_delete_node d w =
     rbind (validate_delete_node d) (\<lambda>_.
     rbind (field_repo_path 1 (dn_path d) w) (\<lambda>w.
     rbind (field_bytes 2 (node_bytes (dn_node_id d)) w) (\<lambda>w.
     rbind (field_enum_u16 3 (node_kind_code (dn_old_node_kind d)) w) (\<lambda>w.
     case dn_preimage d of
       PreFile old_blob_id old_mode \<Rightarrow>
         rbind (field_object_id 4 (id_bytes old_blob_id) w) (\<lambda>w. field_u32 6 old_mode w)
     | PreSymlink old_target \<Rightarrow> field_string 5 old_target w))))"

record edit_text =
  et_node_id :: node_id
  et_span_id :: bytes
  et_old_span_hash :: bytes
  et_left_anchor_hash :: bytes
  et_right_anchor_hash :: bytes
  et_replacement_text :: bytes
  et_hint_line :: "u32 option"
  et_hint_column :: "u32 option"
  et_old_span_text :: bytes
  et_left_anchor_len :: "u32 option"
  et_right_anchor_len :: "u32 option"

definition validate_edit_text :: "(bytes \<Rightarrow> bytes) \<Rightarrow> edit_text \<Rightarrow> unit res" where
  "validate_edit_text sha256 e =
     (if node_id_is_zero (et_node_id e) then Err (CanonicalEncoding ''EditText node_id must be nonzero'')
      else if et_old_span_hash e \<noteq> text_span_hash sha256 (et_old_span_text e) then
        Err (CanonicalEncoding ''EditText old_span_hash must equal SHA-256(old_span_text)'')
      else if \<not> utf8_valid (et_old_span_text e) then
        Err (CanonicalEncoding ''EditText old_span_text must be well-formed UTF-8'')
      else if \<not> utf8_valid (et_replacement_text e) then
        Err (CanonicalEncoding ''EditText replacement_text must be well-formed UTF-8'')
      else (case (et_left_anchor_len e, et_right_anchor_len e) of
          (None, None) \<Rightarrow> Ok ()
        | (Some left, Some right) \<Rightarrow>
            if left < TEXT_SPAN_ANCHOR_MIN_LEN \<or> right < TEXT_SPAN_ANCHOR_MIN_LEN then
              Err (CanonicalEncoding (''EditText anchor lengths must each be at least ''
                     @ dec (unat TEXT_SPAN_ANCHOR_MIN_LEN)))
            else Ok ()
        | _ \<Rightarrow> Err (CanonicalEncoding
              ''EditText left_anchor_len and right_anchor_len must be both present or both absent'')))"

definition field_u32_opt :: "u16 \<Rightarrow> u32 option encoder" where
  "field_u32_opt tag v w = (case v of Some x \<Rightarrow> field_u32 tag x w | None \<Rightarrow> Ok w)"

definition encode_edit_text :: "(bytes \<Rightarrow> bytes) \<Rightarrow> edit_text encoder" where
  "encode_edit_text sha256 e w =
     rbind (validate_edit_text sha256 e) (\<lambda>_.
     rbind (field_bytes 1 (node_bytes (et_node_id e)) w) (\<lambda>w.
     rbind (field_bytes 2 (et_span_id e) w) (\<lambda>w.
     rbind (field_bytes 3 (et_old_span_hash e) w) (\<lambda>w.
     rbind (field_bytes 4 (et_left_anchor_hash e) w) (\<lambda>w.
     rbind (field_bytes 5 (et_right_anchor_hash e) w) (\<lambda>w.
     rbind (field_bytes 6 (et_replacement_text e) w) (\<lambda>w.
     rbind (field_u32_opt 7 (et_hint_line e) w) (\<lambda>w.
     rbind (field_u32_opt 8 (et_hint_column e) w) (\<lambda>w.
     rbind (field_bytes 9 (et_old_span_text e) w) (\<lambda>w.
     rbind (field_u32_opt 10 (et_left_anchor_len e) w) (\<lambda>w.
     field_u32_opt 11 (et_right_anchor_len e) w)))))))))))"

record rename_path =
  rp_node_id :: node_id
  rp_old_path :: bytes
  rp_new_path :: bytes

definition validate_rename_path :: "rename_path \<Rightarrow> unit res" where
  "validate_rename_path r =
     rbind (fail_if (node_id_is_zero (rp_node_id r)) (CanonicalEncoding ''RenamePath node_id must be nonzero'')) (\<lambda>_.
     rbind (map_err authoring_path_error (validate_repo_path (rp_old_path r))) (\<lambda>_.
     map_err authoring_path_error (validate_repo_path (rp_new_path r))))"

definition encode_rename_path :: "rename_path encoder" where
  "encode_rename_path r w =
     rbind (validate_rename_path r) (\<lambda>_.
     rbind (field_bytes 1 (node_bytes (rp_node_id r)) w) (\<lambda>w.
     rbind (field_repo_path 2 (rp_old_path r) w) (\<lambda>w.
     field_repo_path 3 (rp_new_path r) w)))"

record change_perm =
  cp_node_id :: node_id
  cp_old_mode :: u32
  cp_new_mode :: u32

definition validate_change_perm :: "change_perm \<Rightarrow> unit res" where
  "validate_change_perm c =
     rbind (fail_if (node_id_is_zero (cp_node_id c)) (CanonicalEncoding ''ChangePerm node_id must be nonzero'')) (\<lambda>_.
     rbind (fail_if (\<not> is_canonical_file_mode (cp_old_mode c))
       (CanonicalEncoding (bad_mode_msg ''ChangePerm old_mode'' (cp_old_mode c)))) (\<lambda>_.
     fail_if (\<not> is_canonical_file_mode (cp_new_mode c))
       (CanonicalEncoding (bad_mode_msg ''ChangePerm new_mode'' (cp_new_mode c)))))"

definition encode_change_perm :: "change_perm encoder" where
  "encode_change_perm c w =
     rbind (validate_change_perm c) (\<lambda>_.
     rbind (field_bytes 1 (node_bytes (cp_node_id c)) w) (\<lambda>w.
     rbind (field_u32 2 (cp_old_mode c) w) (\<lambda>w.
     field_u32 3 (cp_new_mode c) w)))"

record create_symlink =
  cs_path :: bytes
  cs_node_id :: node_id
  cs_target :: bytes

definition validate_create_symlink :: "create_symlink \<Rightarrow> unit res" where
  "validate_create_symlink c =
     rbind (fail_if (node_id_is_zero (cs_node_id c)) (CanonicalEncoding ''CreateSymlink node_id must be nonzero'')) (\<lambda>_.
     map_err authoring_path_error (validate_repo_path (cs_path c)))"

definition encode_create_symlink :: "create_symlink encoder" where
  "encode_create_symlink c w =
     rbind (validate_create_symlink c) (\<lambda>_.
     rbind (field_repo_path 1 (cs_path c) w) (\<lambda>w.
     rbind (field_bytes 2 (node_bytes (cs_node_id c)) w) (\<lambda>w.
     field_string 3 (cs_target c) w)))"

record replace_binary =
  rb_node_id :: node_id
  rb_old_blob_id :: object_id
  rb_new_blob_id :: object_id

definition validate_replace_binary :: "replace_binary \<Rightarrow> unit res" where
  "validate_replace_binary r =
     fail_if (node_id_is_zero (rb_node_id r)) (CanonicalEncoding ''ReplaceBinary node_id must be nonzero'')"

definition encode_replace_binary :: "replace_binary encoder" where
  "encode_replace_binary r w =
     rbind (validate_replace_binary r) (\<lambda>_.
     rbind (field_bytes 1 (node_bytes (rb_node_id r)) w) (\<lambda>w.
     rbind (field_object_id 2 (id_bytes (rb_old_blob_id r)) w) (\<lambda>w.
     field_object_id 3 (id_bytes (rb_new_blob_id r)) w)))"

section \<open>The patch record\<close>

datatype operation_kind =
    CreateFile create_file
  | DeleteNode delete_node
  | EditText edit_text
  | RenamePath rename_path
  | ChangePerm change_perm
  | CreateSymlink create_symlink
  | ReplaceBinary replace_binary

record operation =
  op_seq :: u32
  op_id :: "bytes option"
  op_preconditions :: "operation_condition list"
  op_kind :: operation_kind

definition encode_operation :: "(bytes \<Rightarrow> bytes) \<Rightarrow> operation encoder" where
  "encode_operation sha256 op w =
     rbind (field_u32 1 (op_seq op) w) (\<lambda>w.
     rbind (field_string_opt 2 (op_id op) w) (\<lambda>w.
     rbind (repeated_record encode_condition 3 (op_preconditions op) w) (\<lambda>w.
     case op_kind op of
       CreateFile v \<Rightarrow> field_record encode_create_file 10 v w
     | DeleteNode v \<Rightarrow> field_record encode_delete_node 11 v w
     | EditText v \<Rightarrow> field_record (encode_edit_text sha256) 12 v w
     | RenamePath v \<Rightarrow> field_record encode_rename_path 13 v w
     | ChangePerm v \<Rightarrow> field_record encode_change_perm 14 v w
     | CreateSymlink v \<Rightarrow> field_record encode_create_symlink 15 v w
     | ReplaceBinary v \<Rightarrow> field_record encode_replace_binary 16 v w)))"

datatype patch_purpose = Normal | RollbackDraft

fun purpose_code :: "patch_purpose \<Rightarrow> u16" where
  "purpose_code Normal = 1"
| "purpose_code RollbackDraft = 2"

definition purpose_from_present_code :: "u16 \<Rightarrow> patch_purpose res" where
  "purpose_from_present_code code =
     (if code = 1 then
        Err (CanonicalEncoding ''PatchPurpose::Normal must be omitted, not encoded explicitly'')
      else if code = 2 then Ok RollbackDraft
      else Err (CanonicalEncoding (''unknown patch purpose code: '' @ dec (unat code))))"

record patch_payload =
  pp_operations :: "operation list"
  pp_intent :: "intent option"
  pp_preconditions :: "operation_condition_entry list"
  pp_purpose :: patch_purpose
  pp_message :: "bytes option"

definition validate_patch :: "patch_payload \<Rightarrow> unit res" where
  "validate_patch p =
     (if pp_operations p = [] then
        Err (CanonicalEncoding ''patch operations must contain at least one operation'')
      else if \<not> is_contiguous_op_seq (map op_seq (pp_operations p)) then
        Err (CanonicalEncoding ''patch operations must have contiguous op_seq values starting at 1'')
      else if \<not> is_strictly_sorted (pp_preconditions p) then
        Err (CanonicalEncoding ''patch preconditions must be sorted and unique'')
      else if pp_message p = Some [] then
        Err (CanonicalEncoding ''patch message must not be Some(\"\") -- omit it instead'')
      else Ok ())"

definition encode_patch :: "(bytes \<Rightarrow> bytes) \<Rightarrow> patch_payload encoder" where
  "encode_patch sha256 p w =
     rbind (validate_patch p) (\<lambda>_.
     rbind (repeated_record_list (encode_operation sha256) 1 (pp_operations p) w) (\<lambda>w.
     rbind (case pp_intent p of Some i \<Rightarrow> field_enum_u16 3 (intent_code i) w | None \<Rightarrow> Ok w) (\<lambda>w.
     rbind (repeated_record encode_condition_entry 4 (pp_preconditions p) w) (\<lambda>w.
     rbind (if pp_purpose p \<noteq> Normal then field_enum_u16 5 (purpose_code (pp_purpose p)) w else Ok w) (\<lambda>w.
     field_string_opt 6 (pp_message p) w)))))"

text \<open>
  \<open>PatchPurpose::decode_from_patch_payload\<close>, over the \<open>PatchPayloadFieldCursor\<close> copy of the field
  cursor, which raises \<open>CanonicalEncoding\<close>.
\<close>

definition patch_cursor_loop :: "(tlv_field \<Rightarrow> 's \<Rightarrow> 's res) \<Rightarrow> 's \<Rightarrow> bytes \<Rightarrow> 's res" where
  "patch_cursor_loop = decode_fields CanonicalEncoding"

definition purpose_step :: "tlv_field \<Rightarrow> patch_purpose \<times> bool \<Rightarrow> (patch_purpose \<times> bool) res" where
  "purpose_step f = (\<lambda>(purpose, seen_purpose).
     if fld_tag f \<in> {1, 2, 3, 4, 6} then Ok (purpose, seen_purpose)
     else if fld_tag f = 5 then
       if seen_purpose then Err (CanonicalEncoding ''duplicate PatchPurpose field'')
       else rbind (require_wire CanonicalEncoding f WEnumU16) (\<lambda>_.
            rbind (field_read_array CanonicalEncoding 2 f) (\<lambda>v.
            rbind (purpose_from_present_code (u16_from_be v)) (\<lambda>p. Ok (p, True))))
     else Err (CanonicalEncoding (''unknown PatchPayload field tag: '' @ dec (unat (fld_tag f)))))"

definition decode_purpose :: "bytes \<Rightarrow> patch_purpose res" where
  "decode_purpose bs =
     rbind (patch_cursor_loop purpose_step (Normal, False) bs) (\<lambda>(purpose, _). Ok purpose)"

end
