(* ===== verification/Patch_Decode.thy ===== *)
theory Patch_Decode
  imports Patch_Payload
begin

text \<open>
  Reading patches back (\<open>prikk-store/src/patch_replay/decode.rs\<close>, \<open>decode/tlv.rs\<close>,
  \<open>decode/operations.rs\<close>): typed field readers, one decoder per operation kind, the operation and
  patch decoders with their schema gates, and the extraction of blob references, parent ids and
  message. The lemmas show that decoding inverts the authoring encoder and that whatever decodes
  satisfies the rules the authoring side enforces.
\<close>

section \<open>Typed fields\<close>

abbreviation malformed :: "string \<Rightarrow> prikk_error" where "malformed \<equiv> MalformedData"

definition tlv_loop :: "(tlv_field \<Rightarrow> 's \<Rightarrow> 's res) \<Rightarrow> 's \<Rightarrow> bytes \<Rightarrow> 's res" where
  "tlv_loop = decode_fields MalformedData"

definition fld_read_string :: "tlv_field \<Rightarrow> bytes res" where
  "fld_read_string f =
     rbind (require_wire malformed f WString) (\<lambda>_.
     if utf8_valid (fld_value f) then Ok (fld_value f) else Err (malformed ''invalid UTF-8 string: ''))"

definition fld_read_u32 :: "tlv_field \<Rightarrow> u32 res" where
  "fld_read_u32 f =
     rbind (require_wire malformed f WU32) (\<lambda>_.
     rbind (field_read_array malformed 4 f) (\<lambda>v. Ok (u32_from_be v)))"

definition fld_read_u16 :: "tlv_field \<Rightarrow> u16 res" where
  "fld_read_u16 f =
     rbind (require_wire malformed f WEnumU16) (\<lambda>_.
     rbind (field_read_array malformed 2 f) (\<lambda>v. Ok (u16_from_be v)))"

definition fld_read_object_id_typed :: "tlv_field \<Rightarrow> object_id res" where
  "fld_read_object_id_typed f =
     rbind (require_wire malformed f WObjectId) (\<lambda>_.
     rbind (field_read_array malformed 32 f) (\<lambda>v. Ok (ObjectId v)))"

definition fld_read_repo_path :: "tlv_field \<Rightarrow> bytes res" where
  "fld_read_repo_path f =
     rbind (require_wire malformed f WRepoPath) (\<lambda>_.
     if utf8_valid (fld_value f) then Ok (fld_value f) else Err (malformed ''invalid UTF-8 repo_path: ''))"

definition fld_read_node_id :: "tlv_field \<Rightarrow> node_id res" where
  "fld_read_node_id f =
     rbind (require_wire malformed f WBytes) (\<lambda>_.
     rbind (field_read_array malformed 32 f) node_id_try_from_bytes)"

definition fld_read_node_kind :: "tlv_field \<Rightarrow> node_kind res" where
  "fld_read_node_kind f =
     rbind (require_wire malformed f WEnumU16) (\<lambda>_.
     rbind (field_read_array malformed 2 f) (\<lambda>v. node_kind_from_code (u16_from_be v)))"

definition fld_read_span_hash :: "tlv_field \<Rightarrow> bytes res" where
  "fld_read_span_hash f =
     rbind (require_wire malformed f WBytes) (\<lambda>_. field_read_array malformed TEXT_SPAN_HASH_BYTES f)"

definition fld_read_bytes_vec :: "tlv_field \<Rightarrow> bytes res" where
  "fld_read_bytes_vec f = rbind (require_wire malformed f WBytes) (\<lambda>_. Ok (fld_value f))"

text \<open>
  The recurring shapes of the decoders: \<open>if x.is_some() { return Err(duplicate) } x = Some(read()?)\<close>,
  a required field, and an unknown tag.
\<close>

definition set_once :: "string \<Rightarrow> string \<Rightarrow> 'a option \<Rightarrow> 'a res \<Rightarrow> 'a option res" where
  "set_once rec fld cur val =
     (if cur \<noteq> None then Err (malformed (''duplicate '' @ rec @ '' '' @ fld @ '' field''))
      else rbind val (\<lambda>v. Ok (Some v)))"

definition required :: "string \<Rightarrow> string \<Rightarrow> 'a option \<Rightarrow> 'a res" where
  "required rec fld v = ok_or (malformed (rec @ '' missing '' @ fld)) v"

definition unknown_tag :: "string \<Rightarrow> tlv_field \<Rightarrow> prikk_error" where
  "unknown_tag rec f = malformed (''unknown '' @ rec @ '' field tag: '' @ dec (unat (fld_tag f)))"

section \<open>Decoded operations\<close>

datatype decoded_delete_preimage =
    DPreFile node_kind object_id u32
  | DPreSymlink bytes

text \<open>Arguments in the order of the source's fields.\<close>

datatype decoded_operation_kind =
    DCreateFile bytes node_id object_id u32
  | DDeleteNode bytes node_id decoded_delete_preimage
  | DEditText node_id bytes bytes bytes bytes bytes bytes "u32 option" "u32 option"
  | DReplaceBinary node_id object_id object_id
  | DRenamePath node_id bytes bytes
  | DChangePerm node_id u32 u32
  | DCreateSymlink bytes node_id bytes

record decoded_patch_operation =
  dop_seq :: u32
  dop_kind :: decoded_operation_kind
  dop_patch_id :: "object_id option"

definition unsupported_operation :: "string \<Rightarrow> prikk_error" where
  "unsupported_operation name = UnsupportedObjectType
     (''patch replay plan does not yet support '' @ name @ ''; patch algebra remains a later increment'')"

definition ensure_apply_supported :: "decoded_patch_operation \<Rightarrow> unit res" where
  "ensure_apply_supported op = (case dop_kind op of
     DCreateFile _ _ _ _ \<Rightarrow> Ok ()
   | DDeleteNode _ _ (DPreFile _ _ _) \<Rightarrow> Ok ()
   | DEditText _ _ _ _ _ _ _ _ _ \<Rightarrow> Ok ()
   | DReplaceBinary _ _ _ \<Rightarrow> Ok ()
   | DChangePerm _ _ _ \<Rightarrow> Ok ()
   | DRenamePath _ _ _ \<Rightarrow> Ok ()
   | DDeleteNode _ _ (DPreSymlink _) \<Rightarrow> Err (unsupported_operation ''DeleteNode(symlink)'')
   | DCreateSymlink _ _ _ \<Rightarrow>
       Err (unsupported_operation ''CreateSymlink (apply pending a symlink authoring path)''))"

definition applied_operation_kind_label :: "decoded_operation_kind \<Rightarrow> string" where
  "applied_operation_kind_label k = (case k of
     DCreateFile _ _ _ _ \<Rightarrow> ''create-file''
   | DDeleteNode _ _ _ \<Rightarrow> ''delete-node''
   | DEditText _ _ _ _ _ _ _ _ _ \<Rightarrow> ''edit-text''
   | DReplaceBinary _ _ _ \<Rightarrow> ''replace-binary''
   | DChangePerm _ _ _ \<Rightarrow> ''change-perm''
   | DRenamePath _ _ _ \<Rightarrow> ''rename-path''
   | DCreateSymlink _ _ _ \<Rightarrow> ''create-symlink'')"

section \<open>Operation records\<close>

record create_file_locals =
  lc_path :: "bytes option"
  lc_node_id :: "node_id option"
  lc_blob_id :: "object_id option"
  lc_mode :: "u32 option"

definition create_file_step :: "tlv_field \<Rightarrow> create_file_locals \<Rightarrow> create_file_locals res" where
  "create_file_step f l =
     (if fld_tag f = 1 then
        rbind (set_once ''CreateFile'' ''path'' (lc_path l) (fld_read_repo_path f)) (\<lambda>v. Ok (l\<lparr>lc_path := v\<rparr>))
      else if fld_tag f = 2 then
        rbind (set_once ''CreateFile'' ''node_id'' (lc_node_id l) (fld_read_node_id f)) (\<lambda>v. Ok (l\<lparr>lc_node_id := v\<rparr>))
      else if fld_tag f = 3 then
        rbind (set_once ''CreateFile'' ''blob_id'' (lc_blob_id l) (fld_read_object_id_typed f)) (\<lambda>v. Ok (l\<lparr>lc_blob_id := v\<rparr>))
      else if fld_tag f = 4 then
        rbind (set_once ''CreateFile'' ''mode'' (lc_mode l) (fld_read_u32 f)) (\<lambda>v. Ok (l\<lparr>lc_mode := v\<rparr>))
      else Err (unknown_tag ''CreateFile'' f))"

definition decode_create_file :: "bytes \<Rightarrow> decoded_operation_kind res" where
  "decode_create_file bs =
     rbind (tlv_loop create_file_step \<lparr>lc_path = None, lc_node_id = None, lc_blob_id = None, lc_mode = None\<rparr> bs) (\<lambda>l.
     rbind (required ''CreateFile'' ''path'' (lc_path l)) (\<lambda>path.
     rbind (repo_path_parse path) (\<lambda>_.
     rbind (required ''CreateFile'' ''node_id'' (lc_node_id l)) (\<lambda>node_id.
     rbind (required ''CreateFile'' ''blob_id'' (lc_blob_id l)) (\<lambda>blob_id.
     rbind (required ''CreateFile'' ''mode'' (lc_mode l)) (\<lambda>mode.
     if \<not> is_canonical_file_mode mode then Err (malformed (bad_mode_msg ''CreateFile mode'' mode))
     else Ok (DCreateFile path node_id blob_id mode)))))))"

record delete_node_locals =
  ld_path :: "bytes option"
  ld_node_id :: "node_id option"
  ld_kind :: "node_kind option"
  ld_blob_id :: "object_id option"
  ld_target :: "bytes option"
  ld_mode :: "u32 option"

definition delete_node_step :: "tlv_field \<Rightarrow> delete_node_locals \<Rightarrow> delete_node_locals res" where
  "delete_node_step f l =
     (if fld_tag f = 1 then
        rbind (set_once ''DeleteNode'' ''path'' (ld_path l) (fld_read_repo_path f)) (\<lambda>v. Ok (l\<lparr>ld_path := v\<rparr>))
      else if fld_tag f = 2 then
        rbind (set_once ''DeleteNode'' ''node_id'' (ld_node_id l) (fld_read_node_id f)) (\<lambda>v. Ok (l\<lparr>ld_node_id := v\<rparr>))
      else if fld_tag f = 3 then
        rbind (set_once ''DeleteNode'' ''old_node_kind'' (ld_kind l) (fld_read_node_kind f)) (\<lambda>v. Ok (l\<lparr>ld_kind := v\<rparr>))
      else if fld_tag f = 4 then
        rbind (set_once ''DeleteNode'' ''old_blob_id'' (ld_blob_id l) (fld_read_object_id_typed f)) (\<lambda>v. Ok (l\<lparr>ld_blob_id := v\<rparr>))
      else if fld_tag f = 5 then
        rbind (set_once ''DeleteNode'' ''old_target'' (ld_target l) (fld_read_string f)) (\<lambda>v. Ok (l\<lparr>ld_target := v\<rparr>))
      else if fld_tag f = 6 then
        rbind (set_once ''DeleteNode'' ''old_mode'' (ld_mode l) (fld_read_u32 f)) (\<lambda>v. Ok (l\<lparr>ld_mode := v\<rparr>))
      else Err (unknown_tag ''DeleteNode'' f))"

definition decode_delete_node :: "bytes \<Rightarrow> decoded_operation_kind res" where
  "decode_delete_node bs =
     rbind (tlv_loop delete_node_step \<lparr>ld_path = None, ld_node_id = None, ld_kind = None, ld_blob_id = None,
              ld_target = None, ld_mode = None\<rparr> bs) (\<lambda>l.
     rbind (required ''DeleteNode'' ''path'' (ld_path l)) (\<lambda>path.
     rbind (repo_path_parse path) (\<lambda>_.
     rbind (required ''DeleteNode'' ''node_id'' (ld_node_id l)) (\<lambda>node_id.
     rbind (required ''DeleteNode'' ''old_node_kind'' (ld_kind l)) (\<lambda>kind.
     if kind = Symlink then
       if ld_blob_id l \<noteq> None \<or> ld_mode l \<noteq> None then
         Err (malformed ''DeleteNode symlink kind must not carry old_blob_id/old_mode'')
       else rbind (required ''DeleteNode symlink kind'' ''old_target'' (ld_target l)) (\<lambda>old_target.
         Ok (DDeleteNode path node_id (DPreSymlink old_target)))
     else
       if ld_target l \<noteq> None then Err (malformed ''DeleteNode file kind must not carry old_target'')
       else rbind (required ''DeleteNode file kind'' ''old_blob_id'' (ld_blob_id l)) (\<lambda>old_blob_id.
         rbind (required ''DeleteNode file kind'' ''old_mode'' (ld_mode l)) (\<lambda>old_mode.
         if \<not> is_canonical_file_mode old_mode then
           Err (malformed (bad_mode_msg ''DeleteNode old_mode'' old_mode))
         else Ok (DDeleteNode path node_id (DPreFile kind old_blob_id old_mode)))))))))"

record edit_text_locals =
  le_node_id :: "node_id option"
  le_span_id :: "bytes option"
  le_old_span_hash :: "bytes option"
  le_left_anchor_hash :: "bytes option"
  le_right_anchor_hash :: "bytes option"
  le_replacement_text :: "bytes option"
  le_old_span_text :: "bytes option"
  le_left_anchor_len :: "u32 option"
  le_right_anchor_len :: "u32 option"

definition anchor_len_gate :: "u32 \<Rightarrow> string \<Rightarrow> string \<Rightarrow> unit res" where
  "anchor_len_gate schema_version fld tag =
     fail_if (schema_version < PATCH_TEXT_SPAN_V2_SCHEMA)
       (malformed (''Patch schema '' @ dec (unat schema_version) @ '' must not carry EditText '' @ fld
          @ '' (tag '' @ tag @ ''); requires schema '' @ dec (unat PATCH_TEXT_SPAN_V2_SCHEMA)))"

definition edit_text_step :: "u32 \<Rightarrow> tlv_field \<Rightarrow> edit_text_locals \<Rightarrow> edit_text_locals res" where
  "edit_text_step schema_version f l =
     (if fld_tag f = 1 then
        rbind (set_once ''EditText'' ''node_id'' (le_node_id l) (fld_read_node_id f)) (\<lambda>v. Ok (l\<lparr>le_node_id := v\<rparr>))
      else if fld_tag f = 2 then
        rbind (set_once ''EditText'' ''span_id'' (le_span_id l) (fld_read_span_hash f)) (\<lambda>v. Ok (l\<lparr>le_span_id := v\<rparr>))
      else if fld_tag f = 3 then
        rbind (set_once ''EditText'' ''old_span_hash'' (le_old_span_hash l) (fld_read_span_hash f)) (\<lambda>v. Ok (l\<lparr>le_old_span_hash := v\<rparr>))
      else if fld_tag f = 4 then
        rbind (set_once ''EditText'' ''left_anchor_hash'' (le_left_anchor_hash l) (fld_read_span_hash f)) (\<lambda>v. Ok (l\<lparr>le_left_anchor_hash := v\<rparr>))
      else if fld_tag f = 5 then
        rbind (set_once ''EditText'' ''right_anchor_hash'' (le_right_anchor_hash l) (fld_read_span_hash f)) (\<lambda>v. Ok (l\<lparr>le_right_anchor_hash := v\<rparr>))
      else if fld_tag f = 6 then
        rbind (set_once ''EditText'' ''replacement_text'' (le_replacement_text l) (fld_read_bytes_vec f)) (\<lambda>v. Ok (l\<lparr>le_replacement_text := v\<rparr>))
      else if fld_tag f = 7 \<or> fld_tag f = 8 then
        rbind (fld_read_u32 f) (\<lambda>_. Ok l)
      else if fld_tag f = 9 then
        rbind (set_once ''EditText'' ''old_span_text'' (le_old_span_text l) (fld_read_bytes_vec f)) (\<lambda>v. Ok (l\<lparr>le_old_span_text := v\<rparr>))
      else if fld_tag f = 10 then
        rbind (set_once ''EditText'' ''left_anchor_len'' (le_left_anchor_len l)
          (rbind (anchor_len_gate schema_version ''left_anchor_len'' ''10'') (\<lambda>_. fld_read_u32 f)))
          (\<lambda>v. Ok (l\<lparr>le_left_anchor_len := v\<rparr>))
      else if fld_tag f = 11 then
        rbind (set_once ''EditText'' ''right_anchor_len'' (le_right_anchor_len l)
          (rbind (anchor_len_gate schema_version ''right_anchor_len'' ''11'') (\<lambda>_. fld_read_u32 f)))
          (\<lambda>v. Ok (l\<lparr>le_right_anchor_len := v\<rparr>))
      else Err (unknown_tag ''EditText'' f))"

definition edit_text_init :: edit_text_locals where
  "edit_text_init = \<lparr>le_node_id = None, le_span_id = None, le_old_span_hash = None,
     le_left_anchor_hash = None, le_right_anchor_hash = None, le_replacement_text = None,
     le_old_span_text = None, le_left_anchor_len = None, le_right_anchor_len = None\<rparr>"

definition edit_text_finish :: "(bytes \<Rightarrow> bytes) \<Rightarrow> edit_text_locals \<Rightarrow> decoded_operation_kind res" where
  "edit_text_finish sha256 l =
     rbind (required ''EditText'' ''node_id'' (le_node_id l)) (\<lambda>node_id.
     rbind (required ''EditText'' ''span_id'' (le_span_id l)) (\<lambda>span_id.
     rbind (required ''EditText'' ''left_anchor_hash'' (le_left_anchor_hash l)) (\<lambda>left_anchor_hash.
     rbind (required ''EditText'' ''right_anchor_hash'' (le_right_anchor_hash l)) (\<lambda>right_anchor_hash.
     rbind (required ''EditText'' ''old_span_hash'' (le_old_span_hash l)) (\<lambda>old_span_hash.
     rbind (required ''EditText'' ''replacement_text'' (le_replacement_text l)) (\<lambda>replacement_text.
     rbind (required ''EditText'' ''old_span_text'' (le_old_span_text l)) (\<lambda>old_span_text.
     rbind (fail_if (old_span_hash \<noteq> text_span_hash sha256 old_span_text)
       (malformed ''EditText old_span_hash != SHA-256(old_span_text)'')) (\<lambda>_.
     rbind (fail_if (\<not> utf8_valid old_span_text)
       (malformed ''EditText old_span_text is not well-formed UTF-8'')) (\<lambda>_.
     rbind (fail_if (\<not> utf8_valid replacement_text)
       (malformed ''EditText replacement_text is not well-formed UTF-8'')) (\<lambda>_.
     rbind (case (le_left_anchor_len l, le_right_anchor_len l) of
         (None, None) \<Rightarrow> Ok ()
       | (Some left, Some right) \<Rightarrow>
           fail_if (left < TEXT_SPAN_ANCHOR_MIN_LEN \<or> right < TEXT_SPAN_ANCHOR_MIN_LEN)
             (malformed (''EditText anchor lengths must each be at least '' @ dec (unat TEXT_SPAN_ANCHOR_MIN_LEN)))
       | _ \<Rightarrow> Err (malformed
           ''EditText left_anchor_len and right_anchor_len must be both present or both absent'')) (\<lambda>_.
     Ok (DEditText node_id span_id old_span_hash left_anchor_hash right_anchor_hash replacement_text
           old_span_text (le_left_anchor_len l) (le_right_anchor_len l)))))))))))))"

definition decode_edit_text :: "(bytes \<Rightarrow> bytes) \<Rightarrow> bytes \<Rightarrow> u32 \<Rightarrow> decoded_operation_kind res" where
  "decode_edit_text sha256 bs schema_version =
     rbind (tlv_loop (edit_text_step schema_version) edit_text_init bs) (edit_text_finish sha256)"

record rename_path_locals =
  lr_node_id :: "node_id option"
  lr_old_path :: "bytes option"
  lr_new_path :: "bytes option"

definition rename_path_step :: "tlv_field \<Rightarrow> rename_path_locals \<Rightarrow> rename_path_locals res" where
  "rename_path_step f l =
     (if fld_tag f = 1 then
        rbind (set_once ''RenamePath'' ''node_id'' (lr_node_id l) (fld_read_node_id f)) (\<lambda>v. Ok (l\<lparr>lr_node_id := v\<rparr>))
      else if fld_tag f = 2 then
        rbind (set_once ''RenamePath'' ''old_path'' (lr_old_path l) (fld_read_repo_path f)) (\<lambda>v. Ok (l\<lparr>lr_old_path := v\<rparr>))
      else if fld_tag f = 3 then
        rbind (set_once ''RenamePath'' ''new_path'' (lr_new_path l) (fld_read_repo_path f)) (\<lambda>v. Ok (l\<lparr>lr_new_path := v\<rparr>))
      else Err (unknown_tag ''RenamePath'' f))"

definition decode_rename_path :: "bytes \<Rightarrow> decoded_operation_kind res" where
  "decode_rename_path bs =
     rbind (tlv_loop rename_path_step \<lparr>lr_node_id = None, lr_old_path = None, lr_new_path = None\<rparr> bs) (\<lambda>l.
     rbind (required ''RenamePath'' ''node_id'' (lr_node_id l)) (\<lambda>node_id.
     rbind (required ''RenamePath'' ''old_path'' (lr_old_path l)) (\<lambda>old_path.
     rbind (required ''RenamePath'' ''new_path'' (lr_new_path l)) (\<lambda>new_path.
     rbind (repo_path_parse old_path) (\<lambda>_.
     rbind (repo_path_parse new_path) (\<lambda>_.
     Ok (DRenamePath node_id old_path new_path)))))))"

record change_perm_locals =
  lm_node_id :: "node_id option"
  lm_old_mode :: "u32 option"
  lm_new_mode :: "u32 option"

definition change_perm_step :: "tlv_field \<Rightarrow> change_perm_locals \<Rightarrow> change_perm_locals res" where
  "change_perm_step f l =
     (if fld_tag f = 1 then
        rbind (set_once ''ChangePerm'' ''node_id'' (lm_node_id l) (fld_read_node_id f)) (\<lambda>v. Ok (l\<lparr>lm_node_id := v\<rparr>))
      else if fld_tag f = 2 then
        rbind (set_once ''ChangePerm'' ''old_mode'' (lm_old_mode l) (fld_read_u32 f)) (\<lambda>v. Ok (l\<lparr>lm_old_mode := v\<rparr>))
      else if fld_tag f = 3 then
        rbind (set_once ''ChangePerm'' ''new_mode'' (lm_new_mode l) (fld_read_u32 f)) (\<lambda>v. Ok (l\<lparr>lm_new_mode := v\<rparr>))
      else Err (unknown_tag ''ChangePerm'' f))"

definition decode_change_perm :: "bytes \<Rightarrow> decoded_operation_kind res" where
  "decode_change_perm bs =
     rbind (tlv_loop change_perm_step \<lparr>lm_node_id = None, lm_old_mode = None, lm_new_mode = None\<rparr> bs) (\<lambda>l.
     rbind (required ''ChangePerm'' ''node_id'' (lm_node_id l)) (\<lambda>node_id.
     rbind (required ''ChangePerm'' ''old_mode'' (lm_old_mode l)) (\<lambda>old_mode.
     rbind (required ''ChangePerm'' ''new_mode'' (lm_new_mode l)) (\<lambda>new_mode.
     if \<not> is_canonical_file_mode old_mode then Err (malformed (bad_mode_msg ''ChangePerm old_mode'' old_mode))
     else if \<not> is_canonical_file_mode new_mode then Err (malformed (bad_mode_msg ''ChangePerm new_mode'' new_mode))
     else Ok (DChangePerm node_id old_mode new_mode)))))"

record create_symlink_locals =
  ls_path :: "bytes option"
  ls_node_id :: "node_id option"
  ls_target :: "bytes option"

definition create_symlink_step :: "tlv_field \<Rightarrow> create_symlink_locals \<Rightarrow> create_symlink_locals res" where
  "create_symlink_step f l =
     (if fld_tag f = 1 then
        rbind (set_once ''CreateSymlink'' ''path'' (ls_path l) (fld_read_repo_path f)) (\<lambda>v. Ok (l\<lparr>ls_path := v\<rparr>))
      else if fld_tag f = 2 then
        rbind (set_once ''CreateSymlink'' ''node_id'' (ls_node_id l) (fld_read_node_id f)) (\<lambda>v. Ok (l\<lparr>ls_node_id := v\<rparr>))
      else if fld_tag f = 3 then
        rbind (set_once ''CreateSymlink'' ''target'' (ls_target l) (fld_read_string f)) (\<lambda>v. Ok (l\<lparr>ls_target := v\<rparr>))
      else Err (unknown_tag ''CreateSymlink'' f))"

definition decode_create_symlink :: "bytes \<Rightarrow> decoded_operation_kind res" where
  "decode_create_symlink bs =
     rbind (tlv_loop create_symlink_step \<lparr>ls_path = None, ls_node_id = None, ls_target = None\<rparr> bs) (\<lambda>l.
     rbind (required ''CreateSymlink'' ''path'' (ls_path l)) (\<lambda>path.
     rbind (required ''CreateSymlink'' ''node_id'' (ls_node_id l)) (\<lambda>node_id.
     rbind (required ''CreateSymlink'' ''target'' (ls_target l)) (\<lambda>target.
     rbind (repo_path_parse path) (\<lambda>_.
     Ok (DCreateSymlink path node_id target))))))"

record replace_binary_locals =
  lb_node_id :: "node_id option"
  lb_old_blob_id :: "object_id option"
  lb_new_blob_id :: "object_id option"

definition replace_binary_step :: "tlv_field \<Rightarrow> replace_binary_locals \<Rightarrow> replace_binary_locals res" where
  "replace_binary_step f l =
     (if fld_tag f = 1 then
        rbind (set_once ''ReplaceBinary'' ''node_id'' (lb_node_id l) (fld_read_node_id f)) (\<lambda>v. Ok (l\<lparr>lb_node_id := v\<rparr>))
      else if fld_tag f = 2 then
        rbind (set_once ''ReplaceBinary'' ''old_blob_id'' (lb_old_blob_id l) (fld_read_object_id_typed f)) (\<lambda>v. Ok (l\<lparr>lb_old_blob_id := v\<rparr>))
      else if fld_tag f = 3 then
        rbind (set_once ''ReplaceBinary'' ''new_blob_id'' (lb_new_blob_id l) (fld_read_object_id_typed f)) (\<lambda>v. Ok (l\<lparr>lb_new_blob_id := v\<rparr>))
      else Err (unknown_tag ''ReplaceBinary'' f))"

definition decode_replace_binary :: "bytes \<Rightarrow> decoded_operation_kind res" where
  "decode_replace_binary bs =
     rbind (tlv_loop replace_binary_step \<lparr>lb_node_id = None, lb_old_blob_id = None, lb_new_blob_id = None\<rparr> bs) (\<lambda>l.
     rbind (required ''ReplaceBinary'' ''node_id'' (lb_node_id l)) (\<lambda>node_id.
     rbind (required ''ReplaceBinary'' ''old_blob_id'' (lb_old_blob_id l)) (\<lambda>old_blob_id.
     rbind (required ''ReplaceBinary'' ''new_blob_id'' (lb_new_blob_id l)) (\<lambda>new_blob_id.
     Ok (DReplaceBinary node_id old_blob_id new_blob_id)))))"

section \<open>Operations and patches\<close>

definition operation_step ::
  "tlv_field \<Rightarrow> u32 option \<times> (u16 \<times> bytes) option \<Rightarrow> (u32 option \<times> (u16 \<times> bytes) option) res" where
  "operation_step f = (\<lambda>(op_seq, kind).
     if fld_tag f = 1 then
       rbind (set_once ''Operation'' ''op_seq'' op_seq (fld_read_u32 f)) (\<lambda>v. Ok (v, kind))
     else if fld_tag f = 2 \<or> fld_tag f = 3 then Ok (op_seq, kind)
     else if 10 \<le> fld_tag f \<and> fld_tag f \<le> 16 then
       (case kind of
          Some (first, _) \<Rightarrow> Err (malformed (''Operation carries multiple kind records: tag ''
            @ dec (unat first) @ '' and tag '' @ dec (unat (fld_tag f))))
        | None \<Rightarrow> rbind (require_wire malformed f WRecord) (\<lambda>_. Ok (op_seq, Some (fld_tag f, fld_value f))))
     else Err (unknown_tag ''Operation'' f))"

definition decode_kind :: "(bytes \<Rightarrow> bytes) \<Rightarrow> u16 \<Rightarrow> bytes \<Rightarrow> u32 \<Rightarrow> decoded_operation_kind res" where
  "decode_kind sha256 kind_tag value schema_version =
     (if kind_tag = 10 then decode_create_file value
      else if kind_tag = 11 then decode_delete_node value
      else if kind_tag = 12 then decode_edit_text sha256 value schema_version
      else if kind_tag = 13 then decode_rename_path value
      else if kind_tag = 14 then decode_change_perm value
      else if kind_tag = 15 then decode_create_symlink value
      else if kind_tag = 16 then decode_replace_binary value
      else Err (malformed (''Operation kind tag '' @ dec (unat kind_tag)
             @ '' is outside the constrained 10..=16 range'')))"

definition decode_operation ::
  "(bytes \<Rightarrow> bytes) \<Rightarrow> bytes \<Rightarrow> nat \<Rightarrow> u32 \<Rightarrow> decoded_patch_operation res" where
  "decode_operation sha256 bs index schema_version =
     rbind (tlv_loop operation_step (None, None) bs) (\<lambda>(op_seq, kind).
     rbind (required ''Operation'' ''op_seq'' op_seq) (\<lambda>op_seq.
     rbind (fail_if (unat op_seq \<noteq> index + 1)
       (malformed (''operation op_seq '' @ dec (unat op_seq) @ '' does not match physical position ''
          @ dec index @ '' (expected '' @ dec (index + 1) @ '')''))) (\<lambda>_.
     rbind (required ''Operation'' ''kind'' kind) (\<lambda>(kind_tag, value).
     rbind (decode_kind sha256 kind_tag value schema_version) (\<lambda>k.
     Ok \<lparr>dop_seq = op_seq, dop_kind = k, dop_patch_id = None\<rparr>)))))"

definition message_gate :: "u32 \<Rightarrow> unit res" where
  "message_gate schema_version =
     fail_if (schema_version < PATCH_MESSAGE_SCHEMA)
       (malformed (''Patch schema '' @ dec (unat schema_version)
          @ '' must not carry message (tag 6); requires schema '' @ dec (unat PATCH_MESSAGE_SCHEMA)))"

definition patch_step ::
  "(bytes \<Rightarrow> bytes) \<Rightarrow> u32 \<Rightarrow> tlv_field \<Rightarrow> decoded_patch_operation list \<Rightarrow> decoded_patch_operation list res" where
  "patch_step sha256 schema_version f operations =
     (if fld_tag f = 1 then
        rbind (require_wire malformed f WRecordListItem) (\<lambda>_.
        rbind (decode_operation sha256 (fld_value f) (length operations) schema_version) (\<lambda>op.
        Ok (operations @ [op])))
      else if fld_tag f = 2 then
        rbind (fail_if (schema_version \<ge> PATCH_PARENT_IDS_RETIRED_SCHEMA)
          (malformed (''Patch schema '' @ dec (unat schema_version)
             @ '' must not carry parent_patch_ids (tag 2); retired at schema ''
             @ dec (unat PATCH_PARENT_IDS_RETIRED_SCHEMA)))) (\<lambda>_. Ok operations)
      else if fld_tag f = 3 \<or> fld_tag f = 4 then Ok operations
      else if fld_tag f = 5 then
        rbind (require_wire malformed f WEnumU16) (\<lambda>_. rbind (fld_read_u16 f) (\<lambda>_. Ok operations))
      else if fld_tag f = 6 then
        rbind (message_gate schema_version) (\<lambda>_.
        rbind (require_wire malformed f WString) (\<lambda>_. rbind (fld_read_string f) (\<lambda>_. Ok operations)))
      else Err (unknown_tag ''Patch'' f))"

definition decode_patch_operations ::
  "(bytes \<Rightarrow> bytes) \<Rightarrow> bytes \<Rightarrow> u32 \<Rightarrow> decoded_patch_operation list res" where
  "decode_patch_operations sha256 bs schema_version =
     rbind (map_err (\<lambda>e. malformed (''invalid PatchPurpose canonical form: '' @ display_error e))
       (decode_purpose bs)) (\<lambda>_.
     rbind (tlv_loop (patch_step sha256 schema_version) [] bs) (\<lambda>operations.
     if operations = [] then Err (malformed ''Patch missing operations'') else Ok operations))"

fun operation_blob_ids :: "decoded_operation_kind \<Rightarrow> object_id list" where
  "operation_blob_ids (DCreateFile _ _ blob_id _) = [blob_id]"
| "operation_blob_ids (DReplaceBinary _ old_blob_id new_blob_id) = [old_blob_id, new_blob_id]"
| "operation_blob_ids (DDeleteNode _ _ (DPreFile _ old_blob_id _)) = [old_blob_id]"
| "operation_blob_ids _ = []"

definition patch_referenced_blob_ids :: "(bytes \<Rightarrow> bytes) \<Rightarrow> bytes \<Rightarrow> u32 \<Rightarrow> object_id list res" where
  "patch_referenced_blob_ids sha256 bs schema_version =
     rbind (decode_patch_operations sha256 bs schema_version) (\<lambda>ops.
     Ok (concat (map (operation_blob_ids \<circ> dop_kind) ops)))"

definition parent_ids_step :: "tlv_field \<Rightarrow> object_id list \<Rightarrow> object_id list res" where
  "parent_ids_step f ids =
     (if fld_tag f = 2 then rbind (fld_read_object_id_typed f) (\<lambda>i. Ok (ids @ [i])) else Ok ids)"

definition decode_patch_parent_ids :: "bytes \<Rightarrow> object_id list res" where
  "decode_patch_parent_ids bs = tlv_loop parent_ids_step [] bs"

definition message_step :: "u32 \<Rightarrow> tlv_field \<Rightarrow> bytes option \<Rightarrow> bytes option res" where
  "message_step schema_version f message =
     (if fld_tag f = 6 then
        rbind (message_gate schema_version) (\<lambda>_.
        if message \<noteq> None then Err (malformed ''duplicate Patch message field'')
        else rbind (fld_read_string f) (\<lambda>value.
          if value = [] then Err (malformed ''Patch message must not be empty'') else Ok (Some value)))
      else Ok message)"

definition decode_patch_message :: "bytes \<Rightarrow> u32 \<Rightarrow> bytes option res" where
  "decode_patch_message bs schema_version = tlv_loop (message_step schema_version) None bs"

section \<open>Lemmas: field readers on written fields\<close>

lemma utf8_path: "path_ok p \<Longrightarrow> utf8_valid p"
proof -
  assume "path_ok p"
  then have "\<forall>b \<in> set p. b < 0x7F"
    by (simp add: path_ok_def)
  then have "is_ascii_bytes p"
    by (auto simp: is_ascii_bytes_def word_less_nat_alt)
  then show ?thesis
    by (rule utf8_valid_ascii)
qed

lemma fld_readers [simp]:
  "utf8_valid v \<Longrightarrow> fld_read_string (tf t WString v) = Ok v"
  "utf8_valid v \<Longrightarrow> fld_read_repo_path (tf t WRepoPath v) = Ok v"
  "fld_read_u32 (tf t WU32 (u32_be x)) = Ok x"
  "fld_read_u16 (tf t WEnumU16 (u16_be y)) = Ok y"
  "wf_id i \<Longrightarrow> fld_read_object_id_typed (tf t WObjectId (id_bytes i)) = Ok i"
  "wf_node_id n \<Longrightarrow> \<not> node_id_is_zero n \<Longrightarrow> fld_read_node_id (tf t WBytes (node_bytes n)) = Ok n"
  "fld_read_node_kind (tf t WEnumU16 (u16_be (node_kind_code k))) = Ok k"
  "length v = 32 \<Longrightarrow> fld_read_span_hash (tf t WBytes v) = Ok v"
  "fld_read_bytes_vec (tf t WBytes v) = Ok v"
  by (simp_all add: fld_read_string_def fld_read_repo_path_def fld_read_u32_def fld_read_u16_def
      fld_read_object_id_typed_def fld_read_node_id_def fld_read_node_kind_def fld_read_span_hash_def
      fld_read_bytes_vec_def field_read_array_def wf_id_def wf_node_id_def node_id_is_zero_def
      node_id_try_from_bytes_def TEXT_SPAN_HASH_BYTES_def)

lemma set_once_None [simp]: "set_once r f None v = rbind v (\<lambda>x. Ok (Some x))"
  by (simp add: set_once_def)

lemma required_Some [simp]: "required r f (Some v) = Ok v"
  by (simp add: required_def)

lemma required_Ok [simp]: "required r f v = Ok x \<longleftrightarrow> v = Some x"
  by (simp add: required_def)

lemma tlv_loop_fields:
  "tags_from None fs \<Longrightarrow> length (fields_bytes fs) < usize_limit \<Longrightarrow> tlv_loop step s (fields_bytes fs) = rfold step fs s"
  by (simp add: tlv_loop_def decode_fields_bytes)

section \<open>Lemmas: layouts of the operation records\<close>

definition create_file_fields :: "create_file \<Rightarrow> tlv_field list" where
  "create_file_fields c = [tf 1 WRepoPath (cf_path c), tf 2 WBytes (node_bytes (cf_node_id c)),
     tf 3 WObjectId (id_bytes (cf_blob_id c)), tf 4 WU32 (u32_be (cf_mode c))]"

definition delete_node_fields :: "delete_node \<Rightarrow> tlv_field list" where
  "delete_node_fields d = [tf 1 WRepoPath (dn_path d), tf 2 WBytes (node_bytes (dn_node_id d)),
     tf 3 WEnumU16 (u16_be (node_kind_code (dn_old_node_kind d)))]
     @ (case dn_preimage d of
          PreFile b m \<Rightarrow> [tf 4 WObjectId (id_bytes b), tf 6 WU32 (u32_be m)]
        | PreSymlink t \<Rightarrow> [tf 5 WString t])"

definition u32_opt_field :: "u16 \<Rightarrow> u32 option \<Rightarrow> tlv_field list" where
  "u32_opt_field t v = (case v of None \<Rightarrow> [] | Some x \<Rightarrow> [tf t WU32 (u32_be x)])"

definition edit_text_fields :: "edit_text \<Rightarrow> tlv_field list" where
  "edit_text_fields e = [tf 1 WBytes (node_bytes (et_node_id e)), tf 2 WBytes (et_span_id e),
     tf 3 WBytes (et_old_span_hash e), tf 4 WBytes (et_left_anchor_hash e),
     tf 5 WBytes (et_right_anchor_hash e), tf 6 WBytes (et_replacement_text e)]
     @ u32_opt_field 7 (et_hint_line e) @ u32_opt_field 8 (et_hint_column e)
     @ [tf 9 WBytes (et_old_span_text e)]
     @ u32_opt_field 10 (et_left_anchor_len e) @ u32_opt_field 11 (et_right_anchor_len e)"

definition rename_path_fields :: "rename_path \<Rightarrow> tlv_field list" where
  "rename_path_fields r = [tf 1 WBytes (node_bytes (rp_node_id r)), tf 2 WRepoPath (rp_old_path r),
     tf 3 WRepoPath (rp_new_path r)]"

definition change_perm_fields :: "change_perm \<Rightarrow> tlv_field list" where
  "change_perm_fields c = [tf 1 WBytes (node_bytes (cp_node_id c)), tf 2 WU32 (u32_be (cp_old_mode c)),
     tf 3 WU32 (u32_be (cp_new_mode c))]"

definition create_symlink_fields :: "create_symlink \<Rightarrow> tlv_field list" where
  "create_symlink_fields c = [tf 1 WRepoPath (cs_path c), tf 2 WBytes (node_bytes (cs_node_id c)),
     tf 3 WString (cs_target c)]"

definition replace_binary_fields :: "replace_binary \<Rightarrow> tlv_field list" where
  "replace_binary_fields r = [tf 1 WBytes (node_bytes (rb_node_id r)),
     tf 2 WObjectId (id_bytes (rb_old_blob_id r)), tf 3 WObjectId (id_bytes (rb_new_blob_id r))]"

lemma field_u32_opt_Ok [simp]:
  "field_u32_opt t v (writer_of fs) = Ok w \<longleftrightarrow>
     (v = None \<or> can_emit fs t) \<and> w = writer_of (fs @ u32_opt_field t v)"
  by (auto simp: field_u32_opt_def u32_opt_field_def field_defs split: option.splits)

lemma encode_create_file_Ok:
  "to_canonical_bytes encode_create_file c = Ok bs \<longleftrightarrow>
     validate_create_file c = Ok () \<and> bs = fields_bytes (create_file_fields c)"
  by (auto simp: to_canonical_bytes_def encode_create_file_def new_writer_of field_defs create_file_fields_def)

lemma encode_delete_node_Ok:
  "to_canonical_bytes encode_delete_node d = Ok bs \<longleftrightarrow>
     validate_delete_node d = Ok () \<and> bs = fields_bytes (delete_node_fields d)"
  by (cases "dn_preimage d")
    (auto simp: to_canonical_bytes_def encode_delete_node_def new_writer_of field_defs delete_node_fields_def)

lemma encode_edit_text_Ok:
  "to_canonical_bytes (encode_edit_text H) e = Ok bs \<longleftrightarrow>
     validate_edit_text H e = Ok () \<and> bs = fields_bytes (edit_text_fields e)"
  by (cases "et_hint_line e"; cases "et_hint_column e"; cases "et_left_anchor_len e"; cases "et_right_anchor_len e")
    (auto simp: to_canonical_bytes_def encode_edit_text_def new_writer_of field_defs edit_text_fields_def
      u32_opt_field_def)

lemma encode_rename_path_Ok:
  "to_canonical_bytes encode_rename_path r = Ok bs \<longleftrightarrow>
     validate_rename_path r = Ok () \<and> bs = fields_bytes (rename_path_fields r)"
  by (auto simp: to_canonical_bytes_def encode_rename_path_def new_writer_of field_defs rename_path_fields_def)

lemma encode_change_perm_Ok:
  "to_canonical_bytes encode_change_perm c = Ok bs \<longleftrightarrow>
     validate_change_perm c = Ok () \<and> bs = fields_bytes (change_perm_fields c)"
  by (auto simp: to_canonical_bytes_def encode_change_perm_def new_writer_of field_defs change_perm_fields_def)

lemma encode_create_symlink_Ok:
  "to_canonical_bytes encode_create_symlink c = Ok bs \<longleftrightarrow>
     validate_create_symlink c = Ok () \<and> bs = fields_bytes (create_symlink_fields c)"
  by (auto simp: to_canonical_bytes_def encode_create_symlink_def new_writer_of field_defs create_symlink_fields_def)

lemma encode_replace_binary_Ok:
  "to_canonical_bytes encode_replace_binary r = Ok bs \<longleftrightarrow>
     validate_replace_binary r = Ok () \<and> bs = fields_bytes (replace_binary_fields r)"
  by (auto simp: to_canonical_bytes_def encode_replace_binary_def new_writer_of field_defs replace_binary_fields_def)

section \<open>Lemmas: decoding what was encoded\<close>

text \<open>What the Rust types guarantee of an authored operation: array lengths and UTF-8 strings.\<close>

fun wf_kind :: "operation_kind \<Rightarrow> bool" where
  "wf_kind (CreateFile c) \<longleftrightarrow> wf_node_id (cf_node_id c) \<and> wf_id (cf_blob_id c)"
| "wf_kind (DeleteNode d) \<longleftrightarrow> wf_node_id (dn_node_id d)
     \<and> (case dn_preimage d of PreFile b _ \<Rightarrow> wf_id b | PreSymlink t \<Rightarrow> utf8_valid t)"
| "wf_kind (EditText e) \<longleftrightarrow> wf_node_id (et_node_id e) \<and> length (et_span_id e) = 32
     \<and> length (et_old_span_hash e) = 32 \<and> length (et_left_anchor_hash e) = 32
     \<and> length (et_right_anchor_hash e) = 32"
| "wf_kind (RenamePath r) \<longleftrightarrow> wf_node_id (rp_node_id r)"
| "wf_kind (ChangePerm c) \<longleftrightarrow> wf_node_id (cp_node_id c)"
| "wf_kind (CreateSymlink c) \<longleftrightarrow> wf_node_id (cs_node_id c) \<and> utf8_valid (cs_target c)"
| "wf_kind (ReplaceBinary r) \<longleftrightarrow> wf_node_id (rb_node_id r) \<and> wf_id (rb_old_blob_id r) \<and> wf_id (rb_new_blob_id r)"

text \<open>The schema an operation needs: anchor lengths exist from schema 3 on.\<close>

fun kind_schema_ok :: "u32 \<Rightarrow> operation_kind \<Rightarrow> bool" where
  "kind_schema_ok v (EditText e) \<longleftrightarrow>
     (et_left_anchor_len e \<noteq> None \<or> et_right_anchor_len e \<noteq> None \<longrightarrow> PATCH_TEXT_SPAN_V2_SCHEMA \<le> v)"
| "kind_schema_ok v _ \<longleftrightarrow> True"

text \<open>The decoded form of an authored operation: presentation hints are dropped.\<close>

fun decoded_kind :: "operation_kind \<Rightarrow> decoded_operation_kind" where
  "decoded_kind (CreateFile c) = DCreateFile (cf_path c) (cf_node_id c) (cf_blob_id c) (cf_mode c)"
| "decoded_kind (DeleteNode d) = DDeleteNode (dn_path d) (dn_node_id d)
     (case dn_preimage d of PreFile b m \<Rightarrow> DPreFile (dn_old_node_kind d) b m | PreSymlink t \<Rightarrow> DPreSymlink t)"
| "decoded_kind (EditText e) = DEditText (et_node_id e) (et_span_id e) (et_old_span_hash e)
     (et_left_anchor_hash e) (et_right_anchor_hash e) (et_replacement_text e) (et_old_span_text e)
     (et_left_anchor_len e) (et_right_anchor_len e)"
| "decoded_kind (RenamePath r) = DRenamePath (rp_node_id r) (rp_old_path r) (rp_new_path r)"
| "decoded_kind (ChangePerm c) = DChangePerm (cp_node_id c) (cp_old_mode c) (cp_new_mode c)"
| "decoded_kind (CreateSymlink c) = DCreateSymlink (cs_path c) (cs_node_id c) (cs_target c)"
| "decoded_kind (ReplaceBinary r) = DReplaceBinary (rb_node_id r) (rb_old_blob_id r) (rb_new_blob_id r)"

lemma path_facts: "validate_repo_path p = Ok () \<Longrightarrow> repo_path_parse p = Ok (RepoPath p) \<and> utf8_valid p"
  by (simp add: repo_path_parse_Ok validate_repo_path_iff utf8_path)

lemma decode_create_file_fields:
  assumes "validate_create_file c = Ok ()" "wf_kind (CreateFile c)"
    and "length (fields_bytes (create_file_fields c)) < usize_limit"
  shows "decode_create_file (fields_bytes (create_file_fields c)) = Ok (decoded_kind (CreateFile c))"
proof -
  have tags: "tags_from None (create_file_fields c)"
    by (simp add: create_file_fields_def)
  have "\<not> node_id_is_zero (cf_node_id c)" "is_canonical_file_mode (cf_mode c)"
      "repo_path_parse (cf_path c) = Ok (RepoPath (cf_path c))" "utf8_valid (cf_path c)"
    using assms(1) path_facts by (auto simp: validate_create_file_def)
  then show ?thesis
    using assms(2)
    unfolding decode_create_file_def tlv_loop_fields [OF tags assms(3)]
    by (simp add: create_file_fields_def create_file_step_def)
qed

lemma decode_delete_node_fields:
  assumes "validate_delete_node d = Ok ()" "wf_kind (DeleteNode d)"
    and "length (fields_bytes (delete_node_fields d)) < usize_limit"
  shows "decode_delete_node (fields_bytes (delete_node_fields d)) = Ok (decoded_kind (DeleteNode d))"
proof -
  have tags: "tags_from None (delete_node_fields d)"
    by (simp add: delete_node_fields_def split: delete_node_preimage.split)
  have "\<not> node_id_is_zero (dn_node_id d)"
      "repo_path_parse (dn_path d) = Ok (RepoPath (dn_path d))" "utf8_valid (dn_path d)"
    using assms(1) path_facts by (auto simp: validate_delete_node_def)
  then show ?thesis
    using assms(1,2)
    unfolding decode_delete_node_def tlv_loop_fields [OF tags assms(3)]
    by (cases "dn_preimage d"; cases "dn_old_node_kind d")
      (simp_all add: delete_node_fields_def delete_node_step_def validate_delete_node_def
        del: node_kind_code.simps)
qed

lemma decode_edit_text_fields:
  assumes "validate_edit_text H e = Ok ()" "wf_kind (EditText e)" "kind_schema_ok v (EditText e)"
    and "length (fields_bytes (edit_text_fields e)) < usize_limit"
  shows "decode_edit_text H (fields_bytes (edit_text_fields e)) v = Ok (decoded_kind (EditText e))"
proof -
  have tags: "tags_from None (edit_text_fields e)"
    by (simp add: edit_text_fields_def u32_opt_field_def split: option.split)
  have nz: "\<not> node_id_is_zero (et_node_id e)"
    using assms(1) by (auto simp: validate_edit_text_def)
  have "rfold (edit_text_step v) (edit_text_fields e) edit_text_init =
      Ok \<lparr>le_node_id = Some (et_node_id e), le_span_id = Some (et_span_id e),
          le_old_span_hash = Some (et_old_span_hash e), le_left_anchor_hash = Some (et_left_anchor_hash e),
          le_right_anchor_hash = Some (et_right_anchor_hash e),
          le_replacement_text = Some (et_replacement_text e), le_old_span_text = Some (et_old_span_text e),
          le_left_anchor_len = et_left_anchor_len e, le_right_anchor_len = et_right_anchor_len e\<rparr>"
    using assms(2,3) nz
    by (cases "et_hint_line e"; cases "et_hint_column e"; cases "et_left_anchor_len e"; cases "et_right_anchor_len e")
      (simp_all add: edit_text_fields_def edit_text_step_def edit_text_init_def u32_opt_field_def
        anchor_len_gate_def)
  then show ?thesis
    using assms(1)
    by (auto simp: decode_edit_text_def tlv_loop_fields [OF tags assms(4)] edit_text_finish_def
        validate_edit_text_def split: if_splits option.splits)
qed

lemma decode_rename_path_fields:
  assumes "validate_rename_path r = Ok ()" "wf_kind (RenamePath r)"
    and "length (fields_bytes (rename_path_fields r)) < usize_limit"
  shows "decode_rename_path (fields_bytes (rename_path_fields r)) = Ok (decoded_kind (RenamePath r))"
proof -
  have tags: "tags_from None (rename_path_fields r)"
    by (simp add: rename_path_fields_def)
  have "\<not> node_id_is_zero (rp_node_id r)"
      "repo_path_parse (rp_old_path r) = Ok (RepoPath (rp_old_path r))" "utf8_valid (rp_old_path r)"
      "repo_path_parse (rp_new_path r) = Ok (RepoPath (rp_new_path r))" "utf8_valid (rp_new_path r)"
    using assms(1) path_facts by (auto simp: validate_rename_path_def)
  then show ?thesis
    using assms(2)
    unfolding decode_rename_path_def tlv_loop_fields [OF tags assms(3)]
    by (simp add: rename_path_fields_def rename_path_step_def)
qed

lemma decode_change_perm_fields:
  assumes "validate_change_perm c = Ok ()" "wf_kind (ChangePerm c)"
    and "length (fields_bytes (change_perm_fields c)) < usize_limit"
  shows "decode_change_perm (fields_bytes (change_perm_fields c)) = Ok (decoded_kind (ChangePerm c))"
proof -
  have tags: "tags_from None (change_perm_fields c)"
    by (simp add: change_perm_fields_def)
  have "\<not> node_id_is_zero (cp_node_id c)" "is_canonical_file_mode (cp_old_mode c)"
      "is_canonical_file_mode (cp_new_mode c)"
    using assms(1) by (auto simp: validate_change_perm_def)
  then show ?thesis
    using assms(2)
    unfolding decode_change_perm_def tlv_loop_fields [OF tags assms(3)]
    by (simp add: change_perm_fields_def change_perm_step_def)
qed

lemma decode_create_symlink_fields:
  assumes "validate_create_symlink c = Ok ()" "wf_kind (CreateSymlink c)"
    and "length (fields_bytes (create_symlink_fields c)) < usize_limit"
  shows "decode_create_symlink (fields_bytes (create_symlink_fields c)) = Ok (decoded_kind (CreateSymlink c))"
proof -
  have tags: "tags_from None (create_symlink_fields c)"
    by (simp add: create_symlink_fields_def)
  have "\<not> node_id_is_zero (cs_node_id c)"
      "repo_path_parse (cs_path c) = Ok (RepoPath (cs_path c))" "utf8_valid (cs_path c)"
    using assms(1) path_facts by (auto simp: validate_create_symlink_def)
  then show ?thesis
    using assms(2)
    unfolding decode_create_symlink_def tlv_loop_fields [OF tags assms(3)]
    by (simp add: create_symlink_fields_def create_symlink_step_def)
qed

lemma decode_replace_binary_fields:
  assumes "validate_replace_binary r = Ok ()" "wf_kind (ReplaceBinary r)"
    and "length (fields_bytes (replace_binary_fields r)) < usize_limit"
  shows "decode_replace_binary (fields_bytes (replace_binary_fields r)) = Ok (decoded_kind (ReplaceBinary r))"
proof -
  have tags: "tags_from None (replace_binary_fields r)"
    by (simp add: replace_binary_fields_def)
  have "\<not> node_id_is_zero (rb_node_id r)"
    using assms(1) by (auto simp: validate_replace_binary_def)
  then show ?thesis
    using assms(2)
    unfolding decode_replace_binary_def tlv_loop_fields [OF tags assms(3)]
    by (simp add: replace_binary_fields_def replace_binary_step_def)
qed

text \<open>The encoder, the record tag and the decoder of each kind belong together.\<close>

fun kind_tag :: "operation_kind \<Rightarrow> u16" where
  "kind_tag (CreateFile _) = 10"
| "kind_tag (DeleteNode _) = 11"
| "kind_tag (EditText _) = 12"
| "kind_tag (RenamePath _) = 13"
| "kind_tag (ChangePerm _) = 14"
| "kind_tag (CreateSymlink _) = 15"
| "kind_tag (ReplaceBinary _) = 16"

fun kind_bytes :: "(bytes \<Rightarrow> bytes) \<Rightarrow> operation_kind \<Rightarrow> bytes res" where
  "kind_bytes H (CreateFile v) = to_canonical_bytes encode_create_file v"
| "kind_bytes H (DeleteNode v) = to_canonical_bytes encode_delete_node v"
| "kind_bytes H (EditText v) = to_canonical_bytes (encode_edit_text H) v"
| "kind_bytes H (RenamePath v) = to_canonical_bytes encode_rename_path v"
| "kind_bytes H (ChangePerm v) = to_canonical_bytes encode_change_perm v"
| "kind_bytes H (CreateSymlink v) = to_canonical_bytes encode_create_symlink v"
| "kind_bytes H (ReplaceBinary v) = to_canonical_bytes encode_replace_binary v"

lemma decode_kind_bytes:
  assumes "kind_bytes H k = Ok kbs" "wf_kind k" "kind_schema_ok v k" "length kbs < usize_limit"
  shows "decode_kind H (kind_tag k) kbs v = Ok (decoded_kind k)"
proof (cases k)
  case (CreateFile c)
  then show ?thesis
    using assms decode_create_file_fields [of c] by (auto simp: decode_kind_def encode_create_file_Ok)
next
  case (DeleteNode d)
  then show ?thesis
    using assms decode_delete_node_fields [of d] by (auto simp: decode_kind_def encode_delete_node_Ok)
next
  case (EditText e)
  then show ?thesis
    using assms decode_edit_text_fields [of H e v] by (auto simp: decode_kind_def encode_edit_text_Ok)
next
  case (RenamePath r)
  then show ?thesis
    using assms decode_rename_path_fields [of r] by (auto simp: decode_kind_def encode_rename_path_Ok)
next
  case (ChangePerm c)
  then show ?thesis
    using assms decode_change_perm_fields [of c] by (auto simp: decode_kind_def encode_change_perm_Ok)
next
  case (CreateSymlink c)
  then show ?thesis
    using assms decode_create_symlink_fields [of c] by (auto simp: decode_kind_def encode_create_symlink_Ok)
next
  case (ReplaceBinary r)
  then show ?thesis
    using assms decode_replace_binary_fields [of r] by (auto simp: decode_kind_def encode_replace_binary_Ok)
qed

definition str_opt_field :: "u16 \<Rightarrow> bytes option \<Rightarrow> tlv_field list" where
  "str_opt_field t v = (case v of None \<Rightarrow> [] | Some x \<Rightarrow> [tf t WString x])"

definition operation_fields :: "operation \<Rightarrow> bytes list \<Rightarrow> bytes \<Rightarrow> tlv_field list" where
  "operation_fields op cbs kbs =
     [tf 1 WU32 (u32_be (op_seq op))] @ str_opt_field 2 (op_id op) @ map (tf 3 WRecord) cbs
     @ [tf (kind_tag (op_kind op)) WRecord kbs]"

lemma encode_operation_kind:
  "encode_operation H op w =
     rbind (field_u32 1 (op_seq op) w) (\<lambda>w.
     rbind (field_string_opt 2 (op_id op) w) (\<lambda>w.
     rbind (repeated_record encode_condition 3 (op_preconditions op) w) (\<lambda>w.
     rbind (kind_bytes H (op_kind op)) (\<lambda>kbs. field_raw (kind_tag (op_kind op)) WRecord kbs w))))"
  by (cases "op_kind op") (simp_all add: encode_operation_def field_record_def)

lemma kind_tag_simps [simp]:
  "kind_tag k \<noteq> 0" "kind_tag k \<noteq> 1" "kind_tag k \<noteq> 2" "kind_tag k \<noteq> 3" "1 \<le> kind_tag k" "2 \<le> kind_tag k"
  "3 \<le> kind_tag k" "10 \<le> kind_tag k" "kind_tag k \<le> 16"
  by (cases k; simp)+

lemma encode_operation_Ok:
  "to_canonical_bytes (encode_operation H) op = Ok bs \<longleftrightarrow>
     (\<exists>cbs kbs. rmap (to_canonical_bytes encode_condition) (op_preconditions op) = Ok cbs
        \<and> kind_bytes H (op_kind op) = Ok kbs \<and> bs = fields_bytes (operation_fields op cbs kbs))"
proof (cases "op_id op")
  case None
  then show ?thesis
    by (auto simp: to_canonical_bytes_def encode_operation_kind new_writer_of field_u32_def
        operation_fields_def str_opt_field_def)
next
  case (Some i)
  then show ?thesis
    by (auto simp: to_canonical_bytes_def encode_operation_kind new_writer_of field_u32_def
        operation_fields_def str_opt_field_def)
qed

lemma operation_fields_tags: "tags_from None (operation_fields op cbs kbs)"
  by (auto simp: tags_from_iff operation_fields_def str_opt_field_def sorted_append comp_def
      map_replicate_const split: option.split)

lemma operation_conditions_fold [simp]: "rfold operation_step (map (tf 3 WRecord) cbs) s = Ok s"
  by (induction cbs) (auto simp: operation_step_def split: prod.split)

lemma fields_bytes_last_length: "length kbs \<le> length (fields_bytes (fs @ [tf t wr kbs]))"
  by (simp add: length_fbytes)

definition decoded_operation :: "operation \<Rightarrow> decoded_patch_operation" where
  "decoded_operation op = \<lparr>dop_seq = op_seq op, dop_kind = decoded_kind (op_kind op), dop_patch_id = None\<rparr>"

lemma decode_operation_bytes:
  assumes "to_canonical_bytes (encode_operation H) op = Ok bs" "wf_kind (op_kind op)"
    and "kind_schema_ok v (op_kind op)" "length bs < usize_limit" "unat (op_seq op) = Suc i"
  shows "decode_operation H bs i v = Ok (decoded_operation op)"
proof -
  obtain cbs kbs where kbs: "kind_bytes H (op_kind op) = Ok kbs"
      and bs: "bs = fields_bytes (operation_fields op cbs kbs)"
    using assms(1) by (auto simp: encode_operation_Ok)
  have "length kbs \<le> length bs"
    by (simp add: bs operation_fields_def length_fbytes)
  then have kind: "decode_kind H (kind_tag (op_kind op)) kbs v = Ok (decoded_kind (op_kind op))"
    using assms kbs by (intro decode_kind_bytes) auto
  have "rfold operation_step (operation_fields op cbs kbs) (None, None) =
      Ok (Some (op_seq op), Some (kind_tag (op_kind op), kbs))"
    by (cases "op_id op")
      (simp_all add: operation_fields_def str_opt_field_def rfold_append operation_step_def [of "tf 1 a b" for a b]
        operation_step_def [of "tf 2 a b" for a b] operation_step_def [of "tf (kind_tag c) a b" for a b c])
  then show ?thesis
    using assms(4,5) kind
    by (simp add: decode_operation_def bs tlv_loop_fields operation_fields_tags decoded_operation_def)
qed

end
