(* ===== verification/Patch_Codec.thy ===== *)
theory Patch_Codec
  imports Patch_Decode
begin

text \<open>
  Whole patches: reading an authored patch back, and what every decodable patch satisfies. These
  are the facts that replay, exchange and import rely on when they decode a patch they did not
  author.
\<close>

section \<open>Lemmas: whole patches\<close>

definition enum_opt_field :: "u16 \<Rightarrow> u16 option \<Rightarrow> tlv_field list" where
  "enum_opt_field t v = (case v of None \<Rightarrow> [] | Some x \<Rightarrow> [tf t WEnumU16 (u16_be x)])"

definition patch_fields :: "patch_payload \<Rightarrow> bytes list \<Rightarrow> bytes list \<Rightarrow> tlv_field list" where
  "patch_fields p obs pbs =
     map (tf 1 WRecordListItem) obs @ enum_opt_field 3 (map_option intent_code (pp_intent p))
     @ map (tf 4 WRecord) pbs
     @ enum_opt_field 5 (if pp_purpose p = Normal then None else Some (purpose_code (pp_purpose p)))
     @ str_opt_field 6 (pp_message p)"

lemma patch_fields_tags: "tags_from None (patch_fields p obs pbs)"
  by (auto simp: tags_from_iff patch_fields_def str_opt_field_def enum_opt_field_def sorted_append comp_def
      map_replicate_const split: option.split)

lemma encode_patch_OkD:
  assumes "to_canonical_bytes (encode_patch H) p = Ok bs"
  shows "\<exists>obs pbs. validate_patch p = Ok ()
    \<and> list_all2 (\<lambda>op ob. to_canonical_bytes (encode_operation H) op = Ok ob) (pp_operations p) obs
    \<and> bs = fields_bytes (patch_fields p obs pbs)"
proof -
  have opt: "(case v of Some i \<Rightarrow> field_enum_u16 t (g i) (writer_of fs) | None \<Rightarrow> Ok (writer_of fs)) = Ok w
      \<Longrightarrow> w = writer_of (fs @ enum_opt_field t (map_option g v))" for v t g fs w
    by (auto simp: enum_opt_field_def field_enum_u16_def split: option.splits)
  have pur: "(if q \<noteq> Normal then field_enum_u16 5 (purpose_code q) (writer_of fs) else Ok (writer_of fs)) = Ok w
      \<Longrightarrow> w = writer_of (fs @ enum_opt_field 5 (if q = Normal then None else Some (purpose_code q)))" for q fs w
    by (auto simp: enum_opt_field_def field_enum_u16_def split: if_splits)
  have msg: "field_string_opt 6 m (writer_of fs) = Ok w \<Longrightarrow> w = writer_of (fs @ str_opt_field 6 m)" for m fs w
    by (auto simp: str_opt_field_def split: option.splits)
  have val: "validate_patch p = Ok ()"
    using assms by (simp only: to_canonical_bytes_def encode_patch_def rbind_eq_Ok) auto
  obtain w1 w2 w3 w4 w5
    where w1: "repeated_record_list (encode_operation H) 1 (pp_operations p) (writer_of []) = Ok w1"
      and w2: "(case pp_intent p of Some i \<Rightarrow> field_enum_u16 3 (intent_code i) w1 | None \<Rightarrow> Ok w1) = Ok w2"
      and w3: "repeated_record encode_condition_entry 4 (pp_preconditions p) w2 = Ok w3"
      and w4: "(if pp_purpose p \<noteq> Normal then field_enum_u16 5 (purpose_code (pp_purpose p)) w3 else Ok w3) = Ok w4"
      and w5: "field_string_opt 6 (pp_message p) w4 = Ok w5" and bs: "bs = w_bytes w5"
    using assms unfolding to_canonical_bytes_def encode_patch_def new_writer_of
    by (simp only: rbind_eq_Ok result.inject) blast
  obtain obs where obs: "rmap (to_canonical_bytes (encode_operation H)) (pp_operations p) = Ok obs"
      and w1': "w1 = writer_of (map (tf 1 WRecordListItem) obs)"
    using w1 by auto
  note w2' = opt [OF w2 [unfolded w1']]
  obtain pbs where w3': "w3 = writer_of (map (tf 1 WRecordListItem) obs
      @ enum_opt_field 3 (map_option intent_code (pp_intent p)) @ map (tf 4 WRecord) pbs)"
    using w3 by (auto simp: w2')
  note w5' = msg [OF w5 [unfolded pur [OF w4 [unfolded w3']]]]
  show ?thesis
    using val obs by (intro exI [of _ obs] exI [of _ pbs]) (simp add: bs w5' patch_fields_def rmap_eq_Ok)
qed

lemma ignored_fields:
  "t \<in> {1, 2, 3, 4, 6} \<Longrightarrow> rfold purpose_step (map (tf t wr) vs) q = Ok q"
  "t \<in> {3, 4} \<Longrightarrow> rfold (patch_step H v) (map (tf t wr) vs) ops = Ok ops"
  "t \<noteq> 6 \<Longrightarrow> rfold (message_step v) (map (tf t wr) vs) m = Ok m"
  "t \<noteq> 2 \<Longrightarrow> rfold parent_ids_step (map (tf t wr) vs) ids = Ok ids"
  by (induction vs)
    (auto simp: purpose_step_def patch_step_def message_step_def parent_ids_step_def split: prod.split)

lemma ignored_field:
  "t \<in> {1, 2, 3, 4, 6} \<Longrightarrow> purpose_step (tf t wr x) q = Ok q"
  "t \<in> {3, 4} \<Longrightarrow> patch_step H v (tf t wr x) ops = Ok ops"
  "t \<noteq> 6 \<Longrightarrow> message_step v (tf t wr x) m = Ok m"
  "t \<noteq> 2 \<Longrightarrow> parent_ids_step (tf t wr x) ids = Ok ids"
  by (auto simp: purpose_step_def patch_step_def message_step_def parent_ids_step_def split: prod.split)

definition patch_schema_ok :: "u32 \<Rightarrow> patch_payload \<Rightarrow> bool" where
  "patch_schema_ok v p \<longleftrightarrow> (\<forall>op \<in> set (pp_operations p). kind_schema_ok v (op_kind op))
     \<and> (pp_message p \<noteq> None \<longrightarrow> PATCH_MESSAGE_SCHEMA \<le> v)"

text \<open>What the Rust types guarantee of an authored patch.\<close>

definition wf_patch :: "patch_payload \<Rightarrow> bool" where
  "wf_patch p \<longleftrightarrow> (\<forall>op \<in> set (pp_operations p). wf_kind (op_kind op)) \<and> pred_option utf8_valid (pp_message p)"

lemma patch_operations_fold:
  assumes "list_all2 (\<lambda>op ob. to_canonical_bytes (encode_operation H) op = Ok ob) ops obs"
    and "\<forall>op \<in> set ops. wf_kind (op_kind op) \<and> kind_schema_ok v (op_kind op)"
    and "\<forall>ob \<in> set obs. length ob < usize_limit"
    and "\<forall>i < length ops. unat (op_seq (ops ! i)) = Suc (length acc + i)"
  shows "rfold (patch_step H v) (map (tf 1 WRecordListItem) obs) acc = Ok (acc @ map decoded_operation ops)"
  using assms
proof (induction arbitrary: acc rule: list_all2_induct)
  case (Cons op ops ob obs)
  have "unat (op_seq op) = Suc (length acc)"
    using Cons.prems(3) by force
  then have "decode_operation H ob (length acc) v = Ok (decoded_operation op)"
    using Cons.hyps Cons.prems by (intro decode_operation_bytes) auto
  moreover have "\<forall>i < length ops. unat (op_seq (ops ! i)) = Suc (length (acc @ [decoded_operation op]) + i)"
    using Cons.prems(3) by auto
  ultimately show ?case
    using Cons by (simp add: patch_step_def)
qed simp

lemma fields_bytes_member: "f \<in> set fs \<Longrightarrow> length (fld_value f) \<le> length (fields_bytes fs)"
  by (induction fs) (auto simp: length_fbytes)

lemma decode_patch_bytes:
  assumes "to_canonical_bytes (encode_patch H) p = Ok bs" "wf_patch p" "patch_schema_ok v p"
    and "length bs < usize_limit"
  shows "decode_purpose bs = Ok (pp_purpose p)"
    and "decode_patch_operations H bs v = Ok (map decoded_operation (pp_operations p))"
    and "decode_patch_message bs v = Ok (pp_message p)"
    and "decode_patch_parent_ids bs = Ok []"
proof -
  obtain obs pbs where val: "validate_patch p = Ok ()"
      and obs: "list_all2 (\<lambda>op ob. to_canonical_bytes (encode_operation H) op = Ok ob) (pp_operations p) obs"
      and bs: "bs = fields_bytes (patch_fields p obs pbs)"
    using encode_patch_OkD [OF assms(1)] by blast
  have lim: "length (fields_bytes (patch_fields p obs pbs)) < usize_limit"
    using assms(4) bs by simp
  have nil: "pp_operations p \<noteq> []" and msg: "pp_message p \<noteq> Some []"
      and seq: "\<forall>i < length (pp_operations p). unat (op_seq (pp_operations p ! i)) = Suc i"
    using val by (auto simp: validate_patch_def is_contiguous_op_seq_nth split: if_splits)
  have small: "\<forall>ob \<in> set obs. length ob < usize_limit"
  proof
    fix ob assume "ob \<in> set obs"
    then have "length ob \<le> length (fields_bytes (patch_fields p obs pbs))"
      using fields_bytes_member [of "tf 1 WRecordListItem ob" "map (tf 1 WRecordListItem) obs"]
      by (simp add: patch_fields_def)
    then show "length ob < usize_limit"
      using lim by simp
  qed
  have "rfold purpose_step (patch_fields p obs pbs) (Normal, False) = Ok (pp_purpose p, pp_purpose p \<noteq> Normal)"
    by (cases "pp_intent p"; cases "pp_message p"; cases "pp_purpose p")
      (simp_all add: patch_fields_def rfold_append ignored_fields ignored_field enum_opt_field_def
        str_opt_field_def purpose_step_def [of "tf 5 a b" for a b] purpose_from_present_code_def
        field_read_array_def)
  then show pur: "decode_purpose bs = Ok (pp_purpose p)"
    by (simp add: decode_purpose_def patch_cursor_loop_def bs decode_fields_bytes [OF patch_fields_tags lim])
  have "rfold (patch_step H v) (map (tf 1 WRecordListItem) obs) [] = Ok (map decoded_operation (pp_operations p))"
    using patch_operations_fold [OF obs, of v "[]"] assms(2,3) small seq
    by (simp add: wf_patch_def patch_schema_ok_def)
  then have "rfold (patch_step H v) (patch_fields p obs pbs) [] = Ok (map decoded_operation (pp_operations p))"
    using assms(2,3)
    by (cases "pp_intent p"; cases "pp_message p"; cases "pp_purpose p")
      (simp_all add: patch_fields_def rfold_append ignored_fields ignored_field enum_opt_field_def
        str_opt_field_def patch_step_def [of _ _ "tf 5 a b" for a b] patch_step_def [of _ _ "tf 6 a b" for a b]
        wf_patch_def patch_schema_ok_def message_gate_def not_less)
  then have "tlv_loop (patch_step H v) [] bs = Ok (map decoded_operation (pp_operations p))"
    by (simp add: bs tlv_loop_fields [OF patch_fields_tags lim])
  then show "decode_patch_operations H bs v = Ok (map decoded_operation (pp_operations p))"
    using nil by (simp add: decode_patch_operations_def pur)
  have "rfold (message_step v) (patch_fields p obs pbs) None = Ok (pp_message p)"
    using assms(2,3) msg
    by (cases "pp_intent p"; cases "pp_message p"; cases "pp_purpose p")
      (simp_all add: patch_fields_def rfold_append ignored_fields ignored_field enum_opt_field_def
        str_opt_field_def message_step_def [of _ "tf 6 a b" for a b] wf_patch_def patch_schema_ok_def message_gate_def not_less)
  then show "decode_patch_message bs v = Ok (pp_message p)"
    by (simp add: decode_patch_message_def bs tlv_loop_fields [OF patch_fields_tags lim])
  have "rfold parent_ids_step (patch_fields p obs pbs) [] = Ok []"
    by (cases "pp_intent p"; cases "pp_message p"; cases "pp_purpose p")
      (simp_all add: patch_fields_def rfold_append ignored_fields ignored_field enum_opt_field_def str_opt_field_def)
  then show "decode_patch_parent_ids bs = Ok []"
    by (simp add: decode_patch_parent_ids_def bs tlv_loop_fields [OF patch_fields_tags lim])
qed

section \<open>Lemmas: what decodes is valid\<close>

lemma rfold_invariant:
  assumes "rfold step fs s = Ok s'" "I s" "\<And>f s s'. step f s = Ok s' \<Longrightarrow> I s \<Longrightarrow> I s'"
  shows "I s'"
  using assms(1,2)
proof (induction fs arbitrary: s)
  case (Cons f fs)
  then show ?case
    using assms(3) by auto
qed simp

lemma tlv_loop_invariant:
  assumes "tlv_loop step s bs = Ok s'" "I s" "\<And>f s s'. step f s = Ok s' \<Longrightarrow> I s \<Longrightarrow> I s'"
  shows "I s'"
proof -
  obtain fs where "rfold step fs s = Ok s'"
    using assms(1) by (auto simp: tlv_loop_def elim: decode_fields_OkD)
  then show ?thesis
    by (rule rfold_invariant [where I = I]) (fact assms(2), fact assms(3))
qed

definition good_node :: "node_id \<Rightarrow> bool" where
  "good_node n \<longleftrightarrow> wf_node_id n \<and> \<not> node_id_is_zero n"

lemma reader_facts:
  "fld_read_node_id f = Ok n \<Longrightarrow> good_node n"
  "fld_read_object_id_typed f = Ok i \<Longrightarrow> wf_id i"
  "fld_read_string f = Ok str \<Longrightarrow> utf8_valid str"
  "fld_read_span_hash f = Ok h \<Longrightarrow> length h = 32"
  by (auto simp: fld_read_node_id_def fld_read_object_id_typed_def fld_read_string_def
      fld_read_span_hash_def good_node_def wf_node_id_def wf_id_def node_id_is_zero_def
      node_id_try_from_bytes_def TEXT_SPAN_HASH_BYTES_def split: if_splits)

lemma set_once_Ok: "set_once r f cur v = Ok x \<longleftrightarrow> cur = None \<and> (\<exists>y. v = Ok y \<and> x = Some y)"
  by (auto simp: set_once_def)

text \<open>The rules every decoded operation satisfies; they are the ones the authoring side validates.\<close>

fun decoded_valid :: "(bytes \<Rightarrow> bytes) \<Rightarrow> u32 \<Rightarrow> decoded_operation_kind \<Rightarrow> bool" where
  "decoded_valid H v (DCreateFile p n b m) \<longleftrightarrow> path_ok p \<and> good_node n \<and> wf_id b \<and> is_canonical_file_mode m"
| "decoded_valid H v (DDeleteNode p n pre) \<longleftrightarrow> path_ok p \<and> good_node n
     \<and> (case pre of DPreFile k b m \<Rightarrow> k \<noteq> Symlink \<and> wf_id b \<and> is_canonical_file_mode m
        | DPreSymlink t \<Rightarrow> utf8_valid t)"
| "decoded_valid H v (DEditText n sid oh lh rh new old ll rl) \<longleftrightarrow> good_node n \<and> length sid = 32
     \<and> length lh = 32 \<and> length rh = 32 \<and> oh = H old \<and> utf8_valid old \<and> utf8_valid new
     \<and> (case (ll, rl) of (None, None) \<Rightarrow> True
        | (Some a, Some b) \<Rightarrow> 64 \<le> a \<and> 64 \<le> b \<and> 3 \<le> v | _ \<Rightarrow> False)"
| "decoded_valid H v (DReplaceBinary n a b) \<longleftrightarrow> good_node n \<and> wf_id a \<and> wf_id b"
| "decoded_valid H v (DRenamePath n a b) \<longleftrightarrow> good_node n \<and> path_ok a \<and> path_ok b"
| "decoded_valid H v (DChangePerm n a b) \<longleftrightarrow> good_node n \<and> is_canonical_file_mode a \<and> is_canonical_file_mode b"
| "decoded_valid H v (DCreateSymlink p n t) \<longleftrightarrow> path_ok p \<and> good_node n \<and> utf8_valid t"

lemma decode_create_file_valid: "decode_create_file bs = Ok k \<Longrightarrow> decoded_valid H v k"
proof -
  assume dec: "decode_create_file bs = Ok k"
  then obtain l where l: "tlv_loop create_file_step \<lparr>lc_path = None, lc_node_id = None, lc_blob_id = None, lc_mode = None\<rparr> bs = Ok l"
    by (auto simp: decode_create_file_def)
  have "pred_option good_node (lc_node_id l) \<and> pred_option wf_id (lc_blob_id l)"
    by (rule tlv_loop_invariant [OF l])
      (auto simp: create_file_step_def set_once_Ok reader_facts split: if_splits)
  then show ?thesis
    using dec l by (auto simp: decode_create_file_def repo_path_parse_Ok split: if_splits)
qed

lemma decode_delete_node_valid: "decode_delete_node bs = Ok k \<Longrightarrow> decoded_valid H v k"
proof -
  assume dec: "decode_delete_node bs = Ok k"
  then obtain l where l: "tlv_loop delete_node_step \<lparr>ld_path = None, ld_node_id = None, ld_kind = None, ld_blob_id = None,
              ld_target = None, ld_mode = None\<rparr> bs = Ok l"
    by (auto simp: decode_delete_node_def)
  have "pred_option good_node (ld_node_id l) \<and> pred_option wf_id (ld_blob_id l) \<and> pred_option utf8_valid (ld_target l)"
    by (rule tlv_loop_invariant [OF l])
      (auto simp: delete_node_step_def set_once_Ok reader_facts split: if_splits)
  then show ?thesis
    using dec l by (auto simp: decode_delete_node_def repo_path_parse_Ok split: if_splits)
qed

lemma decode_edit_text_valid: "decode_edit_text H bs v = Ok k \<Longrightarrow> decoded_valid H v k"
proof -
  assume dec: "decode_edit_text H bs v = Ok k"
  then obtain l where l: "tlv_loop (edit_text_step v) edit_text_init bs = Ok l"
      and fin: "edit_text_finish H l = Ok k"
    by (auto simp: decode_edit_text_def)
  have inv: "pred_option good_node (le_node_id l) \<and> pred_option (\<lambda>x. length x = 32) (le_span_id l)
      \<and> pred_option (\<lambda>x. length x = 32) (le_left_anchor_hash l)
      \<and> pred_option (\<lambda>x. length x = 32) (le_right_anchor_hash l)
      \<and> (le_left_anchor_len l \<noteq> None \<longrightarrow> 3 \<le> v)"
    by (rule tlv_loop_invariant [OF l])
      (auto simp: edit_text_step_def edit_text_init_def set_once_Ok reader_facts anchor_len_gate_def
        PATCH_TEXT_SPAN_V2_SCHEMA_def not_less split: if_splits)
  then show ?thesis
    using fin by (auto simp: edit_text_finish_def text_span_hash_def TEXT_SPAN_ANCHOR_MIN_LEN_def not_less
        split: option.splits)
qed

lemma decode_rename_path_valid: "decode_rename_path bs = Ok k \<Longrightarrow> decoded_valid H v k"
proof -
  assume dec: "decode_rename_path bs = Ok k"
  then obtain l where l: "tlv_loop rename_path_step \<lparr>lr_node_id = None, lr_old_path = None, lr_new_path = None\<rparr> bs = Ok l"
    by (auto simp: decode_rename_path_def)
  have "pred_option good_node (lr_node_id l)"
    by (rule tlv_loop_invariant [OF l])
      (auto simp: rename_path_step_def set_once_Ok reader_facts split: if_splits)
  then show ?thesis
    using dec l by (auto simp: decode_rename_path_def repo_path_parse_Ok)
qed

lemma decode_change_perm_valid: "decode_change_perm bs = Ok k \<Longrightarrow> decoded_valid H v k"
proof -
  assume dec: "decode_change_perm bs = Ok k"
  then obtain l where l: "tlv_loop change_perm_step \<lparr>lm_node_id = None, lm_old_mode = None, lm_new_mode = None\<rparr> bs = Ok l"
    by (auto simp: decode_change_perm_def)
  have "pred_option good_node (lm_node_id l)"
    by (rule tlv_loop_invariant [OF l])
      (auto simp: change_perm_step_def set_once_Ok reader_facts split: if_splits)
  then show ?thesis
    using dec l by (auto simp: decode_change_perm_def split: if_splits)
qed

lemma decode_create_symlink_valid: "decode_create_symlink bs = Ok k \<Longrightarrow> decoded_valid H v k"
proof -
  assume dec: "decode_create_symlink bs = Ok k"
  then obtain l where l: "tlv_loop create_symlink_step \<lparr>ls_path = None, ls_node_id = None, ls_target = None\<rparr> bs = Ok l"
    by (auto simp: decode_create_symlink_def)
  have "pred_option good_node (ls_node_id l) \<and> pred_option utf8_valid (ls_target l)"
    by (rule tlv_loop_invariant [OF l])
      (auto simp: create_symlink_step_def set_once_Ok reader_facts split: if_splits)
  then show ?thesis
    using dec l by (auto simp: decode_create_symlink_def repo_path_parse_Ok)
qed

lemma decode_replace_binary_valid: "decode_replace_binary bs = Ok k \<Longrightarrow> decoded_valid H v k"
proof -
  assume dec: "decode_replace_binary bs = Ok k"
  then obtain l where l: "tlv_loop replace_binary_step \<lparr>lb_node_id = None, lb_old_blob_id = None, lb_new_blob_id = None\<rparr> bs = Ok l"
    by (auto simp: decode_replace_binary_def)
  have "pred_option good_node (lb_node_id l) \<and> pred_option wf_id (lb_old_blob_id l) \<and> pred_option wf_id (lb_new_blob_id l)"
    by (rule tlv_loop_invariant [OF l])
      (auto simp: replace_binary_step_def set_once_Ok reader_facts split: if_splits)
  then show ?thesis
    using dec l by (auto simp: decode_replace_binary_def)
qed

lemma decode_kind_valid: "decode_kind H t bs v = Ok k \<Longrightarrow> decoded_valid H v k"
  by (auto simp: decode_kind_def split: if_splits
      intro: decode_create_file_valid decode_delete_node_valid decode_edit_text_valid
        decode_rename_path_valid decode_change_perm_valid decode_create_symlink_valid
        decode_replace_binary_valid)

lemma decode_operation_valid:
  "decode_operation H bs i v = Ok op \<Longrightarrow> unat (dop_seq op) = Suc i \<and> decoded_valid H v (dop_kind op)"
  by (auto simp: decode_operation_def rbind_pair_eq_Ok dest: decode_kind_valid)

lemma decode_patch_operations_valid:
  assumes "decode_patch_operations H bs v = Ok ops"
  shows "ops \<noteq> [] \<and> (\<forall>i < length ops. unat (dop_seq (ops ! i)) = Suc i \<and> decoded_valid H v (dop_kind (ops ! i)))"
proof -
  have loop: "tlv_loop (patch_step H v) [] bs = Ok ops" and "ops \<noteq> []"
    using assms by (auto simp: decode_patch_operations_def split: if_splits)
  have "\<forall>i < length ops. unat (dop_seq (ops ! i)) = Suc i \<and> decoded_valid H v (dop_kind (ops ! i))"
    by (rule tlv_loop_invariant [OF loop])
      (auto simp: patch_step_def nth_append less_Suc_eq split: if_splits dest!: decode_operation_valid)
  with \<open>ops \<noteq> []\<close> show ?thesis
    by simp
qed

lemma patch_step_gate:
  assumes "patch_step H v f ops = Ok ops'"
  shows "fld_tag f \<in> {1, 2, 3, 4, 5, 6} \<and> (fld_tag f = 2 \<longrightarrow> v < 2) \<and> (fld_tag f = 6 \<longrightarrow> 4 \<le> v)
    \<and> length ops' = length ops + (if fld_tag f = 1 then 1 else 0)"
  using assms
  by (auto simp: patch_step_def message_gate_def PATCH_PARENT_IDS_RETIRED_SCHEMA_def PATCH_MESSAGE_SCHEMA_def
      not_less not_le split: if_splits)

lemma patch_fold_gate:
  assumes "rfold (patch_step H v) fs ops = Ok ops'"
  shows "(\<forall>f \<in> set fs. fld_tag f \<in> {1, 2, 3, 4, 5, 6} \<and> (fld_tag f = 2 \<longrightarrow> v < 2) \<and> (fld_tag f = 6 \<longrightarrow> 4 \<le> v))
    \<and> length ops' = length ops + length (filter (\<lambda>f. fld_tag f = 1) fs)"
  using assms
proof (induction fs arbitrary: ops)
  case (Cons f fs)
  then obtain ops1 where "patch_step H v f ops = Ok ops1" "rfold (patch_step H v) fs ops1 = Ok ops'"
    by auto
  then show ?case
    using patch_step_gate [of H v f ops ops1] Cons.IH [of ops1] by auto
qed simp

interpretation patch_codec: payload_codec "to_canonical_bytes (encode_patch H)"
  "\<lambda>bs. decode_patch_operations H bs v" "\<lambda>p. wf_patch p \<and> patch_schema_ok v p"
  "\<lambda>p. map decoded_operation (pp_operations p)" for H v
  by unfold_locales (simp add: decode_patch_bytes)

section \<open>Properties\<close>

text \<open>C8 (round trip): a patch that was encoded decodes again, at every schema that admits its fields:
  the operations come back in order with their kinds and sequence numbers, the purpose and the
  message come back unchanged, and no parent ids are found.\<close>

theorem patch_round_trip:
  assumes "to_canonical_bytes (encode_patch sha256) p = Ok bs" and "wf_patch p"
    and "patch_schema_ok v p" and "length bs < usize_limit"
  shows "decode_patch_operations sha256 bs v = Ok (map decoded_operation (pp_operations p))
    \<and> decode_purpose bs = Ok (pp_purpose p) \<and> decode_patch_message bs v = Ok (pp_message p)
    \<and> decode_patch_parent_ids bs = Ok []"
  using decode_patch_bytes [OF assms] by simp

definition sample_patch :: patch_payload where
  "sample_patch = \<lparr>pp_operations = [\<lparr>op_seq = 1, op_id = None, op_preconditions = [],
       op_kind = RenamePath \<lparr>rp_node_id = NodeId (replicate 32 1), rp_old_path = [0x61], rp_new_path = [0x62]\<rparr>\<rparr>],
     pp_intent = None, pp_preconditions = [], pp_purpose = Normal, pp_message = Some [0x68]\<rparr>"

definition sample_patch_bytes :: bytes where
  "sample_patch_bytes = fields_bytes [tf 1 WRecordListItem (fields_bytes [tf 1 WU32 (u32_be 1),
      tf 13 WRecord (fields_bytes [tf 1 WBytes (replicate 32 1), tf 2 WRepoPath [0x61], tf 3 WRepoPath [0x62]])]),
     tf 6 WString [0x68]]"

lemma sample_paths: "path_ok [0x61]" "path_ok [0x62]"
  by (simp_all add: path_ok_def component_ok_def ascii_def ascii_fold_def to_ascii_lower_def
      names_device_def)

lemma sample_patch_encodes: "to_canonical_bytes (encode_patch H) sample_patch = Ok sample_patch_bytes"
proof -
  have "validate_rename_path \<lparr>rp_node_id = NodeId (replicate 32 1), rp_old_path = [0x61], rp_new_path = [0x62]\<rparr> = Ok ()"
    using sample_paths
    by (simp add: validate_rename_path_def validate_repo_path_iff node_id_is_zero_def)
  then show ?thesis
    by (simp add: sample_patch_def sample_patch_bytes_def to_canonical_bytes_def encode_patch_def
        validate_patch_def is_contiguous_op_seq_nth new_writer_of repeated_record_list_def
        field_record_list_item_def encode_operation_kind field_defs repeated_record_def field_string_opt_def
        encode_rename_path_def field_raw_writer_of)
qed

lemma sample_patch_ok:
  "wf_patch sample_patch" "patch_schema_ok 4 sample_patch" "length sample_patch_bytes < usize_limit"
  by (simp_all add: sample_patch_def sample_patch_bytes_def wf_patch_def patch_schema_ok_def wf_node_id_def
      PATCH_MESSAGE_SCHEMA_def length_fbytes usize_limit_def)

theorem patch_round_trip_witness:
  "decode_patch_operations (\<lambda>_. replicate 32 0) sample_patch_bytes 4 = Ok (map decoded_operation (pp_operations sample_patch))
     \<and> decode_patch_message sample_patch_bytes 4 = Ok (Some [0x68])"
  using patch_round_trip [OF sample_patch_encodes sample_patch_ok, of "\<lambda>_. replicate 32 0"]
  by (simp add: sample_patch_def)

text \<open>C19 (type): whatever decodes as a patch, from any bytes, is a non-empty list of operations numbered
  1, 2, 3 and so on, each of which satisfies the rules the authoring side enforces: safe paths,
  non-zero 32-byte node ids, canonical file modes, an old-text hash that matches the old text,
  well-formed UTF-8, and anchor lengths that are paired, at least 64 and only present from schema 3 on.\<close>

theorem patch_decode_valid:
  assumes "decode_patch_operations sha256 bs v = Ok ops"
  shows "ops \<noteq> [] \<and> (\<forall>i < length ops. unat (dop_seq (ops ! i)) = i + 1 \<and> decoded_valid sha256 v (dop_kind (ops ! i)))"
  using decode_patch_operations_valid [OF assms] by simp

theorem patch_decode_valid_witness:
  "decoded_valid (\<lambda>_. replicate 32 0) 4 (DRenamePath (NodeId (replicate 32 1)) [0x61] [0x62])"
proof -
  have "decode_patch_operations (\<lambda>_. replicate 32 0) sample_patch_bytes 4
      = Ok (map decoded_operation (pp_operations sample_patch))"
    using decode_patch_bytes(2) [OF sample_patch_encodes sample_patch_ok] .
  from patch_decode_valid [OF this] show ?thesis
    by (simp add: sample_patch_def decoded_operation_def)
qed

text \<open>The schema gates. A patch that decodes is a well-formed field sequence with tags 1 to 6
  only, one operation per tag-1 field; the retired parent-ids field (tag 2) occurs only below schema 2
  and the message field (tag 6) only from schema 4 on.\<close>

theorem patch_schema_gates:
  assumes "decode_patch_operations sha256 bs v = Ok ops"
  shows "\<exists>fs. bs = fields_bytes fs \<and> wf_fields fs \<and> length ops = length (filter (\<lambda>f. fld_tag f = 1) fs)
    \<and> (\<forall>f \<in> set fs. fld_tag f \<in> {1, 2, 3, 4, 5, 6} \<and> (fld_tag f = 2 \<longrightarrow> v < 2) \<and> (fld_tag f = 6 \<longrightarrow> 4 \<le> v))"
proof -
  have "tlv_loop (patch_step sha256 v) [] bs = Ok ops"
    using assms by (auto simp: decode_patch_operations_def split: if_splits)
  then obtain fs where "bs = fields_bytes fs" "wf_fields fs" "rfold (patch_step sha256 v) fs [] = Ok ops"
    by (auto simp: tlv_loop_def elim: decode_fields_OkD)
  then show ?thesis
    using patch_fold_gate [of sha256 v fs "[]" ops] by auto
qed

theorem patch_schema_gates_witness:
  "\<exists>fs. sample_patch_bytes = fields_bytes fs \<and> wf_fields fs \<and> length (filter (\<lambda>f. fld_tag f = 1) fs) = 1"
proof -
  have "decode_patch_operations (\<lambda>_. replicate 32 0) sample_patch_bytes 4
      = Ok (map decoded_operation (pp_operations sample_patch))"
    using decode_patch_bytes(2) [OF sample_patch_encodes sample_patch_ok] .
  from patch_schema_gates [OF this] show ?thesis
    by (auto simp: sample_patch_def)
qed

end
