(* ===== verification/Node_Lifecycle.thy ===== *)
theory Node_Lifecycle
  imports Object_Id Repo_Path "HOL-Library.Finite_Map"
begin

text \<open>
  The node lifecycle index of \<open>prikk-replay/src/node_lifecycle\<close>: its four maps as a record, the
  queries, the validator and every mutator. A \<open>BTreeMap\<close> is a finite map, iterated in key order
  where the source iterates it; a method taking \<open>&mut self\<close> returns its result and the state it
  leaves behind, so what an error leaves behind is part of the model.
\<close>

section \<open>State\<close>

datatype node_content = FileContent (content_blob_id: object_id) (content_mode: u32)
  | SymlinkContent (content_target: bytes)

record live_node =
  ln_path :: repo_path
  ln_kind :: node_kind
  ln_content :: node_content

record tombstone =
  tb_kind :: node_kind
  tb_content :: node_content
  tb_path :: repo_path

record lifecycle_state =
  live_by_id :: "(node_id, live_node) fmap"
  path_to_id :: "(repo_path, node_id) fmap"
  latest_tombstone_by_id :: "(node_id, tombstone) fmap"
  seen_ids :: "node_id fset"

definition new_lifecycle :: lifecycle_state where
  "new_lifecycle = \<lparr> live_by_id = fmempty, path_to_id = fmempty,
     latest_tombstone_by_id = fmempty, seen_ids = {||} \<rparr>"

section \<open>Queries\<close>

definition live_node_at :: "lifecycle_state \<Rightarrow> node_id \<Rightarrow> live_node option" where
  "live_node_at s node_id = fmlookup (live_by_id s) node_id"

definition contains_seen_node_id :: "lifecycle_state \<Rightarrow> node_id \<Rightarrow> bool" where
  "contains_seen_node_id s node_id \<longleftrightarrow> node_id |\<in>| seen_ids s"

definition in_key_order :: "('k :: linorder, 'v) fmap \<Rightarrow> ('k \<times> 'v) list" where
  "in_key_order m = map (\<lambda>k. (k, the (fmlookup m k))) (sorted_list_of_fset (fmdom m))"

definition live_nodes :: "lifecycle_state \<Rightarrow> (node_id \<times> live_node) list" where
  "live_nodes s = in_key_order (live_by_id s)"

definition node_id_at :: "lifecycle_state \<Rightarrow> repo_path \<Rightarrow> node_id option" where
  "node_id_at s path = fmlookup (path_to_id s) path"

definition latest_tombstone :: "lifecycle_state \<Rightarrow> node_id \<Rightarrow> tombstone option" where
  "latest_tombstone s node_id = fmlookup (latest_tombstone_by_id s) node_id"

definition tombstones :: "lifecycle_state \<Rightarrow> (node_id \<times> tombstone) list" where
  "tombstones s = in_key_order (latest_tombstone_by_id s)"

definition live_count :: "lifecycle_state \<Rightarrow> nat" where
  "live_count s = fcard (fmdom (live_by_id s))"

section \<open>Validation\<close>

definition check_live_entry :: "lifecycle_state \<Rightarrow> node_id \<times> live_node \<Rightarrow> unit res" where
  "check_live_entry s = (\<lambda>(node_id, node).
     rbind (case fmlookup (path_to_id s) (ln_path node) of
              Some i \<Rightarrow> fail_if (i \<noteq> node_id) (Integrity
                ''node lifecycle index: live node has no matching path-index entry'')
            | None \<Rightarrow> Err (Integrity
                ''node lifecycle index: live node has no matching path-index entry''))
       (\<lambda>_. fail_if (node_id |\<notin>| seen_ids s)
          (Integrity ''node lifecycle index: live node_id is not recorded as seen'')))"

definition check_tombstone_key :: "lifecycle_state \<Rightarrow> node_id \<Rightarrow> unit res" where
  "check_tombstone_key s node_id =
     rbind (fail_if (node_id |\<in>| fmdom (live_by_id s))
              (Integrity ''node lifecycle index: node_id is both live and tombstoned''))
       (\<lambda>_. fail_if (node_id |\<notin>| seen_ids s)
          (Integrity ''node lifecycle index: tombstoned node_id is not recorded as seen''))"

definition validate_internal_consistency :: "lifecycle_state \<Rightarrow> unit res" where
  "validate_internal_consistency s =
     rbind (fail_if (fcard (fmdom (live_by_id s)) \<noteq> fcard (fmdom (path_to_id s)))
              (Integrity ''node lifecycle index: live_by_id and path_to_id differ in size''))
       (\<lambda>_. rbind (rfold (\<lambda>entry _. check_live_entry s entry) (in_key_order (live_by_id s)) ())
       (\<lambda>_. rfold (\<lambda>node_id _. check_tombstone_key s node_id)
              (sorted_list_of_fset (fmdom (latest_tombstone_by_id s))) ()))"

fun shape_consistent :: "node_kind \<Rightarrow> node_content \<Rightarrow> bool" where
  "shape_consistent TextFile (FileContent _ _) = True"
| "shape_consistent BinaryFile (FileContent _ _) = True"
| "shape_consistent Symlink (SymlinkContent _) = True"
| "shape_consistent _ _ = False"

definition validate_kind_content_shape :: "node_kind \<Rightarrow> node_content \<Rightarrow> unit res" where
  "validate_kind_content_shape kind content =
     (if shape_consistent kind content then Ok ()
      else Err (Integrity
        ''node kind/content discriminator mismatch (kind does not match payload)''))"

definition ensure_node_id_nonzero :: "node_id \<Rightarrow> unit res" where
  "ensure_node_id_nonzero node_id =
     fail_if (node_bytes node_id = replicate 32 0)
       (Integrity ''baseline seed carries the reserved all-zero node_id'')"

definition ensure_restoration_equivalent :: "tombstone \<Rightarrow> live_node \<Rightarrow> unit res" where
  "ensure_restoration_equivalent t node =
     fail_if (tb_kind t \<noteq> ln_kind node \<or> tb_content t \<noteq> ln_content node \<or> tb_path t \<noteq> ln_path node)
       (Integrity ''reintroduced node_id is not restoration-equivalent to its latest tombstone'')"

section \<open>Mutation\<close>

text \<open>
  Leaving a method with \<open>?\<close> before its first mutation: the state is the one the method was entered
  with.
\<close>

definition guarded :: "'x res \<Rightarrow> ('x \<Rightarrow> 'a res \<times> 's) \<Rightarrow> 's \<Rightarrow> 'a res \<times> 's" where
  "guarded checks commit s = (case checks of Err e \<Rightarrow> (Err e, s) | Ok x \<Rightarrow> commit x)"

definition create_node :: "node_id \<Rightarrow> live_node \<Rightarrow> lifecycle_state \<Rightarrow> unit res \<times> lifecycle_state" where
  "create_node node_id node s = guarded
     (rbind (ensure_node_id_nonzero node_id) (\<lambda>_.
      rbind (validate_kind_content_shape (ln_kind node) (ln_content node)) (\<lambda>_.
      rbind (fail_if (node_id |\<in>| fmdom (live_by_id s)) (Integrity
        ''cannot create a node whose node_id is already live (per-CleanTree uniqueness)'')) (\<lambda>_.
      rbind (fail_if (ln_path node |\<in>| fmdom (path_to_id s)) (Integrity
        (''cannot create node at already-occupied path '' @ render (path_str (ln_path node))))) (\<lambda>_.
      if node_id |\<in>| seen_ids s then
        rbind (ok_or (Integrity
            ''seen node_id has no recorded tombstone for restoration-equivalence'')
          (fmlookup (latest_tombstone_by_id s) node_id)) (\<lambda>t.
        ensure_restoration_equivalent t node)
      else Ok ())))))
     (\<lambda>_. (Ok (), s\<lparr> latest_tombstone_by_id := fmdrop node_id (latest_tombstone_by_id s),
                    seen_ids := finsert node_id (seen_ids s),
                    path_to_id := fmupd (ln_path node) node_id (path_to_id s),
                    live_by_id := fmupd node_id node (live_by_id s) \<rparr>)) s"

text \<open>The live entry is taken out before the path index is looked at.\<close>

definition delete_node_op :: "node_id \<Rightarrow> lifecycle_state \<Rightarrow> live_node res \<times> lifecycle_state" where
  "delete_node_op node_id s =
     (case fmlookup (live_by_id s) node_id of
        None \<Rightarrow> (Err (Integrity ''DeleteNode target node_id is not live''), s)
      | Some node \<Rightarrow>
          (let s1 = s\<lparr> live_by_id := fmdrop node_id (live_by_id s) \<rparr>
           in case fmlookup (path_to_id s1) (ln_path node) of
                None \<Rightarrow> (Err (Integrity
                  ''live node has no path-index entry (internal inconsistency)''), s1)
              | Some i \<Rightarrow>
                  if i = node_id then
                    (Ok node, s1\<lparr> path_to_id := fmdrop (ln_path node) (path_to_id s1),
                        latest_tombstone_by_id := fmupd node_id
                          \<lparr> tb_kind = ln_kind node, tb_content = ln_content node,
                            tb_path = ln_path node \<rparr> (latest_tombstone_by_id s1) \<rparr>)
                  else (Err (Integrity
                    ''path index points at a different node than the live node being deleted''), s1)))"

definition target_occupied :: "repo_path \<Rightarrow> prikk_error" where
  "target_occupied path =
     Integrity (''rename target path '' @ render (path_str path) @ '' is occupied by another live node'')"

definition rename_node :: "node_id \<Rightarrow> repo_path \<Rightarrow> lifecycle_state \<Rightarrow> unit res \<times> lifecycle_state" where
  "rename_node node_id new_path s = guarded
     (rbind (case fmlookup (path_to_id s) new_path of
               Some existing \<Rightarrow> fail_if (existing \<noteq> node_id) (target_occupied new_path)
             | None \<Rightarrow> Ok ()) (\<lambda>_.
      rbind (ok_or (Integrity ''RenamePath target node_id is not live'')
               (fmlookup (live_by_id s) node_id)) (\<lambda>node.
      rbind (fail_if (fmlookup (path_to_id s) (ln_path node) \<noteq> Some node_id)
               (Integrity ''path index does not point at the live node being renamed'')) (\<lambda>_.
      Ok node))))
     (\<lambda>node. (Ok (), s\<lparr> live_by_id := fmupd node_id (node\<lparr> ln_path := new_path \<rparr>) (live_by_id s),
          path_to_id := fmupd new_path node_id (fmdrop (ln_path node) (path_to_id s)) \<rparr>)) s"

definition delete_node_checked ::
  "node_id \<Rightarrow> live_node \<Rightarrow> lifecycle_state \<Rightarrow> live_node res \<times> lifecycle_state" where
  "delete_node_checked node_id expected s = guarded
     (rbind (ok_or (Integrity ''DeleteNode target node_id is not live'')
               (fmlookup (live_by_id s) node_id)) (\<lambda>live.
      fail_if (live \<noteq> expected) (Integrity
        ''DeleteNode preimage (path/kind/content) does not match the replayed live node'')))
     (\<lambda>_. delete_node_op node_id s) s"

definition old_path_mismatch :: "repo_path \<Rightarrow> repo_path \<Rightarrow> prikk_error" where
  "old_path_mismatch expected actual =
     Integrity (''RenamePath old_path '' @ render (path_str expected)
       @ '' does not match the live path '' @ render (path_str actual))"

definition rename_node_checked ::
  "node_id \<Rightarrow> repo_path \<Rightarrow> repo_path \<Rightarrow> lifecycle_state \<Rightarrow> unit res \<times> lifecycle_state" where
  "rename_node_checked node_id expected_old_path new_path s = guarded
     (rbind (ok_or (Integrity ''RenamePath target node_id is not live'')
               (fmlookup (live_by_id s) node_id)) (\<lambda>live.
      fail_if (ln_path live \<noteq> expected_old_path)
        (old_path_mismatch expected_old_path (ln_path live))))
     (\<lambda>_. rename_node node_id new_path s) s"

type_synonym rename_entry = "node_id \<times> repo_path \<times> repo_path"

text \<open>Phase 0: every pair against the state before the batch, no node and no destination twice.\<close>

definition batch_check ::
  "lifecycle_state \<Rightarrow> rename_entry \<Rightarrow> node_id set \<times> repo_path set
   \<Rightarrow> (node_id set \<times> repo_path set) res" where
  "batch_check s = (\<lambda>(node_id, old_path, new_path) (sources, destinations).
     rbind (ok_or (Integrity ''RenamePath target node_id is not live'')
              (fmlookup (live_by_id s) node_id)) (\<lambda>live.
     rbind (fail_if (ln_path live \<noteq> old_path) (old_path_mismatch old_path (ln_path live))) (\<lambda>_.
     rbind (fail_if (node_id \<in> sources) (Integrity
       ''RenamePath renames the same node more than once in the same batch'')) (\<lambda>_.
     rbind (fail_if (new_path \<in> destinations) (Integrity
       ''RenamePath names the same destination path more than once in the same batch'')) (\<lambda>_.
     Ok (insert node_id sources, insert new_path destinations))))))"

text \<open>Phases 1 and 2: collisions with nodes outside the batch, and the path index itself.\<close>

definition batch_collision :: "lifecycle_state \<Rightarrow> node_id set \<Rightarrow> rename_entry \<Rightarrow> unit res" where
  "batch_collision s sources = (\<lambda>(_, _, new_path).
     case fmlookup (path_to_id s) new_path of
       Some occupant \<Rightarrow> fail_if (occupant \<notin> sources) (target_occupied new_path)
     | None \<Rightarrow> Ok ())"

definition batch_index_check :: "lifecycle_state \<Rightarrow> rename_entry \<Rightarrow> unit res" where
  "batch_index_check s = (\<lambda>(node_id, old_path, _).
     fail_if (fmlookup (path_to_id s) old_path \<noteq> Some node_id)
       (Integrity ''path index does not point at the live node being renamed''))"

text \<open>Phase 3: every source is cleared before any destination is claimed.\<close>

definition batch_clear :: "rename_entry \<Rightarrow> lifecycle_state \<Rightarrow> lifecycle_state" where
  "batch_clear = (\<lambda>(_, old_path, _) s. s\<lparr> path_to_id := fmdrop old_path (path_to_id s) \<rparr>)"

definition batch_claim :: "rename_entry \<Rightarrow> lifecycle_state \<Rightarrow> lifecycle_state" where
  "batch_claim = (\<lambda>(node_id, _, new_path) s.
     s\<lparr> path_to_id := fmupd new_path node_id (path_to_id s),
        live_by_id := (case fmlookup (live_by_id s) node_id of
            Some node \<Rightarrow> fmupd node_id (node\<lparr> ln_path := new_path \<rparr>) (live_by_id s)
          | None \<Rightarrow> live_by_id s) \<rparr>)"

definition rename_nodes_checked_batch ::
  "rename_entry list \<Rightarrow> lifecycle_state \<Rightarrow> unit res \<times> lifecycle_state" where
  "rename_nodes_checked_batch renames s =
     (if renames = [] then (Ok (), s)
      else guarded
        (rbind (rfold (batch_check s) renames ({}, {})) (\<lambda>(sources, _).
         rbind (rfold (\<lambda>entry _. batch_collision s sources entry) renames ()) (\<lambda>_.
         rfold (\<lambda>entry _. batch_index_check s entry) renames ())))
        (\<lambda>_. (Ok (), fold batch_claim renames (fold batch_clear renames s))) s)"

definition mode_text :: "u32 \<Rightarrow> string" where
  "mode_text m = ''0o'' @ oct (unat m)"

definition change_file_mode ::
  "node_id \<Rightarrow> u32 \<Rightarrow> u32 \<Rightarrow> lifecycle_state \<Rightarrow> unit res \<times> lifecycle_state" where
  "change_file_mode node_id old_mode new_mode s = guarded
     (rbind (ok_or (Integrity ''ChangePerm target node_id is not live'')
               (fmlookup (live_by_id s) node_id)) (\<lambda>node.
      case ln_content node of
        FileContent blob_id mode \<Rightarrow>
          rbind (fail_if (mode \<noteq> old_mode) (Integrity (''ChangePerm old_mode '' @ mode_text old_mode
              @ '' does not match the live mode '' @ mode_text mode))) (\<lambda>_.
          Ok (node\<lparr> ln_content := FileContent blob_id new_mode \<rparr>))
      | SymlinkContent _ \<Rightarrow> Err (Integrity
          ''ChangePerm cannot apply to a symlink node (mode is normatively zero)'')))
     (\<lambda>node. (Ok (), s\<lparr> live_by_id := fmupd node_id node (live_by_id s) \<rparr>)) s"

definition replace_file_blob ::
  "node_id \<Rightarrow> object_id \<Rightarrow> object_id \<Rightarrow> lifecycle_state \<Rightarrow> unit res \<times> lifecycle_state" where
  "replace_file_blob node_id old_blob_id new_blob_id s = guarded
     (rbind (ok_or (Integrity ''ReplaceBinary target node_id is not live'')
               (fmlookup (live_by_id s) node_id)) (\<lambda>node.
      rbind (fail_if (ln_kind node \<noteq> BinaryFile)
               (Integrity ''ReplaceBinary target is not a binary-file node'')) (\<lambda>_.
      case ln_content node of
        FileContent blob_id mode \<Rightarrow>
          rbind (fail_if (blob_id \<noteq> old_blob_id)
                   (Integrity ''ReplaceBinary old_blob_id does not match the live blob'')) (\<lambda>_.
          Ok (node\<lparr> ln_content := FileContent new_blob_id mode \<rparr>))
      | SymlinkContent _ \<Rightarrow> Err (Integrity ''ReplaceBinary cannot apply to a symlink node''))))
     (\<lambda>node. (Ok (), s\<lparr> live_by_id := fmupd node_id node (live_by_id s) \<rparr>)) s"

definition set_text_blob :: "node_id \<Rightarrow> object_id \<Rightarrow> lifecycle_state \<Rightarrow> unit res \<times> lifecycle_state" where
  "set_text_blob node_id new_blob_id s = guarded
     (rbind (ok_or (Integrity ''EditText target node_id is not live'')
               (fmlookup (live_by_id s) node_id)) (\<lambda>node.
      rbind (fail_if (ln_kind node \<noteq> TextFile)
               (Integrity ''EditText target is not a text-file node'')) (\<lambda>_.
      case ln_content node of
        FileContent blob_id mode \<Rightarrow> Ok (node\<lparr> ln_content := FileContent new_blob_id mode \<rparr>)
      | SymlinkContent _ \<Rightarrow> Err (Integrity ''EditText cannot apply to a symlink node''))))
     (\<lambda>node. (Ok (), s\<lparr> live_by_id := fmupd node_id node (live_by_id s) \<rparr>)) s"

definition seed_live_node :: "node_id \<Rightarrow> live_node \<Rightarrow> lifecycle_state \<Rightarrow> unit res \<times> lifecycle_state" where
  "seed_live_node node_id node s = guarded
     (rbind (ensure_node_id_nonzero node_id) (\<lambda>_.
      rbind (validate_kind_content_shape (ln_kind node) (ln_content node)) (\<lambda>_.
      rbind (fail_if (node_id |\<in>| fmdom (live_by_id s))
               (Integrity ''baseline seeds a duplicate live node_id'')) (\<lambda>_.
      fail_if (ln_path node |\<in>| fmdom (path_to_id s)) (Integrity
        (''baseline seeds a duplicate live path '' @ render (path_str (ln_path node))))))))
     (\<lambda>_. (Ok (), s\<lparr> seen_ids := finsert node_id (seen_ids s),
                    path_to_id := fmupd (ln_path node) node_id (path_to_id s),
                    live_by_id := fmupd node_id node (live_by_id s) \<rparr>)) s"

definition seed_tombstone :: "node_id \<Rightarrow> tombstone \<Rightarrow> lifecycle_state \<Rightarrow> unit res \<times> lifecycle_state" where
  "seed_tombstone node_id t s = guarded
     (rbind (ensure_node_id_nonzero node_id) (\<lambda>_.
      rbind (validate_kind_content_shape (tb_kind t) (tb_content t)) (\<lambda>_.
      fail_if (node_id |\<in>| fmdom (live_by_id s))
        (Integrity ''baseline seeds a tombstone for a currently-live node_id''))))
     (\<lambda>_. (Ok (), s\<lparr> seen_ids := finsert node_id (seen_ids s),
                    latest_tombstone_by_id := fmupd node_id t (latest_tombstone_by_id s) \<rparr>)) s"

end
