(* ===== verification/Refinement.thy ===== *)
theory Refinement
  imports Prikk_Error
begin

text \<open>
  The contract between a stateful component and the abstract specification of its operations: an
  operation that succeeds does what the specification does, one that fails leaves the state alone
  and is refused by the specification too. The contract carries over to sequences of operations,
  which stop at the first error, once for every component that interprets it.
\<close>

fun run_ops :: "('op \<Rightarrow> 's \<Rightarrow> unit res \<times> 's) \<Rightarrow> 'op list \<Rightarrow> 's \<Rightarrow> unit res \<times> 's" where
  "run_ops exec [] s = (Ok (), s)"
| "run_ops exec (op # ops) s =
     (case exec op s of (Err e, s') \<Rightarrow> (Err e, s') | (Ok _, s') \<Rightarrow> run_ops exec ops s')"

fun spec_run :: "('op \<Rightarrow> 'a \<Rightarrow> 'a option) \<Rightarrow> 'op list \<Rightarrow> 'a \<Rightarrow> 'a option" where
  "spec_run spec [] a = Some a"
| "spec_run spec (op # ops) a = Option.bind (spec op a) (spec_run spec ops)"

locale atomic_refinement =
  fixes inv :: "'s \<Rightarrow> bool"
    and abs :: "'s \<Rightarrow> 'a"
    and exec :: "'op \<Rightarrow> 's \<Rightarrow> unit res \<times> 's"
    and spec :: "'op \<Rightarrow> 'a \<Rightarrow> 'a option"
  assumes exec_Ok:
    "inv s \<Longrightarrow> exec op s = (Ok (), s') \<Longrightarrow> inv s' \<and> spec op (abs s) = Some (abs s')"
    and exec_Err: "inv s \<Longrightarrow> exec op s = (Err e, s') \<Longrightarrow> s' = s \<and> spec op (abs s) = None"
begin

lemma exec_inv:
  assumes "inv s"
  shows "inv (snd (exec op s))"
proof (cases "exec op s")
  case (Pair r s')
  then show ?thesis
    using assms exec_Ok exec_Err by (cases r) fastforce+
qed

lemma exec_iff: "inv s \<Longrightarrow> fst (exec op s) = Ok () \<longleftrightarrow> spec op (abs s) \<noteq> None"
  using exec_Ok [of s op "snd (exec op s)"] exec_Err [of s op _ "snd (exec op s)"]
  by (cases "fst (exec op s)") (auto simp: prod_eq_iff)

lemma run_inv: "inv s \<Longrightarrow> inv (snd (run_ops exec ops s))"
proof (induction ops arbitrary: s)
  case (Cons op ops)
  show ?case
  proof (cases "exec op s")
    case (Pair r s')
    then show ?thesis
      using Cons exec_inv [of s op] by (cases r) auto
  qed
qed simp

lemma run_refines:
  "inv s \<Longrightarrow> run_ops exec ops s = (Ok (), s') \<Longrightarrow> spec_run spec ops (abs s) = Some (abs s')"
proof (induction ops arbitrary: s)
  case (Cons op ops)
  then obtain s1 where s1: "exec op s = (Ok (), s1)" "run_ops exec ops s1 = (Ok (), s')"
    by (auto split: prod.splits result.splits)
  then show ?case
    using Cons exec_Ok [OF Cons.prems(1) s1(1)] by simp
qed simp

lemma run_succeeds_iff:
  "inv s \<Longrightarrow> fst (run_ops exec ops s) = Ok () \<longleftrightarrow> spec_run spec ops (abs s) \<noteq> None"
proof (induction ops arbitrary: s)
  case (Cons op ops)
  show ?case
  proof (cases "exec op s")
    case (Pair r s')
    then show ?thesis
      using Cons exec_Ok [of s op s'] exec_Err [of s op _ s'] by (cases r) auto
  qed
qed simp

text \<open>A relation that every specified step respects holds between the two ends of a run.\<close>

lemma run_relates:
  assumes "\<And>a. R a a" "\<And>a b c. R a b \<Longrightarrow> R b c \<Longrightarrow> R a c"
    and step: "\<And>op s. inv s \<Longrightarrow> fst (exec op s) = Ok () \<Longrightarrow> R (abs s) (abs (snd (exec op s)))"
    and "inv s"
  shows "R (abs s) (abs (snd (run_ops exec ops s)))"
  using assms(4)
proof (induction ops arbitrary: s)
  case Nil
  show ?case
    using assms(1) by simp
next
  case (Cons op ops)
  show ?case
  proof (cases "exec op s")
    case (Pair r s')
    show ?thesis
    proof (cases r)
      case (Err e)
      then show ?thesis
        using Pair exec_Err [of s op e s'] Cons.prems assms(1) by simp
    next
      case (Ok u)
      then have "R (abs s) (abs s')" "inv s'"
        using Pair step [of s op] exec_inv [of s op] Cons.prems by auto
      then show ?thesis
        using Pair Ok Cons.IH [of s'] assms(2) by simp
    qed
  qed
qed

end

end
