(* ===== verification/Lifecycle_Spec.thy ===== *)
theory Lifecycle_Spec
  imports Node_Lifecycle Refinement
begin

text \<open>
  What the lifecycle index promises: each node identity is unseen, live or tombstoned, and an
  operation changes the status of the nodes it names and of no other. The four maps of the index
  implement this view under an invariant that every operation keeps. The theory states the
  invariant, shows that the source's validator decides its structural part, and proves the
  refinement; rule induction over the operations then gives the facts about every reachable index.
\<close>

section \<open>The abstract tree\<close>

datatype node_status = Unseen | Live live_node | Tombstoned tombstone

type_synonym tree = "node_id \<Rightarrow> node_status"

definition tombstone_of :: "live_node \<Rightarrow> tombstone" where
  "tombstone_of node = \<lparr> tb_kind = ln_kind node, tb_content = ln_content node, tb_path = ln_path node \<rparr>"

definition occupied_outside :: "tree \<Rightarrow> node_id set \<Rightarrow> repo_path \<Rightarrow> bool" where
  "occupied_outside T inside path \<longleftrightarrow> (\<exists>m node. m \<notin> inside \<and> T m = Live node \<and> ln_path node = path)"

definition batch_targets :: "rename_entry list \<Rightarrow> (node_id \<times> repo_path) list" where
  "batch_targets renames = map (\<lambda>(n, _, new). (n, new)) renames"

definition batch_owners :: "rename_entry list \<Rightarrow> (repo_path \<times> node_id) list" where
  "batch_owners renames = map (\<lambda>(n, _, new). (new, n)) renames"

definition moved :: "rename_entry list \<Rightarrow> tree \<Rightarrow> tree" where
  "moved renames T = (\<lambda>n. case T n of
     Live node \<Rightarrow> (case map_of (batch_targets renames) n of
         Some new \<Rightarrow> Live (node\<lparr> ln_path := new \<rparr>) | None \<Rightarrow> Live node)
   | other \<Rightarrow> other)"

datatype lifecycle_op =
    CreateOp node_id live_node
  | DeleteOp node_id
  | DeleteCheckedOp node_id live_node
  | RenameOp node_id repo_path
  | RenameCheckedOp node_id repo_path repo_path
  | RenameBatchOp "rename_entry list"
  | ChangeModeOp node_id u32 u32
  | ReplaceBlobOp node_id object_id object_id
  | SetTextBlobOp node_id object_id

fun exec_op :: "lifecycle_op \<Rightarrow> lifecycle_state \<Rightarrow> unit res \<times> lifecycle_state" where
  "exec_op (CreateOp n node) s = create_node n node s"
| "exec_op (DeleteOp n) s = map_prod (\<lambda>r. rbind r (\<lambda>_. Ok ())) id (delete_node_op n s)"
| "exec_op (DeleteCheckedOp n node) s =
     map_prod (\<lambda>r. rbind r (\<lambda>_. Ok ())) id (delete_node_checked n node s)"
| "exec_op (RenameOp n new) s = rename_node n new s"
| "exec_op (RenameCheckedOp n old new) s = rename_node_checked n old new s"
| "exec_op (RenameBatchOp renames) s = rename_nodes_checked_batch renames s"
| "exec_op (ChangeModeOp n old new) s = change_file_mode n old new s"
| "exec_op (ReplaceBlobOp n old new) s = replace_file_blob n old new s"
| "exec_op (SetTextBlobOp n new) s = set_text_blob n new s"

fun spec_rename :: "node_id \<Rightarrow> repo_path \<Rightarrow> tree \<Rightarrow> tree option" where
  "spec_rename n new T = (case T n of
     Live node \<Rightarrow> if occupied_outside T {n} new then None
                  else Some (T(n := Live (node\<lparr> ln_path := new \<rparr>)))
   | _ \<Rightarrow> None)"

fun spec_op :: "lifecycle_op \<Rightarrow> tree \<Rightarrow> tree option" where
  "spec_op (CreateOp n node) T =
     (if \<not> node_id_is_zero n \<and> shape_consistent (ln_kind node) (ln_content node)
         \<and> \<not> occupied_outside T {} (ln_path node)
         \<and> (T n = Unseen \<or> T n = Tombstoned (tombstone_of node))
      then Some (T(n := Live node)) else None)"
| "spec_op (DeleteOp n) T = (case T n of
     Live node \<Rightarrow> Some (T(n := Tombstoned (tombstone_of node))) | _ \<Rightarrow> None)"
| "spec_op (DeleteCheckedOp n node) T =
     (if T n = Live node then Some (T(n := Tombstoned (tombstone_of node))) else None)"
| "spec_op (RenameOp n new) T = spec_rename n new T"
| "spec_op (RenameCheckedOp n old new) T =
     (if \<exists>node. T n = Live node \<and> ln_path node = old then spec_rename n new T else None)"
| "spec_op (RenameBatchOp renames) T =
     (if (\<forall>(n, old, _) \<in> set renames. \<exists>node. T n = Live node \<and> ln_path node = old)
         \<and> distinct (map fst renames) \<and> distinct (map (snd \<circ> snd) renames)
         \<and> (\<forall>(_, _, new) \<in> set renames. \<not> occupied_outside T (fst ` set renames) new)
      then Some (moved renames T) else None)"
| "spec_op (ChangeModeOp n old new) T = (case T n of
     Live node \<Rightarrow> (case ln_content node of
         FileContent blob mode \<Rightarrow>
           if mode = old then Some (T(n := Live (node\<lparr> ln_content := FileContent blob new \<rparr>)))
           else None
       | SymlinkContent _ \<Rightarrow> None)
   | _ \<Rightarrow> None)"
| "spec_op (ReplaceBlobOp n old new) T = (case T n of
     Live node \<Rightarrow> (case ln_content node of
         FileContent blob mode \<Rightarrow>
           if ln_kind node = BinaryFile \<and> blob = old
           then Some (T(n := Live (node\<lparr> ln_content := FileContent new mode \<rparr>))) else None
       | SymlinkContent _ \<Rightarrow> None)
   | _ \<Rightarrow> None)"
| "spec_op (SetTextBlobOp n new) T = (case T n of
     Live node \<Rightarrow> (case ln_content node of
         FileContent blob mode \<Rightarrow>
           if ln_kind node = TextFile
           then Some (T(n := Live (node\<lparr> ln_content := FileContent new mode \<rparr>))) else None
       | SymlinkContent _ \<Rightarrow> None)
   | _ \<Rightarrow> None)"

section \<open>Abstraction and invariant\<close>

definition status :: "lifecycle_state \<Rightarrow> tree" where
  "status s n = (case fmlookup (live_by_id s) n of
     Some node \<Rightarrow> Live node
   | None \<Rightarrow> (case fmlookup (latest_tombstone_by_id s) n of
       Some t \<Rightarrow> Tombstoned t | None \<Rightarrow> Unseen))"

text \<open>The path index is the inverse of the live map.\<close>

definition index_ok :: "lifecycle_state \<Rightarrow> bool" where
  "index_ok s \<longleftrightarrow> (\<forall>p n. fmlookup (path_to_id s) p = Some n \<longleftrightarrow>
     (\<exists>node. fmlookup (live_by_id s) n = Some node \<and> ln_path node = p))"

definition consistent :: "lifecycle_state \<Rightarrow> bool" where
  "consistent s \<longleftrightarrow> index_ok s
     \<and> fmdom (live_by_id s) |\<subseteq>| seen_ids s
     \<and> fmdom (latest_tombstone_by_id s) |\<subseteq>| seen_ids s
     \<and> fmdom (live_by_id s) |\<inter>| fmdom (latest_tombstone_by_id s) = {||}"

definition wf_lifecycle :: "lifecycle_state \<Rightarrow> bool" where
  "wf_lifecycle s \<longleftrightarrow> index_ok s
     \<and> (\<forall>n. n |\<in>| seen_ids s \<longleftrightarrow>
          fmlookup (live_by_id s) n \<noteq> None \<or> fmlookup (latest_tombstone_by_id s) n \<noteq> None)
     \<and> (\<forall>n node. fmlookup (live_by_id s) n = Some node \<longrightarrow> fmlookup (latest_tombstone_by_id s) n = None)
     \<and> (\<forall>n node. fmlookup (live_by_id s) n = Some node \<longrightarrow>
           \<not> node_id_is_zero n \<and> shape_consistent (ln_kind node) (ln_content node))
     \<and> (\<forall>n t. fmlookup (latest_tombstone_by_id s) n = Some t \<longrightarrow>
           \<not> node_id_is_zero n \<and> shape_consistent (tb_kind t) (tb_content t))"

section \<open>The validator decides the structural invariant\<close>

lemma set_in_key_order: "(k, v) \<in> set (in_key_order m) \<longleftrightarrow> fmlookup m k = Some v"
  by (auto simp: in_key_order_def image_iff fmdom_notD intro: fmdomI)

lemma ball_in_key_order:
  "(\<forall>e \<in> set (in_key_order m). P e) \<longleftrightarrow> (\<forall>k v. fmlookup m k = Some v \<longrightarrow> P (k, v))"
  by (metis set_in_key_order surj_pair)

lemma fmdom_disjoint_iff:
  "fmdom a |\<inter>| fmdom b = {||} \<longleftrightarrow> (\<forall>n v. fmlookup a n = Some v \<longrightarrow> fmlookup b n = None)"
  by (simp add: fset_eq_iff fmlookup_dom_iff) (metis not_None_eq)

lemma fmdom_subset_iff: "fmdom a |\<subseteq>| S \<longleftrightarrow> (\<forall>n v. fmlookup a n = Some v \<longrightarrow> n |\<in>| S)"
  by (auto simp: fmlookup_dom_iff)

lemma check_live_entry_Ok:
  "check_live_entry s (n, node) = Ok () \<longleftrightarrow>
     fmlookup (path_to_id s) (ln_path node) = Some n \<and> n |\<in>| seen_ids s"
  by (auto simp: check_live_entry_def split: option.splits)

lemma check_tombstone_key_Ok:
  "check_tombstone_key s n = Ok () \<longleftrightarrow> n |\<notin>| fmdom (live_by_id s) \<and> n |\<in>| seen_ids s"
  by (auto simp: check_tombstone_key_def)

lemma index_ok_iff:
  "index_ok s \<longleftrightarrow> fcard (fmdom (live_by_id s)) = fcard (fmdom (path_to_id s)) \<and>
     (\<forall>n node. fmlookup (live_by_id s) n = Some node \<longrightarrow>
        fmlookup (path_to_id s) (ln_path node) = Some n)"
proof -
  let ?L = "fmdom (live_by_id s)" and ?P = "fmdom (path_to_id s)"
  let ?f = "\<lambda>n. ln_path (the (fmlookup (live_by_id s) n))"
  define inv_ok where "inv_ok \<longleftrightarrow> (\<forall>n node. fmlookup (live_by_id s) n = Some node \<longrightarrow>
    fmlookup (path_to_id s) (ln_path node) = Some n)"
  have into: "?f |`| ?L |\<subseteq>| ?P" and inj: "inj_on ?f (fset ?L)" if inv_ok
    using that unfolding inv_ok_def
    by (auto simp: fmlookup_dom_iff inj_on_def) (metis fmdomI option.sel option.inject)+
  have card: "fcard (?f |`| ?L) = fcard ?L" if inv_ok
    using inj [OF that] by (simp add: fcard.rep_eq card_image)
  show ?thesis
  proof
    assume ok: "index_ok s"
    then have b: inv_ok
      by (auto simp: index_ok_def inv_ok_def)
    have "?P |\<subseteq>| ?f |`| ?L"
    proof
      fix p assume "p |\<in>| ?P"
      then obtain n node where "fmlookup (live_by_id s) n = Some node" "ln_path node = p"
        using ok by (auto simp: index_ok_def fmlookup_dom_iff)
      then show "p |\<in>| ?f |`| ?L"
        using fmdomI [of "live_by_id s" n node] by (auto intro!: rev_image_eqI [of n])
    qed
    then have "?f |`| ?L = ?P"
      using into [OF b] by blast
    then show "fcard ?L = fcard ?P \<and> (\<forall>n node. fmlookup (live_by_id s) n = Some node \<longrightarrow>
        fmlookup (path_to_id s) (ln_path node) = Some n)"
      using card [OF b] b by (simp add: inv_ok_def)
  next
    assume h: "fcard ?L = fcard ?P \<and> (\<forall>n node. fmlookup (live_by_id s) n = Some node \<longrightarrow>
        fmlookup (path_to_id s) (ln_path node) = Some n)"
    then have b: inv_ok
      by (simp add: inv_ok_def)
    have "?f |`| ?L = ?P"
      using fcard_seteq [OF into [OF b]] card [OF b] h by simp
    then have "\<exists>node. fmlookup (live_by_id s) n = Some node \<and> ln_path node = p"
      if p: "fmlookup (path_to_id s) p = Some n" for p n
    proof -
      have "p |\<in>| ?f |`| ?L"
        using \<open>?f |`| ?L = ?P\<close> fmdomI [OF p] by simp
      then obtain m node where "fmlookup (live_by_id s) m = Some node" "p = ln_path node"
        by (auto simp: fmlookup_dom_iff)
      then show ?thesis
        using b p by (auto simp: inv_ok_def)
    qed
    then show "index_ok s"
      using b by (auto simp: index_ok_def inv_ok_def)
  qed
qed

lemma validate_internal_consistency_iff:
  "validate_internal_consistency s = Ok () \<longleftrightarrow> consistent s"
proof -
  have "validate_internal_consistency s = Ok () \<longleftrightarrow> index_ok s
     \<and> (\<forall>n node. fmlookup (live_by_id s) n = Some node \<longrightarrow> n |\<in>| seen_ids s)
     \<and> (\<forall>n. n |\<in>| fmdom (latest_tombstone_by_id s) \<longrightarrow>
          n |\<notin>| fmdom (live_by_id s) \<and> n |\<in>| seen_ids s)"
    unfolding index_ok_iff validate_internal_consistency_def
    by (auto simp: rfold_Ok_unit ball_in_key_order check_live_entry_Ok check_tombstone_key_Ok)
  then show ?thesis
    unfolding consistent_def fmdom_disjoint_iff fmdom_subset_iff by (auto simp: fmlookup_dom_iff)
qed


section \<open>Every operation refines its specification\<close>

lemma status_Live [simp]: "status s n = Live node \<longleftrightarrow> fmlookup (live_by_id s) n = Some node"
  by (auto simp: status_def split: option.splits)

lemma status_live [simp]: "fmlookup (live_by_id s) n = Some node \<Longrightarrow> status s n = Live node"
  by simp

lemma status_not_live:
  "fmlookup (live_by_id s) n = None \<Longrightarrow> (case status s n of Live node \<Rightarrow> f node | _ \<Rightarrow> None) = None"
  by (auto simp: status_def split: option.splits)

lemma status_Tombstoned:
  "status s n = Tombstoned t \<longleftrightarrow>
     fmlookup (live_by_id s) n = None \<and> fmlookup (latest_tombstone_by_id s) n = Some t"
  by (auto simp: status_def split: option.splits)

lemma status_Unseen:
  "status s n = Unseen \<longleftrightarrow>
     fmlookup (live_by_id s) n = None \<and> fmlookup (latest_tombstone_by_id s) n = None"
  by (auto simp: status_def split: option.splits)

lemma wf_consistent: "wf_lifecycle s \<Longrightarrow> consistent s"
  by (auto simp: wf_lifecycle_def consistent_def fmdom_disjoint_iff fmdom_subset_iff)

lemma index_okD:
  assumes "index_ok s"
  shows "fmlookup (path_to_id s) p = Some n \<longleftrightarrow>
    (\<exists>node. fmlookup (live_by_id s) n = Some node \<and> ln_path node = p)"
  using assms by (simp add: index_ok_def)

lemma index_ok_inj:
  assumes "index_ok s" "fmlookup (live_by_id s) n = Some a" "fmlookup (live_by_id s) m = Some b"
    and "ln_path a = ln_path b"
  shows "n = m"
proof -
  have "fmlookup (path_to_id s) (ln_path b) = Some n" "fmlookup (path_to_id s) (ln_path b) = Some m"
    using assms by (auto simp: index_ok_def)
  then show ?thesis
    by simp
qed

lemma path_taken_iff:
  "index_ok s \<Longrightarrow> p |\<in>| fmdom (path_to_id s) \<longleftrightarrow> occupied_outside (status s) {} p"
  by (auto simp: fmlookup_dom_iff occupied_outside_def index_okD)

lemma path_other_iff:
  assumes "index_ok s"
  shows "(\<exists>m. fmlookup (path_to_id s) p = Some m \<and> m \<notin> N) \<longleftrightarrow> occupied_outside (status s) N p"
  using assms by (auto simp: occupied_outside_def index_okD)

lemma live_taken_iff: "n |\<in>| fmdom (live_by_id s) \<longleftrightarrow> (\<exists>node. status s n = Live node)"
  by (auto simp: fmlookup_dom_iff)

lemma wf_seen_iff: "wf_lifecycle s \<Longrightarrow> n |\<in>| seen_ids s \<longleftrightarrow> status s n \<noteq> Unseen"
  by (auto simp: wf_lifecycle_def status_Unseen)

lemma wf_tombstone_iff:
  "wf_lifecycle s \<Longrightarrow> fmlookup (latest_tombstone_by_id s) n = Some t \<longleftrightarrow> status s n = Tombstoned t"
  by (auto simp: wf_lifecycle_def status_Tombstoned)

text \<open>The outcome of one operation against the specification's verdict.\<close>

definition meets :: "unit res \<times> lifecycle_state \<Rightarrow> lifecycle_state \<Rightarrow> tree option \<Rightarrow> bool" where
  "meets outcome s verdict = (case outcome of
     (Ok _, s') \<Rightarrow> wf_lifecycle s' \<and> verdict = Some (status s')
   | (Err _, s') \<Rightarrow> s' = s \<and> verdict = None)"

lemma meets_guarded:
  assumes "\<And>y. checks = Ok y \<Longrightarrow> wf_lifecycle (f y) \<and> verdict = Some (status (f y))"
    and "verdict \<noteq> None \<Longrightarrow> \<exists>y. checks = Ok y"
  shows "meets (guarded checks (\<lambda>y. (Ok (), f y)) s) s verdict"
  using assms by (cases checks; cases verdict) (auto simp: meets_def guarded_def)

lemma meets_guarded_call:
  assumes "\<And>y. checks = Ok y \<Longrightarrow> meets (f y) s verdict"
    and "verdict \<noteq> None \<Longrightarrow> \<exists>y. checks = Ok y"
  shows "meets (guarded checks f s) s verdict"
  using assms by (cases checks; cases verdict) (auto simp: meets_def guarded_def)

lemma shape_check [simp]:
  "validate_kind_content_shape k c = Ok () \<longleftrightarrow> shape_consistent k c"
  by (simp add: validate_kind_content_shape_def)

lemma nonzero_check [simp]: "ensure_node_id_nonzero n = Ok () \<longleftrightarrow> \<not> node_id_is_zero n"
  by (simp add: ensure_node_id_nonzero_def node_id_is_zero_def)

lemma restoration_check [simp]:
  "ensure_restoration_equivalent t node = Ok () \<longleftrightarrow> t = tombstone_of node"
  by (cases t) (auto simp: ensure_restoration_equivalent_def tombstone_of_def)

text \<open>Replacing the content of a live node in place.\<close>

lemma update_content:
  assumes wf: "wf_lifecycle s" and n: "fmlookup (live_by_id s) n = Some node"
    and same: "ln_path node' = ln_path node" "shape_consistent (ln_kind node') (ln_content node')"
  defines "s' \<equiv> s\<lparr> live_by_id := fmupd n node' (live_by_id s) \<rparr>"
  shows "wf_lifecycle s' \<and> status s' = (status s)(n := Live node')"
proof -
  have "index_ok s'"
    using wf n same(1) by (auto simp: wf_lifecycle_def index_ok_def s'_def)
  then show ?thesis
    using wf n same(2) by (auto simp: wf_lifecycle_def s'_def status_def split: option.splits)
qed

lemma create_node_meets:
  assumes wf: "wf_lifecycle s"
  shows "meets (create_node n node s) s (spec_op (CreateOp n node) (status s))"
proof -
  let ?s' = "s\<lparr> latest_tombstone_by_id := fmdrop n (latest_tombstone_by_id s),
    seen_ids := finsert n (seen_ids s), path_to_id := fmupd (ln_path node) n (path_to_id s),
    live_by_id := fmupd n node (live_by_id s) \<rparr>"
  have ok: "index_ok s"
    using wf by (simp add: wf_lifecycle_def)
  have index: "index_ok ?s'" if "n |\<notin>| fmdom (live_by_id s)" "ln_path node |\<notin>| fmdom (path_to_id s)"
    using ok that by (auto simp: index_ok_def fmlookup_dom_iff)
  have st: "status ?s' = (status s)(n := Live node)"
    by (auto simp: status_def split: option.splits)
  have wf': "wf_lifecycle ?s'"
    if "n |\<notin>| fmdom (live_by_id s)" "ln_path node |\<notin>| fmdom (path_to_id s)" "\<not> node_id_is_zero n"
      "shape_consistent (ln_kind node) (ln_content node)"
    using wf index that by (auto simp: wf_lifecycle_def)
  show ?thesis
    unfolding create_node_def
  proof (rule meets_guarded, goal_cases)
    case (1 y)
    then have "n |\<notin>| fmdom (live_by_id s)" "ln_path node |\<notin>| fmdom (path_to_id s)"
      "\<not> node_id_is_zero n" "shape_consistent (ln_kind node) (ln_content node)"
      "status s n = Unseen \<or> status s n = Tombstoned (tombstone_of node)"
      using wf by (auto simp: wf_seen_iff wf_tombstone_iff split: if_splits)
    then show ?case
      using wf' st ok by (simp add: path_taken_iff)
  next
    case 2
    then show ?case
      using wf ok
      by (auto simp: wf_seen_iff wf_tombstone_iff live_taken_iff path_taken_iff simp del: status_Live
          split: if_splits)
  qed
qed

lemma delete_node_op_wf:
  assumes wf: "wf_lifecycle s" and n: "fmlookup (live_by_id s) n = Some node"
  shows "\<exists>s'. delete_node_op n s = (Ok node, s') \<and> wf_lifecycle s'
    \<and> status s' = (status s)(n := Tombstoned (tombstone_of node))"
proof -
  let ?s' = "s\<lparr> live_by_id := fmdrop n (live_by_id s), path_to_id := fmdrop (ln_path node) (path_to_id s),
    latest_tombstone_by_id := fmupd n (tombstone_of node) (latest_tombstone_by_id s) \<rparr>"
  have p: "fmlookup (path_to_id s) (ln_path node) = Some n"
    using wf n by (auto simp: wf_lifecycle_def index_ok_def)
  have inj: "m = n" if "fmlookup (live_by_id s) m = Some b" "ln_path b = ln_path node" for m b
    using wf n that index_ok_inj by (auto simp: wf_lifecycle_def)
  have "index_ok ?s'"
    using wf n p by (auto simp: wf_lifecycle_def index_ok_def dest: inj)
  then have "wf_lifecycle ?s'"
    using wf n by (auto simp: wf_lifecycle_def tombstone_of_def)
  moreover have "status ?s' = (status s)(n := Tombstoned (tombstone_of node))"
    by (auto simp: status_def split: option.splits)
  ultimately show ?thesis
    using n p by (simp add: delete_node_op_def tombstone_of_def)
qed

lemma delete_node_meets:
  assumes "wf_lifecycle s"
  shows "meets (exec_op (DeleteOp n) s) s (spec_op (DeleteOp n) (status s))"
  using delete_node_op_wf [OF assms, of n]
  by (cases "fmlookup (live_by_id s) n")
    (auto simp: meets_def delete_node_op_def status_def split: option.splits)

lemma delete_node_checked_meets:
  assumes wf: "wf_lifecycle s"
  shows "meets (exec_op (DeleteCheckedOp n node) s) s (spec_op (DeleteCheckedOp n node) (status s))"
proof (cases "fmlookup (live_by_id s) n = Some node")
  case True
  then show ?thesis
    using delete_node_op_wf [OF wf True]
    by (auto simp: meets_def delete_node_checked_def guarded_def)
next
  case False
  then show ?thesis
    by (cases "fmlookup (live_by_id s) n") (auto simp: meets_def delete_node_checked_def guarded_def fail_if_def)
qed

lemma rename_node_meets:
  assumes wf: "wf_lifecycle s"
  shows "meets (rename_node n new s) s (spec_rename n new (status s))"
proof (cases "fmlookup (live_by_id s) n")
  case None
  then have "\<nexists>node. status s n = Live node"
    by simp
  then show ?thesis
    using None
    by (auto simp: rename_node_def meets_def guarded_def fail_if_def status_def split: option.splits)
next
  case (Some node)
  have ok: "index_ok s"
    using wf by (simp add: wf_lifecycle_def)
  have inj: "m = n" if "fmlookup (live_by_id s) m = Some b" "ln_path b = ln_path node" for m b
    using Some that index_ok_inj [OF ok] by auto
  have p: "fmlookup (path_to_id s) (ln_path node) = Some n"
    using ok Some by (auto simp: index_ok_def)
  let ?s' = "s\<lparr> live_by_id := fmupd n (node\<lparr> ln_path := new \<rparr>) (live_by_id s),
    path_to_id := fmupd new n (fmdrop (ln_path node) (path_to_id s)) \<rparr>"
  have free: "occupied_outside (status s) {n} new \<longleftrightarrow>
      (\<exists>m. fmlookup (path_to_id s) new = Some m \<and> m \<noteq> n)"
    using path_other_iff [OF ok, of new "{n}"] by simp
  have st: "status ?s' = (status s)(n := Live (node\<lparr> ln_path := new \<rparr>))"
    by (auto simp: status_def split: option.splits)
  have "wf_lifecycle ?s'" if "\<not> occupied_outside (status s) {n} new"
  proof -
    have "index_ok ?s'"
      using ok Some that p by (auto simp: index_ok_def occupied_outside_def dest: inj)
    then show ?thesis
      using wf Some by (auto simp: wf_lifecycle_def)
  qed
  then show ?thesis
    using Some p free st unfolding rename_node_def
    by (auto simp: meets_def guarded_def fail_if_def split: option.splits)
qed

lemma rename_node_checked_meets:
  assumes "wf_lifecycle s"
  shows "meets (exec_op (RenameCheckedOp n old new) s) s
    (spec_op (RenameCheckedOp n old new) (status s))"
  using rename_node_meets [OF assms, of n new] unfolding exec_op.simps rename_node_checked_def
  by (intro meets_guarded_call) (auto split: if_splits)

lemma content_op_meets:
  assumes wf: "wf_lifecycle s"
    and keeps: "\<And>node node'. fmlookup (live_by_id s) n = Some node \<Longrightarrow> change node = Ok node' \<Longrightarrow>
      ln_path node' = ln_path node \<and> shape_consistent (ln_kind node') (ln_content node')"
    and verdict: "\<And>node. status s n = Live node \<Longrightarrow> verdict =
      (case change node of Ok node' \<Rightarrow> Some ((status s)(n := Live node')) | Err _ \<Rightarrow> None)"
      "(\<And>node. status s n \<noteq> Live node) \<Longrightarrow> verdict = None"
  shows "meets (guarded (rbind (ok_or e (fmlookup (live_by_id s) n)) change)
    (\<lambda>node. (Ok (), s\<lparr> live_by_id := fmupd n node (live_by_id s) \<rparr>)) s) s verdict"
proof (cases "fmlookup (live_by_id s) n")
  case None
  then show ?thesis
    using verdict(2) by (simp add: meets_def guarded_def)
next
  case (Some node)
  show ?thesis
  proof (cases "change node")
    case (Err e')
    then show ?thesis
      using Some verdict(1) [of node] by (simp add: meets_def guarded_def)
  next
    case (Ok node')
    then show ?thesis
      using Some verdict(1) [of node] keeps [OF Some Ok] update_content [OF wf Some, of node']
      by (simp add: meets_def guarded_def)
  qed
qed

lemma wf_shape:
  "wf_lifecycle s \<Longrightarrow> fmlookup (live_by_id s) n = Some node \<Longrightarrow>
     shape_consistent (ln_kind node) (ln_content node)"
  by (simp add: wf_lifecycle_def)

lemma shape_File: "shape_consistent k (FileContent b m) \<longleftrightarrow> k \<noteq> Symlink"
  by (cases k) auto

lemmas content_op_splits = node_content.splits node_status.splits result.splits if_splits

lemma change_file_mode_meets:
  assumes "wf_lifecycle s"
  shows "meets (change_file_mode n old new s) s (spec_op (ChangeModeOp n old new) (status s))"
  unfolding change_file_mode_def using wf_shape [OF assms, of n]
  by (intro content_op_meets [OF assms])
    (auto simp: fail_if_def shape_File status_def split: content_op_splits option.splits)

lemma replace_file_blob_meets:
  assumes "wf_lifecycle s"
  shows "meets (replace_file_blob n old new s) s (spec_op (ReplaceBlobOp n old new) (status s))"
  unfolding replace_file_blob_def using wf_shape [OF assms, of n]
  by (intro content_op_meets [OF assms])
    (auto simp: fail_if_def shape_File status_def split: content_op_splits option.splits)

lemma set_text_blob_meets:
  assumes "wf_lifecycle s"
  shows "meets (set_text_blob n new s) s (spec_op (SetTextBlobOp n new) (status s))"
  unfolding set_text_blob_def using wf_shape [OF assms, of n]
  by (intro content_op_meets [OF assms])
    (auto simp: fail_if_def shape_File status_def split: content_op_splits option.splits)

section \<open>The rename batch\<close>

lemma batch_check_step:
  "batch_check s (n, old, new) (S, D) = Ok SD \<longleftrightarrow>
     (\<exists>node. fmlookup (live_by_id s) n = Some node \<and> ln_path node = old)
     \<and> n \<notin> S \<and> new \<notin> D \<and> SD = (insert n S, insert new D)"
  by (auto simp: batch_check_def)

lemma batch_check_Ok:
  "rfold (batch_check s) renames (S, D) = Ok (S', D') \<longleftrightarrow>
     (\<forall>(n, old, _) \<in> set renames. \<exists>node. fmlookup (live_by_id s) n = Some node \<and> ln_path node = old)
     \<and> distinct (map fst renames) \<and> fst ` set renames \<inter> S = {}
     \<and> distinct (map (snd \<circ> snd) renames) \<and> (snd \<circ> snd) ` set renames \<inter> D = {}
     \<and> S' = S \<union> fst ` set renames \<and> D' = D \<union> (snd \<circ> snd) ` set renames"
proof (induction renames arbitrary: S D)
  case (Cons r renames)
  obtain n old new where r: "r = (n, old, new)"
    by (cases r) auto
  show ?case
    unfolding r by (auto simp: batch_check_step Cons.IH)
qed auto

lemma batch_clear_step:
  "batch_clear (n, old, new) s = s\<lparr> path_to_id := fmdrop old (path_to_id s) \<rparr>"
  by (simp add: batch_clear_def)

lemma batch_claim_step:
  "batch_claim (n, old, new) s = s\<lparr> path_to_id := fmupd new n (path_to_id s),
     live_by_id := (case fmlookup (live_by_id s) n of
        Some node \<Rightarrow> fmupd n (node\<lparr> ln_path := new \<rparr>) (live_by_id s) | None \<Rightarrow> live_by_id s) \<rparr>"
  by (simp add: batch_claim_def)

lemma fold_batch_clear:
  "fold batch_clear renames s =
     s\<lparr> path_to_id := fmdrop_set ((fst \<circ> snd) ` set renames) (path_to_id s) \<rparr>"
proof (induction renames arbitrary: s)
  case (Cons r renames)
  have "fmdrop_set A (fmdrop p m) = fmdrop p (fmdrop_set A m)" for A p and m :: "(repo_path, node_id) fmap"
    by (rule fmap_ext) auto
  then show ?case
    by (cases r) (simp add: Cons.IH batch_clear_step)
qed simp

lemma fold_batch_claim_paths:
  "distinct (map (snd \<circ> snd) renames) \<Longrightarrow>
     fmlookup (path_to_id (fold batch_claim renames s)) p =
       (case map_of (batch_owners renames) p of
          Some n \<Rightarrow> Some n | None \<Rightarrow> fmlookup (path_to_id s) p)"
proof (induction renames arbitrary: s)
  case (Cons r renames)
  obtain n old new where r: "r = (n, old, new)"
    by (cases r) auto
  have "map_of (batch_owners renames) new = None"
    using Cons.prems by (force simp: r map_of_eq_None_iff batch_owners_def)
  then show ?case
    using Cons by (auto simp: r batch_claim_step batch_owners_def split: option.splits)
qed (simp add: batch_owners_def)

lemma fold_batch_claim_live:
  "distinct (map fst renames) \<Longrightarrow>
     fmlookup (live_by_id (fold batch_claim renames s)) n =
       (case map_of (batch_targets renames) n of
          Some new \<Rightarrow> map_option (\<lambda>node. node\<lparr> ln_path := new \<rparr>) (fmlookup (live_by_id s) n)
        | None \<Rightarrow> fmlookup (live_by_id s) n)"
proof (induction renames arbitrary: s)
  case (Cons r renames)
  obtain m old new where r: "r = (m, old, new)"
    by (cases r) auto
  have "map_of (batch_targets renames) m = None"
    using Cons.prems by (force simp: r map_of_eq_None_iff batch_targets_def)
  then show ?case
    using Cons by (auto simp: r batch_claim_step batch_targets_def split: option.splits)
qed (simp add: batch_targets_def)

lemma fold_batch_claim_rest:
  "latest_tombstone_by_id (fold batch_claim renames s) = latest_tombstone_by_id s
     \<and> seen_ids (fold batch_claim renames s) = seen_ids s"
  by (induction renames arbitrary: s) (auto simp: batch_claim_step)

lemma map_of_targets:
  "distinct (map fst renames) \<Longrightarrow>
     map_of (batch_targets renames) n = Some new \<longleftrightarrow> (\<exists>old. (n, old, new) \<in> set renames)"
proof -
  have "map fst (batch_targets renames) = map fst renames"
    by (auto simp: batch_targets_def)
  moreover assume "distinct (map fst renames)"
  moreover have "(n, new) \<in> set (batch_targets renames) \<longleftrightarrow> (\<exists>old. (n, old, new) \<in> set renames)"
    by (force simp: batch_targets_def)
  ultimately show ?thesis
    by (simp add: map_of_eq_Some_iff)
qed

lemma map_of_owners:
  "distinct (map (snd \<circ> snd) renames) \<Longrightarrow>
     map_of (batch_owners renames) new = Some n \<longleftrightarrow> (\<exists>old. (n, old, new) \<in> set renames)"
proof -
  have "map fst (batch_owners renames) = map (snd \<circ> snd) renames"
    by (auto simp: batch_owners_def)
  moreover assume "distinct (map (snd \<circ> snd) renames)"
  moreover have "(new, n) \<in> set (batch_owners renames) \<longleftrightarrow> (\<exists>old. (n, old, new) \<in> set renames)"
    by (force simp: batch_owners_def)
  ultimately show ?thesis
    by (simp add: map_of_eq_Some_iff)
qed

text \<open>What the batch commits, given that its checks passed.\<close>

definition batch_commit :: "rename_entry list \<Rightarrow> lifecycle_state \<Rightarrow> lifecycle_state" where
  "batch_commit renames s = fold batch_claim renames (fold batch_clear renames s)"

lemma batch_commit_path:
  assumes "distinct (map (snd \<circ> snd) renames)"
  shows "fmlookup (path_to_id (batch_commit renames s)) p = Some n \<longleftrightarrow>
    (\<exists>old. (n, old, p) \<in> set renames) \<or>
    p \<notin> (snd \<circ> snd) ` set renames \<and> p \<notin> (fst \<circ> snd) ` set renames
      \<and> fmlookup (path_to_id s) p = Some n"
proof (cases "map_of (batch_owners renames) p")
  case None
  then have "p \<notin> (snd \<circ> snd) ` set renames"
    by (force simp: map_of_eq_None_iff batch_owners_def)
  then show ?thesis
    using None by (force simp: batch_commit_def fold_batch_claim_paths [OF assms] fold_batch_clear)
next
  case (Some m)
  then obtain old where "(m, old, p) \<in> set renames"
    using map_of_owners [OF assms] by blast
  then show ?thesis
    using Some map_of_owners [OF assms, of p n]
    by (force simp: batch_commit_def fold_batch_claim_paths [OF assms])
qed

lemma batch_commit_live:
  assumes "distinct (map fst renames)"
  shows "fmlookup (live_by_id (batch_commit renames s)) n =
    (case map_of (batch_targets renames) n of
       Some new \<Rightarrow> map_option (\<lambda>node. node\<lparr> ln_path := new \<rparr>) (fmlookup (live_by_id s) n)
     | None \<Rightarrow> fmlookup (live_by_id s) n)"
  by (simp add: batch_commit_def fold_batch_claim_live [OF assms] fold_batch_clear
      split: option.split)

lemma batch_commit_index:
  assumes ok: "index_ok s"
    and src: "\<forall>(n, old, _) \<in> set renames. \<exists>node. fmlookup (live_by_id s) n = Some node \<and> ln_path node = old"
    and dist: "distinct (map fst renames)" "distinct (map (snd \<circ> snd) renames)"
    and free: "\<forall>(_, _, new) \<in> set renames. \<not> occupied_outside (status s) (fst ` set renames) new"
  shows "index_ok (batch_commit renames s)"
proof -
  have live: "fmlookup (live_by_id (batch_commit renames s)) n = Some (node\<lparr> ln_path := new \<rparr>)"
    if "(n, old, new) \<in> set renames" "fmlookup (live_by_id s) n = Some node" for n old new node
    using that map_of_targets [OF dist(1), of n new] by (auto simp: batch_commit_live [OF dist(1)])
  have stay: "fmlookup (live_by_id (batch_commit renames s)) n = fmlookup (live_by_id s) n"
    if "n \<notin> fst ` set renames" for n
    using that map_of_targets [OF dist(1), of n]
    by (cases "map_of (batch_targets renames) n") (force simp: batch_commit_live [OF dist(1)])+
  have "fmlookup (path_to_id (batch_commit renames s)) p = Some n \<longleftrightarrow>
      (\<exists>node. fmlookup (live_by_id (batch_commit renames s)) n = Some node \<and> ln_path node = p)" for p n
  proof (cases "n \<in> fst ` set renames")
    case True
    then obtain old new node where r: "(n, old, new) \<in> set renames"
        "fmlookup (live_by_id s) n = Some node" "ln_path node = old"
      using src by fastforce
    have "old' = old \<and> new' = new" if "(n, old', new') \<in> set renames" for old' new'
      using that r(1) dist(1) by (metis Pair_inject eq_key_imp_eq_value)
    then have entry: "(\<exists>o'. (n, o', p) \<in> set renames) \<longleftrightarrow> p = new"
      using r(1) by blast
    have "p \<in> (fst \<circ> snd) ` set renames" if "fmlookup (path_to_id s) p = Some n"
    proof (rule image_eqI [OF _ r(1)])
      show "p = (fst \<circ> snd) (n, old, new)"
        using that r index_okD [OF ok, of p n] by simp
    qed
    then have "fmlookup (path_to_id (batch_commit renames s)) p = Some n \<longleftrightarrow> p = new"
      unfolding batch_commit_path [OF dist(2)] entry by blast
    then show ?thesis
      using live [OF r(1,2)] by auto
  next
    case False
    have "p \<notin> (snd \<circ> snd) ` set renames" "p \<notin> (fst \<circ> snd) ` set renames"
      if p: "fmlookup (path_to_id s) p = Some n"
    proof -
      show "p \<notin> (snd \<circ> snd) ` set renames"
        using p False free path_other_iff [OF ok, of p "fst ` set renames"] by fastforce
      show "p \<notin> (fst \<circ> snd) ` set renames"
        using p False src index_okD [OF ok, of p] by fastforce
    qed
    moreover have "\<nexists>old. (n, old, p) \<in> set renames"
      using False by force
    ultimately have "fmlookup (path_to_id (batch_commit renames s)) p = Some n \<longleftrightarrow>
        fmlookup (path_to_id s) p = Some n"
      unfolding batch_commit_path [OF dist(2)] by blast
    then show ?thesis
      using stay [OF False] index_okD [OF ok, of p n] by simp
  qed
  then show ?thesis
    by (simp add: index_ok_def)
qed

lemma batch_checks_iff:
  assumes ok: "index_ok s"
  shows "(\<exists>y. rbind (rfold (batch_check s) renames ({}, {})) (\<lambda>(sources, _).
      rbind (rfold (\<lambda>entry _. batch_collision s sources entry) renames ()) (\<lambda>_.
      rfold (\<lambda>entry _. batch_index_check s entry) renames ())) = Ok y) \<longleftrightarrow>
    spec_op (RenameBatchOp renames) (status s) \<noteq> None" (is "(\<exists>y. ?checks = Ok y) \<longleftrightarrow> _")
proof -
  have collision: "batch_collision s N (n, old, new) = Ok () \<longleftrightarrow> \<not> occupied_outside (status s) N new"
    for N n old new
    using path_other_iff [OF ok, of new N] by (auto simp: batch_collision_def split: option.splits)
  have index: "batch_index_check s (n, old, new) = Ok ()"
    if "fmlookup (live_by_id s) n = Some node" "ln_path node = old" for n old new node
    using that index_okD [OF ok, of old n] by (auto simp: batch_index_check_def)
  let ?N = "fst ` set renames"
  let ?src = "\<forall>(n, old, _) \<in> set renames. \<exists>node. fmlookup (live_by_id s) n = Some node \<and> ln_path node = old"
  have "(\<exists>y. ?checks = Ok y) \<longleftrightarrow> (\<exists>S D. rfold (batch_check s) renames ({}, {}) = Ok (S, D)
      \<and> (\<forall>e \<in> set renames. batch_collision s S e = Ok ())
      \<and> (\<forall>e \<in> set renames. batch_index_check s e = Ok ()))"
    by (simp add: rbind_pair_eq_Ok rfold_Ok_unit)
  also have "\<dots> \<longleftrightarrow> ?src \<and> distinct (map fst renames) \<and> distinct (map (snd \<circ> snd) renames)
      \<and> (\<forall>e \<in> set renames. batch_collision s ?N e = Ok ())
      \<and> (\<forall>e \<in> set renames. batch_index_check s e = Ok ())"
    unfolding batch_check_Ok by simp
  also have "(\<forall>e \<in> set renames. batch_collision s ?N e = Ok ()) \<longleftrightarrow>
      (\<forall>(_, _, new) \<in> set renames. \<not> occupied_outside (status s) ?N new)"
    by (rule ball_cong [OF refl]) (simp add: collision split: prod.split)
  also have "?src \<and> distinct (map fst renames) \<and> distinct (map (snd \<circ> snd) renames)
      \<and> (\<forall>(_, _, new) \<in> set renames. \<not> occupied_outside (status s) ?N new)
      \<and> (\<forall>e \<in> set renames. batch_index_check s e = Ok ()) \<longleftrightarrow>
      ?src \<and> distinct (map fst renames) \<and> distinct (map (snd \<circ> snd) renames)
      \<and> (\<forall>(_, _, new) \<in> set renames. \<not> occupied_outside (status s) ?N new)"
    using index by fastforce
  finally show ?thesis
    by simp
qed

lemma rename_batch_meets:
  assumes wf: "wf_lifecycle s"
  shows "meets (rename_nodes_checked_batch renames s) s (spec_op (RenameBatchOp renames) (status s))"
proof (cases "renames = []")
  case True
  then show ?thesis
    using wf by (auto simp: meets_def rename_nodes_checked_batch_def moved_def batch_targets_def
        split: node_status.splits)
next
  case False
  have ok: "index_ok s"
    using wf by (simp add: wf_lifecycle_def)
  have commit: "wf_lifecycle (batch_commit renames s)
      \<and> spec_op (RenameBatchOp renames) (status s) = Some (status (batch_commit renames s))"
    if verdict: "spec_op (RenameBatchOp renames) (status s) \<noteq> None"
  proof -
    have h: "\<forall>(n, old, _) \<in> set renames. \<exists>node. fmlookup (live_by_id s) n = Some node \<and> ln_path node = old"
        "distinct (map fst renames)" "distinct (map (snd \<circ> snd) renames)"
        "\<forall>(_, _, new) \<in> set renames. \<not> occupied_outside (status s) (fst ` set renames) new"
      and v: "spec_op (RenameBatchOp renames) (status s) = Some (moved renames (status s))"
      using verdict by (auto split: if_splits)
    have rest: "latest_tombstone_by_id (batch_commit renames s) = latest_tombstone_by_id s"
        "seen_ids (batch_commit renames s) = seen_ids s"
      by (simp_all add: batch_commit_def fold_batch_claim_rest fold_batch_clear)
    have "wf_lifecycle (batch_commit renames s)"
      using wf batch_commit_index [OF ok h]
      by (auto simp: wf_lifecycle_def rest batch_commit_live [OF h(2)] split: option.splits)
    moreover have "status (batch_commit renames s) = moved renames (status s)"
      by (auto simp: fun_eq_iff status_def moved_def rest batch_commit_live [OF h(2)]
          split: option.splits)
    ultimately show ?thesis
      using v by simp
  qed
  note checks = batch_checks_iff [OF ok, of renames]
  show ?thesis
    unfolding rename_nodes_checked_batch_def batch_commit_def [symmetric] if_not_P [OF False]
  proof (rule meets_guarded, goal_cases)
    case (1 y)
    then show ?case
      using checks commit by blast
  next
    case 2
    then show ?case
      using checks by blast
  qed
qed

section \<open>The refinement\<close>

lemma exec_op_meets:
  assumes "wf_lifecycle s"
  shows "meets (exec_op op s) s (spec_op op (status s))"
proof (cases op)
  case (CreateOp n node)
  then show ?thesis
    using create_node_meets [OF assms] by simp
next
  case (DeleteOp n)
  then show ?thesis
    using delete_node_meets [OF assms] by metis
next
  case (DeleteCheckedOp n node)
  then show ?thesis
    using delete_node_checked_meets [OF assms] by metis
next
  case (RenameOp n new)
  then show ?thesis
    using rename_node_meets [OF assms] by simp
next
  case (RenameCheckedOp n old new)
  then show ?thesis
    using rename_node_checked_meets [OF assms] by metis
next
  case (RenameBatchOp renames)
  then show ?thesis
    using rename_batch_meets [OF assms] by simp
next
  case (ChangeModeOp n old new)
  then show ?thesis
    using change_file_mode_meets [OF assms] by simp
next
  case (ReplaceBlobOp n old new)
  then show ?thesis
    using replace_file_blob_meets [OF assms] by simp
next
  case (SetTextBlobOp n new)
  then show ?thesis
    using set_text_blob_meets [OF assms] by simp
qed

interpretation lifecycle: atomic_refinement wf_lifecycle status exec_op spec_op
proof
  show "wf_lifecycle s' \<and> spec_op op (status s) = Some (status s')"
    if "wf_lifecycle s" "exec_op op s = (Ok (), s')" for s op s'
    using exec_op_meets [OF that(1), of op] that(2) by (simp add: meets_def)
  show "s' = s \<and> spec_op op (status s) = None"
    if "wf_lifecycle s" "exec_op op s = (Err e, s')" for s op e s'
    using exec_op_meets [OF that(1), of op] that(2) by (simp add: meets_def)
qed

lemma wf_new_lifecycle: "wf_lifecycle new_lifecycle"
  by (simp add: wf_lifecycle_def new_lifecycle_def index_ok_def)

lemma status_new: "status new_lifecycle = (\<lambda>_. Unseen)"
  by (simp add: fun_eq_iff status_def new_lifecycle_def)

text \<open>The indexes that operations build from the empty one.\<close>

inductive reachable :: "lifecycle_state \<Rightarrow> bool" where
  genesis: "reachable new_lifecycle"
| step: "reachable s \<Longrightarrow> reachable (snd (exec_op op s))"

lemma reachable_wf: "reachable s \<Longrightarrow> wf_lifecycle s"
  by (induction rule: reachable.induct) (auto intro: wf_new_lifecycle lifecycle.exec_inv)

lemma reachable_run: "reachable s \<Longrightarrow> reachable (snd (run_ops exec_op ops s))"
proof (induction ops arbitrary: s)
  case (Cons op ops)
  have "reachable (snd (exec_op op s))"
    using Cons.prems by (rule reachable.step)
  then show ?case
    using Cons.IH by (cases "exec_op op s"; cases "fst (exec_op op s)") auto
qed simp

section \<open>Seeding\<close>

lemma guarded_fst_Ok: "fst (guarded c (\<lambda>y. (Ok (), f y)) s) = Ok () \<longleftrightarrow> (\<exists>y. c = Ok y)"
  by (cases c) (auto simp: guarded_def)

lemma guarded_snd_Ok:
  "fst (guarded c (\<lambda>_. (Ok (), s')) s) = Ok () \<Longrightarrow> snd (guarded c (\<lambda>_. (Ok (), s')) s) = s'"
  by (cases c) (auto simp: guarded_def)

lemma seed_live_node_Ok:
  "fst (seed_live_node n node s) = Ok () \<longleftrightarrow> \<not> node_id_is_zero n
     \<and> shape_consistent (ln_kind node) (ln_content node)
     \<and> n |\<notin>| fmdom (live_by_id s) \<and> ln_path node |\<notin>| fmdom (path_to_id s)"
  unfolding seed_live_node_def guarded_fst_Ok by auto

lemma seed_tombstone_Ok:
  "fst (seed_tombstone n t s) = Ok () \<longleftrightarrow> \<not> node_id_is_zero n
     \<and> shape_consistent (tb_kind t) (tb_content t) \<and> n |\<notin>| fmdom (live_by_id s)"
  unfolding seed_tombstone_def guarded_fst_Ok by auto

lemma seed_live_node_wf:
  assumes wf: "wf_lifecycle s" and ok: "fst (seed_live_node n node s) = Ok ()"
    and unseen: "status s n = Unseen"
  shows "wf_lifecycle (snd (seed_live_node n node s))
    \<and> status (snd (seed_live_node n node s)) = (status s)(n := Live node)"
proof -
  let ?s' = "s\<lparr> seen_ids := finsert n (seen_ids s), path_to_id := fmupd (ln_path node) n (path_to_id s),
    live_by_id := fmupd n node (live_by_id s) \<rparr>"
  have s': "snd (seed_live_node n node s) = ?s'"
    using ok unfolding seed_live_node_def by (rule guarded_snd_Ok)
  have h: "\<not> node_id_is_zero n" "shape_consistent (ln_kind node) (ln_content node)"
      "n |\<notin>| fmdom (live_by_id s)" "ln_path node |\<notin>| fmdom (path_to_id s)"
    using ok by (simp_all add: seed_live_node_Ok)
  have "index_ok ?s'"
    using wf h(3,4) by (auto simp: wf_lifecycle_def index_ok_def fmlookup_dom_iff)
  then have "wf_lifecycle ?s'"
    using wf h unseen by (auto simp: wf_lifecycle_def status_Unseen)
  moreover have "status ?s' = (status s)(n := Live node)"
    by (auto simp: status_def split: option.splits)
  ultimately show ?thesis
    by (simp add: s')
qed

lemma seed_tombstone_wf:
  assumes wf: "wf_lifecycle s" and ok: "fst (seed_tombstone n t s) = Ok ()"
  shows "wf_lifecycle (snd (seed_tombstone n t s))
    \<and> status (snd (seed_tombstone n t s)) = (status s)(n := Tombstoned t)"
proof -
  let ?s' = "s\<lparr> seen_ids := finsert n (seen_ids s),
    latest_tombstone_by_id := fmupd n t (latest_tombstone_by_id s) \<rparr>"
  have s': "snd (seed_tombstone n t s) = ?s'"
    using ok unfolding seed_tombstone_def by (rule guarded_snd_Ok)
  have h: "\<not> node_id_is_zero n" "shape_consistent (tb_kind t) (tb_content t)"
      "fmlookup (live_by_id s) n = None"
    using ok by (simp_all add: seed_tombstone_Ok fmdom_notD)
  have "wf_lifecycle ?s'"
    using wf h by (auto simp: wf_lifecycle_def index_ok_def)
  moreover have "status ?s' = (status s)(n := Tombstoned t)"
    using h(3) by (auto simp: status_def split: option.splits)
  ultimately show ?thesis
    by (simp add: s')
qed

section \<open>The index is determined by its abstraction\<close>

lemma status_inj:
  assumes "wf_lifecycle s" "wf_lifecycle t" "status s = status t"
  shows "s = t"
proof -
  have live: "live_by_id s = live_by_id t"
    by (rule fmap_ext) (metis assms(3) option.exhaust status_Live)
  have tomb: "latest_tombstone_by_id s = latest_tombstone_by_id t"
    by (rule fmap_ext) (metis assms option.exhaust wf_tombstone_iff)
  have path: "path_to_id s = path_to_id t"
  proof (rule fmap_ext)
    fix p
    have "fmlookup (path_to_id s) p = Some n \<longleftrightarrow> fmlookup (path_to_id t) p = Some n" for n
      using assms(1,2) live by (simp add: wf_lifecycle_def index_ok_def)
    then show "fmlookup (path_to_id s) p = fmlookup (path_to_id t) p"
      by (metis option.exhaust)
  qed
  have "seen_ids s = seen_ids t"
    using assms by (auto simp: fset_eq_iff wf_seen_iff)
  then show ?thesis
    using live tomb path by (cases s, cases t) simp
qed

section \<open>Steps of one node\<close>

fun status_kind :: "node_status \<Rightarrow> node_kind option" where
  "status_kind Unseen = None"
| "status_kind (Live node) = Some (ln_kind node)"
| "status_kind (Tombstoned t) = Some (tb_kind t)"

lemma spec_op_kind:
  assumes "spec_op op T = Some T'" "status_kind (T n) = Some k"
  shows "status_kind (T' n) = Some k"
  using assms
  by (cases op)
    (auto simp: tombstone_of_def moved_def split: if_splits node_status.splits node_content.splits
      option.splits)

end
