(* ===== verification/Lifecycle_Props.thy ===== *)
theory Lifecycle_Props
  imports Lifecycle_Spec
begin

text \<open>
  The properties of the node lifecycle index: its histories are those of the abstract tree, errors
  change nothing, the validator accepts every index that operations build, paths are exchanged by a
  batch and not by single renames, a deletion can be undone only by the node it deleted, a node
  never changes its kind, and the one way a seeded index can escape the validator.
\<close>

section \<open>Concrete nodes for the witnesses\<close>

definition node1 :: node_id where "node1 = NodeId (replicate 32 1)"
definition node2 :: node_id where "node2 = NodeId (replicate 32 2)"

definition text_at :: "bytes \<Rightarrow> live_node" where
  "text_at p = \<lparr> ln_path = RepoPath p, ln_kind = TextFile,
     ln_content = FileContent (ObjectId (replicate 32 7)) 0x1A4 \<rparr>"

definition two_files :: lifecycle_state where
  "two_files = snd (run_ops exec_op [CreateOp node1 (text_at [97]), CreateOp node2 (text_at [98])]
     new_lifecycle)"

lemma node1_neq_node2: "node1 \<noteq> node2" "\<not> node_id_is_zero node1" "\<not> node_id_is_zero node2"
  by (simp_all add: node1_def node2_def node_id_is_zero_def replicate_eq_replicate)

lemma two_files_reachable: "reachable two_files"
  unfolding two_files_def by (intro reachable_run reachable.genesis)

lemmas eval_create = create_node_def guarded_def ensure_node_id_nonzero_def
  validate_kind_content_shape_def new_lifecycle_def

lemma two_files_live:
  "live_by_id two_files = fmupd node2 (text_at [98]) (fmupd node1 (text_at [97]) fmempty)"
  "path_to_id two_files = fmupd (RepoPath [98]) node2 (fmupd (RepoPath [97]) node1 fmempty)"
  using node1_neq_node2
  by (simp_all add: two_files_def eval_create text_at_def node_id_is_zero_def)

lemma fst_in_key_order: "fst ` set (in_key_order m) = fset (fmdom m)"
  by (simp add: in_key_order_def image_image)

section \<open>Properties\<close>

text \<open>C5 (refinement): running any sequence of index operations from the empty index, stopping at the
  first error, is running their specifications on the tree in which no node has been seen: the
  sequence succeeds exactly when it is admissible there, and the index it leaves represents the
  specified tree.\<close>

theorem lifecycle_history_refines:
  "spec_run spec_op ops (\<lambda>_. Unseen) =
     (case run_ops exec_op ops new_lifecycle of (Ok _, s) \<Rightarrow> Some (status s) | (Err _, _) \<Rightarrow> None)"
proof (cases "run_ops exec_op ops new_lifecycle")
  case (Pair r s)
  note wf = wf_new_lifecycle
  show ?thesis
  proof (cases r)
    case (Ok u)
    then show ?thesis
      using Pair lifecycle.run_refines [OF wf, of ops s] by (simp add: status_new)
  next
    case (Err e)
    then show ?thesis
      using Pair lifecycle.run_succeeds_iff [OF wf, of ops] by (simp add: status_new)
  qed
qed

text \<open>C33 (error): on every index that operations can build, an operation either succeeds with the
  specified effect or fails, and then it leaves the index exactly as it was and the specification
  refuses it too.\<close>

theorem lifecycle_step_atomic:
  assumes "reachable s"
  shows "case exec_op op s of
      (Ok _, s') \<Rightarrow> reachable s' \<and> spec_op op (status s) = Some (status s')
    | (Err _, s') \<Rightarrow> s' = s \<and> spec_op op (status s) = None"
  using exec_op_meets [OF reachable_wf [OF assms], of op] reachable.step [OF assms, of op]
  by (auto simp: meets_def split: prod.splits result.splits)

theorem lifecycle_step_atomic_witness:
  "reachable two_files
   \<and> (case exec_op (DeleteOp node1) two_files of
        (Ok _, s') \<Rightarrow> reachable s' \<and> spec_op (DeleteOp node1) (status two_files) = Some (status s')
      | (Err _, s') \<Rightarrow> s' = two_files \<and> spec_op (DeleteOp node1) (status two_files) = None)"
  using lifecycle_step_atomic [OF two_files_reachable, of "DeleteOp node1"] two_files_reachable
  by blast

text \<open>C34 (equivalence): \<open>validate_internal_consistency\<close> accepts an index exactly when the path index is
  the inverse of the live map, live and tombstoned identities are disjoint, and both are recorded as
  seen.\<close>

theorem validate_internal_consistency_exact:
  "validate_internal_consistency s = Ok () \<longleftrightarrow>
     (\<forall>p n. node_id_at s p = Some n \<longleftrightarrow> (\<exists>node. live_node_at s n = Some node \<and> ln_path node = p))
     \<and> (\<forall>n. live_node_at s n = None \<or> latest_tombstone s n = None)
     \<and> (\<forall>n. live_node_at s n = None \<and> latest_tombstone s n = None \<or> contains_seen_node_id s n)"
proof -
  have disj: "(\<forall>n v. A n = Some v \<longrightarrow> B n = None) \<longleftrightarrow> (\<forall>n. A n = None \<or> B n = None)"
    for A :: "node_id \<Rightarrow> live_node option" and B :: "node_id \<Rightarrow> tombstone option"
    using not_None_eq by metis
  have seen: "(\<forall>n v. A n = Some v \<longrightarrow> S n) \<and> (\<forall>n v. B n = Some v \<longrightarrow> S n) \<longleftrightarrow>
      (\<forall>n. A n = None \<and> B n = None \<or> S n)"
    for A :: "node_id \<Rightarrow> live_node option" and B :: "node_id \<Rightarrow> tombstone option" and S
    using not_None_eq by metis
  show ?thesis
    unfolding validate_internal_consistency_iff consistent_def fmdom_disjoint_iff fmdom_subset_iff
      index_ok_def node_id_at_def live_node_at_def latest_tombstone_def contains_seen_node_id_def
      disj seen [symmetric] by (simp only: conj_ac)
qed

text \<open>C9 (invariant): every index that the nine index operations build from the empty one passes the
  validator; a path leads to a node exactly when that node is live at that path, so that paths and live
  nodes correspond one to one; and the tombstones are exactly the seen identities that are not live, as the
  query documents. Seeding is not among the operations.\<close>

theorem reachable_index_consistent:
  assumes "reachable s"
  shows "validate_internal_consistency s = Ok ()
    \<and> (\<forall>p n. node_id_at s p = Some n \<longleftrightarrow> (\<exists>node. live_node_at s n = Some node \<and> ln_path node = p))
    \<and> fst ` set (tombstones s) = {n. contains_seen_node_id s n \<and> live_node_at s n = None}"
proof (intro conjI)
  note wf = reachable_wf [OF assms]
  show "validate_internal_consistency s = Ok ()"
    using wf_consistent [OF wf] by (simp add: validate_internal_consistency_iff)
  show "\<forall>p n. node_id_at s p = Some n \<longleftrightarrow> (\<exists>node. live_node_at s n = Some node \<and> ln_path node = p)"
    using wf by (simp add: wf_lifecycle_def index_ok_def node_id_at_def live_node_at_def)
  have "n \<in> fst ` set (tombstones s) \<longleftrightarrow> contains_seen_node_id s n \<and> live_node_at s n = None" for n
  proof -
    have "n \<in> fst ` set (tombstones s) \<longleftrightarrow> fmlookup (latest_tombstone_by_id s) n \<noteq> None"
      by (simp add: tombstones_def fst_in_key_order fmlookup_dom_iff)
    also have "\<dots> \<longleftrightarrow> contains_seen_node_id s n \<and> live_node_at s n = None"
      using wf by (auto simp: wf_lifecycle_def contains_seen_node_id_def live_node_at_def)
    finally show ?thesis .
  qed
  then show "fst ` set (tombstones s) = {n. contains_seen_node_id s n \<and> live_node_at s n = None}"
    by (simp add: set_eq_iff)
qed

theorem reachable_index_consistent_witness:
  "reachable two_files \<and> validate_internal_consistency two_files = Ok ()
   \<and> node_id_at two_files (RepoPath [97]) = Some node1
   \<and> fst ` set (tombstones two_files) =
       {n. contains_seen_node_id two_files n \<and> live_node_at two_files n = None}"
  using reachable_index_consistent [OF two_files_reachable] two_files_reachable node1_neq_node2
  by (simp add: live_node_at_def two_files_live text_at_def)

text \<open>C35 (functional): two live nodes trade places through one batch and keep everything else, and no
  single checked rename can do it: the first one fails on the path the other still holds.\<close>

theorem rename_batch_swaps:
  assumes s: "reachable s" and n: "live_node_at s n = Some a" and m: "live_node_at s m = Some b"
    and "n \<noteq> m"
  shows "(\<exists>s'. rename_nodes_checked_batch [(n, ln_path a, ln_path b), (m, ln_path b, ln_path a)] s
        = (Ok (), s')
      \<and> status s' = (status s)(n := Live (a\<lparr> ln_path := ln_path b \<rparr>), m := Live (b\<lparr> ln_path := ln_path a \<rparr>))
      \<and> node_id_at s' (ln_path b) = Some n \<and> node_id_at s' (ln_path a) = Some m)
    \<and> rename_node_checked n (ln_path a) (ln_path b) s = (Err (target_occupied (ln_path b)), s)"
proof
  let ?rs = "[(n, ln_path a, ln_path b), (m, ln_path b, ln_path a)]"
  note wf = reachable_wf [OF s]
  then have ok: "index_ok s"
    by (simp add: wf_lifecycle_def)
  have live: "fmlookup (live_by_id s) n = Some a" "fmlookup (live_by_id s) m = Some b"
    using n m by (simp_all add: live_node_at_def)
  then have paths: "ln_path a \<noteq> ln_path b"
    using index_ok_inj [OF ok] \<open>n \<noteq> m\<close> by blast
  have "\<not> occupied_outside (status s) {n, m} (ln_path a)" "\<not> occupied_outside (status s) {n, m} (ln_path b)"
    using live index_ok_inj [OF ok] by (fastforce simp: occupied_outside_def)+
  then have "spec_op (RenameBatchOp ?rs) (status s) = Some (moved ?rs (status s))"
    using live paths \<open>n \<noteq> m\<close> by simp
  then obtain s' where s': "rename_nodes_checked_batch ?rs s = (Ok (), s')" "wf_lifecycle s'"
      "status s' = moved ?rs (status s)"
    using rename_batch_meets [OF wf, of ?rs]
    by (cases "rename_nodes_checked_batch ?rs s") (auto simp: meets_def split: result.splits)
  have st: "status s' = (status s)(n := Live (a\<lparr> ln_path := ln_path b \<rparr>), m := Live (b\<lparr> ln_path := ln_path a \<rparr>))"
    using live \<open>n \<noteq> m\<close>
    by (auto simp: s'(3) fun_eq_iff moved_def batch_targets_def split: node_status.splits)
  have "status s' n = Live (a\<lparr> ln_path := ln_path b \<rparr>)" "status s' m = Live (b\<lparr> ln_path := ln_path a \<rparr>)"
    using st \<open>n \<noteq> m\<close> by (simp_all del: status_Live)
  then have "node_id_at s' (ln_path b) = Some n" "node_id_at s' (ln_path a) = Some m"
    using s'(2) by (auto simp: wf_lifecycle_def index_ok_def node_id_at_def)
  then show "\<exists>s'. rename_nodes_checked_batch ?rs s = (Ok (), s')
      \<and> status s' = (status s)(n := Live (a\<lparr> ln_path := ln_path b \<rparr>), m := Live (b\<lparr> ln_path := ln_path a \<rparr>))
      \<and> node_id_at s' (ln_path b) = Some n \<and> node_id_at s' (ln_path a) = Some m"
    using s'(1) st by blast
  have "fmlookup (path_to_id s) (ln_path b) = Some m"
    using ok live by (auto simp: index_ok_def)
  then show "rename_node_checked n (ln_path a) (ln_path b) s = (Err (target_occupied (ln_path b)), s)"
    using live \<open>n \<noteq> m\<close> by (simp add: rename_node_checked_def rename_node_def guarded_def fail_if_def)
qed

theorem rename_batch_swaps_witness:
  "reachable two_files \<and> live_node_at two_files node1 = Some (text_at [97])
   \<and> live_node_at two_files node2 = Some (text_at [98]) \<and> node1 \<noteq> node2
   \<and> rename_node_checked node1 (RepoPath [97]) (RepoPath [98]) two_files
       = (Err (target_occupied (RepoPath [98])), two_files)"
  using rename_batch_swaps [OF two_files_reachable, of node1 "text_at [97]" node2 "text_at [98]"]
    two_files_reachable node1_neq_node2
  by (simp add: live_node_at_def two_files_live text_at_def)

text \<open>C36 (round trip): a deletion returns the node it removed, reintroducing exactly that node
  restores the whole index, the path index, the seen identities and the tombstones included, and reintroducing the identity with any other path, kind, content or mode is
  refused.\<close>

theorem delete_then_restore:
  assumes s: "reachable s" and d: "delete_node_op n s = (Ok node, s')"
  shows "live_node_at s n = Some node
    \<and> create_node n node s' = (Ok (), s)
    \<and> (\<forall>other. other \<noteq> node \<longrightarrow> fst (create_node n other s') \<noteq> Ok ())"
proof -
  note wf = reachable_wf [OF s]
  have n: "fmlookup (live_by_id s) n = Some node"
    using d by (auto simp: delete_node_op_def Let_def split: option.splits if_splits)
  have s': "wf_lifecycle s'" "status s' = (status s)(n := Tombstoned (tombstone_of node))"
    using delete_node_op_wf [OF wf n] d by auto
  have free: "\<not> occupied_outside (status s') {} (ln_path node)"
  proof
    assume "occupied_outside (status s') {} (ln_path node)"
    then obtain m x where x: "status s' m = Live x" "ln_path x = ln_path node"
      unfolding occupied_outside_def by blast
    then have "m \<noteq> n" "status s m = Live x"
      unfolding s'(2) by (simp_all del: status_Live split: if_splits)
    then show False
      using index_ok_inj [of s m x n node] n wf x(2) by (simp add: wf_lifecycle_def)
  qed
  have tomb: "status s' n = Tombstoned (tombstone_of node)"
    using s'(2) by (simp del: status_Live)
  have "\<not> node_id_is_zero n" "shape_consistent (ln_kind node) (ln_content node)"
    using wf n by (auto simp: wf_lifecycle_def)
  then have "spec_op (CreateOp n node) (status s') = Some ((status s')(n := Live node))"
    using free tomb by simp
  moreover have "(status s')(n := Live node) = status s"
    using n by (auto simp: s'(2) fun_eq_iff)
  ultimately obtain s'' where "create_node n node s' = (Ok (), s'')" "status s'' = status s" "wf_lifecycle s''"
    using create_node_meets [OF s'(1), of n node]
    by (cases "create_node n node s'") (auto simp: meets_def split: result.splits)
  then have "create_node n node s' = (Ok (), s)"
    using status_inj [OF _ wf] by simp
  moreover have "fst (create_node n other s') \<noteq> Ok ()" if "other \<noteq> node" for other
  proof -
    have "tombstone_of other \<noteq> tombstone_of node"
      using that by (cases other; cases node) (auto simp: tombstone_of_def)
    then have "spec_op (CreateOp n other) (status s') = None"
      using tomb by simp
    then show ?thesis
      using create_node_meets [OF s'(1), of n other]
      by (cases "create_node n other s'") (auto simp: meets_def split: result.splits)
  qed
  ultimately show ?thesis
    using n by (simp add: live_node_at_def)
qed

theorem delete_then_restore_witness:
  "reachable two_files
   \<and> live_node_at two_files node1 = Some (text_at [97])
   \<and> snd (delete_node_op node1 two_files) \<noteq> two_files
   \<and> create_node node1 (text_at [97]) (snd (delete_node_op node1 two_files)) = (Ok (), two_files)"
proof -
  have "delete_node_op node1 two_files = (Ok (text_at [97]), snd (delete_node_op node1 two_files))"
    using node1_neq_node2 by (simp add: delete_node_op_def two_files_live text_at_def)
  moreover have "live_node_at (snd (delete_node_op node1 two_files)) node1 = None"
    using node1_neq_node2 by (simp add: delete_node_op_def two_files_live text_at_def live_node_at_def)
  ultimately show ?thesis
    using delete_then_restore [OF two_files_reachable, of node1] two_files_reachable by fastforce
qed

text \<open>C37 (safety): once a node identity has been introduced, every later history keeps it known and of
  the same kind, live or tombstoned: no sequence of operations turns a text file into a binary file
  or a symlink, or forgets the identity.\<close>

theorem node_kind_permanent:
  assumes "reachable s" and "status_kind (status s n) = Some k"
  shows "status_kind (status (snd (run_ops exec_op ops s)) n) = Some k"
proof -
  define R where "R T T' \<longleftrightarrow> (status_kind (T n) = Some k \<longrightarrow> status_kind (T' n) = Some k)" for T T' :: tree
  have "R (status s) (status (snd (run_ops exec_op ops s)))"
  proof (rule lifecycle.run_relates)
    show "R (status s) (status (snd (exec_op op s)))"
      if "wf_lifecycle s" "fst (exec_op op s) = Ok ()" for op s
      using lifecycle.exec_Ok [of s op "snd (exec_op op s)"] that spec_op_kind
      by (auto simp: R_def prod_eq_iff)
  qed (use reachable_wf [OF assms(1)] in \<open>auto simp: R_def\<close>)
  then show ?thesis
    using assms(2) by (simp add: R_def)
qed

theorem node_kind_permanent_witness:
  "reachable two_files \<and> status_kind (status two_files node1) = Some TextFile
   \<and> status_kind (status (snd (run_ops exec_op [DeleteOp node1, RenameOp node2 (RepoPath [97])]
        two_files)) node1) = Some TextFile"
proof -
  have "status_kind (status two_files node1) = Some TextFile"
    using node1_neq_node2 by (simp add: status_def two_files_live text_at_def)
  then show ?thesis
    using node_kind_permanent [OF two_files_reachable] two_files_reachable by blast
qed

text \<open>C38 (error): seeding is not as strict as creation. A cache that seeds a tombstone and then a live
  node for the same identity passes every gate of \<open>seed_live_node\<close>, where \<open>create_node\<close> would
  refuse a node that differs from the tombstone, and leaves an index that the validator rejects.\<close>

theorem seed_live_node_misses_tombstone:
  assumes "\<not> node_id_is_zero n" and "shape_consistent (tb_kind t) (tb_content t)"
    and "shape_consistent (ln_kind node) (ln_content node)" and "t \<noteq> tombstone_of node"
  defines "s \<equiv> snd (seed_tombstone n t new_lifecycle)"
  shows "fst (seed_tombstone n t new_lifecycle) = Ok ()
    \<and> fst (create_node n node s) \<noteq> Ok ()
    \<and> fst (seed_live_node n node s) = Ok ()
    \<and> validate_internal_consistency (snd (seed_live_node n node s)) \<noteq> Ok ()"
proof -
  have ok: "fst (seed_tombstone n t new_lifecycle) = Ok ()"
    using assms(1,2) by (simp add: seed_tombstone_Ok new_lifecycle_def)
  have s: "s = new_lifecycle\<lparr> seen_ids := finsert n (seen_ids new_lifecycle),
      latest_tombstone_by_id := fmupd n t (latest_tombstone_by_id new_lifecycle) \<rparr>"
    using ok unfolding s_def seed_tombstone_def by (rule guarded_snd_Ok)
  have live: "fst (seed_live_node n node s) = Ok ()"
    using assms(1,3) by (simp add: seed_live_node_Ok s new_lifecycle_def)
  have s2: "snd (seed_live_node n node s) = s\<lparr> seen_ids := finsert n (seen_ids s),
      path_to_id := fmupd (ln_path node) n (path_to_id s), live_by_id := fmupd n node (live_by_id s) \<rparr>"
    using live unfolding seed_live_node_def by (rule guarded_snd_Ok)
  have "\<not> consistent (snd (seed_live_node n node s))"
    unfolding s2 by (auto simp: consistent_def fmdom_disjoint_iff s new_lifecycle_def)
  moreover have "fst (create_node n node s) \<noteq> Ok ()"
    using assms(4) unfolding create_node_def guarded_fst_Ok by (simp add: s new_lifecycle_def)
  ultimately show ?thesis
    using ok live by (simp add: validate_internal_consistency_iff)
qed

theorem seed_live_node_misses_tombstone_witness:
  "tombstone_of (text_at [97]) \<noteq> tombstone_of (text_at [98])
   \<and> fst (seed_live_node node1 (text_at [98])
        (snd (seed_tombstone node1 (tombstone_of (text_at [97])) new_lifecycle))) = Ok ()"
  using seed_live_node_misses_tombstone [of node1 "tombstone_of (text_at [97])" "text_at [98]"]
    node1_neq_node2 by (simp add: tombstone_of_def text_at_def)

end
