(* ===== verification/Utf8.thy ===== *)
theory Utf8
  imports Prelude
begin

text \<open>
  Character boundaries of UTF-8 text, as \<open>str::is_char_boundary\<close> defines them, and the two facts text
  edits rest on: cutting well-formed text at a boundary gives well-formed halves, and a well-formed
  half leaves a well-formed rest, so a boundary is decided by the bytes before it as well as by the
  byte after it.
\<close>

definition is_char_boundary :: "bytes \<Rightarrow> nat \<Rightarrow> bool" where
  "is_char_boundary s i \<longleftrightarrow> i = 0 \<or> i = length s \<or> (i < length s \<and> \<not> utf8_cont (s ! i))"

declare utf8_valid.simps(2) [simp del]

text \<open>One encoded character.\<close>

fun utf8_char :: "bytes \<Rightarrow> bool" where
  "utf8_char [b] \<longleftrightarrow> b < 0x80"
| "utf8_char [b, c1] \<longleftrightarrow> 0xC2 \<le> b \<and> b \<le> 0xDF \<and> utf8_cont c1"
| "utf8_char [b, c1, c2] \<longleftrightarrow> 0xE0 \<le> b \<and> b \<le> 0xEF \<and> utf8_cont c1 \<and> utf8_cont c2
     \<and> (b = 0xE0 \<longrightarrow> 0xA0 \<le> c1) \<and> (b = 0xED \<longrightarrow> c1 \<le> 0x9F)"
| "utf8_char [b, c1, c2, c3] \<longleftrightarrow> 0xF0 \<le> b \<and> b \<le> 0xF4 \<and> utf8_cont c1 \<and> utf8_cont c2 \<and> utf8_cont c3
     \<and> (b = 0xF0 \<longrightarrow> 0x90 \<le> c1) \<and> (b = 0xF4 \<longrightarrow> c1 \<le> 0x8F)"
| "utf8_char _ \<longleftrightarrow> False"

lemma utf8_lead_ranges:
  fixes b :: u8
  shows "0xC2 \<le> b \<Longrightarrow> \<not> b < 0x80" "0xE0 \<le> b \<Longrightarrow> \<not> b < 0x80 \<and> \<not> b \<le> 0xDF"
    "0xF0 \<le> b \<Longrightarrow> \<not> b < 0x80 \<and> \<not> b \<le> 0xDF \<and> \<not> b \<le> 0xEF"
  by (auto simp: word_less_nat_alt word_le_nat_alt)

lemma utf8_valid_char: "utf8_char c \<Longrightarrow> utf8_valid (c @ r) \<longleftrightarrow> utf8_valid r"
  by (cases c rule: utf8_char.cases) (simp_all add: utf8_valid.simps(2) utf8_lead_ranges)

lemma utf8_valid_unfold:
  assumes "utf8_valid bs" "bs \<noteq> []"
  shows "\<exists>c r. bs = c @ r \<and> utf8_char c \<and> utf8_valid r"
proof (cases bs)
  case (Cons b t)
  consider "b < 0x80" "utf8_valid t"
    | c1 r where "t = c1 # r" "utf8_char [b, c1]" "utf8_valid r"
    | c1 c2 r where "t = c1 # c2 # r" "utf8_char [b, c1, c2]" "utf8_valid r"
    | c1 c2 c3 r where "t = c1 # c2 # c3 # r" "utf8_char [b, c1, c2, c3]" "utf8_valid r"
    using assms(1) unfolding Cons utf8_valid.simps(2)
    by (auto split: if_splits list.splits)
  then show ?thesis
  proof cases
    case 1
    then show ?thesis
      using Cons by (intro exI [of _ "[b]"] exI [of _ t]) simp
  next
    case (2 c1 r)
    then show ?thesis
      using Cons by (intro exI [of _ "[b, c1]"] exI [of _ r]) simp
  next
    case (3 c1 c2 r)
    then show ?thesis
      using Cons by (intro exI [of _ "[b, c1, c2]"] exI [of _ r]) simp
  next
    case (4 c1 c2 c3 r)
    then show ?thesis
      using Cons by (intro exI [of _ "[b, c1, c2, c3]"] exI [of _ r]) simp
  qed
qed (use assms in simp)

lemma utf8_char_not_Nil: "utf8_char c \<Longrightarrow> c \<noteq> []"
  by (cases c) auto

lemma utf8_valid_induct [consumes 1, case_names Nil Char]:
  assumes "utf8_valid bs" "P []" "\<And>c r. utf8_char c \<Longrightarrow> utf8_valid r \<Longrightarrow> P r \<Longrightarrow> P (c @ r)"
  shows "P bs"
  using assms(1)
proof (induction bs rule: length_induct)
  case (1 bs)
  show ?case
  proof (cases "bs = []")
    case False
    then obtain c r where "bs = c @ r" "utf8_char c" "utf8_valid r"
      using utf8_valid_unfold [OF 1(2)] by blast
    then show ?thesis
      using 1(1) assms(3) utf8_char_not_Nil [of c] by simp
  qed (simp add: assms(2))
qed

text \<open>Only the first byte of a character is not a continuation byte.\<close>

lemma utf8_char_lead: "utf8_char c \<Longrightarrow> \<not> utf8_cont (hd c)"
  by (cases c rule: utf8_char.cases) (auto simp: utf8_cont_def word_less_nat_alt word_le_nat_alt)

lemma utf8_char_tail: "utf8_char c \<Longrightarrow> x \<in> set (tl c) \<Longrightarrow> utf8_cont x"
  by (cases c rule: utf8_char.cases) auto

lemma utf8_valid_lead: "utf8_valid bs \<Longrightarrow> bs \<noteq> [] \<Longrightarrow> \<not> utf8_cont (hd bs)"
  using utf8_valid_unfold [of bs] utf8_char_lead utf8_char_not_Nil by (metis hd_append2)

lemma utf8_valid_append: "utf8_valid a \<Longrightarrow> utf8_valid (a @ b) \<longleftrightarrow> utf8_valid b"
  by (induction a rule: utf8_valid_induct) (simp_all add: utf8_valid_char)

lemma utf8_valid_cut:
  assumes "utf8_valid (a @ b)" "b = [] \<or> \<not> utf8_cont (hd b)"
  shows "utf8_valid a \<and> utf8_valid b"
proof -
  have "utf8_valid a" if "utf8_valid t" "t = a @ b" for t
    using that assms(2)
  proof (induction t arbitrary: a rule: utf8_valid_induct)
    case (Char c r)
    consider a' where "a = c @ a'" "r = a' @ b" | d where "c = a @ d" "b = d @ r" "d \<noteq> []"
      using Char.prems(1) append_eq_append_conv2 [of c r a b]
      by (metis append_Nil append_Nil2)
    then show ?case
    proof cases
      case (1 a')
      then show ?thesis
        using Char by (simp add: utf8_valid_char)
    next
      case (2 d)
      have "hd d \<in> set (tl c)" if "a \<noteq> []"
        using that 2 by (cases a) auto
      then show ?thesis
        using 2 Char utf8_char_tail [of c "hd d"] by (cases "a = []") auto
    qed
  qed simp
  then show ?thesis
    using assms(1) utf8_valid_append by blast
qed

text \<open>A boundary is where well-formed text can be cut.\<close>

lemma boundary_iff:
  assumes "utf8_valid (a @ b)"
  shows "is_char_boundary (a @ b) (length a) \<longleftrightarrow> utf8_valid a"
proof
  assume "is_char_boundary (a @ b) (length a)"
  then have "a = [] \<or> b = [] \<or> \<not> utf8_cont (hd b)"
    by (cases b) (auto simp: is_char_boundary_def nth_append)
  then show "utf8_valid a"
    using utf8_valid_cut [OF assms] by auto
next
  assume "utf8_valid a"
  then have "utf8_valid b"
    using assms by (simp add: utf8_valid_append)
  then show "is_char_boundary (a @ b) (length a)"
    using utf8_valid_lead [of b] by (cases b) (auto simp: is_char_boundary_def nth_append)
qed

lemma boundary_take:
  assumes "utf8_valid t" "i \<le> length t"
  shows "is_char_boundary t i \<longleftrightarrow> utf8_valid (take i t)"
  using boundary_iff [of "take i t" "drop i t"] assms by simp

text \<open>Two boundaries cut well-formed text into three well-formed pieces.\<close>

lemma boundary_slices:
  assumes t: "utf8_valid t" and b: "is_char_boundary t i" "is_char_boundary t j"
    and le: "i \<le> j" "j \<le> length t"
  shows "t = take i t @ take (j - i) (drop i t) @ drop j t"
    and "utf8_valid (take i t)" and "utf8_valid (take (j - i) (drop i t))" and "utf8_valid (drop j t)"
proof -
  show cut: "t = take i t @ take (j - i) (drop i t) @ drop j t"
    using append_take_drop_id [of "j - i" "drop i t"] le(1) by simp
  show pre: "utf8_valid (take i t)"
    using boundary_take [OF t, of i] b(1) le by simp
  have both: "utf8_valid (take i t @ take (j - i) (drop i t))"
    using boundary_take [OF t le(2)] b(2) le(1) by (simp add: take_add [symmetric])
  show "utf8_valid (take (j - i) (drop i t))"
    using both utf8_valid_append [OF pre] by simp
  show "utf8_valid (drop j t)"
    using utf8_valid_append [OF both, of "drop j t"] cut t by simp
qed

end
