(* ===== verification/Text_Span.thy ===== *)
theory Text_Span
  imports Utf8 Patch_Payload Blob_Block
begin

text \<open>
  Content-anchored text edits (\<open>prikk-store/src/text_span.rs\<close>, \<open>text_span/authoring.rs\<close>,
  \<open>text_span/inverse.rs\<close>): the anchor hashes and span identities, the occurrence search, the two
  localization schemes, the splice, the selection of one span from a pair of texts with its anchor
  lengths, and the derivation of the inverse edit. Positions are machine words of the platform,
  modelled as natural numbers; anchor lengths keep their 32 bits. SHA-256 is the argument
  \<open>sha256\<close>.
\<close>

section \<open>Identity primitives\<close>

definition TEXT_ANCHOR_WINDOW :: nat where "TEXT_ANCHOR_WINDOW = 64"

datatype text_span_resolution_failure =
  AnchorMismatch | NoMatchingSpanId | Ambiguous | MalformedAnchorLengths

fun display_resolution_failure :: "text_span_resolution_failure \<Rightarrow> string" where
  "display_resolution_failure AnchorMismatch = ''no occurrence's anchors matched the record''"
| "display_resolution_failure NoMatchingSpanId =
     ''no anchor-filtered occurrence reproduced the span_id''"
| "display_resolution_failure Ambiguous = ''more than one occurrence reproduced the span_id''"
| "display_resolution_failure MalformedAnchorLengths =
     ''exactly one of left_anchor_len/right_anchor_len was present''"

datatype text_span_splice_error =
  TextSpanSpliceError (splice_start: nat) (splice_end: nat) (splice_text_len: nat)

definition display_splice_error :: "text_span_splice_error \<Rightarrow> string" where
  "display_splice_error e = ''invalid text-span splice range start='' @ dec (splice_start e)
     @ '' end='' @ dec (splice_end e) @ '' for text of length '' @ dec (splice_text_len e)"

definition text_blob_id :: "(bytes \<Rightarrow> bytes) \<Rightarrow> bytes \<Rightarrow> object_id res" where
  "text_blob_id sha256 content =
     rbind (to_canonical_bytes encode_blob (new_blob BlobText content)) (\<lambda>bs.
     Ok (from_canonical_payload sha256 Blob 1 bs))"

text \<open>\<open>slice.get(a..b).unwrap_or(&[])\<close>.\<close>

definition slice_or_empty :: "bytes \<Rightarrow> nat \<Rightarrow> nat \<Rightarrow> bytes" where
  "slice_or_empty bs a b = (case slice_get bs a b of Some s \<Rightarrow> s | None \<Rightarrow> [])"

definition saturating_add :: "nat \<Rightarrow> nat \<Rightarrow> nat" where
  "saturating_add a b = min (a + b) (usize_limit - 1)"

definition anchor_preimage :: "bytes \<Rightarrow> bytes \<Rightarrow> bytes" where
  "anchor_preimage domain context = domain @ u32_be (word_of_nat (length context)) @ context"

definition anchor_hash :: "(bytes \<Rightarrow> bytes) \<Rightarrow> bytes \<Rightarrow> bytes \<Rightarrow> bytes" where
  "anchor_hash sha256 domain context = sha256 (anchor_preimage domain context)"

definition left_anchor :: "(bytes \<Rightarrow> bytes) \<Rightarrow> bytes \<Rightarrow> nat \<Rightarrow> bytes" where
  "left_anchor sha256 text start =
     anchor_hash sha256 (ascii ''PRIKK-TEXT-LEFT-ANCHOR-v1'')
       (slice_or_empty text (start - TEXT_ANCHOR_WINDOW) start)"

definition right_anchor :: "(bytes \<Rightarrow> bytes) \<Rightarrow> bytes \<Rightarrow> nat \<Rightarrow> bytes" where
  "right_anchor sha256 text stop =
     anchor_hash sha256 (ascii ''PRIKK-TEXT-RIGHT-ANCHOR-v1'')
       (slice_or_empty text stop (min (saturating_add stop TEXT_ANCHOR_WINDOW) (length text)))"

definition compute_span_id ::
  "(bytes \<Rightarrow> bytes) \<Rightarrow> node_id \<Rightarrow> bytes \<Rightarrow> bytes \<Rightarrow> bytes \<Rightarrow> u32 \<Rightarrow> bytes" where
  "compute_span_id sha256 node_id old_span_hash left right dup_index =
     sha256 (ascii ''PRIKK-TEXT-SPAN-v1'' @ node_bytes node_id @ old_span_hash @ left @ right
       @ u32_be dup_index)"

definition left_anchor_v2 :: "(bytes \<Rightarrow> bytes) \<Rightarrow> bytes \<Rightarrow> nat \<Rightarrow> u32 \<Rightarrow> bytes" where
  "left_anchor_v2 sha256 text start len =
     anchor_hash sha256 (ascii ''PRIKK-TEXT-LEFT-ANCHOR-v2'')
       (slice_or_empty text (start - unat len) start)"

definition right_anchor_v2 :: "(bytes \<Rightarrow> bytes) \<Rightarrow> bytes \<Rightarrow> nat \<Rightarrow> u32 \<Rightarrow> bytes" where
  "right_anchor_v2 sha256 text stop len =
     anchor_hash sha256 (ascii ''PRIKK-TEXT-RIGHT-ANCHOR-v2'')
       (slice_or_empty text stop (min (saturating_add stop (unat len)) (length text)))"

definition compute_span_id_v2 ::
  "(bytes \<Rightarrow> bytes) \<Rightarrow> node_id \<Rightarrow> bytes \<Rightarrow> bytes \<Rightarrow> bytes \<Rightarrow> u32 \<Rightarrow> u32 \<Rightarrow> bytes" where
  "compute_span_id_v2 sha256 node_id old_span_hash left right left_len right_len =
     sha256 (ascii ''PRIKK-TEXT-SPAN-v2'' @ node_bytes node_id @ old_span_hash @ left @ right
       @ u32_be left_len @ u32_be right_len)"

section \<open>Localization and splice\<close>

function occurrences_from :: "bytes \<Rightarrow> bytes \<Rightarrow> nat \<Rightarrow> nat list" where
  "occurrences_from text needle i =
     (if i + length needle \<le> length text then
        (if slice_get text i (i + length needle) = Some needle then [i] else [])
          @ occurrences_from text needle (i + 1)
      else [])"
  by auto
termination by (relation "measure (\<lambda>(text, needle, i). Suc (length text) - i)") auto

declare occurrences_from.simps [simp del]

definition occurrences :: "bytes \<Rightarrow> bytes \<Rightarrow> nat list" where
  "occurrences text needle =
     (if needle = [] then [0..<Suc (length text)] else occurrences_from text needle 0)"

definition locate_text_span ::
  "(bytes \<Rightarrow> bytes) \<Rightarrow> bytes \<Rightarrow> bytes \<Rightarrow> bytes \<Rightarrow> bytes \<Rightarrow> bytes \<Rightarrow> node_id \<Rightarrow> bytes
   \<Rightarrow> (text_span_resolution_failure, nat \<times> nat) result" where
  "locate_text_span sha256 text old_span_text record_left record_right record_span_id node_id
       old_span_hash =
     (let span_len = length old_span_text;
          anchor_matching = filter (\<lambda>(start, stop).
              left_anchor sha256 text start = record_left \<and> right_anchor sha256 text stop = record_right)
            (map (\<lambda>start. (start, start + span_len)) (occurrences text old_span_text))
      in if anchor_matching = [] then Err AnchorMismatch
         else let matches = map snd (filter (\<lambda>(dup_index, _).
                  compute_span_id sha256 node_id old_span_hash record_left record_right
                    (word_of_nat dup_index) = record_span_id)
                (enumerate 0 anchor_matching))
           in (case matches of
                 [] \<Rightarrow> Err NoMatchingSpanId
               | [one] \<Rightarrow> Ok one
               | _ \<Rightarrow> Err Ambiguous))"

definition locate_text_span_v2 ::
  "(bytes \<Rightarrow> bytes) \<Rightarrow> bytes \<Rightarrow> bytes \<Rightarrow> bytes \<Rightarrow> bytes \<Rightarrow> bytes \<Rightarrow> node_id \<Rightarrow> bytes \<Rightarrow> u32 \<Rightarrow> u32
   \<Rightarrow> (text_span_resolution_failure, nat \<times> nat) result" where
  "locate_text_span_v2 sha256 text old_span_text record_left record_right record_span_id node_id
       old_span_hash left_len right_len =
     (let span_len = length old_span_text;
          anchor_matching = filter (\<lambda>(start, stop).
              left_anchor_v2 sha256 text start left_len = record_left
              \<and> right_anchor_v2 sha256 text stop right_len = record_right)
            (map (\<lambda>start. (start, start + span_len)) (occurrences text old_span_text))
      in (case anchor_matching of
            [] \<Rightarrow> Err AnchorMismatch
          | [one] \<Rightarrow>
              if compute_span_id_v2 sha256 node_id old_span_hash record_left record_right left_len
                   right_len \<noteq> record_span_id
              then Err NoMatchingSpanId else Ok one
          | _ \<Rightarrow> Err Ambiguous))"

definition resolve_text_span ::
  "(bytes \<Rightarrow> bytes) \<Rightarrow> bytes \<Rightarrow> bytes \<Rightarrow> bytes \<Rightarrow> bytes \<Rightarrow> bytes \<Rightarrow> node_id \<Rightarrow> bytes \<Rightarrow> u32 option
   \<Rightarrow> u32 option \<Rightarrow> (text_span_resolution_failure, nat \<times> nat) result" where
  "resolve_text_span sha256 text old_span_text record_left record_right record_span_id node_id
       old_span_hash left_anchor_len right_anchor_len =
     (case (left_anchor_len, right_anchor_len) of
        (None, None) \<Rightarrow> locate_text_span sha256 text old_span_text record_left record_right
          record_span_id node_id old_span_hash
      | (Some left_len, Some right_len) \<Rightarrow> locate_text_span_v2 sha256 text old_span_text record_left
          record_right record_span_id node_id old_span_hash left_len right_len
      | _ \<Rightarrow> Err MalformedAnchorLengths)"

definition splice_text ::
  "bytes \<Rightarrow> nat \<Rightarrow> nat \<Rightarrow> bytes \<Rightarrow> (text_span_splice_error, bytes) result" where
  "splice_text text start stop replacement =
     (if start > stop \<or> stop > length text then Err (TextSpanSpliceError start stop (length text))
      else Ok (slice_or_empty text 0 start @ replacement @ slice_or_empty text stop (length text)))"

section \<open>Authoring\<close>

record authored_text_span =
  as_old_start :: nat
  as_old_end :: nat
  as_new_start :: nat
  as_new_end :: nat
  as_old_span_text :: bytes
  as_replacement_text :: bytes
  as_old_span_hash :: bytes
  as_left_anchor_hash :: bytes
  as_right_anchor_hash :: bytes
  as_left_anchor_len :: u32
  as_right_anchor_len :: u32
  as_span_id :: bytes

datatype text_span_selection_error =
  OldTextNotUtf8 | NewTextNotUtf8 | InvalidWidenedRange | AnchorUniquenessUnreachable

fun display_selection_error :: "text_span_selection_error \<Rightarrow> string" where
  "display_selection_error OldTextNotUtf8 = ''old text is not well-formed UTF-8''"
| "display_selection_error NewTextNotUtf8 = ''new text is not well-formed UTF-8''"
| "display_selection_error InvalidWidenedRange = ''widened text-span range is invalid''"
| "display_selection_error AnchorUniquenessUnreachable =
     ''no anchor length up to the file's own size made this span unique''"

record selected_span =
  ss_old_start :: nat
  ss_old_end :: nat
  ss_new_start :: nat
  ss_new_end :: nat
  ss_old_span_text :: bytes
  ss_replacement_text :: bytes

definition common_prefix_len :: "bytes \<Rightarrow> bytes \<Rightarrow> nat" where
  "common_prefix_len left right = length (takeWhile (\<lambda>(a, b). a = b) (zip left right))"

definition common_suffix_len :: "bytes \<Rightarrow> bytes \<Rightarrow> nat \<Rightarrow> nat" where
  "common_suffix_len left right prefix =
     length (takeWhile (\<lambda>(a, b). a = b)
       (take (min (length left) (length right) - prefix) (zip (rev left) (rev right))))"

text \<open>The two widening loops; \<open>checked_sub\<close> and \<open>checked_add\<close> are the guards of the source.\<close>

fun widen_start :: "bytes \<Rightarrow> nat \<Rightarrow> nat \<Rightarrow> (text_span_selection_error, nat \<times> nat) result" where
  "widen_start old old_start new_start =
     (if is_char_boundary old old_start then Ok (old_start, new_start)
      else case (old_start, new_start) of
             (Suc o', Suc n') \<Rightarrow> widen_start old o' n'
           | _ \<Rightarrow> Err InvalidWidenedRange)"

function widen_end ::
  "bytes \<Rightarrow> bytes \<Rightarrow> nat \<Rightarrow> nat \<Rightarrow> (text_span_selection_error, nat \<times> nat) result" where
  "widen_end old new old_end new_end =
     (if is_char_boundary old old_end then Ok (old_end, new_end)
      else case (checked_add old_end 1, checked_add new_end 1) of
             (Some o', Some n') \<Rightarrow>
               if o' > length old \<or> n' > length new then Err InvalidWidenedRange
               else widen_end old new o' n'
           | _ \<Rightarrow> Err InvalidWidenedRange)"
  by auto
termination
  by (relation "measure (\<lambda>(old, new, old_end, new_end). Suc (length old) - old_end)")
    (auto simp: checked_add_def split: if_splits)

declare widen_start.simps [simp del] widen_end.simps [simp del]

definition select_span ::
  "bytes \<Rightarrow> bytes \<Rightarrow> (text_span_selection_error, selected_span option) result" where
  "select_span old new =
     (if old = new then Ok None
      else if \<not> utf8_valid old then Err OldTextNotUtf8
      else if \<not> utf8_valid new then Err NewTextNotUtf8
      else
        let prefix = common_prefix_len old new; suffix = common_suffix_len old new prefix in
        rbind (widen_start old prefix prefix) (\<lambda>(old_start, new_start).
        rbind (widen_end old new (length old - suffix) (length new - suffix)) (\<lambda>(old_end, new_end).
        if old_start > old_end \<or> old_end > length old \<or> new_start > new_end \<or> new_end > length new
           \<or> \<not> is_char_boundary old old_start \<or> \<not> is_char_boundary old old_end
           \<or> \<not> is_char_boundary new new_start \<or> \<not> is_char_boundary new new_end
        then Err InvalidWidenedRange
        else
          rbind (ok_or InvalidWidenedRange (slice_get old old_start old_end)) (\<lambda>old_span_text.
          rbind (ok_or InvalidWidenedRange (slice_get new new_start new_end)) (\<lambda>replacement_text.
          Ok (Some \<lparr> ss_old_start = old_start, ss_old_end = old_end, ss_new_start = new_start,
            ss_new_end = new_end, ss_old_span_text = old_span_text,
            ss_replacement_text = replacement_text \<rparr>))))))"

definition saturating_mul_u32 :: "u32 \<Rightarrow> u32 \<Rightarrow> u32" where
  "saturating_mul_u32 a b = word_of_nat (min (unat a * unat b) (2 ^ 32 - 1))"

text \<open>How many occurrences of the span have the anchors of the selected one at this length.\<close>

definition anchor_match_count ::
  "(bytes \<Rightarrow> bytes) \<Rightarrow> bytes \<Rightarrow> bytes \<Rightarrow> nat \<Rightarrow> nat \<Rightarrow> u32 \<Rightarrow> nat" where
  "anchor_match_count sha256 text old_span_text selected_start selected_end len =
     (let left = left_anchor_v2 sha256 text selected_start len;
          right = right_anchor_v2 sha256 text selected_end len;
          span_len = length old_span_text
      in length (filter (\<lambda>start. left_anchor_v2 sha256 text start len = left
             \<and> right_anchor_v2 sha256 text (start + span_len) len = right)
           (occurrences text old_span_text)))"

definition next_anchor_len :: "u32 \<Rightarrow> u32 \<Rightarrow> u32" where
  "next_anchor_len len limit = max (min (saturating_mul_u32 len 2) limit) (len + 1)"

lemma next_anchor_len_grows: "len < limit \<Longrightarrow> len < next_anchor_len len limit"
proof -
  assume "len < limit"
  then have "unat (len + 1) = unat len + 1"
    using unsigned_less [of limit, where 'a = nat]
    by (simp add: unat_word_ariths word_less_nat_alt)
  then have "len < len + 1"
    by (simp add: word_less_nat_alt)
  then show ?thesis
    unfolding next_anchor_len_def by (rule less_le_trans) (rule max.cobounded2)
qed

function choose_anchor_loop ::
  "(bytes \<Rightarrow> bytes) \<Rightarrow> bytes \<Rightarrow> bytes \<Rightarrow> nat \<Rightarrow> nat \<Rightarrow> u32 \<Rightarrow> u32
   \<Rightarrow> (text_span_selection_error, u32 \<times> u32) result" where
  "choose_anchor_loop sha256 text old_span_text selected_start selected_end limit len =
     (if anchor_match_count sha256 text old_span_text selected_start selected_end len = 1
      then Ok (len, len)
      else if len \<ge> limit then Err AnchorUniquenessUnreachable
      else choose_anchor_loop sha256 text old_span_text selected_start selected_end limit
             (next_anchor_len len limit))"
  by auto
termination
  by (relation "measure (\<lambda>(_, _, _, _, _, limit, len). unat limit - unat len)")
    (use next_anchor_len_grows in \<open>auto simp: word_less_nat_alt word_le_nat_alt not_le
      intro!: diff_less_mono2\<close>)

declare choose_anchor_loop.simps [simp del]

definition choose_anchor_lengths_v2 ::
  "(bytes \<Rightarrow> bytes) \<Rightarrow> bytes \<Rightarrow> bytes \<Rightarrow> nat \<Rightarrow> nat
   \<Rightarrow> (text_span_selection_error, u32 \<times> u32) result" where
  "choose_anchor_lengths_v2 sha256 text old_span_text selected_start selected_end =
     choose_anchor_loop sha256 text old_span_text selected_start selected_end
       (word_of_nat (length text)) (word_of_nat TEXT_ANCHOR_WINDOW)"

definition plan_authored_text_span ::
  "(bytes \<Rightarrow> bytes) \<Rightarrow> bytes \<Rightarrow> bytes \<Rightarrow> node_id
   \<Rightarrow> (text_span_selection_error, authored_text_span option) result" where
  "plan_authored_text_span sha256 old new node_id =
     rbind (select_span old new) (\<lambda>selected. case selected of
       None \<Rightarrow> Ok None
     | Some s \<Rightarrow>
         let old_span_hash = text_span_hash sha256 (ss_old_span_text s) in
         rbind (choose_anchor_lengths_v2 sha256 old (ss_old_span_text s) (ss_old_start s)
                  (ss_old_end s)) (\<lambda>(left_anchor_len, right_anchor_len).
         let left_anchor_hash = left_anchor_v2 sha256 old (ss_old_start s) left_anchor_len;
             right_anchor_hash = right_anchor_v2 sha256 old (ss_old_end s) right_anchor_len;
             span_id = compute_span_id_v2 sha256 node_id old_span_hash left_anchor_hash
               right_anchor_hash left_anchor_len right_anchor_len
         in Ok (Some \<lparr> as_old_start = ss_old_start s, as_old_end = ss_old_end s,
              as_new_start = ss_new_start s, as_new_end = ss_new_end s,
              as_old_span_text = ss_old_span_text s, as_replacement_text = ss_replacement_text s,
              as_old_span_hash = old_span_hash, as_left_anchor_hash = left_anchor_hash,
              as_right_anchor_hash = right_anchor_hash, as_left_anchor_len = left_anchor_len,
              as_right_anchor_len = right_anchor_len, as_span_id = span_id \<rparr>)))"

text \<open>The operation that a commit records for a changed text file, from the old and new text.\<close>

definition plan_edit_text ::
  "(bytes \<Rightarrow> bytes) \<Rightarrow> bytes \<Rightarrow> bytes \<Rightarrow> node_id \<Rightarrow> edit_text res" where
  "plan_edit_text sha256 old_text new_bytes node_id =
     rbind (map_err (\<lambda>err. Integrity (''EditText: '' @ display_selection_error err))
              (plan_authored_text_span sha256 old_text new_bytes node_id)) (\<lambda>planned.
     rbind (ok_or (Integrity ''EditText requested for unchanged text'') planned) (\<lambda>span.
     Ok \<lparr> et_node_id = node_id, et_span_id = as_span_id span, et_old_span_hash = as_old_span_hash span,
       et_left_anchor_hash = as_left_anchor_hash span, et_right_anchor_hash = as_right_anchor_hash span,
       et_replacement_text = as_replacement_text span, et_hint_line = None, et_hint_column = None,
       et_old_span_text = as_old_span_text span, et_left_anchor_len = Some (as_left_anchor_len span),
       et_right_anchor_len = Some (as_right_anchor_len span) \<rparr>))"

section \<open>The inverse edit\<close>

definition derive_inverse_edit_text ::
  "(bytes \<Rightarrow> bytes) \<Rightarrow> bytes \<Rightarrow> node_id \<Rightarrow> bytes \<Rightarrow> bytes \<Rightarrow> bytes \<Rightarrow> bytes \<Rightarrow> bytes \<Rightarrow> bytes
   \<Rightarrow> u32 option \<Rightarrow> u32 option \<Rightarrow> (edit_text \<times> bytes) res" where
  "derive_inverse_edit_text sha256 pre_text node_id span_id old_span_hash left_anchor_hash
       right_anchor_hash replacement_text old_span_text forward_left_anchor_len
       forward_right_anchor_len =
     rbind (fail_if (\<not> utf8_valid pre_text)
              (Integrity ''EditText inverse pre-text is not UTF-8'')) (\<lambda>_.
     rbind (fail_if (\<not> utf8_valid old_span_text)
              (Integrity ''EditText inverse old_span_text is not UTF-8'')) (\<lambda>_.
     rbind (fail_if (\<not> utf8_valid replacement_text)
              (Integrity ''EditText inverse replacement_text is not UTF-8'')) (\<lambda>_.
     rbind (fail_if (text_span_hash sha256 old_span_text \<noteq> old_span_hash)
              (Integrity ''EditText inverse old_span_hash does not match old_span_text'')) (\<lambda>_.
     rbind (map_err (\<lambda>reason. Integrity (''EditText inverse could not localize forward span: ''
                @ display_resolution_failure reason))
              (resolve_text_span sha256 pre_text old_span_text left_anchor_hash right_anchor_hash
                 span_id node_id old_span_hash forward_left_anchor_len forward_right_anchor_len))
       (\<lambda>(start, stop).
     rbind (fail_if (\<not> is_char_boundary pre_text start \<or> \<not> is_char_boundary pre_text stop)
              (Integrity ''EditText inverse forward span is not on UTF-8 byte boundaries'')) (\<lambda>_.
     rbind (map_err (\<lambda>err. Integrity (''EditText inverse forward splice failed: ''
                @ display_splice_error err))
              (splice_text pre_text start stop replacement_text)) (\<lambda>post_text.
     rbind (fail_if (\<not> utf8_valid post_text)
              (Integrity ''EditText inverse post-forward text is not UTF-8'')) (\<lambda>_.
     rbind (ok_or (Integrity ''EditText inverse range overflow'')
              (checked_add start (length replacement_text))) (\<lambda>inverse_end.
     rbind (fail_if (inverse_end > length post_text \<or> \<not> is_char_boundary post_text start
                \<or> \<not> is_char_boundary post_text inverse_end)
              (Integrity ''EditText inverse replacement range is not on UTF-8 byte boundaries'')) (\<lambda>_.
     let inverse_old_span_hash = text_span_hash sha256 replacement_text in
     rbind (map_err (\<lambda>err. Integrity (''EditText inverse anchor lengths could not be derived: ''
                @ display_selection_error err))
              (choose_anchor_lengths_v2 sha256 post_text replacement_text start inverse_end))
       (\<lambda>(left_len, right_len).
     let inverse_left = left_anchor_v2 sha256 post_text start left_len;
         inverse_right = right_anchor_v2 sha256 post_text inverse_end right_len;
         inverse = \<lparr> et_node_id = node_id,
           et_span_id = compute_span_id_v2 sha256 node_id inverse_old_span_hash inverse_left
             inverse_right left_len right_len,
           et_old_span_hash = inverse_old_span_hash, et_left_anchor_hash = inverse_left,
           et_right_anchor_hash = inverse_right, et_replacement_text = old_span_text,
           et_hint_line = None, et_hint_column = None, et_old_span_text = replacement_text,
           et_left_anchor_len = Some left_len, et_right_anchor_len = Some right_len \<rparr>
     in
     rbind (map_err (\<lambda>reason. Integrity
                (''EditText inverse could not re-localize derived inverse: ''
                 @ display_resolution_failure reason))
              (locate_text_span_v2 sha256 post_text (et_old_span_text inverse)
                 (et_left_anchor_hash inverse) (et_right_anchor_hash inverse) (et_span_id inverse)
                 node_id (et_old_span_hash inverse) left_len right_len)) (\<lambda>located_inverse.
     rbind (fail_if (located_inverse \<noteq> (start, inverse_end))
              (Integrity ''EditText inverse localized to a different post-forward range'')) (\<lambda>_.
     rbind (map_err (\<lambda>err. Integrity (''EditText inverse recovery splice failed: ''
                @ display_splice_error err))
              (splice_text post_text (fst located_inverse) (snd located_inverse)
                 (et_replacement_text inverse))) (\<lambda>recovered.
     rbind (fail_if (recovered \<noteq> pre_text)
              (Integrity ''EditText inverse did not recover pre-forward text'')) (\<lambda>_.
     Ok (inverse, post_text))))))))))))))))"

end
