(* ===== verification/Text_Edit.thy ===== *)
theory Text_Edit
  imports Text_Span
begin

text \<open>
  Correctness of content-anchored text edits: the occurrence search is exact, localization only ever
  returns an occurrence with the recorded anchors, span selection succeeds on every pair of
  well-formed texts and its splice gives the new text, the chosen anchors single the span out, and a
  derived inverse undoes the edit. Failure of the anchor search is traced to a SHA-256 collision
  or to a text of 4 GiB.
\<close>

section \<open>Occurrences\<close>

lemma occurrences_from_filter:
  "occurrences_from text needle i =
     filter (\<lambda>j. slice_get text j (j + length needle) = Some needle)
       [i..<Suc (length text) - length needle]"
proof (induction "text" needle i rule: occurrences_from.induct)
  case (1 "text" needle i)
  show ?case
  proof (cases "i + length needle \<le> length text")
    case True
    then have "[i..<Suc (length text) - length needle] = i # [Suc i..<Suc (length text) - length needle]"
      by (intro upt_conv_Cons) simp
    then show ?thesis
      using True 1 by (subst occurrences_from.simps) simp
  next
    case False
    then show ?thesis
      by (subst occurrences_from.simps) simp
  qed
qed

lemma occurrences_filter:
  "occurrences text needle =
     filter (\<lambda>j. slice_get text j (j + length needle) = Some needle)
       [0..<Suc (length text) - length needle]"
proof (cases "needle = []")
  case True
  have "filter (\<lambda>j. slice_get text j j = Some []) [0..<Suc (length text)] = [0..<Suc (length text)]"
    by (rule filter_True) (simp add: slice_get_def less_Suc_eq_le)
  then show ?thesis
    using True by (simp add: occurrences_def)
next
  case False
  then show ?thesis
    by (simp add: occurrences_def occurrences_from_filter)
qed

lemma set_occurrences:
  "j \<in> set (occurrences text needle) \<longleftrightarrow> (\<exists>pre post. text = pre @ needle @ post \<and> length pre = j)"
proof -
  have "j \<in> set (occurrences text needle) \<longleftrightarrow> slice_get text j (j + length needle) = Some needle"
    by (auto simp: occurrences_filter slice_get_def split: if_splits)
  then show ?thesis
    by (auto simp: slice_get_eq_Some)
qed

lemma occurrence_le: "j \<in> set (occurrences t needle) \<Longrightarrow> j + length needle \<le> length t"
  by (auto simp: set_occurrences)

lemma sorted_distinct_occurrences: "sorted (occurrences text needle) \<and> distinct (occurrences text needle)"
  by (simp add: occurrences_filter sorted_wrt_filter)

section \<open>Splice\<close>

lemma slice_prefix: "i \<le> length t \<Longrightarrow> slice_or_empty t 0 i = take i t"
  by (simp add: slice_or_empty_def slice_get_def)

lemma slice_suffix: "i \<le> length t \<Longrightarrow> slice_or_empty t i (length t) = drop i t"
  by (simp add: slice_or_empty_def slice_get_def)

lemma splice_text_Ok:
  "splice_text t i j r = Ok t' \<longleftrightarrow> i \<le> j \<and> j \<le> length t \<and> t' = take i t @ r @ drop j t"
  by (auto simp: splice_text_def slice_prefix slice_suffix)

lemma splice_occurrence:
  "splice_text (pre @ old @ post) (length pre) (length pre + length old) r = Ok (pre @ r @ post)"
  by (simp add: splice_text_Ok)

section \<open>Localization\<close>

lemma filter_singleton:
  assumes "filter P (map f xs) = [y]"
  shows "\<exists>x \<in> set xs. y = f x \<and> P y"
proof -
  have "y \<in> set (filter P (map f xs))"
    using assms by simp
  then show ?thesis
    by auto
qed

lemma locate_v2_Ok:
  "locate_text_span_v2 H t old l r sid n h ll rl = Ok (i, j) \<longleftrightarrow>
     filter (\<lambda>(i, j). left_anchor_v2 H t i ll = l \<and> right_anchor_v2 H t j rl = r)
       (map (\<lambda>i. (i, i + length old)) (occurrences t old)) = [(i, j)]
     \<and> compute_span_id_v2 H n h l r ll rl = sid"
  by (auto simp: locate_text_span_v2_def Let_def split: list.splits if_splits)

lemma locate_v2_sound:
  assumes "locate_text_span_v2 H t old l r sid n h ll rl = Ok (i, j)"
  shows "i \<in> set (occurrences t old) \<and> j = i + length old
    \<and> left_anchor_v2 H t i ll = l \<and> right_anchor_v2 H t j rl = r"
  using assms filter_singleton [of _ "\<lambda>i. (i, i + length old)" "occurrences t old" "(i, j)"]
  unfolding locate_v2_Ok by fastforce

lemma locate_v1_sound:
  assumes "locate_text_span H t old l r sid n h = Ok (i, j)"
  shows "i \<in> set (occurrences t old) \<and> j = i + length old
    \<and> left_anchor H t i = l \<and> right_anchor H t j = r"
proof -
  define am where "am = filter (\<lambda>(i, j). left_anchor H t i = l \<and> right_anchor H t j = r)
    (map (\<lambda>i. (i, i + length old)) (occurrences t old))"
  let ?ms = "filter (\<lambda>(d, _). compute_span_id H n h l r (word_of_nat d) = sid) (enumerate 0 am)"
  have "map snd ?ms = [(i, j)]"
    using assms unfolding locate_text_span_def Let_def am_def [symmetric]
    by (simp split: if_splits list.splits)
  then have "(i, j) \<in> set (map snd ?ms)"
    by (simp only: list.set_intros)
  then obtain d where "(d, (i, j)) \<in> set (enumerate 0 am)"
    by auto
  then have "d < length am" "am ! d = (i, j)"
    by (simp_all add: in_set_enumerate_eq)
  then have "(i, j) \<in> set am"
    by (metis nth_mem)
  then show ?thesis
    by (auto simp: am_def)
qed

lemma resolve_sound:
  assumes "resolve_text_span H t old l r sid n h ll rl = Ok (i, j)"
  shows "i \<in> set (occurrences t old) \<and> j = i + length old"
  using assms locate_v1_sound locate_v2_sound
  by (fastforce simp: resolve_text_span_def split: option.splits)

section \<open>The anchor search\<close>

lemma choose_loop_steps:
  "anchor_match_count H t old i j len = 1 \<Longrightarrow> choose_anchor_loop H t old i j limit len = Ok (len, len)"
  "anchor_match_count H t old i j len \<noteq> 1 \<Longrightarrow> limit \<le> len \<Longrightarrow>
     choose_anchor_loop H t old i j limit len = Err AnchorUniquenessUnreachable"
  "anchor_match_count H t old i j len \<noteq> 1 \<Longrightarrow> len < limit \<Longrightarrow>
     choose_anchor_loop H t old i j limit len =
       choose_anchor_loop H t old i j limit (next_anchor_len len limit)"
  unfolding choose_anchor_loop.simps [of H t old i j limit len]
  by (simp_all add: linorder_class.not_less [symmetric])

lemma choose_loop_Ok:
  "choose_anchor_loop H t old i j limit len = Ok (ll, rl) \<Longrightarrow>
     ll = rl \<and> len \<le> ll \<and> anchor_match_count H t old i j ll = 1"
proof (induction H t old i j limit len rule: choose_anchor_loop.induct)
  case (1 H t old i j limit len)
  consider "anchor_match_count H t old i j len = 1"
    | "anchor_match_count H t old i j len \<noteq> 1" "limit \<le> len"
    | "anchor_match_count H t old i j len \<noteq> 1" "len < limit"
    using linorder_not_less [of len limit] by blast
  then show ?case
  proof cases
    case 3
    then have "ll = rl \<and> next_anchor_len len limit \<le> ll \<and> anchor_match_count H t old i j ll = 1"
      using 1 3(2) [unfolded not_le [symmetric]] by (auto simp: choose_loop_steps(3))
    then show ?thesis
      using next_anchor_len_grows [OF 3(2)] by auto
  qed (use 1(2) in \<open>auto simp: choose_loop_steps(1,2)\<close>)
qed

lemma choose_loop_Err:
  "choose_anchor_loop H t old i j limit len = Err e \<Longrightarrow>
     e = AnchorUniquenessUnreachable \<and> (\<exists>l \<ge> limit. anchor_match_count H t old i j l \<noteq> 1)"
proof (induction H t old i j limit len rule: choose_anchor_loop.induct)
  case (1 H t old i j limit len)
  consider "anchor_match_count H t old i j len = 1"
    | "anchor_match_count H t old i j len \<noteq> 1" "limit \<le> len"
    | "anchor_match_count H t old i j len \<noteq> 1" "len < limit"
    using linorder_not_less [of len limit] by blast
  then show ?case
  proof cases
    case 3
    then show ?thesis
      using 1 3(2) [unfolded not_le [symmetric]] by (simp add: choose_loop_steps(3))
  qed (use 1(2) in \<open>auto simp: choose_loop_steps(1,2)\<close>)
qed

text \<open>The span the search was started for always matches its own anchors.\<close>

lemma match_count_unique:
  assumes "i \<in> set (occurrences t old)" "anchor_match_count H t old i (i + length old) len = 1"
  shows "filter (\<lambda>k. left_anchor_v2 H t k len = left_anchor_v2 H t i len
      \<and> right_anchor_v2 H t (k + length old) len = right_anchor_v2 H t (i + length old) len)
    (occurrences t old) = [i]" (is "filter ?P _ = _")
proof -
  obtain x where x: "filter ?P (occurrences t old) = [x]"
    using assms(2) by (auto simp: anchor_match_count_def length_Suc_conv)
  have "i \<in> set (filter ?P (occurrences t old))"
    using assms(1) by simp
  then show ?thesis
    unfolding x by simp
qed

lemma match_count_not_unique:
  assumes i: "i \<in> set (occurrences t old)"
    and c: "anchor_match_count H t old i (i + length old) len \<noteq> 1"
  shows "\<exists>k \<in> set (occurrences t old). k \<noteq> i \<and> left_anchor_v2 H t k len = left_anchor_v2 H t i len
    \<and> right_anchor_v2 H t (k + length old) len = right_anchor_v2 H t (i + length old) len"
proof (rule ccontr)
  let ?P = "\<lambda>k. left_anchor_v2 H t k len = left_anchor_v2 H t i len
    \<and> right_anchor_v2 H t (k + length old) len = right_anchor_v2 H t (i + length old) len"
  assume "\<not> ?thesis"
  then have "set (filter ?P (occurrences t old)) = {i}"
    using i by auto
  moreover have "distinct (filter ?P (occurrences t old))"
    using sorted_distinct_occurrences by simp
  ultimately have "length (filter ?P (occurrences t old)) = 1"
    using distinct_card [of "filter ?P (occurrences t old)"] by simp
  then show False
    using c by (simp add: anchor_match_count_def)
qed

lemma anchor_preimage_inject: "anchor_preimage d a = anchor_preimage d b \<longleftrightarrow> a = b"
  by (auto simp: anchor_preimage_def)

lemma left_anchor_whole:
  assumes "i \<le> length t" "length t \<le> unat len"
  shows "left_anchor_v2 H t i len = H (anchor_preimage (ascii ''PRIKK-TEXT-LEFT-ANCHOR-v2'') (take i t))"
  using assms by (simp add: left_anchor_v2_def anchor_hash_def slice_prefix)

text \<open>Two different prefixes of a text whose left anchors hash alike.\<close>

definition prefixes_collide :: "(bytes \<Rightarrow> bytes) \<Rightarrow> bytes \<Rightarrow> bool" where
  "prefixes_collide H t \<longleftrightarrow> (\<exists>j k. j < k \<and> k \<le> length t
     \<and> H (anchor_preimage (ascii ''PRIKK-TEXT-LEFT-ANCHOR-v2'') (take j t))
       = H (anchor_preimage (ascii ''PRIKK-TEXT-LEFT-ANCHOR-v2'') (take k t)))"

lemma prefixes_collide_id [simp]: "\<not> prefixes_collide id t"
proof
  assume "prefixes_collide id t"
  then obtain j k where jk: "j < k" "k \<le> length t" "take j t = take k t"
    unfolding prefixes_collide_def id_apply anchor_preimage_inject by blast
  from arg_cong [OF jk(3), of length] jk(1,2) show False
    by simp
qed

lemma choose_anchor_Err:
  assumes i: "i \<in> set (occurrences t old)" and small: "length t < 2 ^ 32"
    and e: "choose_anchor_lengths_v2 H t old i (i + length old) = Err e"
  shows "prefixes_collide H t"
proof -
  obtain len where len: "word_of_nat (length t) \<le> len"
      "anchor_match_count H t old i (i + length old) len \<noteq> 1"
    using choose_loop_Err [OF e [unfolded choose_anchor_lengths_v2_def]] by blast
  have "unat (word_of_nat (length t) :: u32) = length t"
    using small by (simp add: unat_of_nat)
  then have big: "length t \<le> unat len"
    using len(1) by (simp add: word_le_nat_alt)
  obtain k where k: "k \<in> set (occurrences t old)" "k \<noteq> i"
      "left_anchor_v2 H t k len = left_anchor_v2 H t i len"
    using match_count_not_unique [OF i len(2)] by blast
  have le: "k \<le> length t" "i \<le> length t"
    using occurrence_le [OF k(1)] occurrence_le [OF i] by simp_all
  let ?pre = "\<lambda>j. anchor_preimage (ascii ''PRIKK-TEXT-LEFT-ANCHOR-v2'') (take j t)"
  have "H (?pre k) = H (?pre i)"
    using k(3) left_anchor_whole [OF le(1) big, of H] left_anchor_whole [OF le(2) big, of H] by simp
  then show ?thesis
    unfolding prefixes_collide_def using le k(2) by (metis linorder_neqE_nat)
qed

lemma choose_anchor_locates:
  assumes i: "i \<in> set (occurrences t old)"
    and ok: "choose_anchor_lengths_v2 H t old i (i + length old) = Ok (ll, rl)"
  shows "locate_text_span_v2 H t old (left_anchor_v2 H t i ll) (right_anchor_v2 H t (i + length old) rl)
    (compute_span_id_v2 H n h (left_anchor_v2 H t i ll) (right_anchor_v2 H t (i + length old) rl) ll rl)
    n h ll rl = Ok (i, i + length old)"
proof -
  have c: "ll = rl" "anchor_match_count H t old i (i + length old) rl = 1"
    using choose_loop_Ok [OF ok [unfolded choose_anchor_lengths_v2_def]] by auto
  show ?thesis
    unfolding locate_v2_Ok c(1) filter_map comp_def
    using match_count_unique [OF i c(2)] by simp
qed

lemma choose_anchor_min:
  "choose_anchor_lengths_v2 H t old i j = Ok (ll, rl) \<Longrightarrow> 64 \<le> unat ll \<and> rl = ll"
  using choose_loop_Ok [of H t old i j "word_of_nat (length t)" "word_of_nat TEXT_ANCHOR_WINDOW" ll rl]
  by (auto simp: choose_anchor_lengths_v2_def TEXT_ANCHOR_WINDOW_def word_le_nat_alt)

section \<open>Span selection\<close>

lemma common_run:
  defines "k xs ys m \<equiv> length (takeWhile (\<lambda>(a, b). a = b) (take m (zip xs ys)))"
  shows "k xs ys m \<le> m \<and> k xs ys m \<le> length xs \<and> k xs ys m \<le> length ys
    \<and> take (k xs ys m) xs = take (k xs ys m) ys"
proof (induction xs arbitrary: ys m)
  case (Cons x xs)
  then show ?case
    by (cases ys; cases m) (auto simp: k_def)
qed (simp add: k_def)

lemma common_prefix:
  defines "p a b \<equiv> common_prefix_len a b"
  shows "p a b \<le> length a \<and> p a b \<le> length b \<and> take (p a b) a = take (p a b) b"
  using common_run [of "length (zip a b)" a b] by (simp add: p_def common_prefix_len_def)

lemma common_suffix:
  defines "s a b q \<equiv> common_suffix_len a b q"
  shows "s a b q \<le> min (length a) (length b) - q
    \<and> drop (length a - s a b q) a = drop (length b - s a b q) b"
proof -
  have r: "s a b q \<le> min (length a) (length b) - q" "take (s a b q) (rev a) = take (s a b q) (rev b)"
    using common_run [of "min (length a) (length b) - q" "rev a" "rev b"]
    by (auto simp: s_def common_suffix_len_def)
  then have "rev (take (s a b q) (rev a)) = rev (take (s a b q) (rev b))"
    by simp
  then have "drop (length a - s a b q) a = drop (length b - s a b q) b"
    by (simp only: rev_take length_rev rev_rev_ident)
  then show ?thesis
    using r(1) by blast
qed

lemma widen_start_Ok: "\<exists>i' \<le> i. widen_start old i i = Ok (i', i') \<and> is_char_boundary old i'"
proof (induction i)
  case 0
  then show ?case
    by (simp add: widen_start.simps is_char_boundary_def)
next
  case (Suc i)
  then show ?case
    by (subst widen_start.simps) (auto intro: le_SucI)
qed

lemma widen_end_Ok:
  assumes "j \<le> length old" "j' \<le> length new" "length old - j = length new - j'"
    and "length old < usize_limit" "length new < usize_limit"
  shows "\<exists>d. widen_end old new j j' = Ok (j + d, j' + d) \<and> is_char_boundary old (j + d)
    \<and> j + d \<le> length old"
  using assms(1-3)
proof (induction "length old - j" arbitrary: j j' rule: less_induct)
  case less
  show ?case
  proof (cases "is_char_boundary old j")
    case True
    then show ?thesis
      using less.prems by (intro exI [of _ 0]) (simp add: widen_end.simps)
  next
    case False
    then have j: "j < length old" "j' < length new"
      using less.prems by (auto simp: is_char_boundary_def)
    then have "\<exists>d. widen_end old new (j + 1) (j' + 1) = Ok (j + 1 + d, j' + 1 + d)
        \<and> is_char_boundary old (j + 1 + d) \<and> j + 1 + d \<le> length old"
      using less.prems by (intro less.hyps) auto
    then obtain d where d: "widen_end old new (j + 1) (j' + 1) = Ok (j + 1 + d, j' + 1 + d)"
        "is_char_boundary old (j + 1 + d)" "j + 1 + d \<le> length old"
      by blast
    have "widen_end old new j j' = widen_end old new (j + 1) (j' + 1)"
      using False j assms(4,5) by (subst widen_end.simps) (simp add: checked_add_def)
    then show ?thesis
      using d by (intro exI [of _ "d + 1"]) (simp add: algebra_simps)
  qed
qed

text \<open>What a selected span promises: both texts around it are the same and every piece is text.\<close>

definition selected_ok :: "bytes \<Rightarrow> bytes \<Rightarrow> selected_span \<Rightarrow> bool" where
  "selected_ok old new s \<longleftrightarrow> (\<exists>pre post.
     old = pre @ ss_old_span_text s @ post \<and> new = pre @ ss_replacement_text s @ post
     \<and> ss_old_start s = length pre \<and> ss_old_end s = length pre + length (ss_old_span_text s)
     \<and> ss_new_start s = length pre \<and> ss_new_end s = length pre + length (ss_replacement_text s)
     \<and> utf8_valid pre \<and> utf8_valid (ss_old_span_text s) \<and> utf8_valid (ss_replacement_text s)
     \<and> utf8_valid post)"

lemma boundary_of_suffix:
  assumes "utf8_valid new" "is_char_boundary old j" "j \<le> length old" "j' \<le> length new"
    and "drop j old = drop j' new" "j = 0 \<longrightarrow> utf8_valid old"
  shows "is_char_boundary new j'"
proof (cases "drop j' new")
  case Nil
  then show ?thesis
    using assms(4) by (simp add: is_char_boundary_def)
next
  case (Cons b bs)
  then have lt: "j < length old" "j' < length new"
    using assms(5) by (auto simp: not_le [symmetric])
  have "old ! j = new ! j'"
    using assms(5) lt by (metis Cons_nth_drop_Suc list.inject)
  moreover have "\<not> utf8_cont (old ! j)"
    using assms(2,6) lt utf8_valid_lead [of old]
    by (cases "j = 0") (auto simp: is_char_boundary_def hd_conv_nth)
  ultimately show ?thesis
    using lt by (simp add: is_char_boundary_def)
qed

lemma select_span_total:
  assumes utf8: "utf8_valid old" "utf8_valid new" and neq: "old \<noteq> new"
    and len: "length old < usize_limit" "length new < usize_limit"
  shows "\<exists>s. select_span old new = Ok (Some s) \<and> selected_ok old new s"
proof -
  define p where "p = common_prefix_len old new"
  define q where "q = common_suffix_len old new p"
  have p: "p \<le> length old" "p \<le> length new" "take p old = take p new"
    using common_prefix [of old new] by (auto simp: p_def)
  have q: "q \<le> min (length old) (length new) - p"
      "drop (length old - q) old = drop (length new - q) new"
    using common_suffix [of old new p] by (auto simp: q_def)
  obtain i where i: "i \<le> p" "widen_start old p p = Ok (i, i)" "is_char_boundary old i"
    using widen_start_Ok by blast
  obtain d where d: "widen_end old new (length old - q) (length new - q)
        = Ok (length old - q + d, length new - q + d)"
      "is_char_boundary old (length old - q + d)" "length old - q + d \<le> length old"
    using widen_end_Ok [of "length old - q" old "length new - q" new] q(1) len by auto
  define j where "j = length old - q + d"
  define j' where "j' = length new - q + d"
  have dq: "d \<le> q" "q \<le> length old - p" "q \<le> length new - p"
    using d(3) q(1) p(1,2) by auto
  have j: "p \<le> j" "j \<le> length old" "p \<le> j'" "j' \<le> length new"
    using dq p(1,2) by (auto simp: j_def j'_def)
  have suffix: "drop j old = drop j' new"
    using arg_cong [OF q(2), of "drop d"] by (simp add: j_def j'_def add.commute)
  have prefix: "take i old = take i new"
    using arg_cong [OF p(3), of "take i"] i(1) by (simp add: min_absorb1)
  have valid_pre: "utf8_valid (take i old)"
    using i p(1) utf8(1) boundary_take [of old i] by simp
  have new_i: "is_char_boundary new i"
    using valid_pre prefix boundary_take [OF utf8(2), of i] i(1) p(2) by simp
  have bj: "is_char_boundary old j"
    using d(2) by (simp add: j_def)
  have bj': "is_char_boundary new j'"
    using boundary_of_suffix [OF utf8(2) bj j(2,4) suffix] utf8(1) by simp
  have ij: "i \<le> j" "i \<le> j'"
    using i(1) j by simp_all
  note old = boundary_slices [OF utf8(1) i(3) bj ij(1) j(2)]
  note new = boundary_slices [OF utf8(2) new_i bj' ij(2) j(4)]
  let ?s = "\<lparr> ss_old_start = i, ss_old_end = j, ss_new_start = i, ss_new_end = j',
    ss_old_span_text = take (j - i) (drop i old), ss_replacement_text = take (j' - i) (drop i new) \<rparr>"
  have "select_span old new = Ok (Some ?s)"
    using utf8 neq i d j ij bj bj' new_i
    by (simp add: select_span_def Let_def flip: p_def q_def j_def j'_def) (simp add: slice_get_def)
  moreover have "selected_ok old new ?s"
    unfolding selected_ok_def using old new prefix suffix i(1) j ij p
    by (intro exI [of _ "take i old"] exI [of _ "drop j old"]) simp
  ultimately show ?thesis
    by blast
qed

lemma selected_occurrence:
  assumes "selected_ok old new s"
  shows "ss_old_start s \<in> set (occurrences old (ss_old_span_text s))"
    and "ss_old_end s = ss_old_start s + length (ss_old_span_text s)"
    and "splice_text old (ss_old_start s) (ss_old_end s) (ss_replacement_text s) = Ok new"
  using assms splice_occurrence by (auto simp: selected_ok_def set_occurrences)

section \<open>Edits as functions on texts\<close>

text \<open>Resolving an edit record against a text and splicing its replacement in.\<close>

definition apply_edit :: "(bytes \<Rightarrow> bytes) \<Rightarrow> edit_text \<Rightarrow> bytes \<Rightarrow> bytes option" where
  "apply_edit H e t =
     (case resolve_text_span H t (et_old_span_text e) (et_left_anchor_hash e) (et_right_anchor_hash e)
             (et_span_id e) (et_node_id e) (et_old_span_hash e) (et_left_anchor_len e)
             (et_right_anchor_len e) of
        Err _ \<Rightarrow> None
      | Ok (i, j) \<Rightarrow> (case splice_text t i j (et_replacement_text e) of Err _ \<Rightarrow> None | Ok t' \<Rightarrow> Some t'))"

text \<open>The record of an edit that replaces \<open>span\<close> at \<open>i\<close>, with the anchors taken from the text.\<close>

definition span_edit ::
  "(bytes \<Rightarrow> bytes) \<Rightarrow> bytes \<Rightarrow> node_id \<Rightarrow> nat \<Rightarrow> bytes \<Rightarrow> bytes \<Rightarrow> u32 \<Rightarrow> u32 \<Rightarrow> edit_text" where
  "span_edit H t n i span replacement ll rl =
     (let h = text_span_hash H span; l = left_anchor_v2 H t i ll;
          r = right_anchor_v2 H t (i + length span) rl
      in \<lparr> et_node_id = n, et_span_id = compute_span_id_v2 H n h l r ll rl, et_old_span_hash = h,
           et_left_anchor_hash = l, et_right_anchor_hash = r, et_replacement_text = replacement,
           et_hint_line = None, et_hint_column = None, et_old_span_text = span,
           et_left_anchor_len = Some ll, et_right_anchor_len = Some rl \<rparr>)"

lemma apply_edit_Some:
  "apply_edit H e t = Some t' \<longleftrightarrow>
     (\<exists>i. resolve_text_span H t (et_old_span_text e) (et_left_anchor_hash e) (et_right_anchor_hash e)
        (et_span_id e) (et_node_id e) (et_old_span_hash e) (et_left_anchor_len e) (et_right_anchor_len e)
        = Ok (i, i + length (et_old_span_text e))
      \<and> (\<exists>a b. t = a @ et_old_span_text e @ b \<and> length a = i \<and> t' = a @ et_replacement_text e @ b))"
proof
  assume "apply_edit H e t = Some t'"
  then obtain i j where r: "resolve_text_span H t (et_old_span_text e) (et_left_anchor_hash e)
      (et_right_anchor_hash e) (et_span_id e) (et_node_id e) (et_old_span_hash e)
      (et_left_anchor_len e) (et_right_anchor_len e) = Ok (i, j)"
      "splice_text t i j (et_replacement_text e) = Ok t'"
    by (auto simp: apply_edit_def split: result.splits)
  obtain a b where "t = a @ et_old_span_text e @ b" "length a = i" "j = i + length (et_old_span_text e)"
    using resolve_sound [OF r(1)] by (auto simp: set_occurrences)
  then show "\<exists>i. resolve_text_span H t (et_old_span_text e) (et_left_anchor_hash e)
      (et_right_anchor_hash e) (et_span_id e) (et_node_id e) (et_old_span_hash e)
      (et_left_anchor_len e) (et_right_anchor_len e) = Ok (i, i + length (et_old_span_text e))
      \<and> (\<exists>a b. t = a @ et_old_span_text e @ b \<and> length a = i \<and> t' = a @ et_replacement_text e @ b)"
    using r by (intro exI [of _ i] conjI exI [of _ a] exI [of _ b]) (auto simp: splice_occurrence)
qed (auto simp: apply_edit_def splice_occurrence)

lemma span_edit_applies:
  assumes ok: "choose_anchor_lengths_v2 H (a @ span @ b) span (length a) (length a + length span) = Ok (ll, rl)"
  shows "apply_edit H (span_edit H (a @ span @ b) n (length a) span replacement ll rl) (a @ span @ b)
    = Some (a @ replacement @ b)"
proof -
  have "length a \<in> set (occurrences (a @ span @ b) span)"
    by (auto simp: set_occurrences)
  from choose_anchor_locates [OF this ok] show ?thesis
    unfolding apply_edit_Some by (auto simp: span_edit_def Let_def resolve_text_span_def)
qed

lemma span_edit_valid:
  assumes "choose_anchor_lengths_v2 H t span i j = Ok (ll, rl)" "\<not> node_id_is_zero n"
    and "utf8_valid span" "utf8_valid replacement"
  shows "validate_edit_text H (span_edit H t n i span replacement ll rl) = Ok ()"
  using assms choose_anchor_min [OF assms(1)]
  by (auto simp: span_edit_def Let_def validate_edit_text_def TEXT_SPAN_ANCHOR_MIN_LEN_def
      word_less_nat_alt)

section \<open>Authoring\<close>

lemma plan_edit_text_cases:
  assumes utf8: "utf8_valid old" "utf8_valid new" and neq: "old \<noteq> new"
    and len: "length old < usize_limit" "length new < usize_limit"
  obtains a b span replacement where "old = a @ span @ b" "new = a @ replacement @ b"
    "utf8_valid a" "utf8_valid span" "utf8_valid replacement" "utf8_valid b"
    "plan_edit_text H old new n =
       rbind (map_err (\<lambda>err. Integrity (''EditText: '' @ display_selection_error err))
         (choose_anchor_lengths_v2 H old span (length a) (length a + length span)))
       (\<lambda>(ll, rl). Ok (span_edit H old n (length a) span replacement ll rl))"
proof -
  obtain s where s: "select_span old new = Ok (Some s)" "selected_ok old new s"
    using select_span_total [OF assms] by blast
  have "plan_edit_text H old new n =
       rbind (map_err (\<lambda>err. Integrity (''EditText: '' @ display_selection_error err))
         (choose_anchor_lengths_v2 H old (ss_old_span_text s) (ss_old_start s)
           (ss_old_start s + length (ss_old_span_text s))))
       (\<lambda>(ll, rl). Ok (span_edit H old n (ss_old_start s) (ss_old_span_text s) (ss_replacement_text s) ll rl))"
    using selected_occurrence(2) [OF s(2)]
    by (cases "choose_anchor_lengths_v2 H old (ss_old_span_text s) (ss_old_start s)
        (ss_old_start s + length (ss_old_span_text s))")
      (auto simp: plan_edit_text_def plan_authored_text_span_def s(1) Let_def span_edit_def)
  then show thesis
    using s(2) that unfolding selected_ok_def by metis
qed

lemma choose_anchor_or_collision:
  assumes "length (a @ span @ b) < 2 ^ 32"
  shows "(\<exists>ll rl. choose_anchor_lengths_v2 H (a @ span @ b) span (length a) (length a + length span)
      = Ok (ll, rl)) \<or> prefixes_collide H (a @ span @ b)"
proof (cases "choose_anchor_lengths_v2 H (a @ span @ b) span (length a) (length a + length span)")
  case (Err e)
  have "length a \<in> set (occurrences (a @ span @ b) span)"
    by (auto simp: set_occurrences)
  from choose_anchor_Err [OF this assms Err] show ?thesis
    by blast
qed auto

section \<open>Inverses\<close>

text \<open>The inverse derivation on the fields of a forward edit.\<close>

definition inverse_of :: "(bytes \<Rightarrow> bytes) \<Rightarrow> bytes \<Rightarrow> edit_text \<Rightarrow> (edit_text \<times> bytes) res" where
  "inverse_of H pre e = derive_inverse_edit_text H pre (et_node_id e) (et_span_id e)
     (et_old_span_hash e) (et_left_anchor_hash e) (et_right_anchor_hash e) (et_replacement_text e)
     (et_old_span_text e) (et_left_anchor_len e) (et_right_anchor_len e)"

text \<open>What the derivation does once the forward edit has been found on character boundaries.\<close>

lemma inverse_of_run:
  fixes a b e
  defines "old \<equiv> et_old_span_text e" and "new \<equiv> et_replacement_text e"
  assumes utf8: "utf8_valid a" "utf8_valid old" "utf8_valid new" "utf8_valid b"
    and h: "text_span_hash H old = et_old_span_hash e"
    and r: "resolve_text_span H (a @ old @ b) old (et_left_anchor_hash e) (et_right_anchor_hash e)
      (et_span_id e) (et_node_id e) (et_old_span_hash e) (et_left_anchor_len e) (et_right_anchor_len e)
      = Ok (length a, length a + length old)"
    and small: "length a + length new < usize_limit"
  shows "inverse_of H (a @ old @ b) e =
    rbind (map_err (\<lambda>err. Integrity (''EditText inverse anchor lengths could not be derived: ''
        @ display_selection_error err))
      (choose_anchor_lengths_v2 H (a @ new @ b) new (length a) (length a + length new)))
    (\<lambda>(ll, rl). Ok (span_edit H (a @ new @ b) (et_node_id e) (length a) new old ll rl, a @ new @ b))"
proof -
  have v: "utf8_valid (a @ old @ b)" "utf8_valid (a @ new @ b)"
    using utf8 by (simp_all add: utf8_valid_append)
  have b1: "is_char_boundary (a @ x @ b) (length a)" if "utf8_valid (a @ x @ b)" for x
    using boundary_iff [of a "x @ b"] that utf8(1) by simp
  have b2: "is_char_boundary (a @ x @ b) (length a + length x)" if "utf8_valid (a @ x @ b)" "utf8_valid x" for x
    using boundary_iff [of "a @ x" b] that utf8(1) by (simp add: utf8_valid_append)
  have occ: "length a \<in> set (occurrences (a @ new @ b) new)"
    by (auto simp: set_occurrences)
  show ?thesis
  proof (cases "choose_anchor_lengths_v2 H (a @ new @ b) new (length a) (length a + length new)")
    case (Err err)
    then show ?thesis
      using utf8 v h r small b1 b2
      by (simp add: inverse_of_def derive_inverse_edit_text_def splice_occurrence Let_def checked_add_def
          flip: old_def new_def)
  next
    case (Ok lens)
    obtain ll rl where lens: "lens = (ll, rl)"
      by (cases lens)
    note found = choose_anchor_locates [OF occ Ok [unfolded lens]]
    show ?thesis
      using utf8 v h r small b1 b2 Ok
      by (simp add: inverse_of_def derive_inverse_edit_text_def splice_occurrence Let_def checked_add_def
          found lens span_edit_def flip: old_def new_def)
  qed
qed

lemma inverse_of_Ok:
  assumes "inverse_of H pre e = Ok (e', post)"
  obtains a b where "pre = a @ et_old_span_text e @ b" "post = a @ et_replacement_text e @ b"
    "utf8_valid a" "utf8_valid b" "utf8_valid (et_old_span_text e)" "utf8_valid (et_replacement_text e)"
    "text_span_hash H (et_old_span_text e) = et_old_span_hash e"
    "resolve_text_span H pre (et_old_span_text e) (et_left_anchor_hash e) (et_right_anchor_hash e)
      (et_span_id e) (et_node_id e) (et_old_span_hash e) (et_left_anchor_len e) (et_right_anchor_len e)
      = Ok (length a, length a + length (et_old_span_text e))"
    "length a + length (et_replacement_text e) < usize_limit"
proof -
  let ?old = "et_old_span_text e" and ?new = "et_replacement_text e"
  obtain i j where
    f: "utf8_valid pre" "utf8_valid ?old" "utf8_valid ?new" "text_span_hash H ?old = et_old_span_hash e"
    and r: "resolve_text_span H pre ?old (et_left_anchor_hash e) (et_right_anchor_hash e) (et_span_id e)
      (et_node_id e) (et_old_span_hash e) (et_left_anchor_len e) (et_right_anchor_len e) = Ok (i, j)"
    and b: "is_char_boundary pre i" "is_char_boundary pre j" "splice_text pre i j ?new = Ok post"
      "i + length ?new < usize_limit"
    using assms unfolding inverse_of_def derive_inverse_edit_text_def Let_def
    by (simp add: rbind_pair_eq_Ok) blast
  obtain a c where t: "pre = a @ ?old @ c" "length a = i" "j = i + length ?old"
    using resolve_sound [OF r] by (auto simp: set_occurrences)
  have "utf8_valid a"
    using boundary_iff [of a "?old @ c"] b(1) f(1) t by simp
  moreover from this have "utf8_valid c"
    using f(1,2) t(1) by (simp add: utf8_valid_append)
  moreover have "post = a @ ?new @ c"
    using b(3) t splice_occurrence [of a ?old c ?new] by simp
  ultimately show thesis
    using that f r b t by blast
qed

lemma inverse_total:
  assumes utf8: "utf8_valid pre" "utf8_valid post" and valid: "validate_edit_text H e = Ok ()"
    and applies: "apply_edit H e pre = Some post"
    and some: "et_old_span_text e \<noteq> [] \<or> et_replacement_text e \<noteq> []" and small: "length post < 2 ^ 32"
  shows "(\<exists>e'. inverse_of H pre e = Ok (e', post)) \<or> prefixes_collide H post"
proof -
  let ?old = "et_old_span_text e" and ?new = "et_replacement_text e"
  obtain a b where t: "pre = a @ ?old @ b" "post = a @ ?new @ b"
    and r: "resolve_text_span H pre ?old (et_left_anchor_hash e) (et_right_anchor_hash e)
      (et_span_id e) (et_node_id e) (et_old_span_hash e) (et_left_anchor_len e) (et_right_anchor_len e)
      = Ok (length a, length a + length ?old)"
    using applies unfolding apply_edit_Some by blast
  have v: "text_span_hash H ?old = et_old_span_hash e" "utf8_valid ?old" "utf8_valid ?new"
    using valid by (auto simp: validate_edit_text_def split: if_splits)
  have a: "utf8_valid a"
  proof (cases "?old = []")
    case False
    then show ?thesis
      using utf8_valid_cut [of a "?old @ b"] utf8(1) utf8_valid_lead [OF v(2)] by (simp add: t)
  next
    case True
    then show ?thesis
      using some utf8_valid_cut [of a "?new @ b"] utf8(2) utf8_valid_lead [OF v(3)] by (simp add: t)
  qed
  then have b: "utf8_valid b"
    using utf8(1) v(2) by (simp add: t utf8_valid_append)
  have "length a + length ?new < usize_limit"
    using small by (simp add: t usize_limit_def)
  note run = inverse_of_run [OF a v(2,3) b v(1) r [unfolded t(1)] this]
  show ?thesis
    using choose_anchor_or_collision [OF small [unfolded t(2)], of H] run unfolding t by auto
qed

section \<open>Texts of 4 GiB\<close>

lemma anchors_of_window:
  "left_anchor_v2 H (a @ s) (length a) len
     = anchor_hash H (ascii ''PRIKK-TEXT-LEFT-ANCHOR-v2'') (drop (length a - unat len) a)"
  "length (a @ s) < usize_limit \<Longrightarrow> right_anchor_v2 H (a @ s) (length a) len
     = anchor_hash H (ascii ''PRIKK-TEXT-RIGHT-ANCHOR-v2'') (take (unat len) s)"
  by (auto simp: left_anchor_v2_def right_anchor_v2_def slice_or_empty_def slice_get_def saturating_add_def
      usize_limit_def min_def)

lemma two_in_list: "{a, b} \<subseteq> set xs \<Longrightarrow> a \<noteq> b \<Longrightarrow> length xs \<noteq> 1"
  by (auto simp: length_Suc_conv)

lemma same_windows_ambiguous:
  assumes t: "t = a @ old @ b" "t = c @ old @ d" and neq: "a \<noteq> c" and lim: "length t < usize_limit"
    and windows: "drop (length a - unat len) a = drop (length c - unat len) c" "take (unat len) b = take (unat len) d"
  shows "anchor_match_count H t old (length a) (length a + length old) len \<noteq> 1"
proof -
  have left: "left_anchor_v2 H t (length c) len = left_anchor_v2 H t (length a) len"
    using anchors_of_window(1) [of H a "old @ b" len] anchors_of_window(1) [of H c "old @ d" len] windows(1)
    by (simp flip: t)
  have right: "right_anchor_v2 H t (length c + length old) len = right_anchor_v2 H t (length a + length old) len"
    using anchors_of_window(2) [of "a @ old" b H len] anchors_of_window(2) [of "c @ old" d H len] windows(2) lim
    by (simp flip: t)
  have "length a \<in> set (occurrences t old)" "length c \<in> set (occurrences t old)"
    unfolding set_occurrences using t by blast+
  then have "{length a, length c} \<subseteq> set (filter (\<lambda>i. left_anchor_v2 H t i len = left_anchor_v2 H t (length a) len
      \<and> right_anchor_v2 H t (i + length old) len = right_anchor_v2 H t (length a + length old) len) (occurrences t old))"
    using left right by simp
  moreover have "length a \<noteq> length c"
    using t neq by auto
  ultimately show ?thesis
    unfolding anchor_match_count_def Let_def by (rule two_in_list)
qed

lemma choose_anchor_wraps:
  assumes "length t mod 2 ^ 32 \<le> 64" "anchor_match_count H t old i j 64 \<noteq> 1"
  shows "choose_anchor_lengths_v2 H t old i j = Err AnchorUniquenessUnreachable"
proof -
  have "(word_of_nat (length t) :: u32) \<le> 64"
    using assms(1) by (simp add: word_le_nat_alt unat_of_nat)
  then show ?thesis
    using assms(2) by (simp add: choose_anchor_lengths_v2_def TEXT_ANCHOR_WINDOW_def choose_loop_steps(2))
qed

lemma replicate_cut: "i < n \<Longrightarrow> replicate n x = replicate i x @ [x] @ replicate (n - i - 1) x"
  by (simp add: replicate_add [symmetric] replicate_Suc [symmetric] del: replicate_Suc)

text \<open>An edit that exists, for the witnesses: the hash is the identity.\<close>

lemma id_edit:
  obtains e where "validate_edit_text id e = Ok ()" "apply_edit id e [97] = Some [98]"
    "et_node_id e = NodeId (replicate 32 1)" "et_old_span_text e \<noteq> []"
proof -
  have u: "utf8_valid [97]" "utf8_valid [98]"
    by (simp_all add: utf8_valid.simps(2))
  then obtain a b span replacement where
    t: "[97] = a @ span @ b" "[98] = a @ replacement @ b" "utf8_valid span" "utf8_valid replacement"
    by (rule plan_edit_text_cases [where H = id and n = "NodeId (replicate 32 1)"]) (auto simp: usize_limit_def)
  then have s: "span \<noteq> []"
    by (auto simp: Cons_eq_append_conv)
  obtain ll rl where c: "choose_anchor_lengths_v2 id (a @ span @ b) span (length a) (length a + length span)
      = Ok (ll, rl)"
    using choose_anchor_or_collision [of a span b id] by (auto simp flip: t(1))
  show thesis
    using span_edit_applies [OF c, of "NodeId (replicate 32 1)" replacement]
      span_edit_valid [OF c _ t(3,4), of "NodeId (replicate 32 1)"] s
    by (intro that [of "span_edit id (a @ span @ b) (NodeId (replicate 32 1)) (length a) span replacement ll rl"])
      (simp_all add: t(1,2) [symmetric] node_id_is_zero_def replicate_eq_replicate, simp_all add: span_edit_def Let_def)
qed

section \<open>Properties\<close>

text \<open>The occurrence search returns, in increasing order and without repetition,
  exactly the positions at which the needle stands in the text, overlapping ones included; for the
  empty needle these are all insertion positions.\<close>

theorem occurrences_exact:
  "sorted_wrt (<) (occurrences t needle)
   \<and> set (occurrences t needle) = {j. \<exists>pre post. t = pre @ needle @ post \<and> length pre = j}"
  using sorted_distinct_occurrences [of t needle]
  by (simp add: strict_sorted_iff set_eq_iff set_occurrences)

text \<open>A range that localization returns, under either identity scheme, is an occurrence of
  the recorded span with the recorded anchors around it, and under the anchored scheme it is the only
  one. The stored span id is recomputed and never trusted.\<close>

theorem located_span_sound:
  assumes "resolve_text_span H t old l r sid n h ll rl = Ok (i, j)"
  shows "slice_get t i j = Some old
    \<and> (case (ll, rl) of
         (Some l', Some r') \<Rightarrow> left_anchor_v2 H t i l' = l \<and> right_anchor_v2 H t j r' = r
           \<and> sid = compute_span_id_v2 H n h l r l' r'
           \<and> (\<forall>k \<in> set (occurrences t old). left_anchor_v2 H t k l' = l
                \<and> right_anchor_v2 H t (k + length old) r' = r \<longrightarrow> k = i)
       | (None, None) \<Rightarrow> left_anchor H t i = l \<and> right_anchor H t j = r
       | _ \<Rightarrow> False)"
proof -
  have occ: "slice_get t i j = Some old"
    using resolve_sound [OF assms] by (auto simp: set_occurrences)
  have unique: "k = i" if v2: "locate_text_span_v2 H t old l r sid n h l' r' = Ok (i, j)"
    and k: "k \<in> set (occurrences t old)" "left_anchor_v2 H t k l' = l"
      "right_anchor_v2 H t (k + length old) r' = r" for k l' r'
  proof -
    have "(k, k + length old) \<in> set (filter (\<lambda>(i, j). left_anchor_v2 H t i l' = l
        \<and> right_anchor_v2 H t j r' = r) (map (\<lambda>i. (i, i + length old)) (occurrences t old)))"
      using k by auto
    then show ?thesis
      using v2 unfolding locate_v2_Ok by simp
  qed
  show ?thesis
  proof (cases ll; cases rl)
    fix l' r' assume lens: "ll = Some l'" "rl = Some r'"
    then have v2: "locate_text_span_v2 H t old l r sid n h l' r' = Ok (i, j)"
      using assms by (simp add: resolve_text_span_def)
    then show ?thesis
      using occ lens locate_v2_sound [OF v2] unique [OF v2] unfolding locate_v2_Ok by auto
  qed (use assms occ locate_v1_sound in \<open>auto simp: resolve_text_span_def\<close>)
qed

theorem located_span_sound_witness:
  "\<exists>(e :: edit_text) i j. resolve_text_span id [97] (et_old_span_text e) (et_left_anchor_hash e)
      (et_right_anchor_hash e) (et_span_id e) (et_node_id e) (et_old_span_hash e)
      (et_left_anchor_len e) (et_right_anchor_len e) = Ok (i, j)
    \<and> slice_get [97] i j = Some (et_old_span_text e)"
proof -
  obtain e where "apply_edit id e [97] = Some [98]"
    by (rule id_edit)
  then obtain i where r: "resolve_text_span id [97] (et_old_span_text e) (et_left_anchor_hash e)
      (et_right_anchor_hash e) (et_span_id e) (et_node_id e) (et_old_span_hash e)
      (et_left_anchor_len e) (et_right_anchor_len e) = Ok (i, i + length (et_old_span_text e))"
    unfolding apply_edit_Some by blast
  show ?thesis
    using r located_span_sound [OF r] by blast
qed

text \<open>On every pair of different well-formed texts span selection succeeds: the two
  texts differ by the selected span alone, the splice of the replacement gives the new text, and the
  span, the replacement and the unchanged text on both sides are themselves well-formed UTF-8, no
  character being cut.\<close>

theorem select_span_correct:
  assumes "utf8_valid old" "utf8_valid new" "old \<noteq> new"
    and "length old < usize_limit" "length new < usize_limit"
  shows "\<exists>s. select_span old new = Ok (Some s)
    \<and> splice_text old (ss_old_start s) (ss_old_end s) (ss_replacement_text s) = Ok new
    \<and> (\<exists>pre post. old = pre @ ss_old_span_text s @ post \<and> new = pre @ ss_replacement_text s @ post
        \<and> length pre = ss_old_start s
        \<and> utf8_valid pre \<and> utf8_valid (ss_old_span_text s) \<and> utf8_valid (ss_replacement_text s)
        \<and> utf8_valid post)"
proof -
  obtain s where s: "select_span old new = Ok (Some s)" "selected_ok old new s"
    using select_span_total [OF assms] by blast
  then show ?thesis
    using selected_occurrence(3) [OF s(2)] unfolding selected_ok_def by (metis (no_types))
qed

text \<open>Two texts that share the first byte of a two-byte character.\<close>

lemma accented_utf8: "utf8_valid [0xC3, 0xA9]" "utf8_valid [0xC3, 0xAA, 0x21]"
  by (simp_all add: utf8_valid.simps(2) utf8_cont_def)

theorem select_span_correct_witness:
  "\<exists>s. select_span [0xC3, 0xA9] [0xC3, 0xAA, 0x21] = Ok (Some s)
    \<and> splice_text [0xC3, 0xA9] (ss_old_start s) (ss_old_end s) (ss_replacement_text s)
        = Ok [0xC3, 0xAA, 0x21]"
  using select_span_correct [OF accented_utf8] by (auto simp: usize_limit_def)

text \<open>C6 (liveness): authoring an edit of a node with a nonzero id between two different well-formed texts,
  the old one below 4 GiB, succeeds, passes the admission checks of patches and, resolved against the old
  text, yields the new one. The only alternative is that SHA-256 maps the anchors of two different prefixes of
  the old text to one value.\<close>

theorem text_edit_authoring:
  assumes valid: "utf8_valid old" "utf8_valid new" "old \<noteq> new"
    and len: "length old < 2 ^ 32" "length new < usize_limit" and n: "\<not> node_id_is_zero n"
  shows "(\<exists>e. plan_edit_text H old new n = Ok e \<and> validate_edit_text H e = Ok ()
      \<and> apply_edit H e old = Some new)
    \<or> prefixes_collide H old"
proof -
  have "length old < usize_limit"
    using len(1) by (simp add: usize_limit_def)
  from valid this len(2) obtain a b span replacement where
    t: "old = a @ span @ b" "new = a @ replacement @ b" "utf8_valid span" "utf8_valid replacement"
    and plan: "plan_edit_text H old new n =
       rbind (map_err (\<lambda>err. Integrity (''EditText: '' @ display_selection_error err))
         (choose_anchor_lengths_v2 H old span (length a) (length a + length span)))
       (\<lambda>(ll, rl). Ok (span_edit H old n (length a) span replacement ll rl))"
    by (rule plan_edit_text_cases)
  consider (found) ll rl where "choose_anchor_lengths_v2 H (a @ span @ b) span (length a)
      (length a + length span) = Ok (ll, rl)" | (collision) "prefixes_collide H old"
    using choose_anchor_or_collision [OF len(1) [unfolded t(1)], of H] unfolding t(1) by blast
  then show ?thesis
  proof cases
    case (found ll rl)
    then show ?thesis
      using plan span_edit_applies [OF found] span_edit_valid [OF found n t(3,4)] by (simp add: t(1,2))
  qed blast
qed

theorem text_edit_authoring_witness:
  "\<exists>e. plan_edit_text id [0xC3, 0xA9] [0xC3, 0xAA, 0x21] (NodeId (replicate 32 1)) = Ok e
    \<and> validate_edit_text id e = Ok () \<and> apply_edit id e [0xC3, 0xA9] = Some [0xC3, 0xAA, 0x21]"
  using text_edit_authoring [OF accented_utf8, of "NodeId (replicate 32 1)" id]
  by (simp add: usize_limit_def node_id_is_zero_def replicate_eq_replicate)

text \<open>C14 (round trip): an inverse that was derived undoes the edit it was derived from: the forward edit
  takes the text to the returned one, the inverse is an admissible operation, and resolved against the
  edited text it gives the original back.\<close>

theorem inverse_edit_undoes:
  assumes "inverse_of H pre e = Ok (e', post)" and n: "\<not> node_id_is_zero (et_node_id e)"
  shows "apply_edit H e pre = Some post \<and> validate_edit_text H e' = Ok ()
    \<and> apply_edit H e' post = Some pre"
  using assms(1)
proof (rule inverse_of_Ok)
  fix a b
  let ?old = "et_old_span_text e" and ?new = "et_replacement_text e"
  assume t: "pre = a @ ?old @ b" "post = a @ ?new @ b"
    and utf8: "utf8_valid a" "utf8_valid b" "utf8_valid ?old" "utf8_valid ?new"
    and h: "text_span_hash H ?old = et_old_span_hash e"
    and r: "resolve_text_span H pre ?old (et_left_anchor_hash e) (et_right_anchor_hash e)
      (et_span_id e) (et_node_id e) (et_old_span_hash e) (et_left_anchor_len e) (et_right_anchor_len e)
      = Ok (length a, length a + length ?old)"
    and small: "length a + length ?new < usize_limit"
  obtain ll rl where c: "choose_anchor_lengths_v2 H (a @ ?new @ b) ?new (length a) (length a + length ?new)
      = Ok (ll, rl)" and e': "e' = span_edit H (a @ ?new @ b) (et_node_id e) (length a) ?new ?old ll rl"
    using assms(1) inverse_of_run [OF utf8(1,3,4,2) h r [unfolded t(1)] small] unfolding t(1) by auto
  have "apply_edit H e pre = Some post"
    using r t unfolding apply_edit_Some by blast
  then show ?thesis
    using span_edit_applies [OF c] span_edit_valid [OF c n utf8(4,3)] by (simp add: e' t)
qed

theorem inverse_edit_undoes_witness:
  "\<exists>e e'. inverse_of id [97] e = Ok (e', [98]) \<and> apply_edit id e [97] = Some [98]
    \<and> apply_edit id e' [98] = Some [97]"
proof -
  obtain e where e: "validate_edit_text id e = Ok ()" "apply_edit id e [97] = Some [98]"
      "et_node_id e = NodeId (replicate 32 1)" "et_old_span_text e \<noteq> []"
    by (rule id_edit)
  obtain e' where i: "inverse_of id [97] e = Ok (e', [98])"
    using inverse_total [OF _ _ e(1,2)] e(4) by (auto simp: utf8_valid.simps(2))
  then show ?thesis
    using inverse_edit_undoes [OF i] e(3) by (auto simp: node_id_is_zero_def replicate_eq_replicate)
qed

text \<open>C39 (liveness): admissible edits have inverses. If the record passes the admission checks, its span or
  its replacement is not empty, and it takes one well-formed text to another below 4 GiB, then the derivation
  succeeds and returns the edited text. The only alternative is that SHA-256 maps the anchors of two different
  prefixes of the edited text to one value.\<close>

theorem inverse_edit_exists:
  assumes utf8: "utf8_valid pre" "utf8_valid post" and valid: "validate_edit_text H e = Ok ()"
    and applies: "apply_edit H e pre = Some post"
    and some: "et_old_span_text e \<noteq> [] \<or> et_replacement_text e \<noteq> []" and small: "length post < 2 ^ 32"
  shows "(\<exists>e'. inverse_of H pre e = Ok (e', post)) \<or> prefixes_collide H post"
  using assms by (rule inverse_total)

theorem inverse_edit_exists_witness: "\<exists>e e'. inverse_of id [97] e = Ok (e', [98])"
proof -
  obtain e where e: "validate_edit_text id e = Ok ()" "apply_edit id e [97] = Some [98]"
      "et_node_id e = NodeId (replicate 32 1)" "et_old_span_text e \<noteq> []"
    by (rule id_edit)
  have "utf8_valid [97]" "utf8_valid [98]"
    by (simp_all add: utf8_valid.simps(2))
  from inverse_edit_exists [OF this e(1,2)] e(4) show ?thesis
    by auto
qed

text \<open>C40 (bounds): the anchor search does not succeed for every finite file. Its ceiling is the text length
  truncated to 32 bits. In a text whose length exceeds a multiple of 4 GiB by at most 64 bytes it therefore
  tries the length 64 alone: for a span that occurs a second time with the same 64 bytes before and after it,
  the search gives up, whatever the hash function and however much the text differs further away.\<close>

theorem anchor_search_gives_up_at_4gib:
  assumes "length t mod 2 ^ 32 \<le> 64" and "length t < usize_limit"
    and "t = a @ old @ b" and "t = c @ old @ d" and "a \<noteq> c"
    and "drop (length a - 64) a = drop (length c - 64) c" and "take 64 b = take 64 d"
  shows "choose_anchor_lengths_v2 H t old (length a) (length a + length old) = Err AnchorUniquenessUnreachable"
  using choose_anchor_wraps [OF assms(1)] same_windows_ambiguous [OF assms(3,4,5,2), of 64] assms(6,7) by simp

theorem anchor_search_gives_up_at_4gib_witness:
  "choose_anchor_lengths_v2 id (replicate (2 ^ 32) 0) [0] 64 65 = Err AnchorUniquenessUnreachable"
proof -
  obtain n :: nat where n: "n = 2 ^ 32"
    by simp
  then have len: "131 \<le> n" "n mod 2 ^ 32 \<le> 64" "n < usize_limit"
    by (simp_all add: usize_limit_def)
  have "choose_anchor_lengths_v2 id (replicate n 0) [0] (length (replicate 64 (0 :: u8)))
      (length (replicate 64 (0 :: u8)) + length [0 :: u8]) = Err AnchorUniquenessUnreachable"
    by (rule anchor_search_gives_up_at_4gib [OF _ _ replicate_cut [of 64 n] replicate_cut [of 65 n]])
      (use len in \<open>auto simp: min_def replicate_eq_replicate\<close>)
  then show ?thesis
    unfolding n [symmetric] by simp
qed

end
