(* ===== verification/Object_Store.thy ===== *)
theory Object_Store
  imports Blob_Block File_Codec
begin

text \<open>
  Reading objects (\<open>prikk-store/src/object_store.rs\<close>, \<open>memory_store.rs\<close>, \<open>blob_access.rs\<close>,
  \<open>patch_replay/read.rs\<close>, \<open>lifecycle_cache/store_resolvers.rs\<close>): the \<open>ObjectReader\<close> boundary as the
  function it offers, the in-memory store that implements it, the role checks on blobs, the typed
  readers and the walk along single parents. A store on disk appears only as a reader: what the
  clients rely on is the contract of the locale \<open>object_store\<close>, which the in-memory store meets.
\<close>

section \<open>The reader boundary\<close>

type_synonym reader = "object_id \<Rightarrow> object_envelope option res"

definition show_id :: "object_id \<Rightarrow> string" where
  "show_id i = render (object_id_to_hex i)"

definition read_typed :: "reader \<Rightarrow> object_id \<Rightarrow> object_type \<Rightarrow> object_envelope option res" where
  "read_typed read i object_type =
     rbind (read i) (\<lambda>found.
     case found of
       None \<Rightarrow> Ok None
     | Some envelope \<Rightarrow>
         if env_type envelope \<noteq> object_type then
           Err (ObjectTypeMismatch (object_type_name object_type) (object_type_name (env_type envelope)))
         else Ok (Some envelope))"

definition has_object :: "reader \<Rightarrow> object_id \<Rightarrow> object_type \<Rightarrow> bool res" where
  "has_object read i object_type =
     rbind (read_typed read i object_type) (\<lambda>found. Ok (found \<noteq> None))"

section \<open>The in-memory store\<close>

record memory_object_store =
  objects :: "(object_id, object_envelope) fmap"

definition new_memory_store :: memory_object_store where
  "new_memory_store = \<lparr> objects = fmempty \<rparr>"

definition memory_len :: "memory_object_store \<Rightarrow> nat" where
  "memory_len m = fcard (fmdom (objects m))"

definition memory_is_empty :: "memory_object_store \<Rightarrow> bool" where
  "memory_is_empty m \<longleftrightarrow> objects m = fmempty"

definition memory_read_object :: "memory_object_store \<Rightarrow> reader" where
  "memory_read_object m i = Ok (fmlookup (objects m) i)"

definition memory_read_typed ::
  "memory_object_store \<Rightarrow> object_id \<Rightarrow> object_type \<Rightarrow> object_envelope option res" where
  "memory_read_typed m i object_type =
     (case fmlookup (objects m) i of
        Some found \<Rightarrow>
          if env_type found \<noteq> object_type then
            Err (ObjectTypeMismatch (object_type_name object_type) (object_type_name (env_type found)))
          else Ok (Some found)
      | None \<Rightarrow> Ok None)"

definition memory_write_object ::
  "(bytes \<Rightarrow> bytes) \<Rightarrow> object_envelope \<Rightarrow> memory_object_store
   \<Rightarrow> object_id res \<times> memory_object_store" where
  "memory_write_object sha256 envelope m =
     (case validate_strict envelope of
        Err e \<Rightarrow> (Err e, m)
      | Ok _ \<Rightarrow>
          (let i = envelope_object_id sha256 envelope
           in (Ok i, m\<lparr> objects := fmupd i envelope (objects m) \<rparr>)))"

section \<open>Blob roles\<close>

definition decode_snapshot_blob :: "bytes \<Rightarrow> bytes res" where
  "decode_snapshot_blob canonical_payload =
     rbind (decode_blob canonical_payload) (\<lambda>blob.
     if blob_kind_of blob \<noteq> BlobSnapshot then
       Err (Integrity ''snapshot reference points to a non-SNAPSHOT blob'')
     else Ok (blob_content blob))"

definition decode_file_content_blob :: "bytes \<Rightarrow> bytes res" where
  "decode_file_content_blob canonical_payload =
     rbind (decode_blob canonical_payload) (\<lambda>blob.
     if blob_kind_of blob = BlobSnapshot then
       Err (Integrity ''file content reference points to a SNAPSHOT blob'')
     else Ok (blob_content blob))"

definition decode_file_content_blob_with_kind :: "bytes \<Rightarrow> (node_kind \<times> bytes) res" where
  "decode_file_content_blob_with_kind canonical_payload =
     rbind (decode_blob canonical_payload) (\<lambda>blob.
     rbind (fail_if (blob_kind_of blob = BlobSnapshot)
              (Integrity ''file content reference points to a SNAPSHOT blob'')) (\<lambda>_.
     rbind (node_kind_from_file_blob_kind (blob_kind_of blob)) (\<lambda>kind.
     Ok (kind, blob_content blob))))"

fun blob_kind_for_node :: "string \<Rightarrow> node_kind \<Rightarrow> blob_kind res" where
  "blob_kind_for_node message TextFile = Ok BlobText"
| "blob_kind_for_node message BinaryFile = Ok BlobBinary"
| "blob_kind_for_node message Symlink = Err (Integrity message)"

definition file_blob_id_for_kind :: "(bytes \<Rightarrow> bytes) \<Rightarrow> bytes \<Rightarrow> node_kind \<Rightarrow> object_id res" where
  "file_blob_id_for_kind sha256 content old_node_kind =
     rbind (blob_kind_for_node ''DeleteNode symlink node has no file-content blob'' old_node_kind)
       (\<lambda>blob_kind.
     rbind (to_canonical_bytes encode_blob (new_blob blob_kind content)) (\<lambda>payload.
     Ok (from_canonical_payload sha256 Blob 1 payload)))"

definition ensure_blob_matches_node_kind ::
  "(bytes \<Rightarrow> bytes) \<Rightarrow> bytes \<Rightarrow> object_id \<Rightarrow> node_kind \<Rightarrow> unit res" where
  "ensure_blob_matches_node_kind sha256 content expected old_node_kind =
     rbind (file_blob_id_for_kind sha256 content old_node_kind) (\<lambda>i.
     if i = expected then Ok ()
     else Err (Integrity (''DeleteNode old_blob_id/old_node_kind mismatch: expected ''
            @ show_id expected @ '', got '' @ show_id i)))"

definition bytes_match_blob_id ::
  "(bytes \<Rightarrow> bytes) \<Rightarrow> bytes \<Rightarrow> object_id \<Rightarrow> node_kind \<Rightarrow> bool res" where
  "bytes_match_blob_id sha256 content expected node_kind =
     rbind (file_blob_id_for_kind sha256 content node_kind) (\<lambda>i. Ok (i = expected))"

definition blob_envelope_for_kind :: "bytes \<Rightarrow> node_kind \<Rightarrow> object_envelope res" where
  "blob_envelope_for_kind content node_kind =
     rbind (blob_kind_for_node ''a symlink node has no file-content blob to derive'' node_kind)
       (\<lambda>blob_kind.
     rbind (to_canonical_bytes encode_blob (new_blob blob_kind content)) (\<lambda>payload.
     Ok (unsigned_envelope Blob 1 payload)))"

section \<open>Typed readers\<close>

definition read_block :: "reader \<Rightarrow> object_id \<Rightarrow> block_payload res" where
  "read_block read block_id =
     rbind (read_typed read block_id Block) (\<lambda>found.
     rbind (ok_or (Integrity (''missing Block '' @ show_id block_id)) found) (\<lambda>envelope.
     decode_block (env_payload envelope)))"

definition read_patch :: "reader \<Rightarrow> object_id \<Rightarrow> object_envelope res" where
  "read_patch read patch_id =
     rbind (read_typed read patch_id Patch) (\<lambda>found.
     ok_or (Integrity (''missing Patch '' @ show_id patch_id)) found)"

definition read_blob_bytes_with_kind :: "reader \<Rightarrow> object_id \<Rightarrow> (node_kind \<times> bytes) res" where
  "read_blob_bytes_with_kind read blob_id =
     rbind (read_typed read blob_id Blob) (\<lambda>found.
     rbind (ok_or (Integrity (''missing Blob '' @ show_id blob_id)) found) (\<lambda>envelope.
     rbind (decode_blob (env_payload envelope)) (\<lambda>blob.
     rbind (fail_if (blob_kind_of blob = BlobSnapshot)
              (Integrity ''file content reference points to a SNAPSHOT blob'')) (\<lambda>_.
     rbind (node_kind_from_file_blob_kind (blob_kind_of blob)) (\<lambda>kind.
     Ok (kind, blob_content blob))))))"

section \<open>The single-parent chain\<close>

text \<open>The outer option is the shape the walk cannot follow, the inner one genesis.\<close>

definition mainline_or_sole_parent :: "block_payload \<Rightarrow> object_id option option" where
  "mainline_or_sole_parent block =
     (if block_kind_of block = BMerge then
        (case mainline_parent_id block of
           None \<Rightarrow> None
         | Some mainline \<Rightarrow>
             if mainline \<notin> set (parent_block_ids block) then None else Some (Some mainline))
      else (case parent_block_ids block of
              [] \<Rightarrow> Some None
            | [parent] \<Rightarrow> Some (Some parent)
            | _ \<Rightarrow> None))"

text \<open>
  The loop of \<open>single_parent_chain\<close>: \<open>None\<close> is a run that does not end. The list is the source's
  \<open>newest_first\<close> read backwards, so that the final reversal is the list itself.
\<close>

lemma result_case_mono [partial_function_mono]:
  assumes "\<And>e. monotone orda ordb (\<lambda>f. g f e)" and "\<And>x. monotone orda ordb (\<lambda>f. h f x)"
  shows "monotone orda ordb (\<lambda>f. case r of Err e \<Rightarrow> g f e | Ok x \<Rightarrow> h f x)"
  using assms by (cases r) simp_all

lemma option_case_mono [partial_function_mono]:
  assumes "monotone orda ordb g" and "\<And>x. monotone orda ordb (\<lambda>f. h f x)"
  shows "monotone orda ordb (\<lambda>f. case r of None \<Rightarrow> g f | Some x \<Rightarrow> h f x)"
  using assms by (cases r) simp_all

partial_function (option) chain_loop ::
  "reader \<Rightarrow> object_id set \<Rightarrow> object_id list \<Rightarrow> object_id option \<Rightarrow> object_id list res option" where [code]:
  "chain_loop read seen oldest_first current =
     (case current of
        None \<Rightarrow> Some (Ok oldest_first)
      | Some block_id \<Rightarrow>
          if block_id \<in> seen then
            Some (Err (Integrity (''block parent chain contains a cycle at '' @ show_id block_id)))
          else (case read_block read block_id of
                  Err e \<Rightarrow> Some (Err e)
                | Ok block \<Rightarrow>
                    (case mainline_or_sole_parent block of
                       None \<Rightarrow> Some (Err (UnsupportedObjectType
                         (''patch replay supports only single-parent chains; block ''
                          @ show_id block_id @ '' has '' @ dec (length (parent_block_ids block))
                          @ '' parents'')))
                     | Some parent \<Rightarrow>
                         chain_loop read (insert block_id seen) (block_id # oldest_first) parent)))"

definition single_parent_chain :: "reader \<Rightarrow> object_id \<Rightarrow> object_id list res option" where
  "single_parent_chain read target = chain_loop read {} [] (Some target)"

section \<open>Store-backed resolvers\<close>

definition validate_blob_schema :: "bool \<Rightarrow> u32 \<Rightarrow> unit res" where
  "validate_blob_schema require_schema_one schema_version =
     (if require_schema_one then
        let accepted = (case admitted_schemas Blob of Some vs \<Rightarrow> vs | None \<Rightarrow> [])
        in if schema_version \<notin> set accepted then
             Err (Integrity (''format-2 Blob does not accept envelope schema ''
               @ dec (unat schema_version) @ '' (accepted: ['' @ show_list accepted @ ''])''))
           else Ok ()
      else Ok ())"

definition resolve_blob :: "reader \<Rightarrow> bool \<Rightarrow> object_id \<Rightarrow> blob_payload option res" where
  "resolve_blob read require_schema_one blob_id =
     rbind (read blob_id) (\<lambda>found.
     case found of
       None \<Rightarrow> Ok None
     | Some envelope \<Rightarrow>
         if env_type envelope \<noteq> Blob then
           Err (Integrity (''lifecycle replay: object '' @ show_id blob_id @ '' is not a Blob (''
             @ object_type_name (env_type envelope) @ '' found)''))
         else
           rbind (validate_blob_schema require_schema_one (env_schema envelope)) (\<lambda>_.
           rbind (decode_blob (env_payload envelope)) (\<lambda>blob. Ok (Some blob))))"

definition resolver_blob_kind :: "reader \<Rightarrow> bool \<Rightarrow> object_id \<Rightarrow> blob_kind option res" where
  "resolver_blob_kind read require_schema_one blob_id =
     rbind (resolve_blob read require_schema_one blob_id) (\<lambda>blob.
     Ok (map_option blob_kind_of blob))"

definition resolver_blob_content ::
  "reader \<Rightarrow> bool \<Rightarrow> object_id \<Rightarrow> (blob_kind \<times> bytes) option res" where
  "resolver_blob_content read require_schema_one blob_id =
     rbind (resolve_blob read require_schema_one blob_id) (\<lambda>blob.
     Ok (map_option (\<lambda>b. (blob_kind_of b, blob_content b)) blob))"

section \<open>The contract of a store\<close>

text \<open>
  What replay relies on: an object read under an id has that id, reading back what was written gives
  it, writing keeps everything else, and only finitely many objects exist.
\<close>

locale object_store =
  fixes sha256 :: "bytes \<Rightarrow> bytes"
    and store_ok :: "'s \<Rightarrow> bool"
    and read_from :: "'s \<Rightarrow> reader"
    and write_to :: "object_envelope \<Rightarrow> 's \<Rightarrow> object_id res \<times> 's"
  assumes addressed: "store_ok s \<Longrightarrow> read_from s i = Ok (Some e) \<Longrightarrow> envelope_object_id sha256 e = i"
    and finite_store: "store_ok s \<Longrightarrow> finite {i. \<exists>e. read_from s i = Ok (Some e)}"
    and write_ok: "store_ok s \<Longrightarrow> store_ok (snd (write_to e s))"
    and write_id: "fst (write_to e s) = Ok i \<Longrightarrow> i = envelope_object_id sha256 e"
    and read_written: "fst (write_to e s) = Ok i \<Longrightarrow> read_from (snd (write_to e s)) i = Ok (Some e)"
    and read_other: "fst (write_to e s) = Ok i \<Longrightarrow> j \<noteq> i \<Longrightarrow>
          read_from (snd (write_to e s)) j = read_from s j"
    and write_failed: "fst (write_to e s) = Err err \<Longrightarrow> snd (write_to e s) = s"

definition readable :: "reader \<Rightarrow> object_id set" where
  "readable read = {i. \<exists>e. read i = Ok (Some e)}"

lemma read_block_readable: "read_block read i = Ok b \<Longrightarrow> i \<in> readable read"
  by (auto simp: read_block_def read_typed_def readable_def split: option.splits if_splits)

lemma chain_loop_step:
  "chain_loop read seen acc None = Some (Ok acc)"
  "chain_loop read seen acc (Some b) =
     (if b \<in> seen then
        Some (Err (Integrity (''block parent chain contains a cycle at '' @ show_id b)))
      else (case read_block read b of
              Err e \<Rightarrow> Some (Err e)
            | Ok block \<Rightarrow>
                (case mainline_or_sole_parent block of
                   None \<Rightarrow> Some (Err (UnsupportedObjectType
                     (''patch replay supports only single-parent chains; block ''
                      @ show_id b @ '' has '' @ dec (length (parent_block_ids block))
                      @ '' parents'')))
                 | Some parent \<Rightarrow> chain_loop read (insert b seen) (b # acc) parent)))"
  by (subst chain_loop.simps, simp)+

lemma chain_loop_returns:
  assumes "finite (readable read)"
  shows "\<exists>r. chain_loop read seen acc current = Some r"
proof (induction "card (readable read - seen)" arbitrary: seen acc current rule: less_induct)
  case less
  show ?case
  proof (cases current)
    case None
    then show ?thesis by (simp add: chain_loop_step)
  next
    case (Some b)
    show ?thesis
    proof (cases "b \<in> seen")
      case True
      then show ?thesis by (simp add: Some chain_loop_step)
    next
      case False
      show ?thesis
      proof (cases "read_block read b")
        case (Err e)
        then show ?thesis using False by (simp add: Some chain_loop_step)
      next
        case (Ok block)
        have "readable read - insert b seen \<subset> readable read - seen"
          using read_block_readable [OF Ok] False by blast
        then have "card (readable read - insert b seen) < card (readable read - seen)"
          using assms by (meson finite_Diff psubset_card_mono)
        from less [OF this] show ?thesis
          using Ok False by (auto simp: Some chain_loop_step split: option.splits)
      qed
    qed
  qed
qed

context object_store
begin

lemma finite_readable: "store_ok s \<Longrightarrow> finite (readable (read_from s))"
  unfolding readable_def by (rule finite_store)

lemma single_parent_chain_returns: "store_ok s \<Longrightarrow> \<exists>r. single_parent_chain (read_from s) i = Some r"
  unfolding single_parent_chain_def by (rule chain_loop_returns [OF finite_readable])

end

definition wf_memory :: "(bytes \<Rightarrow> bytes) \<Rightarrow> memory_object_store \<Rightarrow> bool" where
  "wf_memory sha256 m \<longleftrightarrow>
     (\<forall>i e. fmlookup (objects m) i = Some e \<longrightarrow> envelope_object_id sha256 e = i \<and> validate_strict e = Ok ())"

lemma wf_new_memory_store [simp]: "wf_memory sha256 new_memory_store"
  by (simp add: wf_memory_def new_memory_store_def)

lemma wf_memory_write: "wf_memory sha256 m \<Longrightarrow> wf_memory sha256 (snd (memory_write_object sha256 e m))"
  by (auto simp: wf_memory_def memory_write_object_def Let_def split: result.splits)

interpretation memory: object_store sha256 "wf_memory sha256" memory_read_object
    "memory_write_object sha256" for sha256
proof
  fix s :: memory_object_store
  have "{i. \<exists>e. memory_read_object s i = Ok (Some e)} = fset (fmdom (objects s))"
    by (auto simp: memory_read_object_def fmlookup_dom_iff)
  then show "finite {i. \<exists>e. memory_read_object s i = Ok (Some e)}" by simp
qed (auto simp: wf_memory_def memory_read_object_def memory_write_object_def Let_def
    split: result.splits)

end
