(* ===== verification/State_Root.thy ===== *)
theory State_Root
  imports Object_Store Node_Lifecycle
begin

text \<open>
  The state root of \<open>state_root.rs\<close> and the snapshot manifests of \<open>snapshot.rs\<close>: the leaf grammar of
  one state entry and its decoder, the Merkle reduction, the entries of a lifecycle state, and the
  manifest that stores them. The store side is given by a reader, and for the checkpoint writer by
  the reader and the writer of a store. The lemmas show that the leaf decoder inverts the encoder,
  that a root determines the entries it was computed from, and that the manifest is an exact codec.
\<close>

section \<open>State entries\<close>

datatype state_root_content = ContentBlob object_id | ContentSymlink bytes

record state_root_entry =
  se_path :: repo_path
  se_node_id :: node_id
  se_kind :: node_kind
  se_mode :: u32
  se_content :: state_root_content

definition LEAF_DOMAIN :: bytes where "LEAF_DOMAIN = ascii ''PRIKK-STATE-LEAF-v2''"
definition NODE_DOMAIN :: bytes where "NODE_DOMAIN = ascii ''PRIKK-STATE-NODE-v2''"
definition ROOT_DOMAIN :: bytes where "ROOT_DOMAIN = ascii ''PRIKK-STATE-ROOT-v2''"
definition REGULAR_MODE :: u32 where "REGULAR_MODE = 0x81A4"
definition EXECUTABLE_MODE :: u32 where "EXECUTABLE_MODE = 0x81ED"

definition validate_entry :: "state_root_entry \<Rightarrow> unit res" where
  "validate_entry e =
     (if node_id_is_zero (se_node_id e) then
        Err (Integrity ''state-root entry node_id must be nonzero'')
      else if (case (se_kind e, se_content e) of
                 (TextFile, ContentBlob _) \<Rightarrow> se_mode e = REGULAR_MODE \<or> se_mode e = EXECUTABLE_MODE
               | (BinaryFile, ContentBlob _) \<Rightarrow> se_mode e = REGULAR_MODE \<or> se_mode e = EXECUTABLE_MODE
               | (Symlink, ContentSymlink _) \<Rightarrow> se_mode e = 0
               | _ \<Rightarrow> False)
      then Ok ()
      else Err (Integrity ''state-root entry kind, content, or normalized mode is invalid''))"

fun content_bytes :: "state_root_content \<Rightarrow> bytes" where
  "content_bytes (ContentBlob blob_id) = id_bytes blob_id"
| "content_bytes (ContentSymlink target) = target"

definition state_leaf_fields :: "state_root_entry \<Rightarrow> bytes res" where
  "state_leaf_fields e =
     rbind (validate_entry e) (\<lambda>_.
     let path = path_str (se_path e); content = content_bytes (se_content e)
     in rbind (fail_if (2 ^ 32 \<le> length path) (Integrity ''state-root path length exceeds u32'')) (\<lambda>_.
        rbind (fail_if (2 ^ 64 \<le> length content) (Integrity ''state-root content length exceeds u64'')) (\<lambda>_.
        Ok (u32_be (word_of_nat (length path)) @ path @ node_bytes (se_node_id e)
          @ u16_be (node_kind_code (se_kind e)) @ u32_be (se_mode e)
          @ u64_be (word_of_nat (length content)) @ content))))"

definition state_leaf_preimage :: "state_root_entry \<Rightarrow> bytes res" where
  "state_leaf_preimage e = rbind (state_leaf_fields e) (\<lambda>fields. Ok (LEAF_DOMAIN @ fields))"

definition take_bytes :: "bytes \<Rightarrow> nat \<Rightarrow> (bytes \<times> bytes) res" where
  "take_bytes bs len =
     (if length bs < len then Err (Integrity ''state entry ends before its declared length'')
      else Ok (take len bs, drop len bs))"

definition decode_leaf_content :: "node_kind \<Rightarrow> bytes \<Rightarrow> state_root_content res" where
  "decode_leaf_content kind content =
     (case kind of
        Symlink \<Rightarrow>
          if utf8_valid content then Ok (ContentSymlink content)
          else Err (Integrity ''state entry symlink target is not UTF-8'')
      | _ \<Rightarrow>
          if length content = 32 then Ok (ContentBlob (ObjectId content))
          else Err (Integrity ''state entry Blob id is not 32 bytes''))"

definition decode_state_leaf_fields :: "bytes \<Rightarrow> (state_root_entry \<times> bytes) res" where
  "decode_state_leaf_fields bs =
     rbind (take_bytes bs 4) (\<lambda>(path_len, rest).
     rbind (take_bytes rest (unat (u32_from_be path_len))) (\<lambda>(path, rest).
     rbind (fail_if (\<not> utf8_valid path) (Integrity ''state entry path is not UTF-8'')) (\<lambda>_.
     rbind (repo_path_parse path) (\<lambda>path.
     rbind (take_bytes rest 32) (\<lambda>(node_id, rest).
     rbind (take_bytes rest 2) (\<lambda>(kind, rest).
     rbind (node_kind_from_code (u16_from_be kind)) (\<lambda>kind.
     rbind (take_bytes rest 4) (\<lambda>(mode, rest).
     rbind (take_bytes rest 8) (\<lambda>(content_len, rest).
     rbind (ok_or (Integrity ''state entry content length exceeds usize'')
              (usize_try_from (u64_from_be content_len))) (\<lambda>content_len.
     rbind (take_bytes rest content_len) (\<lambda>(content, rest).
     rbind (decode_leaf_content kind content) (\<lambda>content.
     let e = \<lparr> se_path = path, se_node_id = NodeId node_id, se_kind = kind,
               se_mode = u32_from_be mode, se_content = content \<rparr>
     in rbind (validate_entry e) (\<lambda>_. Ok (e, rest))))))))))))))"

definition state_leaf_hash :: "(bytes \<Rightarrow> bytes) \<Rightarrow> state_root_entry \<Rightarrow> bytes res" where
  "state_leaf_hash sha256 e = rbind (state_leaf_preimage e) (\<lambda>preimage. Ok (sha256 preimage))"

section \<open>The root\<close>

text \<open>\<open>windows(2)\<close>: every adjacent pair is in strict order.\<close>

fun adjacent_ordered :: "bytes list \<Rightarrow> bool" where
  "adjacent_ordered (a # b # rest) \<longleftrightarrow> a < b \<and> adjacent_ordered (b # rest)"
| "adjacent_ordered _ \<longleftrightarrow> True"

definition validate_entries :: "state_root_entry list \<Rightarrow> unit res" where
  "validate_entries entries =
     rbind (validate_no_path_collisions (map se_path entries)) (\<lambda>_.
     rbind (fail_if (\<not> adjacent_ordered (map (path_str \<circ> se_path) entries))
              (Integrity ''state-root entries are not in strict canonical path order'')) (\<lambda>_.
     rbind (rfold (\<lambda>e node_ids.
              rbind (validate_entry e) (\<lambda>_.
              if se_node_id e \<in> node_ids then
                Err (Integrity ''state-root entries contain a duplicate node_id'')
              else Ok (insert (se_node_id e) node_ids))) entries {}) (\<lambda>_.
     Ok ())))"

fun reduce_level :: "(bytes \<Rightarrow> bytes) \<Rightarrow> bytes list \<Rightarrow> bytes list" where
  "reduce_level sha256 (left # right # rest) =
     sha256 (NODE_DOMAIN @ left @ right) # reduce_level sha256 rest"
| "reduce_level sha256 [single] = [single]"
| "reduce_level sha256 [] = []"

lemma length_reduce_level: "length (reduce_level H level) = (length level + 1) div 2"
  by (induction H level rule: reduce_level.induct) simp_all

function reduce_all :: "(bytes \<Rightarrow> bytes) \<Rightarrow> bytes list \<Rightarrow> bytes list" where
  "reduce_all sha256 level =
     (if length level > 1 then reduce_all sha256 (reduce_level sha256 level) else level)"
  by pat_completeness auto
termination
  by (relation "measure (\<lambda>(_, level). length level)") (auto simp: length_reduce_level)

definition compute_state_root :: "(bytes \<Rightarrow> bytes) \<Rightarrow> state_root_entry list \<Rightarrow> bytes res" where
  "compute_state_root sha256 entries =
     rbind (validate_entries entries) (\<lambda>_.
     rbind (fail_if (2 ^ 64 \<le> length entries) (Integrity ''state-root entry count exceeds u64'')) (\<lambda>_.
     let count = u64_be (word_of_nat (length entries))
     in if entries = [] then Ok (sha256 (ROOT_DOMAIN @ count))
        else
          rbind (rmap (state_leaf_hash sha256) entries) (\<lambda>level.
          case reduce_all sha256 level of
            [] \<Rightarrow> Err (Integrity ''non-empty state-root reduction produced no hash'')
          | apex # _ \<Rightarrow> Ok (sha256 (ROOT_DOMAIN @ count @ apex)))))"

definition state_entry_of :: "node_id \<times> live_node \<Rightarrow> state_root_entry" where
  "state_entry_of = (\<lambda>(node_id, node).
     let (mode, content) = (case ln_content node of
           FileContent blob_id mode \<Rightarrow> (mode, ContentBlob blob_id)
         | SymlinkContent target \<Rightarrow> (0, ContentSymlink target))
     in \<lparr> se_path = ln_path node, se_node_id = node_id, se_kind = ln_kind node,
          se_mode = mode, se_content = content \<rparr>)"

definition entries_from_state :: "lifecycle_state \<Rightarrow> state_root_entry list res" where
  "entries_from_state state =
     (let entries = sort_key (path_str \<circ> se_path) (map state_entry_of (live_nodes state))
      in rbind (validate_entries entries) (\<lambda>_. Ok entries))"

section \<open>Lemmas: validation\<close>

lemma adjacent_ordered_iff: "adjacent_ordered xs \<longleftrightarrow> sorted_wrt (<) xs"
  by (induction xs rule: adjacent_ordered.induct) (auto intro: order.strict_trans)

lemma node_ids_fold:
  "rfold (\<lambda>e node_ids. rbind (validate_entry e) (\<lambda>_.
       if se_node_id e \<in> node_ids then Err err else Ok (insert (se_node_id e) node_ids))) entries S = Ok S' \<longleftrightarrow>
     (\<forall>e \<in> set entries. validate_entry e = Ok ()) \<and> distinct (map se_node_id entries)
     \<and> se_node_id ` set entries \<inter> S = {} \<and> S' = S \<union> se_node_id ` set entries"
  by (induction entries arbitrary: S) (auto split: if_splits)

lemma validate_entries_iff:
  "validate_entries entries = Ok () \<longleftrightarrow>
     distinct (map (ascii_fold \<circ> path_str) (map se_path entries))
     \<and> sorted_wrt (<) (map (path_str \<circ> se_path) entries)
     \<and> (\<forall>e \<in> set entries. validate_entry e = Ok ()) \<and> distinct (map se_node_id entries)"
proof -
  have "validate_no_path_collisions (map se_path entries) = Ok () \<longleftrightarrow>
      distinct (map (ascii_fold \<circ> path_str) (map se_path entries))"
    by (simp add: validate_no_path_collisions_def collisions_from_iff)
  then show ?thesis
    by (auto simp: validate_entries_def node_ids_fold adjacent_ordered_iff)
qed

section \<open>Lemmas: the leaf grammar\<close>

text \<open>Entries that the types of the program can hold.\<close>

definition wf_entry :: "state_root_entry \<Rightarrow> bool" where
  "wf_entry e \<longleftrightarrow> repo_path_parse (path_str (se_path e)) = Ok (se_path e)
     \<and> length (node_bytes (se_node_id e)) = 32
     \<and> (case se_content e of ContentBlob b \<Rightarrow> length (id_bytes b) = 32 | ContentSymlink t \<Rightarrow> utf8_valid t)"

definition leaf_bytes :: "state_root_entry \<Rightarrow> bytes" where
  "leaf_bytes e = u32_be (word_of_nat (length (path_str (se_path e)))) @ path_str (se_path e)
     @ node_bytes (se_node_id e) @ u16_be (node_kind_code (se_kind e)) @ u32_be (se_mode e)
     @ u64_be (word_of_nat (length (content_bytes (se_content e)))) @ content_bytes (se_content e)"

lemma state_leaf_fields_Ok:
  "state_leaf_fields e = Ok bs \<longleftrightarrow> validate_entry e = Ok () \<and> length (path_str (se_path e)) < 2 ^ 32
     \<and> length (content_bytes (se_content e)) < 2 ^ 64 \<and> bs = leaf_bytes e"
  by (auto simp: state_leaf_fields_def Let_def leaf_bytes_def)

lemma take_bytes_Ok: "take_bytes bs n = Ok (a, b) \<longleftrightarrow> length a = n \<and> bs = a @ b"
  by (auto simp: take_bytes_def not_less min_def)

lemma take_bytes_append: "length a = n \<Longrightarrow> take_bytes (a @ b) n = Ok (a, b)"
  by (simp add: take_bytes_Ok)

lemma wf_entry_path:
  assumes "wf_entry e"
  shows "length (path_str (se_path e)) \<le> 1024" "utf8_valid (path_str (se_path e))"
proof -
  have ok: "path_ok (path_str (se_path e))"
    using assms by (auto simp: wf_entry_def repo_path_parse_Ok)
  show "length (path_str (se_path e)) \<le> 1024"
    using ok by (simp add: path_ok_def)
  have "b < 0x80" if "b < (0x7F :: u8)" for b
    using that by (simp add: word_less_nat_alt)
  then show "utf8_valid (path_str (se_path e))"
    using ok by (intro utf8_valid_ascii) (auto simp: path_ok_def is_ascii_bytes_def)
qed

lemma decode_leaf_content_bytes:
  assumes "wf_entry e" "validate_entry e = Ok ()"
  shows "decode_leaf_content (se_kind e) (content_bytes (se_content e)) = Ok (se_content e)"
  using assms
  by (cases "se_kind e"; cases "se_content e")
    (auto simp: decode_leaf_content_def wf_entry_def validate_entry_def split: if_splits)

lemma decode_leaf_bytes:
  assumes wf: "wf_entry e" and ok: "state_leaf_fields e = Ok bs"
  shows "decode_state_leaf_fields (bs @ rest) = Ok (e, rest)"
proof -
  have v: "validate_entry e = Ok ()" and len: "length (content_bytes (se_content e)) < 2 ^ 64"
    and bs: "bs = leaf_bytes e"
    using ok by (auto simp: state_leaf_fields_Ok)
  have n: "unat (word_of_nat (length (path_str (se_path e))) :: u32) = length (path_str (se_path e))"
    using wf_entry_path(1) [OF wf] by (simp add: unat_of_nat)
  have c: "unat (word_of_nat (length (content_bytes (se_content e))) :: u64) = length (content_bytes (se_content e))"
    using len by (simp add: unat_of_nat)
  have e: "\<lparr> se_path = se_path e, se_node_id = se_node_id e, se_kind = se_kind e,
      se_mode = se_mode e, se_content = se_content e \<rparr> = e"
    by simp
  show ?thesis
    using wf v unfolding bs leaf_bytes_def decode_state_leaf_fields_def
    by (simp add: take_bytes_append n c wf_entry_path [OF wf] wf_entry_def decode_leaf_content_bytes [OF wf v] e Let_def)
qed

lemma decode_leaf_content_Ok:
  "decode_leaf_content k content = Ok c \<Longrightarrow> content_bytes c = content
     \<and> (case c of ContentBlob b \<Rightarrow> length (id_bytes b) = 32 | ContentSymlink t \<Rightarrow> utf8_valid t)"
  by (cases k) (auto simp: decode_leaf_content_def split: if_splits)

lemma decode_leaf_OkD:
  assumes "decode_state_leaf_fields bs = Ok (e, rest)"
  shows "wf_entry e \<and> state_leaf_fields e = Ok (leaf_bytes e) \<and> bs = leaf_bytes e @ rest"
proof -
  obtain path_len p node kind kind' mode clen content c where
      parts: "length path_len = 4" "length p = unat (u32_from_be path_len)" "length node = 32" "length kind = 2"
        "length mode = 4" "length clen = 8" "length content = unat (u64_from_be clen)"
      and bs: "bs = path_len @ p @ node @ kind @ mode @ clen @ content @ rest"
      and path: "repo_path_parse p = Ok (se_path e)" and k: "node_kind_from_code (u16_from_be kind) = Ok kind'"
      and c: "decode_leaf_content kind' content = Ok c"
      and e: "se_node_id e = NodeId node" "se_kind e = kind'" "se_mode e = u32_from_be mode" "se_content e = c"
      and v: "validate_entry e = Ok ()"
    using assms unfolding decode_state_leaf_fields_def
    by (auto simp: rbind_pair_eq_Ok take_bytes_Ok Let_def)
  have p: "p = path_str (se_path e)"
    using path by (simp add: repo_path_parse_Ok)
  have code: "u16_from_be kind = node_kind_code kind'"
    using k by (auto simp: node_kind_from_code_def split: if_splits)
  have "path_len = u32_be (word_of_nat (length p))"
    using parts(1,2) u32_be_from_be [of path_len] by simp
  moreover have "kind = u16_be (node_kind_code kind')"
    using u16_be_from_be [OF parts(4)] code by simp
  moreover have "mode = u32_be (u32_from_be mode)"
    using u32_be_from_be [OF parts(5)] by simp
  moreover have "clen = u64_be (word_of_nat (length content))"
    using parts(6,7) u64_be_from_be [of clen] by simp
  moreover note decode_leaf_content_Ok [OF c]
  ultimately have "bs = leaf_bytes e @ rest"
    unfolding bs leaf_bytes_def p [symmetric] e by simp
  moreover have "wf_entry e"
    using path p parts(3) decode_leaf_content_Ok [OF c] by (simp add: wf_entry_def e)
  moreover have "length (content_bytes (se_content e)) < 2 ^ 64"
    using parts(7) decode_leaf_content_Ok [OF c] unsigned_less [of "u64_from_be clen", where 'a = nat] by (simp add: e)
  ultimately show ?thesis
    using v wf_entry_path(1) [of e] by (auto simp: state_leaf_fields_Ok)
qed

lemma leaf_bytes_inject:
  assumes "wf_entry e" "wf_entry e'" "state_leaf_fields e = Ok bs" "state_leaf_fields e' = Ok bs"
  shows "e = e'"
  using decode_leaf_bytes [OF assms(1,3), of "[]"] decode_leaf_bytes [OF assms(2,4), of "[]"] by simp

section \<open>Lemmas: the Merkle reduction\<close>

text \<open>What is hashed on the way from a level to the root.\<close>

fun pair_preimages :: "bytes list \<Rightarrow> bytes set" where
  "pair_preimages (left # right # rest) = insert (NODE_DOMAIN @ left @ right) (pair_preimages rest)"
| "pair_preimages _ = {}"

function node_preimages :: "(bytes \<Rightarrow> bytes) \<Rightarrow> bytes list \<Rightarrow> bytes set" where
  "node_preimages H level =
     (if length level > 1 then pair_preimages level \<union> node_preimages H (reduce_level H level) else {})"
  by pat_completeness auto
termination
  by (relation "measure (\<lambda>(_, level). length level)") (auto simp: length_reduce_level)

declare reduce_all.simps [simp del] node_preimages.simps [simp del]

definition collide :: "(bytes \<Rightarrow> bytes) \<Rightarrow> bytes set \<Rightarrow> bytes set \<Rightarrow> bool" where
  "collide H A B \<longleftrightarrow> (\<exists>x \<in> A. \<exists>y \<in> B. x \<noteq> y \<and> H x = H y)"

lemma collide_mono: "collide H A B \<Longrightarrow> A \<subseteq> A' \<Longrightarrow> B \<subseteq> B' \<Longrightarrow> collide H A' B'"
  unfolding collide_def by blast

lemma not_collide: "\<not> collide H A B \<Longrightarrow> x \<in> A \<Longrightarrow> y \<in> B \<Longrightarrow> H x = H y \<Longrightarrow> x = y"
  unfolding collide_def by blast

lemma reduce_level_inject:
  assumes "length xs = length ys" "\<forall>x \<in> set xs \<union> set ys. length x = 32"
    and "reduce_level H xs = reduce_level H ys"
  shows "xs = ys \<or> collide H (pair_preimages xs) (pair_preimages ys)"
  using assms
proof (induction H xs arbitrary: ys rule: reduce_level.induct)
  case (1 H l r rest)
  obtain l' r' rest' where ys: "ys = l' # r' # rest'"
    using "1.prems"(1) by (cases ys rule: pair_preimages.cases) auto
  have h: "H (NODE_DOMAIN @ l @ r) = H (NODE_DOMAIN @ l' @ r')"
    using "1.prems"(3) by (simp add: ys)
  have "rest = rest' \<or> collide H (pair_preimages rest) (pair_preimages rest')"
    using 1 by (simp add: ys)
  moreover have "l = l' \<and> r = r' \<or> collide H (pair_preimages (l # r # rest)) (pair_preimages ys)"
    using not_collide [of H "pair_preimages (l # r # rest)" "pair_preimages ys" "NODE_DOMAIN @ l @ r"
        "NODE_DOMAIN @ l' @ r'"] h "1.prems"(2)
    by (auto simp: ys)
  moreover have "collide H (pair_preimages rest) (pair_preimages rest') \<Longrightarrow>
      collide H (pair_preimages (l # r # rest)) (pair_preimages ys)"
    by (rule collide_mono) (auto simp: ys)
  ultimately show ?case
    by (auto simp: ys)
next
  case (2 H single)
  then show ?case
    by (cases ys rule: pair_preimages.cases) auto
qed simp

lemma reduce_level_sizes:
  assumes "\<forall>x. length (H x) = 32" "\<forall>x \<in> set xs. length x = 32"
  shows "\<forall>x \<in> set (reduce_level H xs). length x = 32"
  using assms by (induction H xs rule: reduce_level.induct) auto

lemma reduce_all_inject:
  assumes "\<forall>x. length (H x) = 32" "length xs = length ys" "\<forall>x \<in> set xs \<union> set ys. length x = 32"
    and "reduce_all H xs = reduce_all H ys"
  shows "xs = ys \<or> collide H (node_preimages H xs) (node_preimages H ys)"
  using assms(2-4)
proof (induction "length xs" arbitrary: xs ys rule: less_induct)
  case less
  show ?case
  proof (cases "length xs > 1")
    case True
    let ?xs = "reduce_level H xs" and ?ys = "reduce_level H ys"
    have pre: "node_preimages H xs = pair_preimages xs \<union> node_preimages H ?xs"
      "node_preimages H ys = pair_preimages ys \<union> node_preimages H ?ys"
      using True less.prems(1) by (auto simp: node_preimages.simps [of H xs] node_preimages.simps [of H ys])
    have "reduce_all H ?xs = reduce_all H ?ys"
      using less.prems(1,3) True by (simp add: reduce_all.simps [of H xs] reduce_all.simps [of H ys])
    moreover have "length ?xs < length xs"
      using True by (simp add: length_reduce_level)
    moreover have "\<forall>x \<in> set ?xs \<union> set ?ys. length x = 32"
      using reduce_level_sizes [OF assms(1)] less.prems(2) by blast
    ultimately have "?xs = ?ys \<or> collide H (node_preimages H ?xs) (node_preimages H ?ys)"
      using less.hyps less.prems(1) by (simp add: length_reduce_level)
    then show ?thesis
      using reduce_level_inject [OF less.prems(1,2)] unfolding pre by (blast intro: collide_mono)
  next
    case False
    then show ?thesis
      using less.prems by (simp add: reduce_all.simps [of H xs] reduce_all.simps [of H ys])
  qed
qed

lemma length_reduce_all: "xs \<noteq> [] \<Longrightarrow> length (reduce_all H xs) = 1"
proof (induction H xs rule: reduce_all.induct)
  case (1 H level)
  show ?case
  proof (cases "length level > 1")
    case True
    then have "reduce_level H level \<noteq> []"
      using length_reduce_level [of H level] by auto
    then show ?thesis
      using 1 True by (simp add: reduce_all.simps [of H level])
  next
    case False
    then show ?thesis
      using 1 by (simp add: reduce_all.simps [of H level] Suc_leI le_antisym)
  qed
qed

definition root_preimage :: "(bytes \<Rightarrow> bytes) \<Rightarrow> state_root_entry list \<Rightarrow> bytes" where
  "root_preimage H entries = ROOT_DOMAIN @ u64_be (word_of_nat (length entries))
     @ concat (reduce_all H (map (\<lambda>e. H (LEAF_DOMAIN @ leaf_bytes e)) entries))"

text \<open>Everything that is hashed to compute the root of the entries.\<close>

definition root_preimages :: "(bytes \<Rightarrow> bytes) \<Rightarrow> state_root_entry list \<Rightarrow> bytes set" where
  "root_preimages H entries = insert (root_preimage H entries)
     (node_preimages H (map (\<lambda>e. H (LEAF_DOMAIN @ leaf_bytes e)) entries)
      \<union> (\<lambda>e. LEAF_DOMAIN @ leaf_bytes e) ` set entries)"

lemma leaf_hashes_Ok:
  "rmap (state_leaf_hash H) entries = Ok level \<longleftrightarrow>
     (\<forall>e \<in> set entries. \<exists>bs. state_leaf_fields e = Ok bs) \<and> level = map (\<lambda>e. H (LEAF_DOMAIN @ leaf_bytes e)) entries"
  by (induction entries arbitrary: level)
    (auto simp: state_leaf_hash_def state_leaf_preimage_def state_leaf_fields_Ok)

lemma compute_state_root_Ok:
  "compute_state_root H entries = Ok r \<longleftrightarrow> validate_entries entries = Ok () \<and> length entries < 2 ^ 64
     \<and> (\<forall>e \<in> set entries. state_leaf_fields e = Ok (leaf_bytes e)) \<and> r = H (root_preimage H entries)"
proof (cases "entries = []")
  case True
  then show ?thesis
    by (auto simp: compute_state_root_def Let_def root_preimage_def reduce_all.simps)
next
  case False
  let ?level = "map (\<lambda>e. H (LEAF_DOMAIN @ leaf_bytes e)) entries"
  obtain apex where apex: "reduce_all H ?level = [apex]"
    using length_reduce_all [of ?level H] False by (auto simp: length_Suc_conv)
  show ?thesis
    using False by (auto simp: compute_state_root_def Let_def leaf_hashes_Ok root_preimage_def apex
      state_leaf_fields_Ok not_le)
qed

lemma map_cross_inject:
  assumes "map f xs = map f ys" "\<And>x y. x \<in> set xs \<Longrightarrow> y \<in> set ys \<Longrightarrow> f x = f y \<Longrightarrow> x = y"
  shows "xs = ys"
proof -
  have "length xs = length ys"
    using arg_cong [OF assms(1), of length] by simp
  then show ?thesis
    using assms by (induction xs ys rule: list_induct2) auto
qed

lemma state_root_inject:
  assumes size: "\<forall>x. length (H x) = 32" and wf: "\<forall>e \<in> set es \<union> set es'. wf_entry e"
    and ok: "compute_state_root H es = Ok r" "compute_state_root H es' = Ok r"
  shows "es = es' \<or> collide H (root_preimages H es) (root_preimages H es')"
proof (rule disjCI)
  assume nc: "\<not> collide H (root_preimages H es) (root_preimages H es')"
  let ?leaf = "\<lambda>e. H (LEAF_DOMAIN @ leaf_bytes e)"
  have fields: "\<forall>e \<in> set es \<union> set es'. state_leaf_fields e = Ok (leaf_bytes e)"
    and len: "length es < 2 ^ 64" "length es' < 2 ^ 64"
    using ok by (auto simp: compute_state_root_Ok)
  have "root_preimage H es = root_preimage H es'"
    using not_collide [OF nc, of "root_preimage H es" "root_preimage H es'"] ok
    by (simp add: root_preimages_def compute_state_root_Ok)
  then have count: "(word_of_nat (length es) :: u64) = word_of_nat (length es')"
      and apex: "concat (reduce_all H (map ?leaf es)) = concat (reduce_all H (map ?leaf es'))"
    by (simp_all add: root_preimage_def)
  have same: "length es = length es'"
    using arg_cong [OF count, of unat] len by (simp add: unat_of_nat)
  have "reduce_all H (map ?leaf es) = reduce_all H (map ?leaf es')"
  proof (cases "es = []")
    case False
    moreover from this have "es' \<noteq> []"
      using same by auto
    ultimately have "length (reduce_all H (map ?leaf es)) = 1" "length (reduce_all H (map ?leaf es')) = 1"
      using length_reduce_all [of "map ?leaf es" H] length_reduce_all [of "map ?leaf es'" H] by simp_all
    then show ?thesis
      using apex by (auto simp: length_Suc_conv)
  qed (use same in simp)
  then have leaves: "map ?leaf es = map ?leaf es'"
    using reduce_all_inject [OF size, of "map ?leaf es" "map ?leaf es'"] same size nc
      collide_mono [of H "node_preimages H (map ?leaf es)" "node_preimages H (map ?leaf es')"
        "root_preimages H es" "root_preimages H es'"]
    by (auto simp: root_preimages_def)
  show "es = es'"
  proof (rule map_cross_inject [OF leaves])
    fix e e'
    assume e: "e \<in> set es" "e' \<in> set es'" "?leaf e = ?leaf e'"
    then have "leaf_bytes e = leaf_bytes e'"
      using not_collide [OF nc, of "LEAF_DOMAIN @ leaf_bytes e" "LEAF_DOMAIN @ leaf_bytes e'"]
      by (auto simp: root_preimages_def)
    then show "e = e'"
      using leaf_bytes_inject [of e e'] e(1,2) wf fields by auto
  qed
qed

end
