(* ===== verification/Patch_Apply.thy ===== *)
theory Patch_Apply
  imports Object_Store Text_Span Patch_Decode
begin

text \<open>
  Materializing replay (\<open>prikk-store/src/patch_replay/apply.rs\<close>, \<open>patch_replay.rs\<close>,
  \<open>patch_replay/anchor.rs\<close>, \<open>patch_replay/read.rs\<close>): folding decoded operations into path-keyed
  bytes and node-keyed live nodes, whole runs of renames at once, along a chain of blocks from
  genesis or from an anchor, and the manifest built from the result. The four \<open>&mut\<close> arguments of
  the source are one record; the callers drop it on an error, so an error carries none.
\<close>

section \<open>State\<close>

record replay_live_node =
  rl_path :: bytes
  rl_kind :: node_kind
  rl_mode :: u32
  rl_blob_id :: object_id

record deleted_content_capture =
  cap_wanted :: "object_id fset"
  cap_found :: "(object_id, node_kind \<times> bytes) fmap"

definition capture_for_ids :: "object_id fset \<Rightarrow> deleted_content_capture" where
  "capture_for_ids wanted = \<lparr> cap_wanted = wanted, cap_found = fmempty \<rparr>"

definition capture_take ::
  "object_id \<Rightarrow> node_kind \<Rightarrow> bytes \<Rightarrow> deleted_content_capture \<Rightarrow> deleted_content_capture" where
  "capture_take blob_id kind content c =
     (if blob_id |\<in>| cap_wanted c then
        c\<lparr> cap_wanted := cap_wanted c |-| {|blob_id|},
           cap_found := fmupd blob_id (kind, content) (cap_found c) \<rparr>
      else c)"

definition capture_is_satisfied :: "deleted_content_capture \<Rightarrow> bool" where
  "capture_is_satisfied c \<longleftrightarrow> cap_wanted c = {||}"

record patch_replay_deleted_file =
  df_path :: repo_path
  df_old_blob_id :: object_id
  df_old_node_kind :: node_kind

record replay_tree =
  files :: "(bytes, bytes) fmap"
  tree_nodes :: "(node_id, replay_live_node) fmap"
  deleted_files :: "(bytes, patch_replay_deleted_file) fmap"
  capture :: deleted_content_capture

section \<open>One operation\<close>

definition hex32 :: "bytes \<Rightarrow> string" where
  "hex32 bs = render (to_hex bs)"

fun show_node_kind :: "node_kind \<Rightarrow> string" where
  "show_node_kind TextFile = ''TextFile''"
| "show_node_kind BinaryFile = ''BinaryFile''"
| "show_node_kind Symlink = ''Symlink''"

definition tree_create_file ::
  "reader \<Rightarrow> bytes \<Rightarrow> node_id \<Rightarrow> object_id \<Rightarrow> u32 \<Rightarrow> replay_tree \<Rightarrow> replay_tree res" where
  "tree_create_file read path node_id blob_id mode t =
     rbind (fail_if (path |\<in>| fmdom (files t))
              (Integrity (''CreateFile would overwrite existing path '' @ render path))) (\<lambda>_.
     rbind (fail_if (node_id |\<in>| fmdom (tree_nodes t))
              (Integrity ''CreateFile would introduce an already-live node_id'')) (\<lambda>_.
     rbind (read_blob_bytes_with_kind read blob_id) (\<lambda>(kind, content).
     Ok (t\<lparr> deleted_files := fmdrop path (deleted_files t),
            files := fmupd path content (files t),
            tree_nodes := fmupd node_id
              \<lparr> rl_path = path, rl_kind = kind, rl_mode = mode, rl_blob_id = blob_id \<rparr>
              (tree_nodes t) \<rparr>))))"

definition tree_delete_file ::
  "(bytes \<Rightarrow> bytes) \<Rightarrow> bytes \<Rightarrow> node_id \<Rightarrow> node_kind \<Rightarrow> object_id \<Rightarrow> replay_tree \<Rightarrow> replay_tree res" where
  "tree_delete_file sha256 path node_id old_node_kind old_blob_id t =
     rbind (ok_or (Integrity (''DeleteNode path is absent: '' @ render path))
              (fmlookup (files t) path)) (\<lambda>old_bytes.
     rbind (ensure_blob_matches_node_kind sha256 old_bytes old_blob_id old_node_kind) (\<lambda>_.
     rbind (repo_path_parse path) (\<lambda>repo_path.
     rbind (case fmlookup (tree_nodes t) node_id of
              None \<Rightarrow> Ok ()
            | Some live \<Rightarrow>
                rbind (fail_if (rl_path live \<noteq> path)
                         (Integrity (''DeleteNode path '' @ render path
                           @ '' does not match live node path '' @ render (rl_path live)))) (\<lambda>_.
                fail_if (rl_kind live \<noteq> old_node_kind)
                  (Integrity ''DeleteNode old_node_kind does not match live node kind''))) (\<lambda>_.
     Ok (t\<lparr> capture := capture_take old_blob_id old_node_kind old_bytes (capture t),
            files := fmdrop path (files t),
            tree_nodes := fmdrop node_id (tree_nodes t),
            deleted_files := fmupd path \<lparr> df_path = repo_path, df_old_blob_id = old_blob_id,
                df_old_node_kind = old_node_kind \<rparr> (deleted_files t) \<rparr>)))))"

definition tree_edit_text ::
  "(bytes \<Rightarrow> bytes) \<Rightarrow> node_id \<Rightarrow> bytes \<Rightarrow> bytes \<Rightarrow> bytes \<Rightarrow> bytes \<Rightarrow> bytes \<Rightarrow> bytes
   \<Rightarrow> u32 option \<Rightarrow> u32 option \<Rightarrow> replay_tree \<Rightarrow> replay_tree res" where
  "tree_edit_text sha256 node_id span_id old_span_hash left_anchor_hash right_anchor_hash
       replacement_text old_span_text left_anchor_len right_anchor_len t =
     rbind (fail_if (text_span_hash sha256 old_span_text \<noteq> old_span_hash)
              (Integrity (''EditText hash verification failed before localization for node ''
                @ hex32 (node_bytes node_id) @ '' span '' @ hex32 span_id))) (\<lambda>_.
     rbind (ok_or (Integrity (''EditText failed before blob load: node '' @ hex32 (node_bytes node_id)
                @ '' is not live (span '' @ hex32 span_id @ '')''))
              (fmlookup (tree_nodes t) node_id)) (\<lambda>live.
     rbind (fail_if (rl_kind live \<noteq> TextFile)
              (Integrity (''EditText failed before blob load: node '' @ hex32 (node_bytes node_id)
                @ '' is '' @ show_node_kind (rl_kind live) @ '', not TextFile (span ''
                @ hex32 span_id @ '')''))) (\<lambda>_.
     rbind (ok_or (Integrity (''EditText failed before blob load: live node ''
                @ hex32 (node_bytes node_id) @ '' path '' @ render (rl_path live)
                @ '' is absent (span '' @ hex32 span_id @ '')''))
              (fmlookup (files t) (rl_path live))) (\<lambda>current_text.
     rbind (fail_if (\<not> utf8_valid current_text)
              (Integrity (''EditText failed during UTF-8 validation for node ''
                @ hex32 (node_bytes node_id) @ '' span '' @ hex32 span_id))) (\<lambda>_.
     rbind (map_err (\<lambda>reason. Integrity (''EditText failed during localization for node ''
                @ hex32 (node_bytes node_id) @ '' span '' @ hex32 span_id @ '': ''
                @ display_resolution_failure reason))
              (resolve_text_span sha256 current_text old_span_text left_anchor_hash right_anchor_hash
                 span_id node_id old_span_hash left_anchor_len right_anchor_len))
       (\<lambda>(start, stop).
     rbind (map_err (\<lambda>err. Integrity (''EditText failed during splice for node ''
                @ hex32 (node_bytes node_id) @ '' span '' @ hex32 span_id @ '': ''
                @ display_splice_error err))
              (splice_text current_text start stop replacement_text)) (\<lambda>new_text.
     Ok (t\<lparr> files := fmupd (rl_path live) new_text (files t) \<rparr>))))))))"

definition tree_replace_binary ::
  "(bytes \<Rightarrow> bytes) \<Rightarrow> reader \<Rightarrow> node_id \<Rightarrow> object_id \<Rightarrow> object_id \<Rightarrow> replay_tree \<Rightarrow> replay_tree res" where
  "tree_replace_binary sha256 read node_id old_blob_id new_blob_id t =
     rbind (ok_or (Integrity (''ReplaceBinary target node '' @ hex32 (node_bytes node_id)
                @ '' is not live''))
              (fmlookup (tree_nodes t) node_id)) (\<lambda>live.
     rbind (fail_if (rl_kind live \<noteq> BinaryFile)
              (Integrity (''ReplaceBinary target node '' @ hex32 (node_bytes node_id) @ '' is ''
                @ show_node_kind (rl_kind live) @ '', not BinaryFile''))) (\<lambda>_.
     rbind (ok_or (Integrity (''ReplaceBinary target path '' @ render (rl_path live)
                @ '' is absent for live node '' @ hex32 (node_bytes node_id)))
              (fmlookup (files t) (rl_path live))) (\<lambda>current_bytes.
     rbind (ensure_blob_matches_node_kind sha256 current_bytes old_blob_id (rl_kind live)) (\<lambda>_.
     rbind (read_blob_bytes_with_kind read new_blob_id) (\<lambda>(new_kind, new_bytes).
     rbind (fail_if (new_kind \<noteq> BinaryFile)
              (Integrity (''ReplaceBinary new blob '' @ show_id new_blob_id
                @ '' is not a binary-file blob''))) (\<lambda>_.
     Ok (t\<lparr> files := fmupd (rl_path live) new_bytes (files t),
            tree_nodes := fmupd node_id (live\<lparr> rl_blob_id := new_blob_id \<rparr>) (tree_nodes t) \<rparr>)))))))"

definition tree_change_perm :: "node_id \<Rightarrow> u32 \<Rightarrow> u32 \<Rightarrow> replay_tree \<Rightarrow> replay_tree res" where
  "tree_change_perm node_id old_mode new_mode t =
     rbind (ok_or (Integrity (''ChangePerm target node '' @ hex32 (node_bytes node_id)
                @ '' is not live''))
              (fmlookup (tree_nodes t) node_id)) (\<lambda>live.
     rbind (fail_if (rl_mode live \<noteq> old_mode)
              (Integrity (''ChangePerm old_mode does not match live node ''
                @ hex32 (node_bytes node_id) @ '''s current mode''))) (\<lambda>_.
     Ok (t\<lparr> tree_nodes := fmupd node_id (live\<lparr> rl_mode := new_mode \<rparr>) (tree_nodes t) \<rparr>)))"

definition apply_decoded_operation ::
  "(bytes \<Rightarrow> bytes) \<Rightarrow> reader \<Rightarrow> decoded_patch_operation \<Rightarrow> replay_tree \<Rightarrow> replay_tree res" where
  "apply_decoded_operation sha256 read operation t =
     rbind (ensure_apply_supported operation) (\<lambda>_.
     case dop_kind operation of
       DCreateFile path node_id blob_id mode \<Rightarrow> tree_create_file read path node_id blob_id mode t
     | DDeleteNode path node_id (DPreFile old_node_kind old_blob_id _) \<Rightarrow>
         tree_delete_file sha256 path node_id old_node_kind old_blob_id t
     | DEditText node_id span_id old_span_hash left_anchor_hash right_anchor_hash replacement_text
         old_span_text left_anchor_len right_anchor_len \<Rightarrow>
         tree_edit_text sha256 node_id span_id old_span_hash left_anchor_hash right_anchor_hash
           replacement_text old_span_text left_anchor_len right_anchor_len t
     | DReplaceBinary node_id old_blob_id new_blob_id \<Rightarrow>
         tree_replace_binary sha256 read node_id old_blob_id new_blob_id t
     | DChangePerm node_id old_mode new_mode \<Rightarrow> tree_change_perm node_id old_mode new_mode t
     | DRenamePath _ _ _ \<Rightarrow> Err (MalformedData
         ''apply_decoded_operation received a RenamePath -- the caller must route consecutive RenamePath runs to apply_rename_batch instead, never here'')
     | _ \<Rightarrow> Err (MalformedData
         ''apply_decoded_operation received an operation kind ensure_apply_supported should have refused''))"

section \<open>A run of renames\<close>

type_synonym tree_rename = "node_id \<times> bytes \<times> bytes"

definition rename_resolve ::
  "replay_tree \<Rightarrow> decoded_patch_operation \<Rightarrow> tree_rename list \<times> node_id set \<times> bytes set
   \<Rightarrow> (tree_rename list \<times> node_id set \<times> bytes set) res" where
  "rename_resolve t operation = (\<lambda>(resolved, sources_seen, destinations_seen).
     case dop_kind operation of
       DRenamePath node_id old_path new_path \<Rightarrow>
         rbind (ok_or (Integrity (''RenamePath target node '' @ hex32 (node_bytes node_id)
                    @ '' is not live''))
                  (fmlookup (tree_nodes t) node_id)) (\<lambda>live.
         rbind (fail_if (rl_path live \<noteq> old_path)
                  (Integrity (''RenamePath old_path '' @ render old_path
                    @ '' does not match live node '' @ hex32 (node_bytes node_id)
                    @ '''s current path '' @ render (rl_path live)))) (\<lambda>_.
         rbind (fail_if (node_id \<in> sources_seen)
                  (Integrity (''RenamePath renames node '' @ hex32 (node_bytes node_id)
                    @ '' more than once in the same run''))) (\<lambda>_.
         rbind (fail_if (new_path \<in> destinations_seen)
                  (Integrity (''RenamePath names destination path '' @ render new_path
                    @ '' more than once in the same run''))) (\<lambda>_.
         Ok (resolved @ [(node_id, old_path, new_path)], insert node_id sources_seen,
             insert new_path destinations_seen)))))
     | _ \<Rightarrow> Err (MalformedData ''apply_rename_batch received a non-RenamePath operation''))"

type_synonym staged_rename = "node_id \<times> bytes \<times> bytes"

text \<open>Phase 1 takes every source out of \<open>files\<close>; the staged triple ends in the content.\<close>

definition rename_vacate ::
  "tree_rename \<Rightarrow> (bytes, bytes) fmap \<times> staged_rename list
   \<Rightarrow> ((bytes, bytes) fmap \<times> staged_rename list) res" where
  "rename_vacate = (\<lambda>(node_id, old_path, new_path) (fs, staged).
     rbind (ok_or (Integrity (''RenamePath source path '' @ render old_path
                @ '' has no file content''))
              (fmlookup fs old_path)) (\<lambda>content.
     Ok (fmdrop old_path fs, staged @ [(node_id, new_path, content)])))"

definition rename_occupied :: "(bytes, bytes) fmap \<Rightarrow> staged_rename \<Rightarrow> unit res" where
  "rename_occupied fs = (\<lambda>(_, new_path, _).
     fail_if (new_path |\<in>| fmdom fs)
       (Integrity (''RenamePath target path '' @ render new_path
         @ '' is occupied by another live node'')))"

definition rename_commit :: "staged_rename \<Rightarrow> replay_tree \<Rightarrow> replay_tree" where
  "rename_commit = (\<lambda>(node_id, new_path, content) t.
     t\<lparr> files := fmupd new_path content (files t),
        tree_nodes := (case fmlookup (tree_nodes t) node_id of
            Some live \<Rightarrow> fmupd node_id (live\<lparr> rl_path := new_path \<rparr>) (tree_nodes t)
          | None \<Rightarrow> tree_nodes t) \<rparr>)"

definition apply_rename_batch ::
  "decoded_patch_operation list \<Rightarrow> replay_tree \<Rightarrow> replay_tree res" where
  "apply_rename_batch renames t =
     (if renames = [] then Ok t
      else
        rbind (rfold (rename_resolve t) renames ([], {}, {})) (\<lambda>(resolved, _).
        rbind (rfold rename_vacate resolved (files t, [])) (\<lambda>(fs, staged).
        rbind (rfold (\<lambda>entry _. rename_occupied fs entry) staged ()) (\<lambda>_.
        Ok (fold rename_commit staged (t\<lparr> files := fs \<rparr>))))))"

section \<open>A sequence of operations\<close>

definition path_rename :: "decoded_patch_operation \<Rightarrow> bool" where
  "path_rename operation \<longleftrightarrow>
     (case dop_kind operation of DRenamePath _ _ _ \<Rightarrow> True | _ \<Rightarrow> False)"

function apply_operation_sequence ::
  "(bytes \<Rightarrow> bytes) \<Rightarrow> reader \<Rightarrow> decoded_patch_operation list \<Rightarrow> replay_tree \<times> nat \<times> string fset
   \<Rightarrow> (replay_tree \<times> nat \<times> string fset) res" where
  "apply_operation_sequence sha256 read [] acc = Ok acc"
| "apply_operation_sequence sha256 read (first # rest) (t, count, kinds) =
     (if path_rename first then
        (let run = first # takeWhile path_rename rest
         in rbind (apply_rename_batch run t) (\<lambda>t'.
            apply_operation_sequence sha256 read (dropWhile path_rename rest)
              (t', count + length run, finsert ''rename-path'' kinds)))
      else
        rbind (apply_decoded_operation sha256 read first t) (\<lambda>t'.
        apply_operation_sequence sha256 read rest
          (t', count + 1, finsert (applied_operation_kind_label (dop_kind first)) kinds)))"
  by pat_completeness auto
termination
  by (relation "measure (\<lambda>(_, _, operations, _). length operations)")
    (auto simp: le_imp_less_Suc length_dropWhile_le)

section \<open>A chain of blocks\<close>

record chain_replay =
  ch_tree :: replay_tree
  patch_count :: nat
  applied_operation_count :: nat
  applied_operation_kinds :: "string fset"
  replayed_block_count :: nat

definition empty_tree :: "deleted_content_capture \<Rightarrow> replay_tree" where
  "empty_tree c = \<lparr> files = fmempty, tree_nodes = fmempty, deleted_files = fmempty, capture = c \<rparr>"

definition empty_chain :: "deleted_content_capture \<Rightarrow> chain_replay" where
  "empty_chain c = \<lparr> ch_tree = empty_tree c, patch_count = 0, applied_operation_count = 0,
     applied_operation_kinds = {||}, replayed_block_count = 0 \<rparr>"

definition chain_patch ::
  "(bytes \<Rightarrow> bytes) \<Rightarrow> reader \<Rightarrow> object_id \<Rightarrow> chain_replay \<Rightarrow> chain_replay res" where
  "chain_patch sha256 read patch_id chain =
     rbind (read_patch read patch_id) (\<lambda>envelope.
     rbind (decode_patch_operations sha256 (env_payload envelope) (env_schema envelope))
       (\<lambda>operations.
     rbind (apply_operation_sequence sha256 read operations (ch_tree chain, 0, {||}))
       (\<lambda>(t, count, kinds).
     Ok (chain\<lparr> ch_tree := t,
            applied_operation_count := applied_operation_count chain + count,
            applied_operation_kinds := applied_operation_kinds chain |\<union>| kinds,
            patch_count := patch_count chain + 1 \<rparr>))))"

definition chain_block ::
  "(bytes \<Rightarrow> bytes) \<Rightarrow> reader \<Rightarrow> object_id \<Rightarrow> chain_replay \<Rightarrow> chain_replay res" where
  "chain_block sha256 read block_id chain =
     rbind (read_block read block_id) (\<lambda>block.
     rfold (chain_patch sha256 read) (block_patch_ids block) chain)"

record snapshot_file =
  sf_path :: bytes
  sf_node_id :: node_id
  sf_kind :: node_kind
  sf_mode :: u32
  sf_blob_id :: object_id
  sf_bytes :: bytes

definition replay_state_from_snapshot ::
  "snapshot_file list \<Rightarrow> (bytes, bytes) fmap \<times> (node_id, replay_live_node) fmap" where
  "replay_state_from_snapshot snapshot =
     fold (\<lambda>file (fs, nodes).
         (fmupd (sf_path file) (sf_bytes file) fs,
          fmupd (sf_node_id file) \<lparr> rl_path = sf_path file, rl_kind = sf_kind file,
              rl_mode = sf_mode file, rl_blob_id = sf_blob_id file \<rparr> nodes))
       snapshot (fmempty, fmempty)"

definition history_operation ::
  "decoded_patch_operation \<Rightarrow> chain_replay \<Rightarrow> chain_replay res" where
  "history_operation operation chain =
     rbind (ensure_apply_supported operation) (\<lambda>_.
     let chain' = chain\<lparr>
           applied_operation_kinds :=
             finsert (applied_operation_kind_label (dop_kind operation)) (applied_operation_kinds chain),
           applied_operation_count := applied_operation_count chain + 1 \<rparr>;
         t = ch_tree chain'
     in case dop_kind operation of
          DDeleteNode path _ (DPreFile old_node_kind old_blob_id _) \<Rightarrow>
            rbind (repo_path_parse path) (\<lambda>repo_path.
            Ok (chain'\<lparr> ch_tree := t\<lparr> deleted_files := fmupd path \<lparr> df_path = repo_path,
                 df_old_blob_id = old_blob_id, df_old_node_kind = old_node_kind \<rparr>
                 (deleted_files t) \<rparr> \<rparr>))
        | DCreateFile path _ _ _ \<Rightarrow>
            Ok (chain'\<lparr> ch_tree := t\<lparr> deleted_files := fmdrop path (deleted_files t) \<rparr> \<rparr>)
        | _ \<Rightarrow> Ok chain')"

definition history_patch ::
  "(bytes \<Rightarrow> bytes) \<Rightarrow> reader \<Rightarrow> object_id \<Rightarrow> chain_replay \<Rightarrow> chain_replay res" where
  "history_patch sha256 read patch_id chain =
     rbind (read_patch read patch_id) (\<lambda>envelope.
     rbind (decode_patch_operations sha256 (env_payload envelope) (env_schema envelope))
       (\<lambda>operations.
     rbind (rfold history_operation operations chain) (\<lambda>chain'.
     Ok (chain'\<lparr> patch_count := patch_count chain' + 1 \<rparr>))))"

definition decode_history ::
  "(bytes \<Rightarrow> bytes) \<Rightarrow> reader \<Rightarrow> object_id list \<Rightarrow> chain_replay \<Rightarrow> chain_replay res" where
  "decode_history sha256 read = rfold (\<lambda>block_id chain.
     rbind (read_block read block_id) (\<lambda>block.
     rfold (history_patch sha256 read) (block_patch_ids block) chain))"

text \<open>
  The anchor search has run: \<open>anchor\<close> is the index and the files it found, \<open>None\<close> when the replay
  starts at genesis.
\<close>

definition replay_chain_capturing ::
  "(bytes \<Rightarrow> bytes) \<Rightarrow> reader \<Rightarrow> object_id list \<Rightarrow> (nat \<times> snapshot_file list) option
   \<Rightarrow> deleted_content_capture \<Rightarrow> chain_replay res" where
  "replay_chain_capturing sha256 read block_ids anchor cap =
     rbind (case anchor of
              None \<Rightarrow> Ok (empty_chain cap, 0)
            | Some (index, snapshot) \<Rightarrow>
                rbind (decode_history sha256 read (take (Suc index) block_ids) (empty_chain cap))
                  (\<lambda>chain.
                let (fs, nodes) = replay_state_from_snapshot snapshot
                in Ok (chain\<lparr> ch_tree := (ch_tree chain)\<lparr> files := fs, tree_nodes := nodes \<rparr> \<rparr>,
                       Suc index)))
       (\<lambda>(chain, replay_from).
     rfold (chain_block sha256 read) (drop replay_from block_ids)
       (chain\<lparr> replayed_block_count := length (drop replay_from block_ids) \<rparr>))"

section \<open>The manifest\<close>

record replay_manifest_entry =
  me_node_id :: "node_id option"
  me_path :: repo_path
  me_bytes :: bytes
  me_mode :: u32
  me_kind :: "node_kind option"
  me_blob_id :: "object_id option"

definition by_path ::
  "(node_id, replay_live_node) fmap \<Rightarrow> (bytes, node_id \<times> replay_live_node) fmap" where
  "by_path nodes = fold (\<lambda>node_id. case fmlookup nodes node_id of
       Some node \<Rightarrow> fmupd (rl_path node) (node_id, node) | None \<Rightarrow> id)
     (sorted_list_of_fset (fmdom nodes)) fmempty"

definition manifest_entry ::
  "(bytes, node_id \<times> replay_live_node) fmap \<Rightarrow> bytes \<Rightarrow> bytes \<Rightarrow> replay_manifest_entry res" where
  "manifest_entry live_by_path path content =
     rbind (ok_or (Integrity (''replayed path '' @ render path @ '' has no live node''))
              (fmlookup live_by_path path)) (\<lambda>(node_id, live).
     rbind (repo_path_parse path) (\<lambda>repo_path.
     Ok \<lparr> me_node_id = Some node_id, me_path = repo_path, me_bytes = content,
          me_mode = rl_mode live, me_kind = Some (rl_kind live),
          me_blob_id = (if rl_kind live = BinaryFile then Some (rl_blob_id live) else None) \<rparr>))"

definition files_to_replay_manifest ::
  "(bytes, bytes) fmap \<Rightarrow> (node_id, replay_live_node) fmap \<Rightarrow> replay_manifest_entry list res" where
  "files_to_replay_manifest fs nodes =
     rmap (\<lambda>path. manifest_entry (by_path nodes) path (the (fmlookup fs path)))
       (sorted_list_of_fset (fmdom fs))"

end
