(* ===== verification/Snapshot.thy ===== *)
theory Snapshot
  imports State_Root Patch_Apply
begin

text \<open>
  Snapshot manifests (\<open>snapshot.rs\<close>): the entries of a block's state in the leaf grammar, stored in a
  SNAPSHOT blob. The manifest codec is exact, a checkpoint written through any store that meets the
  store contract validates against the root of the entries it was written for, and two snapshots
  that load under the same state root hold the same entries.

  How an unknown magic is spelled in the error message (lossy UTF-8 with Rust's debug escapes) is the
  argument \<open>escape\<close>.
\<close>

section \<open>Manifests\<close>

record snapshot_manifest =
  sm_entries :: "state_root_entry list"

definition SNAPSHOT_MAGIC :: bytes where
  "SNAPSHOT_MAGIC = ascii ''PRIKK-SNAPSHOT-MANIFEST-v2'' @ [0x0A]"

definition strip_prefix :: "bytes \<Rightarrow> bytes \<Rightarrow> bytes option" where
  "strip_prefix prefix bs =
     (if take (length prefix) bs = prefix then Some (drop (length prefix) bs) else None)"

definition magic_found :: "(bytes \<Rightarrow> string) \<Rightarrow> bytes \<Rightarrow> string" where
  "magic_found escape bs =
     (let line = hd (split_on 0x0A bs)
      in escape (if 64 \<le> length line then take 64 line else line))"

fun not_decodable :: "prikk_error \<Rightarrow> prikk_error" where
  "not_decodable (Integrity m) = Integrity m"
| "not_decodable (InvalidName m) = InvalidName m"
| "not_decodable (NonAsciiRepoPath p) = NonAsciiRepoPath p"
| "not_decodable other = Integrity (''snapshot manifest does not decode: '' @ display_error other)"

function decode_manifest_entries :: "bytes \<Rightarrow> state_root_entry list res" where
  "decode_manifest_entries bs =
     (if bs = [] then Ok []
      else case decode_state_leaf_fields bs of
             Err e \<Rightarrow> Err (not_decodable e)
           | Ok (entry, rest) \<Rightarrow> rbind (decode_manifest_entries rest) (\<lambda>entries. Ok (entry # entries)))"
  by pat_completeness auto
termination
  by (relation "measure length") (auto dest!: decode_leaf_OkD simp: leaf_bytes_def)

declare decode_manifest_entries.simps [simp del]

definition manifest_decode :: "(bytes \<Rightarrow> string) \<Rightarrow> bytes \<Rightarrow> snapshot_manifest res" where
  "manifest_decode escape bs =
     (case strip_prefix SNAPSHOT_MAGIC bs of
        None \<Rightarrow> Err (Integrity (''snapshot manifest magic `'' @ magic_found escape bs
                  @ ''` is not PRIKK-SNAPSHOT-MANIFEST-v2''))
      | Some rest \<Rightarrow>
          rbind (decode_manifest_entries rest) (\<lambda>entries.
          rbind (map_err not_decodable (validate_entries entries)) (\<lambda>_.
          Ok \<lparr> sm_entries = entries \<rparr>)))"

definition manifest_encode :: "snapshot_manifest \<Rightarrow> bytes res" where
  "manifest_encode m =
     rbind (validate_entries (sm_entries m)) (\<lambda>_.
     rbind (rmap state_leaf_fields (sm_entries m)) (\<lambda>fields.
     Ok (SNAPSHOT_MAGIC @ concat fields)))"

definition recomputed_state_root :: "(bytes \<Rightarrow> bytes) \<Rightarrow> snapshot_manifest \<Rightarrow> bytes res" where
  "recomputed_state_root sha256 m = compute_state_root sha256 (sm_entries m)"

section \<open>Loading\<close>

definition require_blob_present ::
  "reader \<Rightarrow> object_id \<Rightarrow> state_root_entry \<Rightarrow> unit \<Rightarrow> unit res" where
  "require_blob_present read block_id entry _ =
     (case se_content entry of
        ContentSymlink _ \<Rightarrow> Ok ()
      | ContentBlob blob_id \<Rightarrow>
          rbind (has_object read blob_id Blob) (\<lambda>found.
          fail_if (\<not> found) (Integrity (''snapshot of Block '' @ show_id block_id @ '' names Blob ''
            @ show_id blob_id @ '' for '' @ render (path_str (se_path entry)) @ '', which is missing''))))"

definition validate_snapshot_manifest ::
  "(bytes \<Rightarrow> bytes) \<Rightarrow> (bytes \<Rightarrow> string) \<Rightarrow> reader \<Rightarrow> object_id \<Rightarrow> block_payload
   \<Rightarrow> snapshot_manifest option res" where
  "validate_snapshot_manifest sha256 escape read block_id block =
     (case snapshot_blob_ref block of
        None \<Rightarrow> Ok None
      | Some snapshot_blob_id \<Rightarrow>
          rbind (read_typed read snapshot_blob_id Blob) (\<lambda>found.
          rbind (ok_or (Integrity (''snapshot Blob '' @ show_id snapshot_blob_id @ '' of Block ''
                   @ show_id block_id @ '' is missing'')) found) (\<lambda>envelope.
          rbind (decode_snapshot_blob (env_payload envelope)) (\<lambda>content.
          rbind (manifest_decode escape content) (\<lambda>manifest.
          rbind (recomputed_state_root sha256 manifest) (\<lambda>root.
          rbind (fail_if (root \<noteq> state_merkle_root block)
                   (Integrity (''snapshot manifest does not recompute to its block''
                     @ '''s state root (Block '' @ show_id block_id @ '', snapshot Blob ''
                     @ show_id snapshot_blob_id @ '')''))) (\<lambda>_.
          rbind (rfold (require_blob_present read block_id) (sm_entries manifest) ()) (\<lambda>_.
          Ok (Some manifest)))))))))"

definition snapshot_file_of_entry ::
  "reader \<Rightarrow> object_id \<Rightarrow> state_root_entry \<Rightarrow> snapshot_file res" where
  "snapshot_file_of_entry read block_id entry =
     (let path = path_str (se_path entry)
      in case se_content entry of
           ContentSymlink _ \<Rightarrow>
             Err (UnsupportedObjectType (''snapshot of Block '' @ show_id block_id @ '' holds symlink ''
               @ render path @ ''; snapshot readers support the file-level subset only''))
         | ContentBlob blob_id \<Rightarrow>
             rbind (read_typed read blob_id Blob) (\<lambda>found.
             rbind (ok_or (Integrity (''snapshot of Block '' @ show_id block_id @ '' names Blob ''
                      @ show_id blob_id @ '' for '' @ render path @ '', which is missing'')) found) (\<lambda>envelope.
             rbind (decode_file_content_blob_with_kind (env_payload envelope)) (\<lambda>(blob_kind, content).
             rbind (fail_if (blob_kind \<noteq> se_kind entry)
                      (Integrity (''snapshot of Block '' @ show_id block_id @ '' records '' @ render path
                        @ '' as '' @ show_node_kind (se_kind entry) @ '', but its Blob '' @ show_id blob_id
                        @ '' is '' @ show_node_kind blob_kind))) (\<lambda>_.
             Ok \<lparr> sf_path = path, sf_node_id = se_node_id entry, sf_kind = se_kind entry,
                  sf_mode = se_mode entry, sf_blob_id = blob_id, sf_bytes = content \<rparr>)))))"

definition snapshot_files_from_manifest ::
  "reader \<Rightarrow> object_id \<Rightarrow> snapshot_manifest \<Rightarrow> snapshot_file list res" where
  "snapshot_files_from_manifest read block_id manifest =
     rmap (snapshot_file_of_entry read block_id) (sm_entries manifest)"

definition load_block_snapshot ::
  "(bytes \<Rightarrow> bytes) \<Rightarrow> (bytes \<Rightarrow> string) \<Rightarrow> reader \<Rightarrow> object_id \<Rightarrow> block_payload
   \<Rightarrow> snapshot_file list option res" where
  "load_block_snapshot sha256 escape read block_id block =
     rbind (validate_snapshot_manifest sha256 escape read block_id block) (\<lambda>found.
     case found of
       None \<Rightarrow> Ok None
     | Some manifest \<Rightarrow>
         rbind (snapshot_files_from_manifest read block_id manifest) (\<lambda>files. Ok (Some files)))"

section \<open>Writing a checkpoint\<close>

definition checkpoint_blob ::
  "(bytes \<Rightarrow> bytes) \<Rightarrow> (node_id \<Rightarrow> bytes option) \<Rightarrow> state_root_entry \<Rightarrow> object_id
   \<Rightarrow> object_envelope res" where
  "checkpoint_blob sha256 edited_text entry blob_id =
     (let path = render (path_str (se_path entry))
      in rbind (case se_kind entry of
                  TextFile \<Rightarrow> ok_or (Integrity (''checkpoint for '' @ path @ '': Blob '' @ show_id blob_id
                      @ '' is not stored and replay holds no text for its node''))
                    (edited_text (se_node_id entry))
                | other \<Rightarrow> Err (Integrity (''checkpoint for '' @ path @ '': '' @ show_node_kind other
                    @ '' Blob '' @ show_id blob_id @ '' is not stored''))) (\<lambda>content.
         rbind (to_canonical_bytes encode_blob (new_blob BlobText content)) (\<lambda>payload.
         let envelope = unsigned_envelope Blob 1 payload; actual = envelope_object_id sha256 envelope
         in rbind (fail_if (actual \<noteq> blob_id)
                     (Integrity (''checkpoint content for '' @ path @ '' hashes to Blob '' @ show_id actual
                       @ '', but its state entry names '' @ show_id blob_id))) (\<lambda>_.
            Ok envelope))))"

definition checkpoint_entry ::
  "(bytes \<Rightarrow> bytes) \<Rightarrow> ('s \<Rightarrow> reader) \<Rightarrow> (object_envelope \<Rightarrow> 's \<Rightarrow> object_id res \<times> 's)
   \<Rightarrow> (node_id \<Rightarrow> bytes option) \<Rightarrow> state_root_entry \<Rightarrow> 's \<Rightarrow> unit res \<times> 's" where
  "checkpoint_entry sha256 read_from write_to edited_text entry s =
     (case se_content entry of
        ContentSymlink _ \<Rightarrow> (Ok (), s)
      | ContentBlob blob_id \<Rightarrow>
          (case has_object (read_from s) blob_id Blob of
             Err e \<Rightarrow> (Err e, s)
           | Ok True \<Rightarrow> (Ok (), s)
           | Ok False \<Rightarrow>
               (case checkpoint_blob sha256 edited_text entry blob_id of
                  Err e \<Rightarrow> (Err e, s)
                | Ok envelope \<Rightarrow>
                    (case write_to envelope s of
                       (Err e, s') \<Rightarrow> (Err e, s')
                     | (Ok _, s') \<Rightarrow> (Ok (), s')))))"

fun checkpoint_entries ::
  "(bytes \<Rightarrow> bytes) \<Rightarrow> ('s \<Rightarrow> reader) \<Rightarrow> (object_envelope \<Rightarrow> 's \<Rightarrow> object_id res \<times> 's)
   \<Rightarrow> (node_id \<Rightarrow> bytes option) \<Rightarrow> state_root_entry list \<Rightarrow> 's \<Rightarrow> unit res \<times> 's" where
  "checkpoint_entries sha256 read_from write_to edited_text [] s = (Ok (), s)"
| "checkpoint_entries sha256 read_from write_to edited_text (entry # entries) s =
     (case checkpoint_entry sha256 read_from write_to edited_text entry s of
        (Err e, s') \<Rightarrow> (Err e, s')
      | (Ok _, s') \<Rightarrow> checkpoint_entries sha256 read_from write_to edited_text entries s')"

definition write_checkpoint_snapshot ::
  "(bytes \<Rightarrow> bytes) \<Rightarrow> ('s \<Rightarrow> reader) \<Rightarrow> (object_envelope \<Rightarrow> 's \<Rightarrow> object_id res \<times> 's)
   \<Rightarrow> (node_id \<Rightarrow> bytes option) \<Rightarrow> state_root_entry list \<Rightarrow> 's \<Rightarrow> object_id res \<times> 's" where
  "write_checkpoint_snapshot sha256 read_from write_to edited_text entries s =
     (case checkpoint_entries sha256 read_from write_to edited_text entries s of
        (Err e, s') \<Rightarrow> (Err e, s')
      | (Ok _, s') \<Rightarrow>
          (case rbind (manifest_encode \<lparr> sm_entries = entries \<rparr>) (\<lambda>content.
                  to_canonical_bytes encode_blob (new_blob BlobSnapshot content)) of
             Err e \<Rightarrow> (Err e, s')
           | Ok payload \<Rightarrow> write_to (unsigned_envelope Blob 1 payload) s'))"

section \<open>Lemmas: the manifest codec\<close>

lemma strip_prefix_append [simp]: "strip_prefix p (p @ bs) = Some bs"
  by (simp add: strip_prefix_def)

lemma strip_prefix_Some: "strip_prefix p bs = Some rest \<longleftrightarrow> bs = p @ rest"
  by (auto simp: strip_prefix_def split: if_splits) (metis append_take_drop_id)

definition manifest_bytes :: "state_root_entry list \<Rightarrow> bytes" where
  "manifest_bytes entries = SNAPSHOT_MAGIC @ concat (map leaf_bytes entries)"

lemma rmap_leaf_fields:
  "rmap state_leaf_fields entries = Ok fs \<longleftrightarrow>
     (\<forall>e \<in> set entries. state_leaf_fields e = Ok (leaf_bytes e)) \<and> fs = map leaf_bytes entries"
  by (induction entries arbitrary: fs) (auto simp: state_leaf_fields_Ok)

lemma manifest_encode_Ok:
  "manifest_encode m = Ok bs \<longleftrightarrow> validate_entries (sm_entries m) = Ok ()
     \<and> (\<forall>e \<in> set (sm_entries m). state_leaf_fields e = Ok (leaf_bytes e)) \<and> bs = manifest_bytes (sm_entries m)"
  by (auto simp: manifest_encode_def rmap_leaf_fields manifest_bytes_def)

lemma leaf_bytes_nonempty [simp]: "leaf_bytes e \<noteq> []"
  by (simp add: leaf_bytes_def codec_simps)

lemma decode_manifest_entries_bytes:
  assumes "\<forall>e \<in> set entries. wf_entry e \<and> state_leaf_fields e = Ok (leaf_bytes e)"
  shows "decode_manifest_entries (concat (map leaf_bytes entries)) = Ok entries"
  using assms
proof (induction entries)
  case Nil
  then show ?case
    by (simp add: decode_manifest_entries.simps)
next
  case (Cons e entries)
  then have "decode_state_leaf_fields (leaf_bytes e @ concat (map leaf_bytes entries))
      = Ok (e, concat (map leaf_bytes entries))"
    by (intro decode_leaf_bytes) simp_all
  then show ?case
    using Cons by (simp add: decode_manifest_entries.simps [of "leaf_bytes e @ _"])
qed

lemma decode_manifest_entries_OkD:
  "decode_manifest_entries bs = Ok entries \<Longrightarrow>
     (\<forall>e \<in> set entries. wf_entry e \<and> state_leaf_fields e = Ok (leaf_bytes e)) \<and> bs = concat (map leaf_bytes entries)"
proof (induction bs arbitrary: entries rule: decode_manifest_entries.induct)
  case (1 bs)
  show ?case
  proof (cases "bs = []")
    case True
    then show ?thesis
      using 1(2) by (simp add: decode_manifest_entries.simps)
  next
    case False
    then obtain e rest es where e: "decode_state_leaf_fields bs = Ok (e, rest)"
        "decode_manifest_entries rest = Ok es" "entries = e # es"
      using 1(2) by (subst (asm) decode_manifest_entries.simps) (auto split: result.splits)
    then show ?thesis
      using 1(1) [OF False e(1) refl e(2)] decode_leaf_OkD [OF e(1)] by simp
  qed
qed

lemma manifest_decode_Ok:
  "manifest_decode escape bs = Ok m \<longleftrightarrow>
     validate_entries (sm_entries m) = Ok () \<and> bs = manifest_bytes (sm_entries m)
     \<and> (\<forall>e \<in> set (sm_entries m). wf_entry e \<and> state_leaf_fields e = Ok (leaf_bytes e))"
proof
  assume "manifest_decode escape bs = Ok m"
  then show "validate_entries (sm_entries m) = Ok () \<and> bs = manifest_bytes (sm_entries m)
     \<and> (\<forall>e \<in> set (sm_entries m). wf_entry e \<and> state_leaf_fields e = Ok (leaf_bytes e))"
    by (auto simp: manifest_decode_def strip_prefix_Some manifest_bytes_def split: option.splits
      dest!: decode_manifest_entries_OkD)
next
  assume m: "validate_entries (sm_entries m) = Ok () \<and> bs = manifest_bytes (sm_entries m)
     \<and> (\<forall>e \<in> set (sm_entries m). wf_entry e \<and> state_leaf_fields e = Ok (leaf_bytes e))"
  then have "decode_manifest_entries (concat (map leaf_bytes (sm_entries m))) = Ok (sm_entries m)"
    by (intro decode_manifest_entries_bytes) blast
  with m show "manifest_decode escape bs = Ok m"
    by (simp add: manifest_decode_def manifest_bytes_def)
qed

interpretation manifest_codec: payload_codec manifest_encode "manifest_decode escape"
  "\<lambda>m. \<forall>e \<in> set (sm_entries m). wf_entry e" "\<lambda>x. x" for escape
  by unfold_locales (simp add: manifest_encode_Ok manifest_decode_Ok)

section \<open>Lemmas: checkpoints\<close>

definition holds_blob :: "reader \<Rightarrow> object_id \<Rightarrow> bool" where
  "holds_blob read b \<longleftrightarrow> (\<exists>e. read b = Ok (Some e) \<and> env_type e = Blob)"

lemma has_object_True: "has_object read b Blob = Ok True \<longleftrightarrow> holds_blob read b"
  by (auto simp: has_object_def read_typed_def holds_blob_def split: option.splits if_splits)

lemma require_blob_present_Ok:
  "require_blob_present read block_id entry u = Ok () \<longleftrightarrow>
     (\<forall>b. se_content entry = ContentBlob b \<longrightarrow> holds_blob read b)"
  by (cases "se_content entry") (auto simp: require_blob_present_def has_object_True [symmetric])

lemma require_blobs_present_Ok:
  "rfold (require_blob_present read block_id) entries () = Ok () \<longleftrightarrow>
     (\<forall>e \<in> set entries. \<forall>b. se_content e = ContentBlob b \<longrightarrow> holds_blob read b)"
  by (induction entries) (auto simp: require_blob_present_Ok)

lemma validate_snapshot_OkD:
  assumes "validate_snapshot_manifest H escape read i block = Ok (Some m)"
  shows "compute_state_root H (sm_entries m) = Ok (state_merkle_root block) \<and> (\<forall>e \<in> set (sm_entries m). wf_entry e)
    \<and> (\<forall>e \<in> set (sm_entries m). \<forall>b. se_content e = ContentBlob b \<longrightarrow> holds_blob read b)"
  using assms
  by (auto simp: validate_snapshot_manifest_def recomputed_state_root_def manifest_decode_Ok
      require_blobs_present_Ok split: option.splits)

lemma checkpoint_blob_type:
  "checkpoint_blob sha256 edited entry b = Ok e \<Longrightarrow> env_type e = Blob \<and> envelope_object_id sha256 e = b"
  by (auto simp: checkpoint_blob_def Let_def unsigned_envelope_def)

context object_store
begin

lemma write_keeps_blobs:
  assumes "write_to e s = (Ok i, s')" "env_type e = Blob" "holds_blob (read_from s) b \<or> b = i"
  shows "holds_blob (read_from s') b"
proof (cases "b = i")
  case True
  then show ?thesis
    using read_written [of e s i] assms(1,2) by (auto simp: holds_blob_def)
next
  case False
  then show ?thesis
    using read_other [of e s i b] assms(1,3) by (auto simp: holds_blob_def)
qed

lemma checkpoint_entry_Ok:
  assumes "checkpoint_entry sha256 read_from write_to edited entry s = (Ok (), s')" "store_ok s"
  shows "store_ok s'" "holds_blob (read_from s) b \<or> se_content entry = ContentBlob b \<Longrightarrow> holds_blob (read_from s') b"
proof -
  consider (none) "s' = s" "\<forall>b. se_content entry = ContentBlob b \<longrightarrow> holds_blob (read_from s) b"
    | (written) c e where "se_content entry = ContentBlob c"
        "checkpoint_blob sha256 edited entry c = Ok e" "write_to e s = (Ok c, s')"
  proof (cases "se_content entry")
    case (ContentBlob c)
    then show ?thesis
      using assms(1) that write_id [of _ s]
      by (fastforce simp: checkpoint_entry_def has_object_True dest: checkpoint_blob_type
          split: result.splits bool.splits prod.splits)
  next
    case (ContentSymlink t)
    then show ?thesis
      using assms(1) that by (simp add: checkpoint_entry_def)
  qed
  then show "store_ok s'" "holds_blob (read_from s) b \<or> se_content entry = ContentBlob b \<Longrightarrow> holds_blob (read_from s') b"
    using assms(2) write_ok [of s] write_keeps_blobs checkpoint_blob_type
    by (cases, auto, (metis snd_conv | metis)+)
qed

lemma checkpoint_entries_Ok:
  assumes "checkpoint_entries sha256 read_from write_to edited entries s = (Ok (), s')" "store_ok s"
  shows "store_ok s' \<and> (\<forall>b. holds_blob (read_from s) b \<longrightarrow> holds_blob (read_from s') b)
    \<and> (\<forall>e \<in> set entries. \<forall>b. se_content e = ContentBlob b \<longrightarrow> holds_blob (read_from s') b)"
  using assms
proof (induction entries arbitrary: s)
  case (Cons e entries)
  then obtain t where t: "checkpoint_entry sha256 read_from write_to edited e s = (Ok (), t)"
      "checkpoint_entries sha256 read_from write_to edited entries t = (Ok (), s')"
    by (auto split: prod.splits result.splits)
  note step = checkpoint_entry_Ok [OF t(1) Cons.prems(2)]
  show ?case
    using Cons.IH [OF t(2) step(1)] step(2) by auto
qed simp

lemma checkpoint_validates:
  assumes written: "write_checkpoint_snapshot sha256 read_from write_to edited entries s = (Ok i, s')"
    and ok: "store_ok s" and wf: "\<forall>e \<in> set entries. wf_entry e"
    and root: "compute_state_root sha256 entries = Ok r"
    and block: "snapshot_blob_ref block = Some i" "state_merkle_root block = r"
    and small: "length (manifest_bytes entries) + 256 < usize_limit"
  shows "store_ok s'"
    and "validate_snapshot_manifest sha256 escape (read_from s') block_id block = Ok (Some \<lparr> sm_entries = entries \<rparr>)"
proof -
  obtain t bs where t: "checkpoint_entries sha256 read_from write_to edited entries s = (Ok (), t)"
      "manifest_encode \<lparr> sm_entries = entries \<rparr> = Ok bs"
    and w: "\<exists>payload. to_canonical_bytes encode_blob (new_blob BlobSnapshot bs) = Ok payload
        \<and> write_to (unsigned_envelope Blob 1 payload) t = (Ok i, s')"
    using written by (auto simp: write_checkpoint_snapshot_def split: prod.splits result.splits)
  then obtain payload where p: "to_canonical_bytes encode_blob (new_blob BlobSnapshot bs) = Ok payload"
      "write_to (unsigned_envelope Blob 1 payload) t = (Ok i, s')"
    by blast
  note t_ok = checkpoint_entries_Ok [OF t(1) ok]
  show "store_ok s'"
    using write_ok [of t "unsigned_envelope Blob 1 payload"] t_ok p(2) by simp
  have bs: "bs = manifest_bytes entries" "manifest_decode escape bs = Ok \<lparr> sm_entries = entries \<rparr>"
    using t(2) wf by (auto simp: manifest_encode_Ok manifest_decode_Ok)
  have "decode_blob payload = Ok (new_blob BlobSnapshot bs)"
    using p(1) small bs(1) decode_blob_fields [of "new_blob BlobSnapshot bs"]
    by (auto simp: encode_blob_Ok new_blob_def blob_fields_def length_fbytes opt_field_def)
  then have "decode_snapshot_blob payload = Ok bs"
    by (simp add: decode_snapshot_blob_def new_blob_def)
  moreover have "read_from s' i = Ok (Some (unsigned_envelope Blob 1 payload))"
    using read_written [of "unsigned_envelope Blob 1 payload" t i] p(2) by simp
  moreover have "holds_blob (read_from s') b" if "e \<in> set entries" "se_content e = ContentBlob b" for e b
    using t_ok that write_keeps_blobs [OF p(2)] by (simp add: unsigned_envelope_def)
  then have "rfold (require_blob_present (read_from s') block_id) entries () = Ok ()"
    by (simp add: require_blobs_present_Ok)
  ultimately show "validate_snapshot_manifest sha256 escape (read_from s') block_id block
      = Ok (Some \<lparr> sm_entries = entries \<rparr>)"
    using bs(2) root block
    by (simp add: validate_snapshot_manifest_def recomputed_state_root_def read_typed_def unsigned_envelope_def)
qed

end

end
