(* ===== verification/Trust.thy ===== *)
theory Trust
  imports Object_Store
begin

text \<open>
  Publication trust (\<open>prikk-store/src/trust.rs\<close>, \<open>prikk-crypto/src/lib.rs\<close>): the adopted maintainer keys,
  the check of one signature, and the verdict on an envelope. An envelope is trusted exactly when some
  adopted key signed it as maintainer and no adopted maintainer signature on it fails.

  Ed25519 itself is the \<open>ed25519-dalek\<close> crate: the record \<open>ed25519\<close> holds what the two calls into it
  report, the error text or nothing.
\<close>

section \<open>Ed25519\<close>

record ed25519 =
  key_error :: "bytes \<Rightarrow> string option"
  verify_error :: "bytes \<Rightarrow> bytes \<Rightarrow> bytes \<Rightarrow> string option"

definition ED25519_KEY_LEN :: nat where "ED25519_KEY_LEN = 32"

definition verify_ed25519 :: "ed25519 \<Rightarrow> bytes \<Rightarrow> bytes \<Rightarrow> bytes \<Rightarrow> unit res" where
  "verify_ed25519 ed public_key message signature =
     (case key_error ed public_key of
        Some e \<Rightarrow> Err (InvalidSignature (''malformed public key: '' @ e))
      | None \<Rightarrow>
          if length signature \<noteq> ED25519_SIGNATURE_LEN then
            Err (InvalidSignature (''signature must be '' @ dec ED25519_SIGNATURE_LEN @ '' bytes, got ''
              @ dec (length signature)))
          else (case verify_error ed public_key message signature of
                  Some e \<Rightarrow> Err (InvalidSignature (''signature verification failed: '' @ e))
                | None \<Rightarrow> Ok ()))"

section \<open>The policy\<close>

record publication_trust_issue =
  issue_code :: string
  issue_message :: string

record adopted_maintainer_key =
  mk_key_id :: bytes
  mk_public_key :: bytes

record maintainer_trust_policy =
  policy_keys :: "adopted_maintainer_key list"

definition policy_find :: "maintainer_trust_policy \<Rightarrow> bytes \<Rightarrow> adopted_maintainer_key option" where
  "policy_find policy key_id = find (\<lambda>key. mk_key_id key = key_id) (policy_keys policy)"

definition verify_trusted_signature ::
  "ed25519 \<Rightarrow> maintainer_trust_policy \<Rightarrow> object_envelope \<Rightarrow> signature \<Rightarrow> object_id \<Rightarrow> unit res" where
  "verify_trusted_signature ed policy envelope signature object_id =
     (if sig_algorithm signature \<noteq> Ed25519 then
        Err (InvalidSignature ''publication signature is not Ed25519'')
      else if sig_role signature \<noteq> Maintainer then
        Err (InvalidSignature ''publication signature role is not MAINTAINER'')
      else (case policy_find policy (sig_key_id signature) of
              None \<Rightarrow> Err (InvalidSignature ''publication signature key id is not trusted'')
            | Some matched \<Rightarrow>
                rbind (signed_bytes Ed25519 (env_type envelope) object_id Maintainer (sig_key_id signature))
                  (\<lambda>preimage.
                verify_ed25519 ed (mk_public_key matched) preimage (sig_bytes signature))))"

definition INVALID_SIGNATURE :: string where
  "INVALID_SIGNATURE = ''PRIKK-TRUST-PUBLICATION-INVALID-SIGNATURE''"

definition UNTRUSTED :: string where
  "UNTRUSTED = ''PRIKK-TRUST-PUBLICATION-UNTRUSTED''"

text \<open>One turn of the loop over the maintainer signatures; the state is the key id trusted so far.\<close>

definition publication_step ::
  "ed25519 \<Rightarrow> maintainer_trust_policy \<Rightarrow> object_envelope \<Rightarrow> object_id \<Rightarrow> signature \<Rightarrow> bytes option
   \<Rightarrow> (publication_trust_issue, bytes option) result" where
  "publication_step ed policy envelope object_id signature trusted =
     (if policy_find policy (sig_key_id signature) = None then Ok trusted
      else (case verify_trusted_signature ed policy envelope signature object_id of
              Ok _ \<Rightarrow> Ok (if trusted = None then Some (sig_key_id signature) else trusted)
            | Err err \<Rightarrow> Err \<lparr> issue_code = INVALID_SIGNATURE,
                issue_message = object_type_name (env_type envelope) @ '' '' @ show_id object_id
                  @ '' carries a MAINTAINER signature by adopted key '' @ render (sig_key_id signature)
                  @ '' that does not verify: '' @ display_error err \<rparr>))"

definition verify_trusted_publication_envelope ::
  "(bytes \<Rightarrow> bytes) \<Rightarrow> ed25519 \<Rightarrow> maintainer_trust_policy \<Rightarrow> object_envelope
   \<Rightarrow> (publication_trust_issue, bytes) result" where
  "verify_trusted_publication_envelope sha256 ed policy envelope =
     (let object_id = envelope_object_id sha256 envelope
      in rbind (rfold (publication_step ed policy envelope object_id)
                  (filter (\<lambda>signature. sig_role signature = Maintainer) (env_signatures envelope)) None)
           (\<lambda>trusted.
         ok_or \<lparr> issue_code = UNTRUSTED,
                 issue_message = object_type_name (env_type envelope) @ '' '' @ show_id object_id
                   @ '' has no trusted MAINTAINER signature'' \<rparr> trusted))"

definition FORGED_ROUTE :: string where
  "FORGED_ROUTE = '' -- a forgery, or another maintainer using the same key id; if it is the ''
     @ ''latter, that maintainer should sign under a distinct id next time -- a key made ''
     @ ''by `prikk key generate --out <path>` has one (point PRIKK_MAINTAINER_SEED_FILE ''
     @ ''at it), or set PRIKK_MAINTAINER_KEY_ID -- and you adopt it under that id with ''
     @ ''`prikk trust maintainer add --key-id <that id> --public-key <its public key>`; ''
     @ ''refusing before admitting it''"

definition refuse_forged_publication_signature ::
  "(bytes \<Rightarrow> bytes) \<Rightarrow> ed25519 \<Rightarrow> string \<Rightarrow> maintainer_trust_policy \<Rightarrow> object_envelope \<Rightarrow> unit res" where
  "refuse_forged_publication_signature sha256 ed command policy envelope =
     (case verify_trusted_publication_envelope sha256 ed policy envelope of
        Ok _ \<Rightarrow> Ok ()
      | Err issue \<Rightarrow>
          if issue_code issue = UNTRUSTED then Ok ()
          else Err (ForgedPublicationSignature command (issue_message issue @ FORGED_ROUTE)))"

datatype publication_signature_outcome = Sound | Invalid | Unverifiable

fun publication_outcome_str :: "publication_signature_outcome \<Rightarrow> string" where
  "publication_outcome_str Sound = ''sound''"
| "publication_outcome_str Invalid = ''invalid''"
| "publication_outcome_str Unverifiable = ''unverifiable''"

definition classify_publication_signatures ::
  "(bytes \<Rightarrow> bytes) \<Rightarrow> ed25519 \<Rightarrow> maintainer_trust_policy \<Rightarrow> object_envelope
   \<Rightarrow> (bytes \<times> publication_signature_outcome) list" where
  "classify_publication_signatures sha256 ed policy envelope =
     (let object_id = envelope_object_id sha256 envelope
      in map (\<lambda>signature.
           (sig_key_id signature,
            if policy_find policy (sig_key_id signature) = None then Unverifiable
            else (case verify_trusted_signature ed policy envelope signature object_id of
                    Ok _ \<Rightarrow> Sound | Err _ \<Rightarrow> Invalid)))
         (filter (\<lambda>signature. sig_role signature = Maintainer) (env_signatures envelope)))"

datatype carried_key_repository_status = NotAdopted | Adopted | Conflicts

fun carried_key_str :: "carried_key_repository_status \<Rightarrow> string" where
  "carried_key_str NotAdopted = ''carried, not adopted''"
| "carried_key_str Adopted = ''adopted''"
| "carried_key_str Conflicts = ''carried, conflicts with an adopted key''"

definition classify_carried_key_against_repository ::
  "maintainer_trust_policy \<Rightarrow> bytes \<Rightarrow> bytes \<Rightarrow> carried_key_repository_status" where
  "classify_carried_key_against_repository policy key_id public_key_hex =
     (case policy_find policy key_id of
        None \<Rightarrow> NotAdopted
      | Some existing \<Rightarrow> if to_hex (mk_public_key existing) = public_key_hex then Adopted else Conflicts)"

section \<open>Lemmas\<close>

abbreviation maintainer_signatures :: "object_envelope \<Rightarrow> signature list" where
  "maintainer_signatures envelope \<equiv> filter (\<lambda>signature. sig_role signature = Maintainer) (env_signatures envelope)"

definition adopted :: "maintainer_trust_policy \<Rightarrow> signature \<Rightarrow> bool" where
  "adopted policy s \<longleftrightarrow> policy_find policy (sig_key_id s) \<noteq> None"

definition sound_signature :: "ed25519 \<Rightarrow> maintainer_trust_policy \<Rightarrow> object_envelope \<Rightarrow> object_id \<Rightarrow> signature \<Rightarrow> bool" where
  "sound_signature ed policy envelope i s \<longleftrightarrow> adopted policy s
     \<and> verify_trusted_signature ed policy envelope s i = Ok ()"

lemma publication_fold:
  "rfold (publication_step ed policy envelope i) sigs trusted = Ok t \<longleftrightarrow>
     (\<forall>s \<in> set sigs. adopted policy s \<longrightarrow> sound_signature ed policy envelope i s)
     \<and> t = (if trusted = None then map_option sig_key_id (find (adopted policy) sigs) else trusted)"
  by (induction sigs arbitrary: trusted)
    (auto simp: publication_step_def adopted_def sound_signature_def split: result.splits if_splits)

lemma publication_fold_Err:
  "rfold (publication_step ed policy envelope i) sigs trusted = Err issue \<Longrightarrow>
     issue_code issue = INVALID_SIGNATURE \<and> (\<exists>s \<in> set sigs. adopted policy s \<and> \<not> sound_signature ed policy envelope i s)"
proof (induction sigs arbitrary: trusted)
  case (Cons s sigs)
  show ?case
  proof (cases "publication_step ed policy envelope i s trusted")
    case (Err e)
    then show ?thesis
      using Cons.prems
      by (auto simp: publication_step_def adopted_def sound_signature_def split: result.splits if_splits)
  next
    case (Ok t)
    then show ?thesis
      using Cons.prems Cons.IH [of t] by auto
  qed
qed simp

lemma classify_eq:
  "classify_publication_signatures H ed policy envelope =
     map (\<lambda>s. (sig_key_id s, if sound_signature ed policy envelope (envelope_object_id H envelope) s then Sound
          else if adopted policy s then Invalid else Unverifiable)) (maintainer_signatures envelope)"
  by (auto simp: classify_publication_signatures_def Let_def sound_signature_def adopted_def split: result.splits)

lemma invalid_classified:
  "Invalid \<in> snd ` set (classify_publication_signatures H ed policy envelope) \<longleftrightarrow>
     (\<exists>s \<in> set (maintainer_signatures envelope). adopted policy s
        \<and> \<not> sound_signature ed policy envelope (envelope_object_id H envelope) s)"
  by (force simp: classify_eq image_iff)

lemma find_sound:
  "find (\<lambda>(_, outcome). outcome = Sound) (map (\<lambda>s. (f s, if P s then Sound else if Q s then Invalid else Unverifiable)) xs)
     = map_option (\<lambda>s. (f s, Sound)) (find P xs)"
  by (induction xs) auto

lemma verdict_cases:
  "verify_trusted_publication_envelope H ed policy envelope = r \<Longrightarrow>
     (case r of
        Ok key_id \<Rightarrow> Invalid \<notin> snd ` set (classify_publication_signatures H ed policy envelope)
          \<and> map_option sig_key_id (find (adopted policy) (maintainer_signatures envelope)) = Some key_id
      | Err issue \<Rightarrow>
          (issue_code issue = INVALID_SIGNATURE
            \<and> Invalid \<in> snd ` set (classify_publication_signatures H ed policy envelope))
          \<or> (issue_code issue = UNTRUSTED \<and> find (adopted policy) (maintainer_signatures envelope) = None))"
proof (cases "rfold (publication_step ed policy envelope (envelope_object_id H envelope))
    (maintainer_signatures envelope) None")
  case (Err issue)
  then show "verify_trusted_publication_envelope H ed policy envelope = r \<Longrightarrow> ?thesis"
    using publication_fold_Err [OF Err]
    by (auto simp: verify_trusted_publication_envelope_def Let_def invalid_classified)
next
  case (Ok trusted)
  then show "verify_trusted_publication_envelope H ed policy envelope = r \<Longrightarrow> ?thesis"
    by (cases trusted)
      (auto simp: verify_trusted_publication_envelope_def Let_def invalid_classified publication_fold)
qed

lemma codes_differ: "UNTRUSTED \<noteq> INVALID_SIGNATURE"
  by (simp add: UNTRUSTED_def INVALID_SIGNATURE_def)

section \<open>Properties\<close>

text \<open>C17 (equivalence): the verdict on an envelope agrees with the classification of its signatures. It
  is trusted exactly when some maintainer signature on it is sound and none is invalid, and then the key
  named is that of the first sound one. It is reported as a forgery when some signature is invalid, and
  as untrusted when none is adopted; importers refuse it exactly in the forgery case.\<close>

theorem publication_verdict:
  "let outcomes = classify_publication_signatures H ed policy envelope
   in (case verify_trusted_publication_envelope H ed policy envelope of
         Ok key_id \<Rightarrow> Invalid \<notin> snd ` set outcomes
           \<and> map_option fst (find (\<lambda>(_, outcome). outcome = Sound) outcomes) = Some key_id
       | Err issue \<Rightarrow>
           (issue_code issue = INVALID_SIGNATURE \<and> Invalid \<in> snd ` set outcomes)
           \<or> (issue_code issue = UNTRUSTED \<and> snd ` set outcomes \<subseteq> {Unverifiable}))
      \<and> (refuse_forged_publication_signature H ed command policy envelope = Ok () \<longleftrightarrow> Invalid \<notin> snd ` set outcomes)"
proof -
  let ?os = "classify_publication_signatures H ed policy envelope"
  let ?i = "envelope_object_id H envelope"
  have first: "map_option fst (find (\<lambda>(_, outcome). outcome = Sound) ?os)
      = map_option sig_key_id (find (adopted policy) (maintainer_signatures envelope))"
    if none: "Invalid \<notin> snd ` set ?os"
  proof -
    have "\<forall>s \<in> set (maintainer_signatures envelope). sound_signature ed policy envelope ?i s \<longleftrightarrow> adopted policy s"
      using none by (auto simp: invalid_classified) (simp add: sound_signature_def)
    then have "find (sound_signature ed policy envelope ?i) (maintainer_signatures envelope)
        = find (adopted policy) (maintainer_signatures envelope)"
      by (intro find_cong) auto
    moreover have "find (\<lambda>(_, outcome). outcome = Sound) ?os = map_option (\<lambda>s. (sig_key_id s, Sound))
        (find (sound_signature ed policy envelope ?i) (maintainer_signatures envelope))"
      unfolding classify_eq by (rule find_sound)
    ultimately show ?thesis
      by (simp add: option.map_comp comp_def)
  qed
  have unverifiable: "snd ` set ?os \<subseteq> {Unverifiable}" if "find (adopted policy) (maintainer_signatures envelope) = None"
    using that by (auto simp: classify_eq find_None_iff sound_signature_def)
  show ?thesis
    using verdict_cases [OF refl, of H ed policy envelope] first unverifiable codes_differ
    by (auto simp: Let_def refuse_forged_publication_signature_def split: result.splits)
qed

end
