(* ===== verification/Anchor.thy ===== *)
theory Anchor
  imports Snapshot Trust
begin

text \<open>
  Which snapshot a replay may start from (\<open>anchor_trust.rs\<close>, \<open>anchor_fallback.rs\<close>,
  \<open>patch_replay/anchor.rs\<close>): the four conditions of the anchor-trust function, the search for the
  nearest usable snapshot along a chain, the findings it reports, and the replay that starts there.
  The replay-verified record and the adopted keys are values of the model; reading them from the
  repository is file input.
\<close>

section \<open>Findings\<close>

datatype anchor_use = UseReport | UseText | UseState

record snapshot_anchor_fallback =
  fb_block_id :: object_id
  fb_finding :: string
  fb_purpose :: anchor_use

definition for_report :: "object_id \<Rightarrow> string \<Rightarrow> snapshot_anchor_fallback" where
  "for_report block_id finding = \<lparr> fb_block_id = block_id, fb_finding = finding, fb_purpose = UseReport \<rparr>"

definition for_text :: "object_id \<Rightarrow> string \<Rightarrow> snapshot_anchor_fallback" where
  "for_text block_id finding = \<lparr> fb_block_id = block_id, fb_finding = finding, fb_purpose = UseText \<rparr>"

definition for_state :: "object_id \<Rightarrow> string \<Rightarrow> snapshot_anchor_fallback" where
  "for_state block_id finding = \<lparr> fb_block_id = block_id, fb_finding = finding, fb_purpose = UseState \<rparr>"

definition display_fallback :: "snapshot_anchor_fallback \<Rightarrow> string" where
  "display_fallback f =
     (let block = show_id (fb_block_id f); finding = fb_finding f
      in case fb_purpose f of
           UseReport \<Rightarrow> ''warning: the snapshot of Block '' @ block @ '' failed validation ('' @ finding
             @ ''); this report replayed the whole history instead -- run `prikk verify`''
         | UseText \<Rightarrow> ''warning: the verified snapshot of Block '' @ block
             @ '' could not supply a file'' @ '''s text ('' @ finding
             @ ''); this command replayed the whole history instead -- run `prikk verify`''
         | UseState \<Rightarrow> ''warning: the recorded snapshot of Block '' @ block
             @ '' was not used as an anchor ('' @ finding
             @ ''); this command derived its state from the whole history instead -- run `prikk verify`'')"

text \<open>The per-thread list of findings: noted once each, taken all at once.\<close>

definition record_anchor_fallback ::
  "snapshot_anchor_fallback \<Rightarrow> snapshot_anchor_fallback list \<Rightarrow> snapshot_anchor_fallback list" where
  "record_anchor_fallback f pending = (if f \<in> set pending then pending else pending @ [f])"

definition take_anchor_fallbacks ::
  "snapshot_anchor_fallback list \<Rightarrow> snapshot_anchor_fallback list \<times> snapshot_anchor_fallback list" where
  "take_anchor_fallbacks pending = (pending, [])"

section \<open>The anchor-trust function\<close>

definition CHECKPOINT_CADENCE :: nat where "CHECKPOINT_CADENCE = 64"

definition MAX_ANCHOR_DISTANCE :: nat where "MAX_ANCHOR_DISTANCE = CHECKPOINT_CADENCE - 1"

datatype not_usable_reason = TooFar | NotRecorded | SignerNotAdopted | OtherNotUsable

datatype admission =
    Usable snapshot_manifest
  | NotUsable not_usable_reason
  | Signal string

record anchor_trust =
  verified :: "object_id fset"
  anchor_policy :: maintainer_trust_policy

definition has_record :: "anchor_trust \<Rightarrow> bool" where
  "has_record trust \<longleftrightarrow> verified trust \<noteq> {||}"

definition admit ::
  "(bytes \<Rightarrow> bytes) \<Rightarrow> ed25519 \<Rightarrow> (bytes \<Rightarrow> string) \<Rightarrow> anchor_trust \<Rightarrow> reader \<Rightarrow> object_id \<Rightarrow> nat
   \<Rightarrow> admission" where
  "admit sha256 ed escape trust read block_id distance =
     (if distance > MAX_ANCHOR_DISTANCE then NotUsable TooFar
      else if block_id |\<notin>| verified trust then NotUsable NotRecorded
      else (case read block_id of
              Ok (Some envelope) \<Rightarrow>
                if env_type envelope \<noteq> Block then NotUsable OtherNotUsable
                else (case verify_trusted_publication_envelope sha256 ed (anchor_policy trust) envelope of
                        Err issue \<Rightarrow>
                          if issue_code issue = INVALID_SIGNATURE then Signal (issue_message issue)
                          else NotUsable SignerNotAdopted
                      | Ok _ \<Rightarrow>
                          (case decode_block (env_payload envelope) of
                             Err _ \<Rightarrow> Signal (''Block '' @ show_id block_id @ '' does not decode'')
                           | Ok payload \<Rightarrow>
                               (case validate_snapshot_manifest sha256 escape read block_id payload of
                                  Ok (Some manifest) \<Rightarrow> Usable manifest
                                | Ok None \<Rightarrow> NotUsable OtherNotUsable
                                | Err err \<Rightarrow> Signal (display_error err))))
            | _ \<Rightarrow> NotUsable OtherNotUsable))"

section \<open>The search for an anchor\<close>

type_synonym anchor_search = "(nat \<times> snapshot_file list) option \<times> snapshot_anchor_fallback option"

text \<open>The candidates are the indexed blocks of the chain, the newest first; \<open>len\<close> is the chain's length.\<close>

fun find_anchor_from ::
  "(bytes \<Rightarrow> bytes) \<Rightarrow> ed25519 \<Rightarrow> (bytes \<Rightarrow> string) \<Rightarrow> reader \<Rightarrow> anchor_trust option \<Rightarrow> nat
   \<Rightarrow> (nat \<times> object_id) list \<Rightarrow> anchor_search res" where
  "find_anchor_from sha256 ed escape read trust len [] = Ok (None, None)"
| "find_anchor_from sha256 ed escape read trust len ((index, block_id) # older) =
     rbind (read_block read block_id) (\<lambda>block.
     if snapshot_blob_ref block = None then find_anchor_from sha256 ed escape read trust len older
     else case trust of
       Some t \<Rightarrow>
         (let distance = len - 1 - index
          in case admit sha256 ed escape t read block_id distance of
               Usable manifest \<Rightarrow>
                 Ok (case snapshot_files_from_manifest read block_id manifest of
                       Ok fs \<Rightarrow> (Some (index, fs), None)
                     | Err err \<Rightarrow> (None, Some (for_state block_id (display_error err))))
             | NotUsable _ \<Rightarrow>
                 if distance > MAX_ANCHOR_DISTANCE then Ok (None, None)
                 else find_anchor_from sha256 ed escape read trust len older
             | Signal finding \<Rightarrow> Ok (None, Some (for_state block_id finding)))
     | None \<Rightarrow>
         (case load_block_snapshot sha256 escape read block_id block of
            Ok (Some snapshot) \<Rightarrow> Ok (Some (index, snapshot), None)
          | Ok None \<Rightarrow> find_anchor_from sha256 ed escape read trust len older
          | Err err \<Rightarrow> Ok (None, Some (for_report block_id (display_error err)))))"

definition find_anchor ::
  "(bytes \<Rightarrow> bytes) \<Rightarrow> ed25519 \<Rightarrow> (bytes \<Rightarrow> string) \<Rightarrow> reader \<Rightarrow> object_id list \<Rightarrow> anchor_trust option
   \<Rightarrow> anchor_search res" where
  "find_anchor sha256 ed escape read block_ids trust =
     find_anchor_from sha256 ed escape read trust (length block_ids) (rev (enumerate 0 block_ids))"

datatype anchoring = Never | ReadOnlyReport | VerifiedWorktreeWrite anchor_trust

definition replay_chain_anchoring ::
  "(bytes \<Rightarrow> bytes) \<Rightarrow> ed25519 \<Rightarrow> (bytes \<Rightarrow> string) \<Rightarrow> reader \<Rightarrow> object_id list \<Rightarrow> anchoring
   \<Rightarrow> deleted_content_capture \<Rightarrow> (chain_replay \<times> snapshot_anchor_fallback option) res" where
  "replay_chain_anchoring sha256 ed escape read block_ids anchoring cap =
     rbind (case anchoring of
              Never \<Rightarrow> Ok (None, None)
            | ReadOnlyReport \<Rightarrow> find_anchor sha256 ed escape read block_ids None
            | VerifiedWorktreeWrite trust \<Rightarrow> find_anchor sha256 ed escape read block_ids (Some trust))
       (\<lambda>(anchor, fallback).
     rbind (replay_chain_capturing sha256 read block_ids anchor cap) (\<lambda>chain.
     Ok (chain, fallback)))"

definition replay_chain ::
  "(bytes \<Rightarrow> bytes) \<Rightarrow> ed25519 \<Rightarrow> (bytes \<Rightarrow> string) \<Rightarrow> reader \<Rightarrow> object_id list \<Rightarrow> anchoring
   \<Rightarrow> (chain_replay \<times> snapshot_anchor_fallback option) res" where
  "replay_chain sha256 ed escape read block_ids anchoring =
     replay_chain_anchoring sha256 ed escape read block_ids anchoring (capture_for_ids {||})"

end
