(* ===== verification/Lifecycle_Replay.thy ===== *)
theory Lifecycle_Replay
  imports Object_Store Node_Lifecycle Text_Span Patch_Decode
begin

text \<open>
  Authoritative lifecycle replay (\<open>prikk-store/src/lifecycle_cache/replay.rs\<close>, \<open>replay/effect.rs\<close>,
  \<open>replay/classify.rs\<close>, \<open>lifecycle_cache.rs\<close>): the walk from a block to genesis and the fold of
  every operation of its patches into the node index, with the materialized text of edited nodes
  beside it. A function on \<open>&mut\<close> state returns the new state; the callers drop the state on an
  error, so an error carries none. SHA-256 is the argument \<open>sha256\<close>.
\<close>

section \<open>Errors\<close>

datatype lifecycle_replay_error =
    MissingBlockInLineage object_id
  | UnreadableBlockInLineage object_id string
  | MergeLineageUnsupported object_id nat
  | LineageCycle object_id
  | HorizonNotInLineage object_id
  | InconsistentLifecycleEffect string
  | MalformedPatchInLineage object_id string
  | OutsideVersionRuleInLineage object_id bytes
  | MissingBlobForLifecycleEffect object_id
  | TextSpanResolutionFailed node_id bytes text_span_resolution_failure

type_synonym 'a replay = "(lifecycle_replay_error, 'a) result"

fun display_replay_error :: "lifecycle_replay_error \<Rightarrow> string" where
  "display_replay_error (MissingBlockInLineage block_id) = ''lifecycle replay: block ''
     @ show_id block_id @ '' is missing and cannot be treated as genesis''"
| "display_replay_error (UnreadableBlockInLineage block_id detail) = ''lifecycle replay: block ''
     @ show_id block_id @ '' is unreadable ('' @ detail @ '')''"
| "display_replay_error (MergeLineageUnsupported block_id parent_count) = ''lifecycle replay: block ''
     @ show_id block_id @ '' has '' @ dec parent_count
     @ '' parents and no valid mainline parent to derive state from''"
| "display_replay_error (LineageCycle block_id) =
     ''lifecycle replay: cycle detected at block '' @ show_id block_id"
| "display_replay_error (HorizonNotInLineage horizon_id) =
     ''lifecycle replay: walk reached genesis without crossing the claimed horizon ''
     @ show_id horizon_id"
| "display_replay_error (InconsistentLifecycleEffect detail) =
     ''lifecycle replay: operation could not be applied to the replayed state ('' @ detail @ '')''"
| "display_replay_error (MalformedPatchInLineage patch_id detail) = ''lifecycle replay: patch ''
     @ show_id patch_id @ '' is malformed ('' @ detail @ '')''"
| "display_replay_error (OutsideVersionRuleInLineage patch_id path) = ''lifecycle replay: patch ''
     @ show_id patch_id @ '': '' @ render path
     @ '' is outside what this version of prikk accepts, and a newer version of prikk may have written it''"
| "display_replay_error (MissingBlobForLifecycleEffect blob_id) = ''lifecycle replay: blob ''
     @ show_id blob_id @ '' required for a state effect is missing''"
| "display_replay_error (TextSpanResolutionFailed node_id span_id reason) =
     ''lifecycle replay: EditText span on node '' @ render (to_hex (node_bytes node_id))
     @ '' (span_id '' @ render (to_hex span_id) @ '') could not be localized: ''
     @ display_resolution_failure reason"

fun into_prikk_error :: "lifecycle_replay_error \<Rightarrow> prikk_error" where
  "into_prikk_error (OutsideVersionRuleInLineage _ path) = NonAsciiRepoPath path"
| "into_prikk_error other = Integrity (display_replay_error other)"

definition inconsistent :: "prikk_error \<Rightarrow> lifecycle_replay_error" where
  "inconsistent e = InconsistentLifecycleEffect (display_error e)"

definition classify_decode_failure :: "object_id \<Rightarrow> prikk_error \<Rightarrow> lifecycle_replay_error" where
  "classify_decode_failure patch_id err =
     (case err of
        NonAsciiRepoPath path \<Rightarrow> OutsideVersionRuleInLineage patch_id path
      | other \<Rightarrow> MalformedPatchInLineage patch_id (display_error other))"

section \<open>State effects\<close>

type_synonym text_cache = "(node_id, bytes) fmap"
type_synonym replay_state = "lifecycle_state \<times> text_cache"

text \<open>\<open>state.method(..).map_err(inconsistent)\<close>.\<close>

definition effect :: "'a res \<times> lifecycle_state \<Rightarrow> lifecycle_state replay" where
  "effect outcome = rbind (map_err inconsistent (fst outcome)) (\<lambda>_. Ok (snd outcome))"

definition parse_repo_path :: "bytes \<Rightarrow> repo_path replay" where
  "parse_repo_path path = map_err inconsistent (repo_path_parse path)"

fun preimage_shape :: "decoded_delete_preimage \<Rightarrow> node_kind \<times> node_content" where
  "preimage_shape (DPreFile old_node_kind old_blob_id old_mode) =
     (old_node_kind, FileContent old_blob_id old_mode)"
| "preimage_shape (DPreSymlink old_target) = (Symlink, SymlinkContent old_target)"

definition expected_deleted_node :: "bytes \<Rightarrow> decoded_delete_preimage \<Rightarrow> live_node replay" where
  "expected_deleted_node path preimage =
     rbind (parse_repo_path path) (\<lambda>repo_path.
     let (kind, content) = preimage_shape preimage
     in Ok \<lparr> ln_path = repo_path, ln_kind = kind, ln_content = content \<rparr>)"

fun show_blob_kind :: "blob_kind \<Rightarrow> string" where
  "show_blob_kind BlobText = ''Text''"
| "show_blob_kind BlobBinary = ''Binary''"
| "show_blob_kind BlobSnapshot = ''Snapshot''"

definition require_binary_blob :: "reader \<Rightarrow> bool \<Rightarrow> object_id \<Rightarrow> unit replay" where
  "require_binary_blob read schema_one blob_id =
     rbind (map_err inconsistent (resolver_blob_kind read schema_one blob_id)) (\<lambda>found.
     rbind (ok_or (MissingBlobForLifecycleEffect blob_id) found) (\<lambda>kind.
     if kind \<noteq> BlobBinary then
       Err (InconsistentLifecycleEffect (''ReplaceBinary blob '' @ show_id blob_id
         @ '' is not binary ('' @ show_blob_kind kind @ '')''))
     else Ok ()))"

text \<open>The text an edit starts from: a cache hit, else the current content blob, which must be text.\<close>

definition replay_current_text ::
  "reader \<Rightarrow> bool \<Rightarrow> text_cache \<Rightarrow> node_id \<Rightarrow> object_id \<Rightarrow> bytes replay" where
  "replay_current_text read schema_one text_cache node_id current_blob_id =
     (case fmlookup text_cache node_id of
        Some cached \<Rightarrow> Ok cached
      | None \<Rightarrow>
          rbind (map_err inconsistent (resolver_blob_content read schema_one current_blob_id)) (\<lambda>found.
          rbind (ok_or (MissingBlobForLifecycleEffect current_blob_id) found) (\<lambda>(blob_kind, content).
          if blob_kind \<noteq> BlobText then
            Err (InconsistentLifecycleEffect ''EditText current content blob is not Text'')
          else Ok content)))"

definition apply_edit_text ::
  "(bytes \<Rightarrow> bytes) \<Rightarrow> reader \<Rightarrow> bool \<Rightarrow> node_id \<Rightarrow> bytes \<Rightarrow> bytes \<Rightarrow> bytes \<Rightarrow> bytes \<Rightarrow> bytes \<Rightarrow> bytes
   \<Rightarrow> u32 option \<Rightarrow> u32 option \<Rightarrow> replay_state \<Rightarrow> replay_state replay" where
  "apply_edit_text sha256 read schema_one node_id span_id old_span_hash left_anchor_hash
       right_anchor_hash replacement_text old_span_text left_anchor_len right_anchor_len =
     (\<lambda>(state, text_cache).
     rbind (fail_if (text_span_hash sha256 old_span_text \<noteq> old_span_hash)
              (InconsistentLifecycleEffect ''EditText old_span_hash != SHA-256(old_span_text)'')) (\<lambda>_.
     rbind (ok_or (InconsistentLifecycleEffect ''EditText target node_id is not live'')
              (live_node_at state node_id)) (\<lambda>live.
     rbind (fail_if (ln_kind live \<noteq> TextFile)
              (InconsistentLifecycleEffect ''EditText target is not a text-file node'')) (\<lambda>_.
     rbind (case ln_content live of
              FileContent blob_id _ \<Rightarrow> Ok blob_id
            | SymlinkContent _ \<Rightarrow>
                Err (InconsistentLifecycleEffect ''EditText target has symlink content''))
       (\<lambda>current_blob_id.
     rbind (replay_current_text read schema_one text_cache node_id current_blob_id) (\<lambda>current_text.
     rbind (map_err (TextSpanResolutionFailed node_id span_id)
              (resolve_text_span sha256 current_text old_span_text left_anchor_hash right_anchor_hash
                 span_id node_id old_span_hash left_anchor_len right_anchor_len))
       (\<lambda>(start, stop).
     rbind (map_err (\<lambda>e. InconsistentLifecycleEffect (display_splice_error e))
              (splice_text current_text start stop replacement_text)) (\<lambda>new_text.
     rbind (map_err inconsistent (text_blob_id sha256 new_text)) (\<lambda>new_blob_id.
     rbind (effect (set_text_blob node_id new_blob_id state)) (\<lambda>state'.
     Ok (state', fmupd node_id new_text text_cache)))))))))))"

fun apply_state_effect ::
  "(bytes \<Rightarrow> bytes) \<Rightarrow> reader \<Rightarrow> bool \<Rightarrow> decoded_operation_kind \<Rightarrow> replay_state
   \<Rightarrow> replay_state replay" where
  "apply_state_effect sha256 read schema_one (DCreateFile path node_id blob_id mode) (state, texts) =
     rbind (parse_repo_path path) (\<lambda>repo_path.
     rbind (map_err inconsistent (resolver_blob_kind read schema_one blob_id)) (\<lambda>found.
     rbind (ok_or (MissingBlobForLifecycleEffect blob_id) found) (\<lambda>blob_kind.
     rbind (map_err inconsistent (node_kind_from_file_blob_kind blob_kind)) (\<lambda>node_kind.
     rbind (effect (create_node node_id
              \<lparr> ln_path = repo_path, ln_kind = node_kind, ln_content = FileContent blob_id mode \<rparr>
              state)) (\<lambda>state'. Ok (state', texts))))))"
| "apply_state_effect sha256 read schema_one (DCreateSymlink path node_id target) (state, texts) =
     rbind (parse_repo_path path) (\<lambda>repo_path.
     rbind (effect (create_node node_id
              \<lparr> ln_path = repo_path, ln_kind = Symlink, ln_content = SymlinkContent target \<rparr>
              state)) (\<lambda>state'. Ok (state', texts)))"
| "apply_state_effect sha256 read schema_one (DDeleteNode path node_id preimage) (state, texts) =
     rbind (expected_deleted_node path preimage) (\<lambda>expected.
     rbind (effect (delete_node_checked node_id expected state)) (\<lambda>state'.
     Ok (state', fmdrop node_id texts)))"
| "apply_state_effect sha256 read schema_one (DRenamePath _ _ _) (state, texts) =
     Err (InconsistentLifecycleEffect
       ''apply_state_effect received a RenamePath -- the caller must route consecutive RenamePath runs to apply_rename_run instead, never here'')"
| "apply_state_effect sha256 read schema_one (DChangePerm node_id old_mode new_mode) (state, texts) =
     rbind (effect (change_file_mode node_id old_mode new_mode state)) (\<lambda>state'. Ok (state', texts))"
| "apply_state_effect sha256 read schema_one (DReplaceBinary node_id old_blob_id new_blob_id)
       (state, texts) =
     rbind (require_binary_blob read schema_one old_blob_id) (\<lambda>_.
     rbind (require_binary_blob read schema_one new_blob_id) (\<lambda>_.
     rbind (effect (replace_file_blob node_id old_blob_id new_blob_id state)) (\<lambda>state'.
     Ok (state', texts))))"
| "apply_state_effect sha256 read schema_one
       (DEditText node_id span_id old_span_hash left_anchor_hash right_anchor_hash replacement_text
          old_span_text left_anchor_len right_anchor_len) st =
     apply_edit_text sha256 read schema_one node_id span_id old_span_hash left_anchor_hash
       right_anchor_hash replacement_text old_span_text left_anchor_len right_anchor_len st"

section \<open>Rename runs\<close>

fun is_rename :: "decoded_operation_kind \<Rightarrow> bool" where
  "is_rename (DRenamePath _ _ _) = True"
| "is_rename _ = False"

fun rename_triple :: "decoded_operation_kind \<Rightarrow> rename_entry replay" where
  "rename_triple (DRenamePath node_id old_path new_path) =
     rbind (parse_repo_path old_path) (\<lambda>old'.
     rbind (parse_repo_path new_path) (\<lambda>new'.
     Ok (node_id, old', new')))"
| "rename_triple _ =
     Err (InconsistentLifecycleEffect ''rename_triple called on a non-RenamePath operation'')"

definition rename_op :: "decoded_patch_operation \<Rightarrow> bool" where
  "rename_op operation \<longleftrightarrow> is_rename (dop_kind operation)"

text \<open>The run that starts at \<open>first\<close>; the iterator is left at \<open>dropWhile rename_op rest\<close>.\<close>

definition collect_rename_run ::
  "decoded_patch_operation \<Rightarrow> decoded_patch_operation list \<Rightarrow> rename_entry list replay" where
  "collect_rename_run first rest =
     rmap (\<lambda>operation. rename_triple (dop_kind operation)) (first # takeWhile rename_op rest)"

definition apply_rename_run :: "rename_entry list \<Rightarrow> lifecycle_state \<Rightarrow> lifecycle_state replay" where
  "apply_rename_run renames state = effect (rename_nodes_checked_batch renames state)"

text \<open>The loop over one patch's operations, with the effect of a single operation as argument.\<close>

function fold_operations ::
  "(decoded_operation_kind \<Rightarrow> replay_state \<Rightarrow> ('e, replay_state) result)
   \<Rightarrow> (lifecycle_replay_error \<Rightarrow> 'e) \<Rightarrow> decoded_patch_operation list \<Rightarrow> replay_state
   \<Rightarrow> ('e, replay_state) result" where
  "fold_operations step wrap [] st = Ok st"
| "fold_operations step wrap (operation # rest) st =
     (if rename_op operation then
        rbind (map_err wrap (collect_rename_run operation rest)) (\<lambda>run.
        rbind (map_err wrap (apply_rename_run run (fst st))) (\<lambda>state'.
        fold_operations step wrap (dropWhile rename_op rest) (state', snd st)))
      else rbind (step (dop_kind operation) st) (fold_operations step wrap rest))"
  by pat_completeness auto
termination
  by (relation "measure (\<lambda>(_, _, operations, _). length operations)")
    (auto simp: le_imp_less_Suc length_dropWhile_le)

section \<open>Reading patches\<close>

definition read_patch_operations_from_envelope ::
  "(bytes \<Rightarrow> bytes) \<Rightarrow> object_envelope \<Rightarrow> object_id \<Rightarrow> decoded_patch_operation list replay" where
  "read_patch_operations_from_envelope sha256 envelope patch_id =
     (if env_type envelope \<noteq> Patch then
        Err (MalformedPatchInLineage patch_id (''object is not a Patch (''
          @ object_type_name (env_type envelope) @ '' found)''))
      else map_err (classify_decode_failure patch_id)
             (decode_patch_operations sha256 (env_payload envelope) (env_schema envelope)))"

definition read_patch_operations ::
  "(bytes \<Rightarrow> bytes) \<Rightarrow> reader \<Rightarrow> object_id \<Rightarrow> bool \<Rightarrow> decoded_patch_operation list replay" where
  "read_patch_operations sha256 read patch_id require_schema_one =
     rbind (map_err (\<lambda>e. MalformedPatchInLineage patch_id (display_error e)) (read patch_id)) (\<lambda>found.
     case found of
       None \<Rightarrow> Err (MalformedPatchInLineage patch_id ''patch object is missing'')
     | Some envelope \<Rightarrow>
         if env_type envelope \<noteq> Patch then
           Err (MalformedPatchInLineage patch_id (''object is not a Patch (''
             @ object_type_name (env_type envelope) @ '' found)''))
         else
           rbind (if require_schema_one then
                    let accepted = (case admitted_schemas (env_type envelope) of
                          Some vs \<Rightarrow> vs | None \<Rightarrow> [])
                    in fail_if (env_schema envelope \<notin> set accepted)
                      (MalformedPatchInLineage patch_id
                        (''format-2 Patch does not accept envelope schema ''
                         @ dec (unat (env_schema envelope)) @ '' (accepted: ['' @ show_list accepted
                         @ ''])''))
                  else Ok ()) (\<lambda>_.
           map_err (classify_decode_failure patch_id)
             (decode_patch_operations sha256 (env_payload envelope) (env_schema envelope))))"

definition apply_patch_ids ::
  "(bytes \<Rightarrow> bytes) \<Rightarrow> reader \<Rightarrow> bool \<Rightarrow> object_id list \<Rightarrow> replay_state \<Rightarrow> replay_state replay" where
  "apply_patch_ids sha256 read require_schema_one =
     rfold (\<lambda>patch_id st.
       rbind (read_patch_operations sha256 read patch_id require_schema_one) (\<lambda>operations.
       fold_operations (apply_state_effect sha256 read require_schema_one) id operations st))"

section \<open>The lineage walk\<close>

definition lineage_read_block :: "reader \<Rightarrow> object_id \<Rightarrow> block_payload replay" where
  "lineage_read_block read block_id =
     rbind (map_err (\<lambda>e. UnreadableBlockInLineage block_id (display_error e)) (read block_id)) (\<lambda>found.
     case found of
       None \<Rightarrow> Err (MissingBlockInLineage block_id)
     | Some envelope \<Rightarrow>
         if env_type envelope \<noteq> Block then
           Err (UnreadableBlockInLineage block_id (''object is not a Block (''
             @ object_type_name (env_type envelope) @ '' found)''))
         else map_err (\<lambda>e. UnreadableBlockInLineage block_id (display_error e))
                (decode_block (env_payload envelope)))"

definition parents_of :: "block_payload \<Rightarrow> object_id list" where
  "parents_of block =
     (case mainline_parent_id block of
        Some mainline \<Rightarrow>
          if block_kind_of block = BMerge \<and> mainline \<in> set (parent_block_ids block) then [mainline]
          else parent_block_ids block
      | None \<Rightarrow> parent_block_ids block)"

type_synonym walked_block = "object_id \<times> block_payload"

text \<open>
  The loop of \<open>walk_single_parent_chain_inner\<close> over the reader-backed lineage: \<open>None\<close> is a run that
  does not end; the chain is built oldest first, which is what the source's reversal returns.
\<close>

partial_function (option) lineage_loop ::
  "reader \<Rightarrow> object_id option \<Rightarrow> object_id set \<Rightarrow> walked_block list \<Rightarrow> object_id
   \<Rightarrow> walked_block list replay option" where [code]:
  "lineage_loop read expected_horizon visited chain current =
     (if current \<in> visited then Some (Err (LineageCycle current))
      else case lineage_read_block read current of
             Err e \<Rightarrow> Some (Err e)
           | Ok block \<Rightarrow>
               if parents_of block = [] then
                 (if expected_horizon \<noteq> None \<and> expected_horizon \<noteq> Some current then
                    Some (Err (HorizonNotInLineage (case expected_horizon of
                        Some horizon \<Rightarrow> horizon | None \<Rightarrow> current)))
                  else Some (Ok ((current, block) # chain)))
               else if length (parents_of block) = 1 then
                 lineage_loop read expected_horizon (insert current visited)
                   ((current, block) # chain) (hd (parents_of block))
               else Some (Err (MergeLineageUnsupported current (length (parents_of block)))))"

definition walk_lineage ::
  "reader \<Rightarrow> object_id \<Rightarrow> object_id \<Rightarrow> walked_block list replay option" where
  "walk_lineage read baseline horizon = lineage_loop read (Some horizon) {} [] baseline"

section \<open>Replay\<close>

definition replay_chain_with_appended_patches ::
  "(bytes \<Rightarrow> bytes) \<Rightarrow> reader \<Rightarrow> walked_block list \<Rightarrow> object_id list \<Rightarrow> bool \<Rightarrow> replay_state replay" where
  "replay_chain_with_appended_patches sha256 read chain appended_patch_ids require_schema_one =
     rbind (rfold (\<lambda>(_, block). apply_patch_ids sha256 read require_schema_one (block_patch_ids block))
              chain (new_lifecycle, fmempty)) (\<lambda>st.
     apply_patch_ids sha256 read require_schema_one appended_patch_ids st)"

definition replay_lineage_with_materialized_text ::
  "(bytes \<Rightarrow> bytes) \<Rightarrow> reader \<Rightarrow> object_id \<Rightarrow> object_id \<Rightarrow> replay_state replay option" where
  "replay_lineage_with_materialized_text sha256 read baseline horizon =
     map_option (\<lambda>walked. rbind walked (\<lambda>chain.
         replay_chain_with_appended_patches sha256 read chain [] False))
       (walk_lineage read baseline horizon)"

definition replay_lineage ::
  "(bytes \<Rightarrow> bytes) \<Rightarrow> reader \<Rightarrow> object_id \<Rightarrow> object_id \<Rightarrow> lifecycle_state replay option" where
  "replay_lineage sha256 read baseline horizon =
     map_option (\<lambda>walked. rbind walked (\<lambda>chain.
         rbind (replay_chain_with_appended_patches sha256 read chain [] False) (\<lambda>(state, _).
         Ok state)))
       (walk_lineage read baseline horizon)"

definition apply_one_block ::
  "(bytes \<Rightarrow> bytes) \<Rightarrow> reader \<Rightarrow> block_payload \<Rightarrow> bool \<Rightarrow> lifecycle_state \<Rightarrow> lifecycle_state replay" where
  "apply_one_block sha256 read block require_schema_one state =
     rbind (apply_patch_ids sha256 read require_schema_one (block_patch_ids block) (state, fmempty))
       (\<lambda>(state', _). Ok state')"

definition apply_one_block_carrying_text ::
  "(bytes \<Rightarrow> bytes) \<Rightarrow> reader \<Rightarrow> block_payload \<Rightarrow> replay_state \<Rightarrow> replay_state replay" where
  "apply_one_block_carrying_text sha256 read block =
     apply_patch_ids sha256 read False (block_patch_ids block)"

definition apply_one_block_with_text_cache ::
  "(bytes \<Rightarrow> bytes) \<Rightarrow> reader \<Rightarrow> block_payload \<Rightarrow> replay_state \<Rightarrow> replay_state replay" where
  "apply_one_block_with_text_cache sha256 read block =
     apply_patch_ids sha256 read True (block_patch_ids block)"

definition apply_candidate_patches ::
  "(bytes \<Rightarrow> bytes) \<Rightarrow> reader \<Rightarrow> object_id list \<Rightarrow> replay_state \<Rightarrow> replay_state replay" where
  "apply_candidate_patches sha256 read = apply_patch_ids sha256 read True"

record replay_derived_lifecycle_state =
  rd_baseline_block_id :: object_id
  rd_state :: lifecycle_state

definition from_replay :: "object_id \<Rightarrow> lifecycle_state \<Rightarrow> replay_derived_lifecycle_state res" where
  "from_replay baseline_block_id state =
     rbind (validate_internal_consistency state) (\<lambda>_.
     Ok \<lparr> rd_baseline_block_id = baseline_block_id, rd_state = state \<rparr>)"

definition replay_derived_state ::
  "(bytes \<Rightarrow> bytes) \<Rightarrow> reader \<Rightarrow> object_id \<Rightarrow> object_id \<Rightarrow> replay_derived_lifecycle_state res option" where
  "replay_derived_state sha256 read baseline_block_id lineage_horizon_id =
     map_option (\<lambda>replayed. rbind (map_err into_prikk_error replayed) (from_replay baseline_block_id))
       (replay_lineage sha256 read baseline_block_id lineage_horizon_id)"

definition materialize_edited_text ::
  "(bytes \<Rightarrow> bytes) \<Rightarrow> reader \<Rightarrow> object_id \<Rightarrow> object_id \<Rightarrow> node_id \<Rightarrow> bytes option res option" where
  "materialize_edited_text sha256 read baseline_block_id lineage_horizon_id node_id =
     map_option (\<lambda>replayed. rbind (map_err into_prikk_error replayed) (\<lambda>(_, texts).
         Ok (fmlookup texts node_id)))
       (replay_lineage_with_materialized_text sha256 read baseline_block_id lineage_horizon_id)"

section \<open>Partial walks\<close>

definition edited_text_nodes ::
  "(bytes \<Rightarrow> bytes) \<Rightarrow> reader \<Rightarrow> block_payload \<Rightarrow> node_id fset replay" where
  "edited_text_nodes sha256 read block =
     rfold (\<lambda>patch_id nodes.
       rbind (read_patch_operations sha256 read patch_id False) (\<lambda>operations.
       Ok (fold (\<lambda>operation nodes. case dop_kind operation of
             DEditText node_id _ _ _ _ _ _ _ _ \<Rightarrow> finsert node_id nodes | _ \<Rightarrow> nodes)
           operations nodes)))
       (block_patch_ids block) {||}"

text \<open>One operation of \<open>materialize_wanted_text_forward\<close>; \<open>None\<close> is the early \<open>return Ok(None)\<close>.\<close>

fun carry_text ::
  "(bytes \<Rightarrow> bytes) \<Rightarrow> reader \<Rightarrow> node_id fset \<Rightarrow> decoded_operation_kind \<Rightarrow> text_cache
   \<Rightarrow> text_cache option" where
  "carry_text sha256 read wanted (DEditText node_id span_id old_span_hash left_anchor_hash
       right_anchor_hash replacement_text old_span_text left_anchor_len right_anchor_len) texts =
     (if node_id |\<in>| wanted then
        (case fmlookup texts node_id of
           None \<Rightarrow> None
         | Some current \<Rightarrow>
             (case resolve_text_span sha256 current old_span_text left_anchor_hash right_anchor_hash
                     span_id node_id old_span_hash left_anchor_len right_anchor_len of
                Err _ \<Rightarrow> None
              | Ok (start, stop) \<Rightarrow>
                  (case splice_text current start stop replacement_text of
                     Err _ \<Rightarrow> None
                   | Ok following \<Rightarrow> Some (fmupd node_id following texts))))
      else Some texts)"
| "carry_text sha256 read wanted (DCreateFile _ node_id blob_id _) texts =
     (if node_id |\<in>| wanted then
        (case resolver_blob_content read False blob_id of
           Ok (Some (BlobText, content)) \<Rightarrow> Some (fmupd node_id content texts)
         | Ok _ \<Rightarrow> Some (fmdrop node_id texts)
         | Err _ \<Rightarrow> None)
      else Some texts)"
| "carry_text sha256 read wanted (DDeleteNode _ node_id _) texts =
     Some (if node_id |\<in>| wanted then fmdrop node_id texts else texts)"
| "carry_text sha256 read wanted (DReplaceBinary node_id _ _) texts =
     Some (if node_id |\<in>| wanted then fmdrop node_id texts else texts)"
| "carry_text sha256 read wanted _ texts = Some texts"

fun carry_operations ::
  "(bytes \<Rightarrow> bytes) \<Rightarrow> reader \<Rightarrow> node_id fset \<Rightarrow> decoded_patch_operation list \<Rightarrow> text_cache
   \<Rightarrow> text_cache option" where
  "carry_operations sha256 read wanted [] texts = Some texts"
| "carry_operations sha256 read wanted (operation # rest) texts =
     (case carry_text sha256 read wanted (dop_kind operation) texts of
        None \<Rightarrow> None
      | Some texts' \<Rightarrow> carry_operations sha256 read wanted rest texts')"

fun carry_patches ::
  "(bytes \<Rightarrow> bytes) \<Rightarrow> reader \<Rightarrow> node_id fset \<Rightarrow> object_id list \<Rightarrow> text_cache
   \<Rightarrow> text_cache option replay" where
  "carry_patches sha256 read wanted [] texts = Ok (Some texts)"
| "carry_patches sha256 read wanted (patch_id # rest) texts =
     rbind (read_patch_operations sha256 read patch_id False) (\<lambda>operations.
     case carry_operations sha256 read wanted operations texts of
       None \<Rightarrow> Ok None
     | Some texts' \<Rightarrow> carry_patches sha256 read wanted rest texts')"

definition materialize_wanted_text_forward ::
  "(bytes \<Rightarrow> bytes) \<Rightarrow> reader \<Rightarrow> text_cache \<Rightarrow> block_payload list \<Rightarrow> node_id fset
   \<Rightarrow> text_cache option replay" where
  "materialize_wanted_text_forward sha256 read seeds blocks wanted =
     carry_patches sha256 read wanted (concat (map block_patch_ids blocks)) seeds"

definition tombstone_step ::
  "decoded_patch_operation \<Rightarrow> (node_id, tombstone) fmap \<Rightarrow> (node_id, tombstone) fmap replay" where
  "tombstone_step operation tombs =
     (case dop_kind operation of
        DCreateFile _ node_id _ _ \<Rightarrow> Ok (fmdrop node_id tombs)
      | DCreateSymlink _ node_id _ \<Rightarrow> Ok (fmdrop node_id tombs)
      | DDeleteNode path node_id preimage \<Rightarrow>
          (let (kind, content) = preimage_shape preimage
           in rbind (map_err inconsistent (repo_path_parse path)) (\<lambda>path'.
              Ok (fmupd node_id \<lparr> tb_kind = kind, tb_content = content, tb_path = path' \<rparr> tombs)))
      | _ \<Rightarrow> Ok tombs)"

definition id_only_tombstones ::
  "(bytes \<Rightarrow> bytes) \<Rightarrow> reader \<Rightarrow> block_payload list \<Rightarrow> (node_id, tombstone) fmap replay" where
  "id_only_tombstones sha256 read blocks =
     rfold (\<lambda>block. rfold (\<lambda>patch_id tombs.
         rbind (read_patch_operations sha256 read patch_id True) (\<lambda>operations.
         rfold tombstone_step operations tombs)) (block_patch_ids block))
       blocks fmempty"

section \<open>The materializing fallback\<close>

text \<open>
  \<open>materialize\<close> answers for a node's text in sealed history: the anchored or the full replay,
  whichever the caller's repository allows. An \<open>EditText\<close> asks for the text before it changes
  anything, so the retry starts from the state of the first attempt.
\<close>

definition show_node :: "node_id \<Rightarrow> string" where
  "show_node node_id = ''NodeId(['' @ concat (case map (\<lambda>b. dec (unat b)) (node_bytes node_id) of
       [] \<Rightarrow> [] | d # ds \<Rightarrow> d # map (\<lambda>x. '', '' @ x) ds) @ ''])''"

definition apply_state_effect_with_materialize_fallback ::
  "(bytes \<Rightarrow> bytes) \<Rightarrow> reader \<Rightarrow> (object_id \<Rightarrow> object_id \<Rightarrow> node_id \<Rightarrow> object_id \<Rightarrow> bytes option res)
   \<Rightarrow> (object_id \<times> object_id) option \<Rightarrow> object_id \<Rightarrow> decoded_operation_kind \<Rightarrow> replay_state
   \<Rightarrow> replay_state res" where
  "apply_state_effect_with_materialize_fallback sha256 read materialize sealed_lineage patch_id
       operation_kind st =
     (case apply_state_effect sha256 read False operation_kind st of
        Ok st' \<Rightarrow> Ok st'
      | Err e \<Rightarrow>
          (case (e, operation_kind) of
             (MissingBlobForLifecycleEffect blob_id, DEditText node_id _ _ _ _ _ _ _ _) \<Rightarrow>
               (case sealed_lineage of
                  None \<Rightarrow> Err (Integrity (''patch '' @ show_id patch_id @ '' edits node ''
                    @ show_node node_id @ '' whose content blob '' @ show_id blob_id
                    @ '' is missing, and no sealed lineage exists to materialize it from''))
                | Some (baseline_block_id, horizon_id) \<Rightarrow>
                    rbind (materialize baseline_block_id horizon_id node_id blob_id) (\<lambda>found.
                    rbind (ok_or (Integrity (''patch '' @ show_id patch_id @ '' edits node ''
                        @ show_node node_id @ '' whose content blob '' @ show_id blob_id
                        @ '' is missing and could not be materialized from sealed history'')) found)
                      (\<lambda>found_text.
                    map_err into_prikk_error (apply_state_effect sha256 read False operation_kind
                      (fst st, fmupd node_id found_text (snd st))))))
           | _ \<Rightarrow> Err (into_prikk_error e)))"

definition apply_patch_ids_with_materialize_fallback ::
  "(bytes \<Rightarrow> bytes) \<Rightarrow> reader \<Rightarrow> (object_id \<Rightarrow> object_id \<Rightarrow> node_id \<Rightarrow> object_id \<Rightarrow> bytes option res)
   \<Rightarrow> (object_id \<times> object_id) option \<Rightarrow> object_id list \<Rightarrow> replay_state \<Rightarrow> replay_state res" where
  "apply_patch_ids_with_materialize_fallback sha256 read materialize sealed_lineage =
     rfold (\<lambda>patch_id st.
       rbind (map_err into_prikk_error (read_patch_operations sha256 read patch_id False))
         (\<lambda>operations.
       fold_operations (apply_state_effect_with_materialize_fallback sha256 read materialize
           sealed_lineage patch_id) into_prikk_error operations st))"

definition apply_one_patch_with_materialize_fallback ::
  "(bytes \<Rightarrow> bytes) \<Rightarrow> reader \<Rightarrow> (object_id \<Rightarrow> object_id \<Rightarrow> node_id \<Rightarrow> object_id \<Rightarrow> bytes option res)
   \<Rightarrow> (object_id \<times> object_id) option \<Rightarrow> object_id \<Rightarrow> replay_state \<Rightarrow> replay_state res" where
  "apply_one_patch_with_materialize_fallback sha256 read materialize sealed_lineage patch_id =
     apply_patch_ids_with_materialize_fallback sha256 read materialize sealed_lineage [patch_id]"

definition apply_queued_patch_envelopes ::
  "(bytes \<Rightarrow> bytes) \<Rightarrow> reader \<Rightarrow> (object_id \<Rightarrow> object_id \<Rightarrow> node_id \<Rightarrow> object_id \<Rightarrow> bytes option res)
   \<Rightarrow> (object_id \<times> object_id) option \<Rightarrow> object_envelope list \<Rightarrow> replay_state \<Rightarrow> replay_state res" where
  "apply_queued_patch_envelopes sha256 read materialize sealed_lineage =
     rfold (\<lambda>envelope st.
       let patch_id = envelope_object_id sha256 envelope in
       rbind (map_err into_prikk_error
                (read_patch_operations_from_envelope sha256 envelope patch_id)) (\<lambda>operations.
       fold_operations (apply_state_effect_with_materialize_fallback sha256 read materialize
           sealed_lineage patch_id) into_prikk_error operations st))"

end
