(* ===== verification/Replay_Agreement.thy ===== *)
theory Replay_Agreement
  imports Lifecycle_Replay Patch_Apply Lifecycle_Spec
begin

text \<open>
  The two replays of a history agree. Lifecycle replay folds operations into the node index and
  knows contents by identity; materializing replay folds the same operations into bytes. The theory
  relates their states and shows that every step lifecycle replay takes, materializing replay takes
  too, into related states, unless it meets one of the two refusals it alone has: a symlink
  operation and a text that is not UTF-8.
\<close>

section \<open>Lifecycle effects on the abstract tree\<close>

lemma effect_Ok: "effect outcome = Ok s' \<longleftrightarrow> (\<exists>x. outcome = (Ok x, s'))"
  by (cases outcome) (auto simp: effect_def)

lemma exec_op_Ok:
  assumes "wf_lifecycle s" "exec_op op s = (Ok (), s')"
  shows "wf_lifecycle s'" "spec_op op (status s) = Some (status s')"
  using exec_op_meets [OF assms(1), of op] assms(2) by (simp_all add: meets_def)

lemma effect_exec:
  assumes "wf_lifecycle s" "effect outcome = Ok s'" "\<And>x. outcome = (Ok x, s') \<Longrightarrow> exec_op op s = (Ok (), s')"
  shows "wf_lifecycle s'" "spec_op op (status s) = Some (status s')"
  using exec_op_Ok [OF assms(1), of op] assms(2,3) unfolding effect_Ok by blast+

lemma effect_create:
  assumes "wf_lifecycle s" "effect (create_node n node s) = Ok s'"
  shows "wf_lifecycle s'" "spec_op (CreateOp n node) (status s) = Some (status s')"
  by (rule effect_exec [OF assms, where op = "CreateOp n node"]; simp)+

lemma effect_delete:
  assumes "wf_lifecycle s" "effect (delete_node_checked n node s) = Ok s'"
  shows "wf_lifecycle s'" "spec_op (DeleteCheckedOp n node) (status s) = Some (status s')"
  by (rule effect_exec [OF assms, where op = "DeleteCheckedOp n node"]; simp)+

lemma effect_chmod:
  assumes "wf_lifecycle s" "effect (change_file_mode n old new s) = Ok s'"
  shows "wf_lifecycle s'" "spec_op (ChangeModeOp n old new) (status s) = Some (status s')"
  by (rule effect_exec [OF assms, where op = "ChangeModeOp n old new"]; simp)+

lemma effect_replace:
  assumes "wf_lifecycle s" "effect (replace_file_blob n old new s) = Ok s'"
  shows "wf_lifecycle s'" "spec_op (ReplaceBlobOp n old new) (status s) = Some (status s')"
  by (rule effect_exec [OF assms, where op = "ReplaceBlobOp n old new"]; simp)+

lemma effect_set_text:
  assumes "wf_lifecycle s" "effect (set_text_blob n new s) = Ok s'"
  shows "wf_lifecycle s'" "spec_op (SetTextBlobOp n new) (status s) = Some (status s')"
  by (rule effect_exec [OF assms, where op = "SetTextBlobOp n new"]; simp)+

lemma effect_rename:
  assumes "wf_lifecycle s" "effect (rename_nodes_checked_batch renames s) = Ok s'"
  shows "wf_lifecycle s'" "spec_op (RenameBatchOp renames) (status s) = Some (status s')"
  by (rule effect_exec [OF assms, where op = "RenameBatchOp renames"]; simp)+

section \<open>Identities of contents\<close>

lemma file_blob_id_for_kind_Ok:
  "file_blob_id_for_kind H c k = Ok i \<longleftrightarrow>
     (\<exists>bk. blob_kind_for_node ''DeleteNode symlink node has no file-content blob'' k = Ok bk
        \<and> i = from_canonical_payload H Blob 1 (fields_bytes (blob_fields (new_blob bk c))))"
  by (auto simp: file_blob_id_for_kind_def encode_blob_Ok wf_blob_def new_blob_def)

lemma text_blob_id_Ok: "text_blob_id H c = Ok i \<longleftrightarrow> file_blob_id_for_kind H c TextFile = Ok i"
  by (simp add: text_blob_id_def file_blob_id_for_kind_def)

section \<open>Reading blobs both ways\<close>

definition addressed :: "(bytes \<Rightarrow> bytes) \<Rightarrow> reader \<Rightarrow> bool" where
  "addressed H read \<longleftrightarrow> (\<forall>i e. read i = Ok (Some e) \<longrightarrow> envelope_object_id H e = i)"

lemma resolve_blob_schema:
  "resolve_blob read True b = Ok (Some blob) \<longleftrightarrow>
     (\<exists>e. read b = Ok (Some e) \<and> env_type e = Blob \<and> env_schema e = 1
        \<and> decode_blob (env_payload e) = Ok blob)"
  by (auto simp: resolve_blob_def validate_blob_schema_def admitted_schemas_def Let_def
      split: option.splits if_splits)

lemma resolver_kind_Ok:
  "resolver_blob_kind read f b = Ok (Some k) \<longleftrightarrow>
     (\<exists>blob. resolve_blob read f b = Ok (Some blob) \<and> blob_kind_of blob = k)"
  by (auto simp: resolver_blob_kind_def)

lemma resolver_content_Ok:
  "resolver_blob_content read f b = Ok (Some (k, c)) \<longleftrightarrow>
     (\<exists>blob. resolve_blob read f b = Ok (Some blob) \<and> blob_kind_of blob = k \<and> blob_content blob = c)"
  by (auto simp: resolver_blob_content_def)

lemma decoded_blob_bytes:
  assumes "decode_blob bs = Ok blob"
  shows "bs = fields_bytes (blob_fields (new_blob (blob_kind_of blob) (blob_content blob)))"
  using decode_blob_OkD [OF assms] by (simp add: blob_fields_def new_blob_def wf_blob_def)

lemma resolved_file_blob:
  assumes "addressed H read" "resolve_blob read True b = Ok (Some blob)"
    and "node_kind_from_file_blob_kind (blob_kind_of blob) = Ok k"
  shows "read_blob_bytes_with_kind read b = Ok (k, blob_content blob)"
    and "file_blob_id_for_kind H (blob_content blob) k = Ok b"
proof -
  obtain e where e: "read b = Ok (Some e)" "env_type e = Blob" "env_schema e = 1"
      "decode_blob (env_payload e) = Ok blob"
    using assms(2) by (auto simp: resolve_blob_schema)
  show "read_blob_bytes_with_kind read b = Ok (k, blob_content blob)"
    using e assms(3)
    by (cases "blob_kind_of blob") (auto simp: read_blob_bytes_with_kind_def read_typed_def)
  have "envelope_object_id H e = b"
    using assms(1) e(1) by (simp add: addressed_def)
  then have "b = from_canonical_payload H Blob 1 (env_payload e)"
    using e by (simp add: envelope_object_id_def)
  moreover have "blob_kind_for_node ''DeleteNode symlink node has no file-content blob'' k
      = Ok (blob_kind_of blob)"
    using assms(3) by (cases "blob_kind_of blob") auto
  ultimately show "file_blob_id_for_kind H (blob_content blob) k = Ok b"
    using decoded_blob_bytes [OF e(4)] by (simp add: file_blob_id_for_kind_Ok)
qed

section \<open>The relation\<close>

lemma replay_current_text_Ok:
  "replay_current_text read f texts i b = Ok c \<longleftrightarrow>
     (case fmlookup texts i of Some x \<Rightarrow> c = x
      | None \<Rightarrow> resolver_blob_content read f b = Ok (Some (BlobText, c)))"
  by (auto simp: replay_current_text_def split: option.splits if_splits)

text \<open>
  One live node seen by both replays, with the bytes at its path: they hash to the recorded blob,
  and for a text node they are the text that the lifecycle replay would edit.
\<close>

definition node_mirror ::
  "(bytes \<Rightarrow> bytes) \<Rightarrow> reader \<Rightarrow> text_cache \<Rightarrow> node_id \<Rightarrow> live_node \<Rightarrow> replay_live_node \<Rightarrow> bytes \<Rightarrow> bool" where
  "node_mirror H read texts i n r c \<longleftrightarrow> path_str (ln_path n) = rl_path r \<and> ln_kind n = rl_kind r
     \<and> (\<exists>b. ln_content n = FileContent b (rl_mode r) \<and> file_blob_id_for_kind H c (rl_kind r) = Ok b
          \<and> (rl_kind r = BinaryFile \<longrightarrow> rl_blob_id r = b)
          \<and> (rl_kind r = TextFile \<longrightarrow> replay_current_text read True texts i b = Ok c))"

definition mirrors ::
  "(bytes \<Rightarrow> bytes) \<Rightarrow> reader \<Rightarrow> tree \<Rightarrow> text_cache \<Rightarrow> replay_tree \<Rightarrow> bool" where
  "mirrors H read T texts t \<longleftrightarrow>
     (\<forall>i n. T i = Live n \<longrightarrow> (\<exists>r c. fmlookup (tree_nodes t) i = Some r
         \<and> fmlookup (files t) (rl_path r) = Some c \<and> node_mirror H read texts i n r c))
     \<and> (\<forall>i r. fmlookup (tree_nodes t) i = Some r \<longrightarrow> (\<exists>n. T i = Live n))
     \<and> (\<forall>p c. fmlookup (files t) p = Some c \<longrightarrow> (\<exists>i n. T i = Live n \<and> path_str (ln_path n) = p))
     \<and> (\<forall>i x. fmlookup texts i = Some x \<longrightarrow> (\<exists>n. T i = Live n \<and> ln_kind n = TextFile))"

definition agree :: "(bytes \<Rightarrow> bytes) \<Rightarrow> reader \<Rightarrow> replay_state \<Rightarrow> replay_tree \<Rightarrow> bool" where
  "agree H read st t \<longleftrightarrow> wf_lifecycle (fst st) \<and> mirrors H read (status (fst st)) (snd st) t"

lemma mirrorsD:
  assumes "mirrors H read T texts t"
  shows "T i = Live n \<Longrightarrow> \<exists>r c. fmlookup (tree_nodes t) i = Some r
      \<and> fmlookup (files t) (rl_path r) = Some c \<and> node_mirror H read texts i n r c"
    and "fmlookup (tree_nodes t) i = Some r \<Longrightarrow> \<exists>n. T i = Live n"
    and "fmlookup (files t) p = Some c \<Longrightarrow> \<exists>i n. T i = Live n \<and> path_str (ln_path n) = p"
    and "fmlookup texts i = Some x \<Longrightarrow> \<exists>n. T i = Live n \<and> ln_kind n = TextFile"
  using assms unfolding mirrors_def by blast+

lemma mirrorsI:
  assumes "\<And>i n. T i = Live n \<Longrightarrow> \<exists>r c. fmlookup (tree_nodes t) i = Some r
      \<and> fmlookup (files t) (rl_path r) = Some c \<and> node_mirror H read texts i n r c"
    and "\<And>i r. fmlookup (tree_nodes t) i = Some r \<Longrightarrow> \<exists>n. T i = Live n"
    and "\<And>p c. fmlookup (files t) p = Some c \<Longrightarrow> \<exists>i n. T i = Live n \<and> path_str (ln_path n) = p"
    and "\<And>i x. fmlookup texts i = Some x \<Longrightarrow> \<exists>n. T i = Live n \<and> ln_kind n = TextFile"
  shows "mirrors H read T texts t"
  using assms unfolding mirrors_def by blast

lemma node_mirror_texts:
  assumes "fmlookup texts' i = fmlookup texts i"
  shows "node_mirror H read texts' i = node_mirror H read texts i"
  by (simp add: fun_eq_iff node_mirror_def replay_current_text_def assms)

lemma live_path_inj:
  assumes "wf_lifecycle s" "status s i = Live n" "status s j = Live m"
    and "path_str (ln_path n) = path_str (ln_path m)"
  shows "i = j"
proof -
  have "ln_path n = ln_path m"
    using assms(4) by (cases "ln_path n"; cases "ln_path m") simp
  then show ?thesis
    using assms(1-3) index_ok_inj [of s i n j m] by (simp add: wf_lifecycle_def)
qed

text \<open>Bytes of a live node change in place: the node keeps its path and kind.\<close>

lemma mirrors_update:
  assumes wf: "wf_lifecycle s" and m: "mirrors H read (status s) texts t" and n: "status s i = Live n"
    and r: "fmlookup (tree_nodes t) i = Some r"
    and r': "rl_path r' = rl_path r" and n': "ln_path n' = ln_path n" "ln_kind n' = ln_kind n"
    and new: "node_mirror H read texts' i n' r' c'"
    and texts': "\<And>j. j \<noteq> i \<Longrightarrow> fmlookup texts' j = fmlookup texts j"
      "\<And>x. fmlookup texts' i = Some x \<Longrightarrow> ln_kind n = TextFile"
  shows "mirrors H read ((status s)(i := Live n')) texts'
    (t\<lparr> files := fmupd (rl_path r) c' (files t), tree_nodes := fmupd i r' (tree_nodes t) \<rparr>)"
proof (rule mirrorsI, goal_cases)
  have path: "path_str (ln_path n) = rl_path r"
    using mirrorsD(1) [OF m n] r by (auto simp: node_mirror_def)
  have other: "rl_path q \<noteq> rl_path r" if "status s j = Live k" "j \<noteq> i" "path_str (ln_path k) = rl_path q" for j k q
    using live_path_inj [OF wf that(1) n] that path by auto
  {
    case (1 j k)
    show ?case
    proof (cases "j = i")
      case True
      then show ?thesis
        using 1 new r' by (auto simp: node_mirror_def)
    next
      case False
      then have k: "status s j = Live k"
        using 1 by simp
      obtain q d where q: "fmlookup (tree_nodes t) j = Some q" "fmlookup (files t) (rl_path q) = Some d"
          "node_mirror H read texts j k q d"
        using mirrorsD(1) [OF m k] by blast
      then have "rl_path q \<noteq> rl_path r"
        using other [OF k False, of q] by (simp add: node_mirror_def)
      then show ?thesis
        using q False by (auto simp: node_mirror_texts [OF texts'(1) [OF False]])
    qed
  next
    case (2 j q)
    then show ?case
      using mirrorsD(2) [OF m, of j] by (cases "j = i") auto
  next
    case (3 p c)
    show ?case
    proof (cases "p = rl_path r")
      case True
      then show ?thesis
        using path n' by (intro exI [of _ i] exI [of _ n']) simp
    next
      case False
      then obtain j k where "status s j = Live k" "path_str (ln_path k) = p"
        using 3 mirrorsD(3) [OF m, of p c] by auto
      then show ?thesis
        using False path n by (intro exI [of _ j] exI [of _ k]) auto
    qed
  next
    case (4 j x)
    show ?case
    proof (cases "j = i")
      case True
      then show ?thesis
        using texts'(2) 4 n' by auto
    next
      case False
      then show ?thesis
        using 4 texts'(1) [OF False] mirrorsD(4) [OF m, of j x] by auto
    qed
  }
qed

section \<open>Every operation keeps the relation\<close>

lemma parse_repo_path_Ok:
  "parse_repo_path p = Ok q \<longleftrightarrow> repo_path_parse p = Ok q"
  by (simp add: parse_repo_path_def)

lemma repo_path_parse_str: "repo_path_parse p = Ok q \<Longrightarrow> path_str q = p"
  by (auto simp: repo_path_parse_def)

lemma create_file_agrees:
  assumes ag: "agree H read st t" and ad: "addressed H read"
    and step: "apply_state_effect H read True (DCreateFile path i b mode) st = Ok st'"
  shows "\<exists>t'. tree_create_file read path i b mode t = Ok t' \<and> agree H read st' t'"
proof -
  obtain s texts where st: "st = (s, texts)"
    by (cases st)
  have wf: "wf_lifecycle s" and m: "mirrors H read (status s) texts t"
    using ag by (auto simp: agree_def st)
  obtain p blob k s' where p: "repo_path_parse path = Ok p"
      and blob: "resolve_blob read True b = Ok (Some blob)"
      and k: "node_kind_from_file_blob_kind (blob_kind_of blob) = Ok k"
      and eff: "effect (create_node i \<lparr> ln_path = p, ln_kind = k, ln_content = FileContent b mode \<rparr> s) = Ok s'"
      and st': "st' = (s', texts)"
    using step by (auto simp: st parse_repo_path_Ok resolver_kind_Ok)
  let ?n = "\<lparr> ln_path = p, ln_kind = k, ln_content = FileContent b mode \<rparr>"
  have path: "path_str p = path"
    using p by (rule repo_path_parse_str)
  have spec: "\<not> occupied_outside (status s) {} p" "\<And>n. status s i \<noteq> Live n"
    and st_s': "status s' = (status s)(i := Live ?n)"
    using effect_create(2) [OF wf eff] by (auto simp del: status_Live split: if_splits)
  have free: "fmlookup (files t) path = None"
    using mirrorsD(3) [OF m, of path] spec(1) path
    by (cases "fmlookup (files t) path")
      (auto simp: occupied_outside_def simp del: status_Live, metis repo_path.expand)
  have fresh: "fmlookup (tree_nodes t) i = None"
    using mirrorsD(2) [OF m, of i] spec(2) by (cases "fmlookup (tree_nodes t) i") auto
  have "fmlookup texts i = None"
    using mirrorsD(4) [OF m, of i] spec(2) by (cases "fmlookup texts i") auto
  then have current: "k = TextFile \<longrightarrow> replay_current_text read True texts i b = Ok (blob_content blob)"
    using blob k by (cases "blob_kind_of blob") (auto simp: replay_current_text_Ok resolver_content_Ok)
  let ?r = "\<lparr> rl_path = path, rl_kind = k, rl_mode = mode, rl_blob_id = b \<rparr>"
  let ?t' = "t\<lparr> deleted_files := fmdrop path (deleted_files t),
    files := fmupd path (blob_content blob) (files t), tree_nodes := fmupd i ?r (tree_nodes t) \<rparr>"
  have "tree_create_file read path i b mode t = Ok ?t'"
    using free fresh resolved_file_blob(1) [OF ad blob k]
    by (simp add: tree_create_file_def fmlookup_dom_iff)
  moreover have "mirrors H read ((status s)(i := Live ?n)) texts ?t'"
  proof (rule mirrorsI, goal_cases)
    case (1 j n)
    show ?case
    proof (cases "j = i")
      case True
      then show ?thesis
        using 1 path resolved_file_blob(2) [OF ad blob k] current by (auto simp: node_mirror_def)
    next
      case False
      then obtain r c where "fmlookup (tree_nodes t) j = Some r" "fmlookup (files t) (rl_path r) = Some c"
          "node_mirror H read texts j n r c"
        using 1 mirrorsD(1) [OF m, of j n] by auto
      then show ?thesis
        using False free by (intro exI [of _ r] exI [of _ c]) auto
    qed
  next
    case (2 j r)
    then show ?case
      using mirrorsD(2) [OF m, of j] by (cases "j = i") auto
  next
    case (3 q c)
    show ?case
    proof (cases "q = path")
      case True
      then show ?thesis
        using path by (intro exI [of _ i] exI [of _ ?n]) simp
    next
      case False
      then obtain j n where j: "status s j = Live n" "path_str (ln_path n) = q"
        using 3 mirrorsD(3) [OF m, of q c] by auto
      then show ?thesis
        using spec(2) by (intro exI [of _ j] exI [of _ n]) auto
    qed
  next
    case (4 j x)
    then obtain n where n: "status s j = Live n" "ln_kind n = TextFile"
      using mirrorsD(4) [OF m] by blast
    then have "j \<noteq> i"
      using spec(2) [of n] by auto
    then show ?case
      using n by (intro exI [of _ n]) simp
  qed
  ultimately show ?thesis
    using effect_create(1) [OF wf eff] st_s' by (auto simp: agree_def st')
qed

lemma delete_file_agrees:
  assumes ag: "agree H read st t"
    and step: "apply_state_effect H read True (DDeleteNode path i (DPreFile k b mode)) st = Ok st'"
  shows "\<exists>t'. tree_delete_file H path i k b t = Ok t' \<and> agree H read st' t'"
proof -
  obtain s texts where st: "st = (s, texts)"
    by (cases st)
  have wf: "wf_lifecycle s" and m: "mirrors H read (status s) texts t"
    using ag by (auto simp: agree_def st)
  obtain p s' where p: "repo_path_parse path = Ok p"
      and eff: "effect (delete_node_checked i \<lparr> ln_path = p, ln_kind = k, ln_content = FileContent b mode \<rparr> s) = Ok s'"
      and st': "st' = (s', fmdrop i texts)"
    using step by (auto simp: st parse_repo_path_Ok expected_deleted_node_def)
  let ?n = "\<lparr> ln_path = p, ln_kind = k, ln_content = FileContent b mode \<rparr>"
  have path: "path_str p = path"
    using p by (rule repo_path_parse_str)
  have n: "status s i = Live ?n" and st_s': "status s' = (status s)(i := Tombstoned (tombstone_of ?n))"
    using effect_delete(2) [OF wf eff] by (auto simp del: status_Live split: if_splits)
  obtain r c where r: "fmlookup (tree_nodes t) i = Some r" "fmlookup (files t) (rl_path r) = Some c"
      "node_mirror H read texts i ?n r c"
    using mirrorsD(1) [OF m n] by blast
  then have rp: "rl_path r = path" "rl_kind r = k" "file_blob_id_for_kind H c k = Ok b"
    using path by (auto simp: node_mirror_def)
  let ?d = "\<lparr> df_path = p, df_old_blob_id = b, df_old_node_kind = k \<rparr>"
  let ?t' = "t\<lparr> capture := capture_take b k c (capture t), files := fmdrop path (files t),
    tree_nodes := fmdrop i (tree_nodes t), deleted_files := fmupd path ?d (deleted_files t) \<rparr>"
  have "tree_delete_file H path i k b t = Ok ?t'"
    using r rp p by (simp add: tree_delete_file_def ensure_blob_matches_node_kind_def)
  moreover have "mirrors H read ((status s)(i := Tombstoned (tombstone_of ?n))) (fmdrop i texts) ?t'"
  proof (rule mirrorsI, goal_cases)
    case (1 j q)
    then have j: "j \<noteq> i" "status s j = Live q"
      by (auto split: if_splits)
    then obtain r' d where q: "fmlookup (tree_nodes t) j = Some r'" "fmlookup (files t) (rl_path r') = Some d"
        "node_mirror H read texts j q r' d"
      using mirrorsD(1) [OF m j(2)] by blast
    then have "rl_path r' \<noteq> path"
      using live_path_inj [OF wf j(2) n] j(1) path by (auto simp: node_mirror_def)
    then show ?case
      using q j node_mirror_texts [of "fmdrop i texts" j texts] by (intro exI [of _ r'] exI [of _ d]) auto
  next
    case (2 j q)
    then show ?case
      using mirrorsD(2) [OF m, of j q] by (cases "j = i") auto
  next
    case (3 q d)
    then have q: "q \<noteq> path" "fmlookup (files t) q = Some d"
      by (auto split: if_splits)
    then obtain j u where j: "status s j = Live u" "path_str (ln_path u) = q"
      using mirrorsD(3) [OF m, of q d] by blast
    then have "j \<noteq> i"
      using n q path by auto
    then show ?case
      using j by (intro exI [of _ j] exI [of _ u]) auto
  next
    case (4 j x)
    then show ?case
      using mirrorsD(4) [OF m, of j x] by (auto split: if_splits)
  qed
  ultimately show ?thesis
    using effect_delete(1) [OF wf eff] st_s' by (auto simp: agree_def st')
qed

lemma node_mirror_File:
  assumes "node_mirror H read texts i n r c" "ln_content n = FileContent b mode"
  shows "rl_mode r = mode" "file_blob_id_for_kind H c (ln_kind n) = Ok b" "rl_kind r = ln_kind n"
    "path_str (ln_path n) = rl_path r"
  using assms by (auto simp: node_mirror_def)

lemma files_unchanged: "fmlookup m k = Some c \<Longrightarrow> fmupd k c m = m"
  by (rule fmap_ext) auto

lemma change_perm_agrees:
  assumes ag: "agree H read st t"
    and step: "apply_state_effect H read True (DChangePerm i old new) st = Ok st'"
  shows "\<exists>t'. tree_change_perm i old new t = Ok t' \<and> agree H read st' t'"
proof -
  obtain s texts where st: "st = (s, texts)"
    by (cases st)
  have wf: "wf_lifecycle s" and m: "mirrors H read (status s) texts t"
    using ag by (auto simp: agree_def st)
  obtain s' where eff: "effect (change_file_mode i old new s) = Ok s'" and st': "st' = (s', texts)"
    using step by (auto simp: st)
  obtain n b where n: "status s i = Live n" "ln_content n = FileContent b old"
      and st_s': "status s' = (status s)(i := Live (n\<lparr> ln_content := FileContent b new \<rparr>))"
    using effect_chmod(2) [OF wf eff]
    by (auto simp del: status_Live split: node_status.splits node_content.splits if_splits)
  obtain r c where r: "fmlookup (tree_nodes t) i = Some r" "fmlookup (files t) (rl_path r) = Some c"
      "node_mirror H read texts i n r c"
    using mirrorsD(1) [OF m n(1)] by blast
  note mode = node_mirror_File [OF r(3) n(2)]
  have "tree_change_perm i old new t = Ok (t\<lparr> tree_nodes := fmupd i (r\<lparr> rl_mode := new \<rparr>) (tree_nodes t) \<rparr>)"
    using r mode by (simp add: tree_change_perm_def)
  moreover have "mirrors H read ((status s)(i := Live (n\<lparr> ln_content := FileContent b new \<rparr>))) texts
      (t\<lparr> files := fmupd (rl_path r) c (files t),
         tree_nodes := fmupd i (r\<lparr> rl_mode := new \<rparr>) (tree_nodes t) \<rparr>)"
  proof (rule mirrors_update [OF wf m n(1) r(1)])
    show "node_mirror H read texts i (n\<lparr> ln_content := FileContent b new \<rparr>) (r\<lparr> rl_mode := new \<rparr>) c"
      using r(3) n(2) by (auto simp: node_mirror_def)
    show "ln_kind n = TextFile" if "fmlookup texts i = Some x" for x
      using mirrorsD(4) [OF m that] n(1) by auto
  qed simp_all
  ultimately show ?thesis
    using effect_chmod(1) [OF wf eff] st_s' r(2) by (auto simp: agree_def st' files_unchanged)
qed

lemma replace_binary_agrees:
  assumes ag: "agree H read st t" and ad: "addressed H read"
    and step: "apply_state_effect H read True (DReplaceBinary i old new) st = Ok st'"
  shows "\<exists>t'. tree_replace_binary H read i old new t = Ok t' \<and> agree H read st' t'"
proof -
  obtain s texts where st: "st = (s, texts)"
    by (cases st)
  have wf: "wf_lifecycle s" and m: "mirrors H read (status s) texts t"
    using ag by (auto simp: agree_def st)
  obtain s' blob where eff: "effect (replace_file_blob i old new s) = Ok s'" and st': "st' = (s', texts)"
      and blob: "resolve_blob read True new = Ok (Some blob)" "blob_kind_of blob = BlobBinary"
    using step by (auto simp: st require_binary_blob_def resolver_kind_Ok split: if_splits)
  obtain n mode where n: "status s i = Live n" "ln_content n = FileContent old mode" "ln_kind n = BinaryFile"
      and st_s': "status s' = (status s)(i := Live (n\<lparr> ln_content := FileContent new mode \<rparr>))"
    using effect_replace(2) [OF wf eff]
    by (auto simp del: status_Live split: node_status.splits node_content.splits if_splits)
  obtain r c where r: "fmlookup (tree_nodes t) i = Some r" "fmlookup (files t) (rl_path r) = Some c"
      "node_mirror H read texts i n r c"
    using mirrorsD(1) [OF m n(1)] by blast
  note mode = node_mirror_File [OF r(3) n(2)]
  have k: "node_kind_from_file_blob_kind (blob_kind_of blob) = Ok BinaryFile"
    using blob by simp
  note rb = resolved_file_blob [OF ad blob(1) k]
  have "tree_replace_binary H read i old new t =
      Ok (t\<lparr> files := fmupd (rl_path r) (blob_content blob) (files t),
             tree_nodes := fmupd i (r\<lparr> rl_blob_id := new \<rparr>) (tree_nodes t) \<rparr>)"
    using r mode n rb(1)
    by (simp add: tree_replace_binary_def ensure_blob_matches_node_kind_def)
  moreover have "mirrors H read ((status s)(i := Live (n\<lparr> ln_content := FileContent new mode \<rparr>))) texts
      (t\<lparr> files := fmupd (rl_path r) (blob_content blob) (files t),
         tree_nodes := fmupd i (r\<lparr> rl_blob_id := new \<rparr>) (tree_nodes t) \<rparr>)"
  proof (rule mirrors_update [OF wf m n(1) r(1)])
    show "node_mirror H read texts i (n\<lparr> ln_content := FileContent new mode \<rparr>) (r\<lparr> rl_blob_id := new \<rparr>) (blob_content blob)"
      using mode n rb(2) by (auto simp: node_mirror_def)
    show "ln_kind n = TextFile" if "fmlookup texts i = Some x" for x
      using mirrorsD(4) [OF m that] n(1) by auto
  qed simp_all
  ultimately show ?thesis
    using effect_replace(1) [OF wf eff] st_s' by (auto simp: agree_def st')
qed

lemma content_blob_Ok [simp]:
  "(case c of FileContent b _ \<Rightarrow> Ok b | SymlinkContent _ \<Rightarrow> Err e) = Ok x \<longleftrightarrow> (\<exists>mode. c = FileContent x mode)"
  by (cases c) auto

lemma apply_edit_text_Ok:
  assumes "apply_edit_text H read f i span osh la ra repl ost ll rl (s, texts) = Ok st'"
  obtains n b mode cur start stop new b' s' where
    "text_span_hash H ost = osh" "fmlookup (live_by_id s) i = Some n" "ln_kind n = TextFile"
    "ln_content n = FileContent b mode" "replay_current_text read f texts i b = Ok cur"
    "resolve_text_span H cur ost la ra span i osh ll rl = Ok (start, stop)"
    "splice_text cur start stop repl = Ok new" "text_blob_id H new = Ok b'"
    "effect (set_text_blob i b' s) = Ok s'" "st' = (s', fmupd i new texts)"
  using assms by (auto simp: apply_edit_text_def live_node_at_def)

text \<open>The refusals that materializing replay has and lifecycle replay has not.\<close>

definition utf8_refusal :: "node_id \<Rightarrow> bytes \<Rightarrow> prikk_error" where
  "utf8_refusal i span_id = Integrity (''EditText failed during UTF-8 validation for node ''
     @ hex32 (node_bytes i) @ '' span '' @ hex32 span_id)"

text \<open>The text that lifecycle replay holds for a node: the edited text, or the stored one.\<close>

definition held_text :: "reader \<Rightarrow> bool \<Rightarrow> replay_state \<Rightarrow> node_id \<Rightarrow> bytes \<Rightarrow> bool" where
  "held_text read schema_one st i c \<longleftrightarrow> (\<exists>n b mode. status (fst st) i = Live n
     \<and> ln_content n = FileContent b mode \<and> replay_current_text read schema_one (snd st) i b = Ok c)"

definition refuses ::
  "reader \<Rightarrow> bool \<Rightarrow> replay_state \<Rightarrow> decoded_patch_operation \<Rightarrow> prikk_error \<Rightarrow> bool" where
  "refuses read schema_one st operation e \<longleftrightarrow> (case dop_kind operation of
       DCreateSymlink _ _ _ \<Rightarrow>
         e = unsupported_operation ''CreateSymlink (apply pending a symlink authoring path)''
     | DDeleteNode _ _ (DPreSymlink _) \<Rightarrow> e = unsupported_operation ''DeleteNode(symlink)''
     | DEditText i span_id _ _ _ _ _ _ _ \<Rightarrow>
         e = utf8_refusal i span_id \<and> (\<exists>c. held_text read schema_one st i c \<and> \<not> utf8_valid c)
     | _ \<Rightarrow> False)"

lemma edit_text_agrees:
  assumes ag: "agree H read st t"
    and step: "apply_edit_text H read True i span osh la ra repl ost ll rl st = Ok st'"
  shows "\<exists>c t'. (\<forall>d. held_text read True st i d \<longleftrightarrow> d = c) \<and> agree H read st' t'
    \<and> tree_edit_text H i span osh la ra repl ost ll rl t
        = (if utf8_valid c then Ok t' else Err (utf8_refusal i span))"
proof -
  obtain s texts where st: "st = (s, texts)"
    by (cases st)
  have wf: "wf_lifecycle s" and m: "mirrors H read (status s) texts t"
    using ag by (auto simp: agree_def st)
  obtain n b mode cur start stop new b' s' where
      hash: "text_span_hash H ost = osh" and n: "status s i = Live n" "ln_kind n = TextFile"
        "ln_content n = FileContent b mode"
      and cur: "replay_current_text read True texts i b = Ok cur"
      and res: "resolve_text_span H cur ost la ra span i osh ll rl = Ok (start, stop)"
      and new: "splice_text cur start stop repl = Ok new" "text_blob_id H new = Ok b'"
      and eff: "effect (set_text_blob i b' s) = Ok s'" and st': "st' = (s', fmupd i new texts)"
    using step unfolding st by (rule apply_edit_text_Ok) (simp add: that)
  obtain r c where r: "fmlookup (tree_nodes t) i = Some r" "fmlookup (files t) (rl_path r) = Some c"
      "node_mirror H read texts i n r c"
    using mirrorsD(1) [OF m n(1)] by blast
  note mode = node_mirror_File [OF r(3) n(3)]
  have "cur = c"
    using cur r(3) n by (auto simp: node_mirror_def)
  have st_s': "status s' = (status s)(i := Live (n\<lparr> ln_content := FileContent b' mode \<rparr>))"
    using effect_set_text(2) [OF wf eff] n by (auto split: if_splits)
  let ?t' = "t\<lparr> files := fmupd (rl_path r) new (files t) \<rparr>"
  have t': "?t' = t\<lparr> files := fmupd (rl_path r) new (files t), tree_nodes := fmupd i r (tree_nodes t) \<rparr>"
    using r(1) by (simp add: files_unchanged)
  have "mirrors H read ((status s)(i := Live (n\<lparr> ln_content := FileContent b' mode \<rparr>))) (fmupd i new texts)
      (t\<lparr> files := fmupd (rl_path r) new (files t), tree_nodes := fmupd i r (tree_nodes t) \<rparr>)"
  proof (rule mirrors_update [OF wf m n(1) r(1)])
    show "node_mirror H read (fmupd i new texts) i (n\<lparr> ln_content := FileContent b' mode \<rparr>) r new"
      using mode n new(2) by (simp add: node_mirror_def text_blob_id_Ok replay_current_text_def)
  qed (use n in \<open>auto split: if_splits\<close>)
  then have "agree H read st' ?t'"
    using effect_set_text(1) [OF wf eff] st_s' unfolding t' [symmetric] by (simp add: agree_def st')
  moreover have "tree_edit_text H i span osh la ra repl ost ll rl t =
      (if utf8_valid c then Ok ?t' else Err (utf8_refusal i span))"
    using hash r mode n res new \<open>cur = c\<close> by (simp add: tree_edit_text_def utf8_refusal_def)
  moreover have "\<forall>d. held_text read True st i d \<longleftrightarrow> d = c"
    using n cur \<open>cur = c\<close> by (auto simp: held_text_def st)
  ultimately show ?thesis
    by blast
qed

section \<open>A run of renames\<close>

definition op_renames :: "decoded_patch_operation \<Rightarrow> tree_rename \<Rightarrow> bool" where
  "op_renames operation = (\<lambda>(i, old, new). dop_kind operation = DRenamePath i old new)"

lemma rename_resolve_step:
  "dop_kind operation = DRenamePath i old new \<Longrightarrow>
   rename_resolve t operation (acc, S, D) = Ok res \<longleftrightarrow>
     (\<exists>r. fmlookup (tree_nodes t) i = Some r \<and> rl_path r = old) \<and> i \<notin> S \<and> new \<notin> D
     \<and> res = (acc @ [(i, old, new)], insert i S, insert new D)"
  by (auto simp: rename_resolve_def)

lemma rename_resolve_all:
  assumes "list_all2 op_renames operations raw"
    and "\<forall>(i, old, new) \<in> set raw. \<exists>r. fmlookup (tree_nodes t) i = Some r \<and> rl_path r = old"
    and "distinct (map fst raw)" "distinct (map (snd \<circ> snd) raw)"
    and "fst ` set raw \<inter> S = {}" "(snd \<circ> snd) ` set raw \<inter> D = {}"
  shows "\<exists>SD. rfold (rename_resolve t) operations (acc, S, D) = Ok (acc @ raw, SD)"
  using assms
proof (induction operations raw arbitrary: acc S D rule: list_all2_induct)
  case (Cons operation operations entry raw)
  obtain i old new where entry: "entry = (i, old, new)"
    by (cases entry)
  have op: "dop_kind operation = DRenamePath i old new"
    using Cons.hyps(1) by (simp add: op_renames_def entry)
  have "rename_resolve t operation (acc, S, D) = Ok (acc @ [(i, old, new)], insert i S, insert new D)"
    unfolding rename_resolve_step [OF op] using Cons.prems by (auto simp: entry)
  moreover have "\<exists>SD. rfold (rename_resolve t) operations (acc @ [(i, old, new)], insert i S, insert new D)
      = Ok ((acc @ [(i, old, new)]) @ raw, SD)"
    by (rule Cons.IH) (use Cons.prems in \<open>auto simp: entry\<close>)
  ultimately show ?case
    by (simp add: entry)
qed simp

lemma rename_vacate_step:
  "fmlookup fs old = Some c \<Longrightarrow>
   rename_vacate (i, old, new) (fs, acc) = Ok (fmdrop old fs, acc @ [(i, new, c)])"
  by (simp add: rename_vacate_def)

definition vacated :: "tree_rename list \<Rightarrow> (bytes, bytes) fmap \<Rightarrow> (bytes, bytes) fmap" where
  "vacated raw fs = fold (\<lambda>(_, old, _). fmdrop old) raw fs"

definition staged_of :: "(bytes, bytes) fmap \<Rightarrow> tree_rename list \<Rightarrow> staged_rename list" where
  "staged_of fs raw = map (\<lambda>(i, old, new). (i, new, the (fmlookup fs old))) raw"

lemma rename_vacate_all:
  assumes "distinct (map (fst \<circ> snd) raw)" "\<forall>(i, old, new) \<in> set raw. \<exists>c. fmlookup fs old = Some c"
  shows "rfold rename_vacate raw (fs, acc) = Ok (vacated raw fs, acc @ staged_of fs raw)"
  using assms
proof (induction raw arbitrary: fs acc)
  case (Cons entry raw)
  obtain i old new where entry: "entry = (i, old, new)"
    by (cases entry)
  obtain c where c: "fmlookup fs old = Some c"
    using Cons.prems by (auto simp: entry)
  have other: "old' \<noteq> old" if "(j, old', new') \<in> set raw" for j old' new'
    using Cons.prems(1) that by (force simp: entry)
  then have "staged_of (fmdrop old fs) raw = staged_of fs raw"
    by (auto simp: staged_of_def)
  moreover have "rfold rename_vacate raw (fmdrop old fs, acc @ [(i, new, c)])
      = Ok (vacated raw (fmdrop old fs), (acc @ [(i, new, c)]) @ staged_of (fmdrop old fs) raw)"
    using Cons.prems other by (intro Cons.IH) (auto simp: entry)
  ultimately show ?case
    by (simp add: entry rename_vacate_step [OF c] c vacated_def staged_of_def)
qed (simp add: vacated_def staged_of_def)

lemma lookup_vacated:
  "fmlookup (vacated raw fs) p = (if p \<in> (fst \<circ> snd) ` set raw then None else fmlookup fs p)"
  by (induction raw arbitrary: fs) (auto simp: vacated_def split: prod.splits)

lemma rename_commit_step:
  "rename_commit (i, new, c) t = t\<lparr> files := fmupd new c (files t),
     tree_nodes := (case fmlookup (tree_nodes t) i of
         Some live \<Rightarrow> fmupd i (live\<lparr> rl_path := new \<rparr>) (tree_nodes t) | None \<Rightarrow> tree_nodes t) \<rparr>"
  by (simp add: rename_commit_def)

lemma rename_commit_files:
  assumes "distinct (map (fst \<circ> snd) staged)"
  shows "fmlookup (files (fold rename_commit staged t)) p =
    (case map_of (map snd staged) p of Some c \<Rightarrow> Some c | None \<Rightarrow> fmlookup (files t) p)"
  using assms
proof (induction staged arbitrary: t)
  case (Cons entry staged)
  obtain i new c where entry: "entry = (i, new, c)"
    by (cases entry)
  have "map_of (map snd staged) new = None"
    using Cons.prems by (auto simp: entry map_of_eq_None_iff image_iff)
  then show ?case
    using Cons by (auto simp: entry rename_commit_step split: option.splits)
qed simp

lemma rename_commit_nodes:
  assumes "distinct (map fst staged)"
  shows "fmlookup (tree_nodes (fold rename_commit staged t)) i =
    (case map_of (map (\<lambda>(i, new, _). (i, new)) staged) i of
       Some new \<Rightarrow> map_option (\<lambda>r. r\<lparr> rl_path := new \<rparr>) (fmlookup (tree_nodes t) i)
     | None \<Rightarrow> fmlookup (tree_nodes t) i)"
  using assms
proof (induction staged arbitrary: t)
  case (Cons entry staged)
  obtain j new c where entry: "entry = (j, new, c)"
    by (cases entry)
  have "map_of (map (\<lambda>(i, new, _). (i, new)) staged) j = None"
    using Cons.prems by (auto simp: entry map_of_eq_None_iff image_iff)
  then show ?case
    using Cons by (auto simp: entry rename_commit_step split: option.splits)
qed simp

definition raw_renames :: "rename_entry list \<Rightarrow> tree_rename list" where
  "raw_renames renames = map (\<lambda>(i, old, new). (i, path_str old, path_str new)) renames"

definition renamed_tree :: "tree_rename list \<Rightarrow> replay_tree \<Rightarrow> replay_tree" where
  "renamed_tree raw t = fold rename_commit (staged_of (files t) raw) (t\<lparr> files := vacated raw (files t) \<rparr>)"

lemma path_str_eq: "path_str p = path_str q \<longleftrightarrow> p = q"
  by (cases p; cases q) simp

lemma map_raw_renames:
  "map fst (raw_renames renames) = map fst renames"
  "map (snd \<circ> snd) (raw_renames renames) = map path_str (map (snd \<circ> snd) renames)"
  "map (fst \<circ> snd) (raw_renames renames) = map path_str (map (fst \<circ> snd) renames)"
  by (auto simp: raw_renames_def)

lemma in_raw_renames:
  "(i, old, new) \<in> set (raw_renames renames) \<longleftrightarrow>
     (\<exists>p q. (i, p, q) \<in> set renames \<and> old = path_str p \<and> new = path_str q)"
  by (force simp: raw_renames_def)

lemma renamed_files_new:
  assumes "distinct (map (snd \<circ> snd) raw)" "(i, old, new) \<in> set raw" "fmlookup (files t) old = Some c"
  shows "fmlookup (files (renamed_tree raw t)) new = Some c"
proof -
  let ?staged = "staged_of (files t) raw"
  have keys: "map (fst \<circ> snd) ?staged = map (snd \<circ> snd) raw"
    by (auto simp: staged_of_def)
  have "map fst (map snd ?staged) = map (snd \<circ> snd) raw"
    by (auto simp: staged_of_def)
  moreover have "(new, c) \<in> set (map snd ?staged)"
    using assms(2,3) by (force simp: staged_of_def)
  ultimately have "map_of (map snd ?staged) new = Some c"
    using assms(1) by (metis map_of_eq_Some_iff)
  then show ?thesis
    using assms(1) by (simp add: renamed_tree_def rename_commit_files keys)
qed

lemma renamed_files_other:
  assumes "distinct (map (snd \<circ> snd) raw)" "p \<notin> (snd \<circ> snd) ` set raw"
  shows "fmlookup (files (renamed_tree raw t)) p =
    (if p \<in> (fst \<circ> snd) ` set raw then None else fmlookup (files t) p)"
proof -
  let ?staged = "staged_of (files t) raw"
  have keys: "map (fst \<circ> snd) ?staged = map (snd \<circ> snd) raw"
    by (auto simp: staged_of_def)
  have "map_of (map snd ?staged) p = None"
    using assms(2) by (force simp: staged_of_def map_of_eq_None_iff)
  then show ?thesis
    using assms(1) by (simp add: renamed_tree_def rename_commit_files keys lookup_vacated)
qed

lemma renamed_nodes_in:
  assumes "distinct (map fst raw)" "(i, old, new) \<in> set raw" "fmlookup (tree_nodes t) i = Some r"
  shows "fmlookup (tree_nodes (renamed_tree raw t)) i = Some (r\<lparr> rl_path := new \<rparr>)"
proof -
  let ?staged = "map (\<lambda>(i, new, _). (i, new)) (staged_of (files t) raw)"
  have keys: "map fst (staged_of (files t) raw) = map fst raw" "map fst ?staged = map fst raw"
    by (auto simp: staged_of_def)
  moreover have "(i, new) \<in> set ?staged"
    using assms(2) by (force simp: staged_of_def)
  ultimately have "map_of ?staged i = Some new"
    using assms(1) by (metis map_of_eq_Some_iff)
  then show ?thesis
    using assms(1,3) by (simp add: renamed_tree_def rename_commit_nodes keys)
qed

lemma renamed_nodes_out:
  assumes "distinct (map fst raw)" "i \<notin> fst ` set raw"
  shows "fmlookup (tree_nodes (renamed_tree raw t)) i = fmlookup (tree_nodes t) i"
proof -
  let ?staged = "map (\<lambda>(i, new, _). (i, new)) (staged_of (files t) raw)"
  have keys: "map fst (staged_of (files t) raw) = map fst raw"
    by (auto simp: staged_of_def)
  have "map_of ?staged i = None"
    using assms(2) by (force simp: staged_of_def map_of_eq_None_iff)
  then show ?thesis
    using assms(1) by (simp add: renamed_tree_def rename_commit_nodes keys)
qed

lemma rename_occupied_all:
  "rfold (\<lambda>entry _. rename_occupied fs entry) staged () = Ok () \<longleftrightarrow>
     (\<forall>(_, new, _) \<in> set staged. fmlookup fs new = None)"
  by (induction staged)
    (auto simp: rename_occupied_def fail_if_def fmlookup_dom_iff split: if_splits)

text \<open>The four checks of the batch pass exactly when sources, destinations and contents fit.\<close>

lemma apply_rename_batch_Ok:
  assumes "operations \<noteq> []" "list_all2 op_renames operations raw"
    and "\<forall>(i, old, new) \<in> set raw. \<exists>r c. fmlookup (tree_nodes t) i = Some r \<and> rl_path r = old
           \<and> fmlookup (files t) old = Some c"
    and "distinct (map fst raw)" "distinct (map (fst \<circ> snd) raw)" "distinct (map (snd \<circ> snd) raw)"
    and "\<forall>(i, old, new) \<in> set raw. new \<in> (fst \<circ> snd) ` set raw \<or> fmlookup (files t) new = None"
  shows "apply_rename_batch operations t = Ok (renamed_tree raw t)"
proof -
  have "\<exists>SD. rfold (rename_resolve t) operations ([], {}, {}) = Ok ([] @ raw, SD)"
    by (rule rename_resolve_all) (use assms in \<open>fastforce+\<close>)
  then obtain SD where "rfold (rename_resolve t) operations ([], {}, {}) = Ok (raw, SD)"
    by auto
  moreover have "rfold rename_vacate raw (files t, [])
      = Ok (vacated raw (files t), [] @ staged_of (files t) raw)"
    by (rule rename_vacate_all) (use assms in \<open>fastforce+\<close>)
  moreover have "rfold (\<lambda>entry _. rename_occupied (vacated raw (files t)) entry)
      (staged_of (files t) raw) () = Ok ()"
    unfolding rename_occupied_all using assms(7)
    by (auto simp: staged_of_def lookup_vacated)
  ultimately show ?thesis
    using assms(1) by (simp add: apply_rename_batch_def renamed_tree_def)
qed

text \<open>What an accepted batch says of the live nodes, with the injectivity of their paths.\<close>

definition batch_fits :: "tree \<Rightarrow> rename_entry list \<Rightarrow> bool" where
  "batch_fits T renames \<longleftrightarrow> distinct (map fst renames) \<and> distinct (map (snd \<circ> snd) renames)
     \<and> (\<forall>i j n m. T i = Live n \<longrightarrow> T j = Live m \<longrightarrow> path_str (ln_path n) = path_str (ln_path m) \<longrightarrow> i = j)
     \<and> (\<forall>i p q. (i, p, q) \<in> set renames \<longrightarrow> (\<exists>n. T i = Live n \<and> ln_path n = p)
          \<and> \<not> occupied_outside T (fst ` set renames) q)"

lemma batch_fitsD:
  assumes "batch_fits T renames"
  shows "distinct (map fst renames)" "distinct (map (snd \<circ> snd) renames)"
    and "T i = Live n \<Longrightarrow> T j = Live m \<Longrightarrow> path_str (ln_path n) = path_str (ln_path m) \<Longrightarrow> i = j"
    and "(i, p, q) \<in> set renames \<Longrightarrow> \<exists>n. T i = Live n \<and> ln_path n = p"
    and "(i, p, q) \<in> set renames \<Longrightarrow> \<not> occupied_outside T (fst ` set renames) q"
  using assms unfolding batch_fits_def by blast+

lemma batch_fits_spec:
  assumes "wf_lifecycle s" "spec_op (RenameBatchOp renames) (status s) = Some T'"
  shows "batch_fits (status s) renames" "T' = moved renames (status s)"
  using assms live_path_inj [OF assms(1)] unfolding batch_fits_def
  by (fastforce split: if_splits simp del: status_Live)+

lemma batch_fits_sources:
  assumes "batch_fits T renames"
  shows "distinct (map (fst \<circ> snd) renames)"
proof -
  have "x = y" if x: "x \<in> set renames" and y: "y \<in> set renames" and same: "(fst \<circ> snd) x = (fst \<circ> snd) y" for x y
  proof -
    obtain i p q j p' q' where xy: "x = (i, p, q)" "y = (j, p', q')"
      by (cases x; cases y)
    then obtain n m where "T i = Live n" "T j = Live m" "ln_path n = p" "ln_path m = p"
      using batch_fitsD(4) [OF assms, of i p q] batch_fitsD(4) [OF assms, of j p' q'] x y same by auto
    then have "i = j"
      using batch_fitsD(3) [OF assms] by simp
    then show ?thesis
      using assms x y xy inj_onD [of fst "set renames" x y] by (simp add: batch_fits_def distinct_map)
  qed
  then show ?thesis
    using assms by (auto simp: batch_fits_def distinct_map inj_on_def)
qed

lemma batch_fits_raw:
  assumes "batch_fits T renames"
  shows "distinct (map fst (raw_renames renames))" "distinct (map (fst \<circ> snd) (raw_renames renames))"
    "distinct (map (snd \<circ> snd) (raw_renames renames))"
proof -
  have inj: "inj_on path_str A" for A
    by (auto simp: inj_on_def path_str_eq)
  show "distinct (map fst (raw_renames renames))" "distinct (map (fst \<circ> snd) (raw_renames renames))"
    "distinct (map (snd \<circ> snd) (raw_renames renames))"
    using assms batch_fits_sources [OF assms] inj
    by (simp_all only: map_raw_renames distinct_map [of path_str] batch_fits_def)
qed

text \<open>A path that a batch touches belongs to a node of the batch.\<close>

lemma batch_fits_owner:
  assumes fits: "batch_fits T renames" and n: "T i = Live n"
  shows "path_str (ln_path n) \<in> (fst \<circ> snd) ` set (raw_renames renames) \<longleftrightarrow> i \<in> fst ` set renames"
    and "path_str (ln_path n) \<in> (snd \<circ> snd) ` set (raw_renames renames) \<Longrightarrow> i \<in> fst ` set renames"
proof -
  note src = batch_fitsD(4) [OF fits] and free = batch_fitsD(5) [OF fits] and uniq = batch_fitsD(3) [OF fits n]
  show "path_str (ln_path n) \<in> (fst \<circ> snd) ` set (raw_renames renames) \<longleftrightarrow> i \<in> fst ` set renames"
  proof
    assume "path_str (ln_path n) \<in> (fst \<circ> snd) ` set (raw_renames renames)"
    then obtain j p q where "(j, p, q) \<in> set renames" "path_str (ln_path n) = path_str p"
      by (force simp: raw_renames_def)
    then show "i \<in> fst ` set renames"
      using src [of j p q] uniq [of j] by force
  next
    assume "i \<in> fst ` set renames"
    then obtain p q where pq: "(i, p, q) \<in> set renames"
      by force
    then have "(i, path_str (ln_path n), path_str q) \<in> set (raw_renames renames)"
      using src [OF pq] n by (auto simp: in_raw_renames)
    then show "path_str (ln_path n) \<in> (fst \<circ> snd) ` set (raw_renames renames)"
      by force
  qed
  show "i \<in> fst ` set renames" if "path_str (ln_path n) \<in> (snd \<circ> snd) ` set (raw_renames renames)"
    using that free n by (fastforce simp: raw_renames_def occupied_outside_def path_str_eq)
qed

lemma batch_fits_held:
  assumes "batch_fits T renames" "mirrors H read T texts t" "(i, p, q) \<in> set renames"
  shows "\<exists>n r c. T i = Live n \<and> ln_path n = p \<and> fmlookup (tree_nodes t) i = Some r
      \<and> rl_path r = path_str p \<and> fmlookup (files t) (path_str p) = Some c \<and> node_mirror H read texts i n r c"
proof -
  obtain n where n: "T i = Live n" "ln_path n = p"
    using batch_fitsD(4) [OF assms(1,3)] by blast
  then show ?thesis
    using mirrorsD(1) [OF assms(2) n(1)] by (auto simp: node_mirror_def)
qed

lemma rename_batch_accepted:
  assumes fits: "batch_fits T renames" and m: "mirrors H read T texts t"
    and ops: "operations \<noteq> []" "list_all2 op_renames operations (raw_renames renames)"
  shows "apply_rename_batch operations t = Ok (renamed_tree (raw_renames renames) t)"
proof (rule apply_rename_batch_Ok [OF ops _ batch_fits_raw [OF fits]], goal_cases)
  case 1
  show ?case
    using batch_fits_held [OF fits m] by (fastforce simp: in_raw_renames)
next
  case 2
  let ?raw = "raw_renames renames"
  have "new \<in> (fst \<circ> snd) ` set ?raw"
    if new: "(i, old, new) \<in> set ?raw" and c: "fmlookup (files t) new = Some c" for i old new c
  proof -
    obtain j n where n: "T j = Live n" "path_str (ln_path n) = new"
      using mirrorsD(3) [OF m c] by blast
    moreover have "new \<in> (snd \<circ> snd) ` set ?raw"
      using new by force
    ultimately show ?thesis
      using batch_fits_owner [OF fits n(1)] by simp
  qed
  then show ?case
    by fastforce
qed

lemma moved_in:
  assumes "batch_fits T renames" "(i, p, q) \<in> set renames" "T i = Live n"
  shows "moved renames T i = Live (n\<lparr> ln_path := q \<rparr>)"
proof -
  have "distinct (map fst renames)"
    using assms(1) by (simp add: batch_fits_def)
  then show ?thesis
    using assms(2,3) map_of_targets [of renames i q] by (auto simp: moved_def)
qed

lemma moved_out:
  assumes "i \<notin> fst ` set renames"
  shows "moved renames T i = T i"
proof -
  have "map_of (batch_targets renames) i = None"
    using assms by (force simp: batch_targets_def map_of_eq_None_iff)
  then show ?thesis
    by (simp add: moved_def split: node_status.splits)
qed

lemma rename_batch_mirrors:
  assumes fits: "batch_fits T renames" and m: "mirrors H read T texts t"
  shows "mirrors H read (moved renames T) texts (renamed_tree (raw_renames renames) t)"
proof (rule mirrorsI, goal_cases)
  let ?raw = "raw_renames renames" and ?t = "renamed_tree (raw_renames renames) t"
  note dist = batch_fits_raw [OF fits] and held = batch_fits_held [OF fits m]
  have raw_ids: "fst ` set ?raw = fst ` set renames"
    using arg_cong [OF map_raw_renames(1), of set] by simp
  have stay: "fmlookup (tree_nodes ?t) i = fmlookup (tree_nodes t) i" if "i \<notin> fst ` set renames" for i
    using renamed_nodes_out [OF dist(1), of i t] that raw_ids by simp
  have keep: "fmlookup (files ?t) (path_str (ln_path n)) = fmlookup (files t) (path_str (ln_path n))"
    if "i \<notin> fst ` set renames" "T i = Live n" for i n
    using that(1) batch_fits_owner [OF fits that(2)] by (subst renamed_files_other [OF dist(3)]) auto
  have into: "fmlookup (files ?t) (path_str q) = Some c"
      "fmlookup (tree_nodes ?t) i = Some (r\<lparr> rl_path := path_str q \<rparr>)"
    if pq: "(i, p, q) \<in> set renames" and c: "fmlookup (files t) (path_str p) = Some c"
      and r: "fmlookup (tree_nodes t) i = Some r" for i p q c r
  proof -
    have raw: "(i, path_str p, path_str q) \<in> set ?raw"
      using pq by (auto simp: in_raw_renames)
    show "fmlookup (files ?t) (path_str q) = Some c"
      by (rule renamed_files_new [OF dist(3) raw c])
    show "fmlookup (tree_nodes ?t) i = Some (r\<lparr> rl_path := path_str q \<rparr>)"
      by (rule renamed_nodes_in [OF dist(1) raw r])
  qed
  {
    case (1 i n')
    show ?case
    proof (cases "i \<in> fst ` set renames")
      case True
      then obtain p q where pq: "(i, p, q) \<in> set renames"
        by force
      then obtain n r c where "T i = Live n" "fmlookup (tree_nodes t) i = Some r"
          "fmlookup (files t) (path_str p) = Some c" "node_mirror H read texts i n r c"
        using held by blast
      then show ?thesis
        using 1 moved_in [OF fits pq] into [OF pq] by (auto simp: node_mirror_def)
    next
      case False
      then show ?thesis
        using 1 moved_out [of i renames T] stay [of i] keep [of i n'] mirrorsD(1) [OF m, of i n']
        by (auto simp: node_mirror_def)
    qed
  next
    case (2 i r)
    show ?case
    proof (cases "i \<in> fst ` set renames")
      case True
      then show ?thesis
        using held moved_in [OF fits] by fastforce
    next
      case False
      then show ?thesis
        using 2 mirrorsD(2) [OF m, of i] moved_out [of i renames T] stay [of i] by auto
    qed
  next
    case (3 p c)
    show ?case
    proof (cases "p \<in> (snd \<circ> snd) ` set ?raw")
      case True
      then obtain i p' q where "(i, p', q) \<in> set renames" "p = path_str q"
        by (force simp: in_raw_renames)
      then show ?thesis
        using held [of i p' q] moved_in [OF fits, of i p' q] by force
    next
      case False
      then have p: "p \<notin> (fst \<circ> snd) ` set ?raw" "fmlookup (files t) p = Some c"
        using 3 by (auto simp: renamed_files_other [OF dist(3) False] split: if_splits)
      then obtain i n where n: "T i = Live n" "path_str (ln_path n) = p"
        using mirrorsD(3) [OF m p(2)] by blast
      then show ?thesis
        using p(1) batch_fits_owner(1) [OF fits n(1)] moved_out [of i renames T] by auto
    qed
  next
    case (4 i x)
    then obtain n where n: "T i = Live n" "ln_kind n = TextFile"
      using mirrorsD(4) [OF m] by blast
    show ?case
    proof (cases "i \<in> fst ` set renames")
      case True
      then obtain p q where pq: "(i, p, q) \<in> set renames"
        by force
      then show ?thesis
        using n moved_in [OF fits pq n(1)] by auto
    next
      case False
      then show ?thesis
        using n moved_out [of i renames T] by simp
    qed
  }
qed

end
