(* ===== verification/Replay_Chain.thy ===== *)
theory Replay_Chain
  imports Replay_Agreement
begin

text \<open>
  The two replays over whole patches and block chains. The lifecycle replay
  (\<open>lifecycle_cache/replay.rs\<close>) and the materializing replay (\<open>patch_replay.rs\<close>,
  \<open>patch_replay/anchor.rs\<close>) read the same blocks with separate walkers and fold separate
  operation semantics; the lemmas of \<open>Replay_Agreement\<close> on single operations and rename runs are
  lifted here to operation sequences, patches and chains.
\<close>

section \<open>Sequences of operations\<close>

text \<open>The tree side follows a state: it agrees with it, or it refused for one of the reasons given.\<close>

definition follows ::
  "(bytes \<Rightarrow> bytes) \<Rightarrow> reader \<Rightarrow> ('a \<Rightarrow> replay_tree) \<Rightarrow> (prikk_error \<Rightarrow> bool) \<Rightarrow> replay_state \<Rightarrow> 'a res \<Rightarrow> bool" where
  "follows H read tree why st r \<longleftrightarrow> (case r of Ok x \<Rightarrow> agree H read st (tree x) | Err e \<Rightarrow> why e)"

lemma follows_simps [simp]:
  "follows H read tree why st (Ok x) \<longleftrightarrow> agree H read st (tree x)"
  "follows H read tree why st (Err e) \<longleftrightarrow> why e"
  by (simp_all add: follows_def)

lemma follows_bind:
  assumes "follows H read tree why st r" "\<And>e. why e \<Longrightarrow> why' e"
    and "\<And>x. agree H read st (tree x) \<Longrightarrow> follows H read tree' why' st' (f x)"
  shows "follows H read tree' why' st' (rbind r f)"
  using assms by (cases r) auto

lemma follows_mono:
  "follows H read tree why st r \<Longrightarrow> (\<And>e. why e \<Longrightarrow> why' e) \<Longrightarrow> follows H read tree why' st r"
  by (cases r) auto

lemma rename_op_path: "rename_op = path_rename"
  by (rule ext) (simp add: rename_op_def path_rename_def split: decoded_operation_kind.splits)

lemma operation_follows:
  assumes ag: "agree H read st t" and ad: "addressed H read"
    and step: "apply_state_effect H read True (dop_kind operation) st = Ok st'"
  shows "follows H read id (refuses read True st operation) st' (apply_decoded_operation H read operation t)"
    and "refuses read True st operation e \<Longrightarrow> apply_decoded_operation H read operation t = Err e"
proof -
  have "follows H read id (refuses read True st operation) st' (apply_decoded_operation H read operation t)
      \<and> (\<forall>e. refuses read True st operation e \<longrightarrow> apply_decoded_operation H read operation t = Err e)"
  proof (cases "dop_kind operation")
    case (DEditText i span osh la ra repl ost ll rl)
    have "apply_edit_text H read True i span osh la ra repl ost ll rl st = Ok st'"
      using step DEditText by (cases st) simp
    from edit_text_agrees [OF ag this] obtain c t' where c: "\<And>d. held_text read True st i d \<longleftrightarrow> d = c"
        and t': "agree H read st' t'" "tree_edit_text H i span osh la ra repl ost ll rl t
          = (if utf8_valid c then Ok t' else Err (utf8_refusal i span))"
      by blast
    have "refuses read True st operation e \<longleftrightarrow> e = utf8_refusal i span \<and> \<not> utf8_valid c" for e
      by (simp add: refuses_def DEditText c)
    moreover have "apply_decoded_operation H read operation t = tree_edit_text H i span osh la ra repl ost ll rl t"
      by (simp add: apply_decoded_operation_def ensure_apply_supported_def DEditText)
    ultimately show ?thesis
      using t' by simp
  next
    case (DCreateFile path i b mode)
    then show ?thesis
      using create_file_agrees [OF ag ad] step
      by (fastforce simp: apply_decoded_operation_def ensure_apply_supported_def refuses_def)
  next
    case (DDeleteNode path i pre)
    then show ?thesis
      using delete_file_agrees [OF ag] step
      by (cases pre) (fastforce simp: apply_decoded_operation_def ensure_apply_supported_def refuses_def)+
  next
    case (DReplaceBinary i old new)
    then show ?thesis
      using replace_binary_agrees [OF ag ad] step
      by (fastforce simp: apply_decoded_operation_def ensure_apply_supported_def refuses_def)
  next
    case (DChangePerm i old new)
    then show ?thesis
      using change_perm_agrees [OF ag] step
      by (fastforce simp: apply_decoded_operation_def ensure_apply_supported_def refuses_def)
  qed (use step in \<open>cases st; simp add: apply_decoded_operation_def ensure_apply_supported_def refuses_def\<close>)+
  then show "follows H read id (refuses read True st operation) st' (apply_decoded_operation H read operation t)"
    and "refuses read True st operation e \<Longrightarrow> apply_decoded_operation H read operation t = Err e"
    by blast+
qed

lemma rename_triple_raw:
  "rename_triple k = Ok e \<Longrightarrow> (case e of (i, p, q) \<Rightarrow> k = DRenamePath i (path_str p) (path_str q))"
  by (cases k) (auto simp: parse_repo_path_Ok dest: repo_path_parse_str)

lemma rmap_rename_triples:
  "rmap (\<lambda>operation. rename_triple (dop_kind operation)) operations = Ok run \<Longrightarrow>
     list_all2 op_renames operations (raw_renames run)"
  by (induction operations arbitrary: run)
    (auto simp: raw_renames_def op_renames_def dest!: rename_triple_raw split: prod.splits)

lemma rename_run_follows:
  assumes ag: "agree H read st t" and run: "collect_rename_run operation rest = Ok run"
    and step: "apply_rename_run run (fst st) = Ok s'"
  shows "follows H read id (\<lambda>_. False) (s', snd st) (apply_rename_batch (operation # takeWhile path_rename rest) t)"
proof -
  have wf: "wf_lifecycle (fst st)" and m: "mirrors H read (status (fst st)) (snd st) t"
    using ag by (auto simp: agree_def)
  have spec: "wf_lifecycle s'" "spec_op (RenameBatchOp run) (status (fst st)) = Some (status s')"
    using effect_rename [OF wf] step by (auto simp: apply_rename_run_def)
  note fits = batch_fits_spec [OF wf spec(2)]
  have "list_all2 op_renames (operation # takeWhile path_rename rest) (raw_renames run)"
    using run unfolding collect_rename_run_def rename_op_path by (rule rmap_rename_triples)
  then show ?thesis
    using rename_batch_accepted [OF fits(1) m] rename_batch_mirrors [OF fits(1) m] spec(1) fits(2)
    by (simp add: agree_def)
qed

text \<open>An operation that is no rename ends every run, so a sequence splits in front of it.\<close>

lemma fold_operations_split:
  assumes "\<not> rename_op operation"
  shows "fold_operations step wrap (before @ operation # after) st
    = rbind (fold_operations step wrap before st) (fold_operations step wrap (operation # after))"
proof (induction before arbitrary: st rule: measure_induct_rule [of length])
  case (less before)
  then show ?case
    using assms length_dropWhile_le [of rename_op "tl before"]
    by (cases before) (auto simp: collect_rename_run_def takeWhile_tail dropWhile_append3 rbind_assoc
        le_imp_less_Suc intro!: rbind_cong)
qed

lemma apply_operation_sequence_split:
  assumes "\<not> path_rename operation"
  shows "apply_operation_sequence H read (before @ operation # after) acc
    = rbind (apply_operation_sequence H read before acc) (apply_operation_sequence H read (operation # after))"
proof (induction before arbitrary: acc rule: measure_induct_rule [of length])
  case (less before)
  then show ?case
    using assms length_dropWhile_le [of path_rename "tl before"]
    by (cases before; cases acc) (auto simp: takeWhile_tail dropWhile_append3 rbind_assoc Let_def
        le_imp_less_Suc intro!: rbind_cong)
qed

text \<open>A refusal within a sequence: at an operation that the sequence reaches.\<close>

definition refused_in ::
  "(bytes \<Rightarrow> bytes) \<Rightarrow> reader \<Rightarrow> bool \<Rightarrow> decoded_patch_operation list \<Rightarrow> replay_state \<Rightarrow> prikk_error \<Rightarrow> bool" where
  "refused_in H read schema_one operations st e \<longleftrightarrow> (\<exists>before operation after st1.
     operations = before @ operation # after
     \<and> fold_operations (apply_state_effect H read schema_one) id before st = Ok st1
     \<and> refuses read schema_one st1 operation e)"

lemma refuses_no_rename: "refuses read f st operation e \<Longrightarrow> \<not> path_rename operation"
  by (auto simp: refuses_def path_rename_def split: decoded_operation_kind.splits)

lemma refused_in_head: "refuses read f st operation e \<Longrightarrow> refused_in H read f (operation # rest) st e"
  unfolding refused_in_def by (rule exI [of _ "[]"]) simp

lemma refused_in_step:
  assumes "\<not> path_rename operation" "apply_state_effect H read f (dop_kind operation) st = Ok st1"
    and "refused_in H read f rest st1 e"
  shows "refused_in H read f (operation # rest) st e"
proof -
  obtain before op after st2 where "rest = before @ op # after"
      "fold_operations (apply_state_effect H read f) id before st1 = Ok st2" "refuses read f st2 op e"
    using assms(3) unfolding refused_in_def by blast
  then show ?thesis
    using assms(1,2) unfolding refused_in_def
    by (intro exI [of _ "operation # before"] exI conjI) (auto simp: rename_op_path)
qed

lemma refused_in_run:
  assumes "path_rename operation" "collect_rename_run operation rest = Ok run" "apply_rename_run run (fst st) = Ok s'"
    and "refused_in H read f (dropWhile path_rename rest) (s', snd st) e"
  shows "refused_in H read f (operation # rest) st e"
proof -
  obtain before op after st2 where split: "dropWhile path_rename rest = before @ op # after"
      and st2: "fold_operations (apply_state_effect H read f) id before (s', snd st) = Ok st2" "refuses read f st2 op e"
    using assms(4) unfolding refused_in_def by blast
  let ?run = "operation # takeWhile path_rename rest"
  have run: "fold_operations (apply_state_effect H read f) id ?run st = Ok (s', snd st)"
  proof -
    have "collect_rename_run operation (takeWhile path_rename rest) = Ok run"
      using assms(2) by (simp add: collect_rename_run_def rename_op_path)
    moreover have drop: "dropWhile path_rename (takeWhile path_rename rest) = []"
      by (auto simp: dropWhile_eq_Nil_conv dest: set_takeWhileD)
    ultimately show ?thesis
      using assms(1,3) by (simp add: rename_op_path id_def drop)
  qed
  have "fold_operations (apply_state_effect H read f) id (?run @ before) st = Ok st2"
  proof (cases before)
    case Nil
    then show ?thesis
      using run st2(1) by simp
  next
    case (Cons b bs)
    then have "\<not> rename_op b"
      using hd_dropWhile [of path_rename rest] split by (auto simp: rename_op_path)
    from fold_operations_split [OF this, of "apply_state_effect H read f" id ?run bs st] show ?thesis
      using run st2(1) Cons by simp
  qed
  moreover have "operation # rest = (?run @ before) @ op # after"
    using takeWhile_dropWhile_id [of path_rename rest] split by simp
  ultimately show ?thesis
    using st2(2) unfolding refused_in_def by blast
qed

lemma sequence_follows:
  assumes ad: "addressed H read"
    and "fold_operations (apply_state_effect H read True) id operations st = Ok st'"
    and "agree H read st (fst acc)"
  shows "follows H read fst (refused_in H read True operations st) st' (apply_operation_sequence H read operations acc)"
  using assms(2,3)
proof (induction operations arbitrary: st acc rule: measure_induct_rule [of length])
  case (less operations)
  obtain t count kinds where acc: "acc = (t, count, kinds)"
    by (cases acc)
  show ?case
  proof (cases operations)
    case Nil
    then show ?thesis
      using less.prems by simp
  next
    case (Cons operation rest)
    show ?thesis
    proof (cases "path_rename operation")
      case True
      then obtain run s' where run: "collect_rename_run operation rest = Ok run"
          and s': "apply_rename_run run (fst st) = Ok s'"
          and tail: "fold_operations (apply_state_effect H read True) id (dropWhile path_rename rest)
            (s', snd st) = Ok st'"
        using less.prems(1) by (auto simp: Cons rename_op_path id_def)
      have "follows H read id (\<lambda>_. False) (s', snd st) (apply_rename_batch (operation # takeWhile path_rename rest) t)"
        using rename_run_follows [OF _ run s'] less.prems(2) by (simp add: acc)
      moreover have "follows H read fst (refused_in H read True (operation # rest) st) st'
          (apply_operation_sequence H read (dropWhile path_rename rest) acc1)"
        if "agree H read (s', snd st) (fst acc1)" for acc1
        by (rule follows_mono [OF less.IH [OF _ tail that]])
          (use length_dropWhile_le [of path_rename rest] in
            \<open>auto simp: Cons intro: refused_in_run [OF True run s']\<close>)
      ultimately show ?thesis
        using True by (auto simp: Cons acc Let_def intro!: follows_bind [where tree = id])
    next
      case False
      then obtain st1 where st1: "apply_state_effect H read True (dop_kind operation) st = Ok st1"
          and tail: "fold_operations (apply_state_effect H read True) id rest st1 = Ok st'"
        using less.prems(1) by (auto simp: Cons rename_op_path id_def)
      have "follows H read id (refuses read True st operation) st1 (apply_decoded_operation H read operation t)"
        using operation_follows(1) [OF _ ad st1] less.prems(2) by (simp add: acc)
      moreover have "follows H read fst (refused_in H read True (operation # rest) st) st'
          (apply_operation_sequence H read rest acc1)" if "agree H read st1 (fst acc1)" for acc1
        by (rule follows_mono [OF less.IH [OF _ tail that]])
          (auto simp: Cons intro: refused_in_step [OF False st1])
      ultimately show ?thesis
        using False by (auto simp: Cons acc intro!: follows_bind [where tree = id] refused_in_head)
    qed
  qed
qed

lemma sequence_not_refused:
  assumes ad: "addressed H read" and ag: "agree H read st (fst acc)"
    and st': "fold_operations (apply_state_effect H read True) id operations st = Ok st'"
    and acc': "apply_operation_sequence H read operations acc = Ok acc'"
  shows "\<not> refused_in H read True operations st e"
proof
  assume "refused_in H read True operations st e"
  then obtain before operation after st1 where split: "operations = before @ operation # after"
      and st1: "fold_operations (apply_state_effect H read True) id before st = Ok st1"
      and refuses: "refuses read True st1 operation e"
    unfolding refused_in_def by blast
  note no_rename = refuses_no_rename [OF refuses]
  obtain st2 where st2: "apply_state_effect H read True (dop_kind operation) st1 = Ok st2"
    using st' no_rename st1 fold_operations_split [of operation "apply_state_effect H read True" id before after st]
    by (auto simp: split rename_op_path)
  obtain t count kinds where acc1: "apply_operation_sequence H read before acc = Ok (t, count, kinds)"
      "\<exists>t'. apply_decoded_operation H read operation t = Ok t'"
    using acc' no_rename apply_operation_sequence_split [OF no_rename, of H read before after acc]
    by (auto simp: split)
  then have "agree H read st1 t"
    using sequence_follows [OF ad st1 ag] by simp
  from operation_follows(2) [OF this ad st2 refuses] acc1(2) show False
    by simp
qed

section \<open>Patches and chains of blocks\<close>

lemma read_patch_operations_read:
  assumes "read_patch_operations H read i schema_one = Ok operations"
  shows "\<exists>e. read_patch read i = Ok e
    \<and> decode_patch_operations H (env_payload e) (env_schema e) = Ok operations"
proof -
  obtain e where e: "read i = Ok (Some e)"
    using assms by (cases "read i") (auto simp: read_patch_operations_def split: option.splits)
  then show ?thesis
    using assms by (auto simp: read_patch_operations_def read_patch_def read_typed_def split: if_splits)
qed

definition refused_by_patches ::
  "(bytes \<Rightarrow> bytes) \<Rightarrow> reader \<Rightarrow> bool \<Rightarrow> object_id list \<Rightarrow> replay_state \<Rightarrow> prikk_error \<Rightarrow> bool" where
  "refused_by_patches H read schema_one patch_ids st e \<longleftrightarrow> (\<exists>before i after st1 operations.
     patch_ids = before @ i # after \<and> apply_patch_ids H read schema_one before st = Ok st1
     \<and> read_patch_operations H read i schema_one = Ok operations
     \<and> refused_in H read schema_one operations st1 e)"

definition refused_on_chain ::
  "(bytes \<Rightarrow> bytes) \<Rightarrow> reader \<Rightarrow> bool \<Rightarrow> walked_block list \<Rightarrow> replay_state \<Rightarrow> prikk_error \<Rightarrow> bool" where
  "refused_on_chain H read schema_one chain st e \<longleftrightarrow> (\<exists>before i block after st1.
     chain = before @ (i, block) # after
     \<and> rfold (\<lambda>(_, block). apply_patch_ids H read schema_one (block_patch_ids block)) before st = Ok st1
     \<and> refused_by_patches H read schema_one (block_patch_ids block) st1 e)"

lemma patch_follows:
  assumes ad: "addressed H read" and ag: "agree H read st (ch_tree chain)"
    and ops: "read_patch_operations H read i True = Ok operations"
    and st1: "fold_operations (apply_state_effect H read True) id operations st = Ok st1"
  shows "follows H read ch_tree (refused_in H read True operations st) st1 (chain_patch H read i chain)"
    and "chain_patch H read i chain = Ok chain' \<Longrightarrow> \<not> refused_in H read True operations st e"
proof -
  obtain envelope where e: "read_patch read i = Ok envelope"
      "decode_patch_operations H (env_payload envelope) (env_schema envelope) = Ok operations"
    using read_patch_operations_read [OF ops] by blast
  show "follows H read ch_tree (refused_in H read True operations st) st1 (chain_patch H read i chain)"
    using sequence_follows [OF ad st1, of "(ch_tree chain, 0, {||})"] ag
    by (auto simp: chain_patch_def e intro!: follows_bind [where tree = fst] split: prod.splits)
  show "\<not> refused_in H read True operations st e" if "chain_patch H read i chain = Ok chain'"
    using that sequence_not_refused [OF ad _ st1, of "(ch_tree chain, 0, {||})"] ag
    by (auto simp: chain_patch_def e)
qed

lemma patches_follow:
  assumes ad: "addressed H read"
    and "apply_patch_ids H read True patch_ids st = Ok st'" and "agree H read st (ch_tree chain)"
  shows "follows H read ch_tree (refused_by_patches H read True patch_ids st) st'
    (rfold (chain_patch H read) patch_ids chain)"
  using assms(2,3)
proof (induction patch_ids arbitrary: st chain)
  case Nil
  then show ?case
    by (simp add: apply_patch_ids_def)
next
  case (Cons i patch_ids)
  obtain operations st1 where ops: "read_patch_operations H read i True = Ok operations"
      and st1: "fold_operations (apply_state_effect H read True) id operations st = Ok st1"
      and tail: "apply_patch_ids H read True patch_ids st1 = Ok st'"
    using Cons.prems(1) by (auto simp: apply_patch_ids_def)
  have here: "refused_by_patches H read True (i # patch_ids) st e" if "refused_in H read True operations st e" for e
    using that ops unfolding refused_by_patches_def
    by (intro exI [of _ "[]"] exI [of _ i] exI conjI) (auto simp: apply_patch_ids_def)
  have later: "refused_by_patches H read True (i # patch_ids) st e"
    if refused: "refused_by_patches H read True patch_ids st1 e" for e
  proof -
    obtain before j after st2 later where "patch_ids = before @ j # after"
        "apply_patch_ids H read True before st1 = Ok st2" "read_patch_operations H read j True = Ok later"
        "refused_in H read True later st2 e"
      using refused unfolding refused_by_patches_def by blast
    then show ?thesis
      using ops st1 unfolding refused_by_patches_def
      by (intro exI [of _ "i # before"] exI conjI) (auto simp: apply_patch_ids_def)
  qed
  show ?case
    using patch_follows(1) [OF ad Cons.prems(2) ops st1] follows_mono [OF Cons.IH [OF tail] later]
    by (auto intro!: follows_bind [where tree = ch_tree] here)
qed

lemma patches_not_refused:
  assumes ad: "addressed H read" and ag: "agree H read st (ch_tree chain)"
    and st': "apply_patch_ids H read True patch_ids st = Ok st'"
    and chain': "rfold (chain_patch H read) patch_ids chain = Ok chain'"
  shows "\<not> refused_by_patches H read True patch_ids st e"
proof
  assume "refused_by_patches H read True patch_ids st e"
  then obtain before i after st1 operations where split: "patch_ids = before @ i # after"
      and st1: "apply_patch_ids H read True before st = Ok st1"
      and ops: "read_patch_operations H read i True = Ok operations" "refused_in H read True operations st1 e"
    unfolding refused_by_patches_def by blast
  obtain st2 where st2: "fold_operations (apply_state_effect H read True) id operations st1 = Ok st2"
    using st' st1 ops(1) by (auto simp: split apply_patch_ids_def rfold_append)
  obtain chain1 chain2 where chain1: "rfold (chain_patch H read) before chain = Ok chain1"
      "chain_patch H read i chain1 = Ok chain2"
    using chain' by (auto simp: split rfold_append)
  then have "agree H read st1 (ch_tree chain1)"
    using patches_follow [OF ad st1 ag] by simp
  from patch_follows(2) [OF ad this ops(1) st2 chain1(2)] ops(2) show False
    by blast
qed

lemma blocks_follow:
  assumes ad: "addressed H read"
    and "rfold (\<lambda>(_, block). apply_patch_ids H read True (block_patch_ids block)) blocks st = Ok st'"
    and "\<forall>(i, block) \<in> set blocks. read_block read i = Ok block" and "agree H read st (ch_tree chain)"
  shows "follows H read ch_tree (refused_on_chain H read True blocks st) st'
    (rfold (chain_block H read) (map fst blocks) chain)"
  using assms(2-4)
proof (induction blocks arbitrary: st chain)
  case (Cons entry blocks)
  let ?step = "\<lambda>(_ :: object_id, block). apply_patch_ids H read True (block_patch_ids block)"
  obtain i block where entry: "entry = (i, block)"
    by (cases entry)
  obtain st1 where st1: "apply_patch_ids H read True (block_patch_ids block) st = Ok st1"
      and tail: "rfold ?step blocks st1 = Ok st'"
    using Cons.prems(1) by (auto simp: entry)
  have here: "refused_on_chain H read True (entry # blocks) st e"
    if "refused_by_patches H read True (block_patch_ids block) st e" for e
    using that unfolding refused_on_chain_def entry
    by (intro exI [of _ "[]"] exI [of _ i] exI [of _ block] exI [of _ blocks] exI [of _ st]) simp
  have later: "refused_on_chain H read True (entry # blocks) st e"
    if refused: "refused_on_chain H read True blocks st1 e" for e
  proof -
    obtain before j b after st2 where "blocks = before @ (j, b) # after" "rfold ?step before st1 = Ok st2"
        "refused_by_patches H read True (block_patch_ids b) st2 e"
      using refused unfolding refused_on_chain_def by blast
    then show ?thesis
      using st1 unfolding refused_on_chain_def entry
      by (intro exI [of _ "(i, block) # before"] exI [of _ j] exI [of _ b] exI [of _ after] exI [of _ st2]) simp
  qed
  have "follows H read ch_tree (refused_by_patches H read True (block_patch_ids block) st) st1
      (chain_block H read i chain)"
    using patches_follow [OF ad st1] Cons.prems(2,3) by (simp add: chain_block_def entry)
  then show ?case
    using follows_mono [OF Cons.IH [OF tail] later] Cons.prems(2) here
    by (auto simp: entry intro!: follows_bind [where tree = ch_tree])
qed simp

lemma blocks_not_refused:
  assumes ad: "addressed H read" and ag: "agree H read st (ch_tree chain)"
    and st': "rfold (\<lambda>(_, block). apply_patch_ids H read True (block_patch_ids block)) blocks st = Ok st'"
    and blocks: "\<forall>(i, block) \<in> set blocks. read_block read i = Ok block"
    and chain': "rfold (chain_block H read) (map fst blocks) chain = Ok chain'"
  shows "\<not> refused_on_chain H read True blocks st e"
proof
  let ?step = "\<lambda>(_ :: object_id, block). apply_patch_ids H read True (block_patch_ids block)"
  assume "refused_on_chain H read True blocks st e"
  then obtain before i block after st1 where split: "blocks = before @ (i, block) # after"
      and st1: "rfold ?step before st = Ok st1"
      and refused: "refused_by_patches H read True (block_patch_ids block) st1 e"
    unfolding refused_on_chain_def by blast
  obtain st2 where st2: "apply_patch_ids H read True (block_patch_ids block) st1 = Ok st2"
    using st' st1 by (auto simp: split rfold_append)
  obtain chain1 chain2 where chain1: "rfold (chain_block H read) (map fst before) chain = Ok chain1"
      "rfold (chain_patch H read) (block_patch_ids block) chain1 = Ok chain2"
    using chain' blocks by (auto simp: split rfold_append chain_block_def)
  then have "agree H read st1 (ch_tree chain1)"
    using blocks_follow [OF ad st1 _ ag] blocks by (simp add: split)
  from patches_not_refused [OF ad this st2 chain1(2)] refused show False
    by blast
qed

section \<open>The two walkers\<close>

lemma lineage_read_block_read: "lineage_read_block read i = Ok block \<longleftrightarrow> read_block read i = Ok block"
proof (cases "read i")
  case (Ok found)
  then show ?thesis
    by (cases found) (auto simp: lineage_read_block_def read_block_def read_typed_def split: if_splits)
qed (simp add: lineage_read_block_def read_block_def read_typed_def)

text \<open>Blocks whose parent the materializing walker can tell: a Merge block names a mainline parent.\<close>

definition one_parent :: "block_payload \<Rightarrow> bool" where
  "one_parent block \<longleftrightarrow> mainline_or_sole_parent block \<noteq> None"

lemma one_parent_cases:
  assumes "one_parent block"
  shows "mainline_or_sole_parent block = Some None \<longleftrightarrow> parents_of block = []"
    and "mainline_or_sole_parent block = Some (Some p) \<longleftrightarrow> parents_of block = [p]"
  using assms
  by (auto simp: one_parent_def mainline_or_sole_parent_def parents_of_def
    split: option.splits if_splits list.splits)

definition walked ::
  "reader \<Rightarrow> object_id option \<Rightarrow> object_id set \<Rightarrow> walked_block list \<Rightarrow> object_id
   \<Rightarrow> walked_block list replay \<Rightarrow> bool" where
  "walked read h seen acc current r \<longleftrightarrow> (\<forall>full. r = Ok full \<longrightarrow>
     (\<exists>new. new \<noteq> [] \<and> full = new @ acc \<and> fst (last new) = current
        \<and> (h = None \<or> h = Some (fst (hd new)))
        \<and> (\<forall>(i, block) \<in> set new. read_block read i = Ok block)
        \<and> ((\<forall>(i, block) \<in> set new. one_parent block) \<longrightarrow>
             chain_loop read seen (map fst acc) (Some current) = Some (Ok (map fst full)))))"

lemma walked_root:
  assumes "read_block read current = Ok block" "current \<notin> seen" "parents_of block = []"
    and "h = None \<or> h = Some current"
  shows "walked read h seen acc current (Ok ((current, block) # acc))"
  unfolding walked_def using assms one_parent_cases(1) [of block]
  by (intro allI impI exI [of _ "[(current, block)]"]) (auto simp: chain_loop_step)

lemma walked_parent:
  assumes "read_block read current = Ok block" "current \<notin> seen" "parents_of block = [p]"
    and "walked read h (insert current seen) ((current, block) # acc) p r"
  shows "walked read h seen acc current r"
  unfolding walked_def
proof (intro allI impI)
  fix full
  assume "r = Ok full"
  with assms(4) obtain new where new: "new \<noteq> []" "full = new @ (current, block) # acc"
      "fst (last new) = p" "h = None \<or> h = Some (fst (hd new))"
      "\<forall>(i, block) \<in> set new. read_block read i = Ok block"
      "(\<forall>(i, block) \<in> set new. one_parent block) \<longrightarrow>
         chain_loop read (insert current seen) (current # map fst acc) (Some p) = Some (Ok (map fst full))"
    by (auto simp: walked_def)
  show "\<exists>new. new \<noteq> [] \<and> full = new @ acc \<and> fst (last new) = current
      \<and> (h = None \<or> h = Some (fst (hd new)))
      \<and> (\<forall>(i, block) \<in> set new. read_block read i = Ok block)
      \<and> ((\<forall>(i, block) \<in> set new. one_parent block) \<longrightarrow>
           chain_loop read seen (map fst acc) (Some current) = Some (Ok (map fst full)))"
    using new assms(1-3) one_parent_cases(2) [of block p]
    by (intro exI [of _ "new @ [(current, block)]"]) (auto simp: chain_loop_step(2) [of read seen])
qed

lemma lineage_loop_walked:
  assumes "lineage_loop read h seen acc current = Some r"
  shows "walked read h seen acc current r"
proof (rule lineage_loop.raw_induct [where P = walked, OF _ assms], goal_cases)
  case (1 loop read h seen acc current r)
  show ?case
  proof (cases "lineage_read_block read current")
    case (Err e)
    then show ?thesis
      using 1(2) by (auto simp: walked_def split: if_splits)
  next
    case (Ok block)
    note read = Ok [unfolded lineage_read_block_read]
    consider "\<exists>e. r = Err e"
      | (root) "current \<notin> seen" "parents_of block = []" "h = None \<or> h = Some current"
          "r = Ok ((current, block) # acc)"
      | (parent) p where "current \<notin> seen" "parents_of block = [p]"
          "loop read h (insert current seen) ((current, block) # acc) p = Some r"
      using 1(2) Ok by (auto simp: length_Suc_conv split: if_splits)
    then show ?thesis
      by cases (auto simp: walked_def [of _ _ _ _ _ "Err _"] walked_root [OF read]
        intro: walked_parent [OF read] 1(1))
  qed
qed

lemma walk_lineage_Ok:
  assumes "walk_lineage read baseline horizon = Some (Ok chain)"
  shows "chain \<noteq> []" "fst (hd chain) = horizon" "fst (last chain) = baseline"
    and "\<forall>(i, block) \<in> set chain. read_block read i = Ok block"
    and "\<forall>(i, block) \<in> set chain. one_parent block \<Longrightarrow>
      single_parent_chain read baseline = Some (Ok (map fst chain))"
  using lineage_loop_walked [OF assms [unfolded walk_lineage_def]]
  by (auto simp: walked_def single_parent_chain_def)

lemma lineage_loop_returns:
  assumes "finite (readable read)"
  shows "\<exists>r. lineage_loop read h seen acc current = Some r"
proof (induction "card (readable read - seen)" arbitrary: seen acc current rule: less_induct)
  case less
  show ?case
  proof (cases "current \<notin> seen \<and> (\<exists>block. lineage_read_block read current = Ok block)")
    case True
    then obtain block where block: "current \<notin> seen" "lineage_read_block read current = Ok block"
      by blast
    have "readable read - insert current seen \<subset> readable read - seen"
      using read_block_readable [OF block(2) [unfolded lineage_read_block_read]] block(1) by blast
    then have "card (readable read - insert current seen) < card (readable read - seen)"
      using assms by (meson finite_Diff psubset_card_mono)
    from less [OF this] show ?thesis
      using block by (subst lineage_loop.simps) auto
  next
    case False
    then show ?thesis
      by (subst lineage_loop.simps) (cases "lineage_read_block read current"; auto)
  qed
qed

context object_store
begin

lemma walk_lineage_returns: "store_ok s \<Longrightarrow> \<exists>r. walk_lineage (read_from s) baseline horizon = Some r"
  unfolding walk_lineage_def by (rule lineage_loop_returns [OF finite_readable])

lemma replay_lineage_returns:
  "store_ok s \<Longrightarrow> \<exists>r. replay_lineage sha256 (read_from s) baseline horizon = Some r"
  using walk_lineage_returns [of s baseline horizon] by (auto simp: replay_lineage_def)

end

section \<open>Readers that admit only the schemas of the format\<close>

definition format2 :: "reader \<Rightarrow> bool" where
  "format2 read \<longleftrightarrow> (\<forall>i e. read i = Ok (Some e) \<longrightarrow> validate_format2_schema e = Ok ())"

lemma format2_admitted:
  assumes "format2 read" "read i = Ok (Some e)"
  shows "\<exists>accepted. admitted_schemas (env_type e) = Some accepted \<and> env_schema e \<in> set accepted"
proof -
  have "validate_format2_schema e = Ok ()"
    using assms by (simp add: format2_def)
  then show ?thesis
    by (auto simp: validate_format2_schema_def split: option.splits if_splits)
qed

text \<open>Under such a reader the per-object schema checks of a strict replay pass.\<close>

lemma resolve_blob_strict:
  assumes "format2 read"
  shows "resolve_blob read False b = resolve_blob read True b"
proof (cases "read b")
  case (Ok found)
  then show ?thesis
    using format2_admitted [OF assms, of b]
    by (cases found) (auto simp: resolve_blob_def validate_blob_schema_def Let_def)
qed (simp add: resolve_blob_def)

lemma read_patch_operations_strict:
  assumes "format2 read"
  shows "read_patch_operations H read i False = read_patch_operations H read i True"
proof (cases "read i")
  case (Ok found)
  then show ?thesis
    using format2_admitted [OF assms, of i]
    by (cases found) (auto simp: read_patch_operations_def Let_def)
qed (simp add: read_patch_operations_def)

lemma resolvers_strict:
  assumes "format2 read"
  shows "resolver_blob_kind read False = resolver_blob_kind read True"
    and "resolver_blob_content read False = resolver_blob_content read True"
    and "require_binary_blob read False = require_binary_blob read True"
    and "replay_current_text read False = replay_current_text read True"
  by (auto simp: fun_eq_iff resolver_blob_kind_def resolver_blob_content_def require_binary_blob_def
      replay_current_text_def resolve_blob_strict [OF assms] split: option.splits)

lemma apply_state_effect_strict:
  assumes "format2 read"
  shows "apply_state_effect H read False = apply_state_effect H read True"
proof (rule ext, rule ext)
  fix k st
  show "apply_state_effect H read False k st = apply_state_effect H read True k st"
    by (cases k; cases st) (simp_all add: apply_edit_text_def resolvers_strict [OF assms])
qed

lemma apply_patch_ids_strict:
  assumes "format2 read"
  shows "apply_patch_ids H read False = apply_patch_ids H read True"
  by (simp add: apply_patch_ids_def fun_eq_iff apply_state_effect_strict [OF assms]
      read_patch_operations_strict [OF assms])

section \<open>The manifest\<close>

definition by_path_step ::
  "(node_id, replay_live_node) fmap \<Rightarrow> node_id \<Rightarrow> (bytes, node_id \<times> replay_live_node) fmap
   \<Rightarrow> (bytes, node_id \<times> replay_live_node) fmap" where
  "by_path_step nodes node_id = (case fmlookup nodes node_id of
       Some node \<Rightarrow> fmupd (rl_path node) (node_id, node) | None \<Rightarrow> id)"

lemma by_path_sound:
  "fmlookup (fold (by_path_step nodes) ids m) p = Some (i, r) \<Longrightarrow>
     fmlookup nodes i = Some r \<and> rl_path r = p \<or> fmlookup m p = Some (i, r)"
proof (induction ids arbitrary: m)
  case (Cons k ids)
  from Cons.IH [of "by_path_step nodes k m"] Cons.prems show ?case
    by (auto simp: by_path_step_def split: option.splits if_splits)
qed simp

lemma by_path_complete:
  assumes "\<And>j q. fmlookup nodes j = Some q \<Longrightarrow> rl_path q = p \<Longrightarrow> j = i" "fmlookup nodes i = Some r" "rl_path r = p"
  shows "i \<in> set ids \<or> fmlookup m p = Some (i, r) \<Longrightarrow>
     fmlookup (fold (by_path_step nodes) ids m) p = Some (i, r)"
proof (induction ids arbitrary: m)
  case (Cons k ids)
  have "i \<in> set ids \<or> fmlookup (by_path_step nodes k m) p = Some (i, r)"
    using Cons.prems assms(1) [of k] assms(2,3) by (auto simp: by_path_step_def split: option.splits)
  then show ?case
    using Cons.IH [of "by_path_step nodes k m"] by simp
qed simp

lemma by_path_lookup:
  assumes "\<And>j q. fmlookup nodes j = Some q \<Longrightarrow> rl_path q = rl_path r \<Longrightarrow> j = i" "fmlookup nodes i = Some r"
  shows "fmlookup (by_path nodes) (rl_path r) = Some (i, r)"
proof -
  have "by_path nodes = fold (by_path_step nodes) (sorted_list_of_fset (fmdom nodes)) fmempty"
    by (simp add: by_path_def by_path_step_def [abs_def])
  moreover have "i \<in> set (sorted_list_of_fset (fmdom nodes))"
    using assms(2) by (simp add: fmdomI)
  ultimately show ?thesis
    using by_path_complete [OF assms(1,2) refl] by simp
qed

text \<open>Every live path of a replayed state came out of the path parser.\<close>

definition parsed :: "tree \<Rightarrow> bool" where
  "parsed T \<longleftrightarrow> (\<forall>i n. T i = Live n \<longrightarrow> repo_path_parse (path_str (ln_path n)) = Ok (ln_path n))"

lemma parsed_update:
  "parsed T \<Longrightarrow> (\<And>n. x = Live n \<Longrightarrow> repo_path_parse (path_str (ln_path n)) = Ok (ln_path n)) \<Longrightarrow> parsed (T(i := x))"
  by (simp add: parsed_def)

lemma parsed_path: "repo_path_parse p = Ok q \<Longrightarrow> repo_path_parse (path_str q) = Ok q"
  using repo_path_parse_str [of p q] by simp

text \<open>The operation of the specification that a decoded operation performs.\<close>

fun effect_op :: "decoded_operation_kind \<Rightarrow> lifecycle_op \<Rightarrow> bool" where
  "effect_op (DCreateFile path i b mode) op \<longleftrightarrow> (\<exists>p k. repo_path_parse path = Ok p
     \<and> op = CreateOp i \<lparr> ln_path = p, ln_kind = k, ln_content = FileContent b mode \<rparr>)"
| "effect_op (DCreateSymlink path i target) op \<longleftrightarrow> (\<exists>p. repo_path_parse path = Ok p
     \<and> op = CreateOp i \<lparr> ln_path = p, ln_kind = Symlink, ln_content = SymlinkContent target \<rparr>)"
| "effect_op (DDeleteNode path i pre) op \<longleftrightarrow> (\<exists>p. repo_path_parse path = Ok p
     \<and> op = DeleteCheckedOp i \<lparr> ln_path = p, ln_kind = fst (preimage_shape pre),
         ln_content = snd (preimage_shape pre) \<rparr>)"
| "effect_op (DChangePerm i old new) op \<longleftrightarrow> op = ChangeModeOp i old new"
| "effect_op (DReplaceBinary i old new) op \<longleftrightarrow> op = ReplaceBlobOp i old new"
| "effect_op (DEditText i _ _ _ _ _ _ _ _) op \<longleftrightarrow> (\<exists>b. op = SetTextBlobOp i b)"
| "effect_op (DRenamePath _ _ _) op \<longleftrightarrow> False"

lemma effect_spec:
  assumes wf: "wf_lifecycle s" and step: "apply_state_effect H read schema_one k (s, texts) = Ok (s', texts')"
  shows "\<exists>op. effect_op k op \<and> wf_lifecycle s' \<and> spec_op op (status s) = Some (status s')"
proof (cases k)
  case (DCreateFile path i b mode)
  then obtain p kd where "repo_path_parse path = Ok p"
      "effect (create_node i \<lparr> ln_path = p, ln_kind = kd, ln_content = FileContent b mode \<rparr> s) = Ok s'"
    using step by (auto simp: parse_repo_path_Ok)
  then show ?thesis
    using effect_create [OF wf] by (intro exI conjI) (auto simp: DCreateFile simp del: spec_op.simps)
next
  case (DCreateSymlink path i target)
  then obtain p where "repo_path_parse path = Ok p"
      "effect (create_node i \<lparr> ln_path = p, ln_kind = Symlink, ln_content = SymlinkContent target \<rparr> s) = Ok s'"
    using step by (auto simp: parse_repo_path_Ok)
  then show ?thesis
    using effect_create [OF wf] by (intro exI conjI) (auto simp: DCreateSymlink simp del: spec_op.simps)
next
  case (DDeleteNode path i pre)
  then obtain p where "repo_path_parse path = Ok p"
      "effect (delete_node_checked i \<lparr> ln_path = p, ln_kind = fst (preimage_shape pre),
         ln_content = snd (preimage_shape pre) \<rparr> s) = Ok s'"
    using step by (cases "preimage_shape pre") (auto simp: parse_repo_path_Ok expected_deleted_node_def)
  then show ?thesis
    using effect_delete [OF wf] by (intro exI conjI) (auto simp: DDeleteNode simp del: spec_op.simps)
next
  case (DChangePerm i old new)
  then show ?thesis
    using step effect_chmod [OF wf] by (intro exI conjI) (auto simp del: spec_op.simps)
next
  case (DReplaceBinary i old new)
  then show ?thesis
    using step effect_replace [OF wf] by (intro exI conjI) (auto simp del: spec_op.simps)
next
  case (DEditText i span osh la ra repl ost ll rl)
  then obtain b where "effect (set_text_blob i b s) = Ok s'"
    using step by (auto elim: apply_edit_text_Ok)
  then show ?thesis
    using effect_set_text [OF wf] by (intro exI conjI) (auto simp: DEditText simp del: spec_op.simps)
next
  case (DRenamePath i old new)
  then show ?thesis
    using step by simp
qed

lemma spec_parsed:
  assumes "parsed T" "effect_op k op" "spec_op op T = Some T'"
  shows "parsed T'"
proof (cases k)
  case (DCreateFile path i b mode)
  then obtain p kd where "repo_path_parse path = Ok p"
      "T' = T(i := Live \<lparr> ln_path = p, ln_kind = kd, ln_content = FileContent b mode \<rparr>)"
    using assms(2,3) by (auto split: if_splits)
  then show ?thesis
    using parsed_path [of path p] by (auto intro!: parsed_update assms(1))
next
  case (DCreateSymlink path i target)
  then obtain p where "repo_path_parse path = Ok p"
      "T' = T(i := Live \<lparr> ln_path = p, ln_kind = Symlink, ln_content = SymlinkContent target \<rparr>)"
    using assms(2,3) by (auto split: if_splits)
  then show ?thesis
    using parsed_path [of path p] by (auto intro!: parsed_update assms(1))
qed (use assms in \<open>auto simp: parsed_def split: if_splits node_status.splits node_content.splits\<close>)

lemma spec_parsed_batch:
  assumes "parsed T" "\<forall>(_, _, q) \<in> set renames. repo_path_parse (path_str q) = Ok q"
  shows "parsed (moved renames T)"
proof -
  have "q \<in> (snd \<circ> snd) ` set renames" if "map_of (batch_targets renames) i = Some q" for i q
    using map_of_SomeD [OF that] by (force simp: batch_targets_def)
  then show ?thesis
    using assms by (fastforce simp: parsed_def moved_def split: node_status.splits option.splits)
qed

lemma rename_triple_parsed:
  "rename_triple k = Ok (i, p, q) \<Longrightarrow> repo_path_parse (path_str q) = Ok q"
  using parsed_path [of _ q] by (cases k) (auto simp: parse_repo_path_Ok)

lemma collect_rename_run_parsed:
  assumes "collect_rename_run operation rest = Ok run"
  shows "\<forall>(_, _, q) \<in> set run. repo_path_parse (path_str q) = Ok q"
  using assms unfolding collect_rename_run_def rmap_eq_Ok
  by (auto simp: list_all2_conv_all_nth in_set_conv_nth dest!: rename_triple_parsed) (metis rename_triple_parsed)

definition sound_state :: "lifecycle_state \<Rightarrow> bool" where
  "sound_state s \<longleftrightarrow> wf_lifecycle s \<and> parsed (status s)"

lemma fold_operations_sound:
  assumes "fold_operations (apply_state_effect H read schema_one) wrap operations st = Ok st'"
    and "sound_state (fst st)"
  shows "sound_state (fst st')"
  using assms
proof (induction operations arbitrary: st rule: measure_induct_rule [of length])
  case (less operations)
  show ?case
  proof (cases operations)
    case Nil
    then show ?thesis
      using less.prems by simp
  next
    case (Cons operation rest)
    have wf: "wf_lifecycle (fst st)" and p: "parsed (status (fst st))"
      using less.prems(2) by (auto simp: sound_state_def)
    show ?thesis
    proof (cases "rename_op operation")
      case True
      then obtain run s' where run: "collect_rename_run operation rest = Ok run"
          and s': "apply_rename_run run (fst st) = Ok s'"
          and tail: "fold_operations (apply_state_effect H read schema_one) wrap (dropWhile rename_op rest)
            (s', snd st) = Ok st'"
        using less.prems(1) by (auto simp: Cons)
      note spec = effect_rename [OF wf s' [unfolded apply_rename_run_def]]
      have "sound_state s'"
        using spec(1) batch_fits_spec(2) [OF wf spec(2)] spec_parsed_batch [OF p collect_rename_run_parsed [OF run]]
        by (simp add: sound_state_def)
      then show ?thesis
        using less.IH [OF _ tail] length_dropWhile_le [of rename_op rest] by (simp add: Cons)
    next
      case False
      then obtain s1 texts1 where st1: "apply_state_effect H read schema_one (dop_kind operation) (fst st, snd st) = Ok (s1, texts1)"
          and tail: "fold_operations (apply_state_effect H read schema_one) wrap rest (s1, texts1) = Ok st'"
        using less.prems(1) by (auto simp: Cons)
      have "sound_state s1"
        using effect_spec [OF wf st1] spec_parsed [OF p] by (auto simp: sound_state_def)
      then show ?thesis
        using less.IH [OF _ tail] by (simp add: Cons)
    qed
  qed
qed

lemma patches_sound:
  assumes "apply_patch_ids H read schema_one patch_ids st = Ok st'" "sound_state (fst st)"
  shows "sound_state (fst st')"
  using assms
proof (induction patch_ids arbitrary: st)
  case (Cons i patch_ids)
  obtain operations st1 where st1: "fold_operations (apply_state_effect H read schema_one) id operations st = Ok st1"
      and tail: "apply_patch_ids H read schema_one patch_ids st1 = Ok st'"
    using Cons.prems(1) by (auto simp: apply_patch_ids_def)
  show ?case
    by (rule Cons.IH [OF tail fold_operations_sound [OF st1 Cons.prems(2)]])
qed (simp add: apply_patch_ids_def)

lemma chain_sound:
  assumes "rfold (\<lambda>(_, block). apply_patch_ids H read schema_one (block_patch_ids block)) chain st = Ok st'"
    and "sound_state (fst st)"
  shows "sound_state (fst st')"
  using assms
proof (induction chain arbitrary: st)
  case (Cons entry chain)
  obtain st1 where st1: "apply_patch_ids H read schema_one (block_patch_ids (snd entry)) st = Ok st1"
      and tail: "rfold (\<lambda>(_, block). apply_patch_ids H read schema_one (block_patch_ids block)) chain st1 = Ok st'"
    using Cons.prems(1) by (cases entry) auto
  show ?case
    by (rule Cons.IH [OF tail patches_sound [OF st1 Cons.prems(2)]])
qed simp

text \<open>What a manifest says of a state: one entry per live node, in path order, with its contents.\<close>

definition lists_live :: "(bytes \<Rightarrow> bytes) \<Rightarrow> tree \<Rightarrow> replay_manifest_entry list \<Rightarrow> bool" where
  "lists_live H T entries \<longleftrightarrow> sorted_wrt (<) (map (path_str \<circ> me_path) entries)
     \<and> (\<forall>e \<in> set entries. \<exists>i n b. me_node_id e = Some i \<and> T i = Live n \<and> me_path e = ln_path n
          \<and> me_kind e = Some (ln_kind n) \<and> ln_content n = FileContent b (me_mode e)
          \<and> file_blob_id_for_kind H (me_bytes e) (ln_kind n) = Ok b)
     \<and> (\<forall>i n. T i = Live n \<longrightarrow> (\<exists>e \<in> set entries. me_node_id e = Some i))"

lemma mirror_node_of_path:
  assumes "wf_lifecycle s" "mirrors H read (status s) texts t"
    and "fmlookup (tree_nodes t) i = Some r" "fmlookup (tree_nodes t) j = Some q" "rl_path q = rl_path r"
  shows "j = i"
proof -
  obtain n m where "status s i = Live n" "status s j = Live m"
    using mirrorsD(2) [OF assms(2)] assms(3,4) by metis
  then show ?thesis
    using mirrorsD(1) [OF assms(2), of i n] mirrorsD(1) [OF assms(2), of j m] assms(3-5)
      live_path_inj [OF assms(1), of j m i n] by (auto simp: node_mirror_def)
qed

lemma manifest_entry_live:
  assumes wf: "wf_lifecycle s" and m: "mirrors H read (status s) texts t" and p: "parsed (status s)"
    and c: "fmlookup (files t) path = Some c"
  obtains i n mode b where "manifest_entry (by_path (tree_nodes t)) path c = Ok \<lparr> me_node_id = Some i,
      me_path = ln_path n, me_bytes = c, me_mode = mode, me_kind = Some (ln_kind n),
      me_blob_id = (if ln_kind n = BinaryFile then Some b else None) \<rparr>"
    and "status s i = Live n" "path_str (ln_path n) = path" "ln_content n = FileContent b mode"
    and "file_blob_id_for_kind H c (ln_kind n) = Ok b"
proof -
  obtain i n where n: "status s i = Live n" "path_str (ln_path n) = path"
    using mirrorsD(3) [OF m c] by blast
  obtain r d where r: "fmlookup (tree_nodes t) i = Some r" "fmlookup (files t) (rl_path r) = Some d"
      "node_mirror H read texts i n r d"
    using mirrorsD(1) [OF m n(1)] by blast
  then have path: "rl_path r = path" "d = c"
    using n c by (auto simp: node_mirror_def)
  obtain b where b: "ln_content n = FileContent b (rl_mode r)" "file_blob_id_for_kind H c (ln_kind n) = Ok b"
      "ln_kind n = rl_kind r" "rl_kind r = BinaryFile \<longrightarrow> rl_blob_id r = b"
    using r(3) path by (auto simp: node_mirror_def)
  have "fmlookup (by_path (tree_nodes t)) path = Some (i, r)"
    using by_path_lookup [OF mirror_node_of_path [OF wf m r(1)] r(1)] path by simp
  moreover have "repo_path_parse path = Ok (ln_path n)"
    using p n by (auto simp: parsed_def)
  ultimately have "manifest_entry (by_path (tree_nodes t)) path c = Ok \<lparr> me_node_id = Some i,
      me_path = ln_path n, me_bytes = c, me_mode = rl_mode r, me_kind = Some (ln_kind n),
      me_blob_id = (if ln_kind n = BinaryFile then Some b else None) \<rparr>"
    using b by (auto simp: manifest_entry_def)
  from that [OF this n b(1,2)] show ?thesis .
qed

lemma rmap_all_Ok:
  "(\<And>x. x \<in> set xs \<Longrightarrow> \<exists>y. f x = Ok y) \<Longrightarrow> \<exists>ys. rmap f xs = Ok ys"
proof (induction xs)
  case (Cons x xs)
  then obtain y ys where "f x = Ok y" "rmap f xs = Ok ys"
    by fastforce
  then show ?case
    by simp
qed simp

lemma list_all2_map_sorted:
  assumes "list_all2 P xs ys" "\<And>x y. x \<in> set xs \<Longrightarrow> P x y \<Longrightarrow> g y = x"
  shows "map g ys = xs"
  using assms by (induction rule: list_all2_induct) auto

lemma list_all2_members:
  assumes "list_all2 P xs ys"
  shows "x \<in> set xs \<Longrightarrow> \<exists>y \<in> set ys. P x y" "y \<in> set ys \<Longrightarrow> \<exists>x \<in> set xs. P x y"
  using assms by (induction rule: list_all2_induct) auto

lemma manifest_lists_live:
  assumes wf: "wf_lifecycle s" and m: "mirrors H read (status s) texts t" and p: "parsed (status s)"
  shows "\<exists>entries. files_to_replay_manifest (files t) (tree_nodes t) = Ok entries
    \<and> lists_live H (status s) entries"
proof -
  let ?paths = "sorted_list_of_fset (fmdom (files t))"
  let ?f = "\<lambda>path. manifest_entry (by_path (tree_nodes t)) path (the (fmlookup (files t) path))"
  have entry: "\<exists>i n b e. ?f path = Ok e \<and> me_node_id e = Some i \<and> status s i = Live n \<and> me_path e = ln_path n
      \<and> path_str (me_path e) = path \<and> me_kind e = Some (ln_kind n) \<and> ln_content n = FileContent b (me_mode e)
      \<and> file_blob_id_for_kind H (me_bytes e) (ln_kind n) = Ok b" if path: "path \<in> set ?paths" for path
  proof -
    obtain c where c: "fmlookup (files t) path = Some c"
      using path by (auto simp: fmlookup_dom_iff)
    show ?thesis
      by (rule manifest_entry_live [OF wf m p c]) (auto simp: c)
  qed
  then obtain entries where entries: "rmap ?f ?paths = Ok entries"
    using rmap_all_Ok [of ?paths ?f] by blast
  then have all: "list_all2 (\<lambda>path e. ?f path = Ok e) ?paths entries"
    by (simp add: rmap_eq_Ok)
  have paths: "map (path_str \<circ> me_path) entries = ?paths"
    by (rule list_all2_map_sorted [OF all]) (use entry in \<open>fastforce\<close>)
  have listed: "\<exists>path \<in> set ?paths. ?f path = Ok e" if "e \<in> set entries" for e
    using list_all2_members(2) [OF all that] .
  have "\<exists>e \<in> set entries. me_node_id e = Some i" if n: "status s i = Live n" for i n
  proof -
    have "path_str (ln_path n) \<in> set ?paths"
      using mirrorsD(1) [OF m n] by (auto simp: node_mirror_def fmdomI)
    moreover from this obtain e where "e \<in> set entries" "?f (path_str (ln_path n)) = Ok e"
      using list_all2_members(1) [OF all] by blast
    ultimately show ?thesis
      using entry [of "path_str (ln_path n)"] live_path_inj [OF wf n] by fastforce
  qed
  moreover have "\<exists>i n b. me_node_id e = Some i \<and> status s i = Live n \<and> me_path e = ln_path n
      \<and> me_kind e = Some (ln_kind n) \<and> ln_content n = FileContent b (me_mode e)
      \<and> file_blob_id_for_kind H (me_bytes e) (ln_kind n) = Ok b" if "e \<in> set entries" for e
    using listed [OF that] entry by fastforce
  moreover have "sorted_wrt (<) ?paths"
    by (simp add: strict_sorted_iff sorted_list_of_fset.rep_eq)
  ultimately have "lists_live H (status s) entries"
    unfolding lists_live_def paths by blast
  then show ?thesis
    using entries by (auto simp: files_to_replay_manifest_def)
qed

section \<open>Agreement of the two replays\<close>

lemma empty_agrees: "agree H read (new_lifecycle, fmempty) (empty_tree cap)"
  by (simp add: agree_def mirrors_def empty_tree_def wf_new_lifecycle status_new del: status_Live)

lemma sound_new: "sound_state new_lifecycle"
  by (simp add: sound_state_def parsed_def wf_new_lifecycle status_new del: status_Live)

lemma refused_strict:
  assumes "format2 read"
  shows "refused_on_chain H read False = refused_on_chain H read True"
  by (simp add: fun_eq_iff refused_on_chain_def refused_by_patches_def refused_in_def refuses_def held_text_def
      apply_patch_ids_strict [OF assms] read_patch_operations_strict [OF assms]
      apply_state_effect_strict [OF assms] resolvers_strict [OF assms] cong: decoded_operation_kind.case_cong)

lemma replayed_chain_follows:
  assumes ad: "addressed H read" and f2: "format2 read"
    and walk: "walk_lineage read baseline horizon = Some (Ok chain)"
    and replay: "replay_chain_with_appended_patches H read chain [] False = Ok st"
  shows "sound_state (fst st)"
    and "follows H read ch_tree (refused_on_chain H read False chain (new_lifecycle, fmempty)) st
      (replay_chain_capturing H read (map fst chain) None cap)"
    and "replay_chain_capturing H read (map fst chain) None cap = Ok c \<Longrightarrow>
      \<not> refused_on_chain H read False chain (new_lifecycle, fmempty) e"
proof -
  have steps: "rfold (\<lambda>(_, block). apply_patch_ids H read True (block_patch_ids block)) chain
      (new_lifecycle, fmempty) = Ok st"
    using replay by (auto simp: replay_chain_with_appended_patches_def apply_patch_ids_strict [OF f2])
      (simp add: apply_patch_ids_def)
  show "sound_state (fst st)"
    using chain_sound [OF steps] sound_new by simp
  let ?c = "(empty_chain cap)\<lparr> replayed_block_count := length (map fst chain) \<rparr>"
  have start: "agree H read (new_lifecycle, fmempty) (ch_tree ?c)"
    by (simp add: empty_chain_def empty_agrees)
  have "replay_chain_capturing H read (map fst chain) None cap = rfold (chain_block H read) (map fst chain) ?c"
    by (simp add: replay_chain_capturing_def)
  then show "follows H read ch_tree (refused_on_chain H read False chain (new_lifecycle, fmempty)) st
      (replay_chain_capturing H read (map fst chain) None cap)"
    and "replay_chain_capturing H read (map fst chain) None cap = Ok c \<Longrightarrow>
      \<not> refused_on_chain H read False chain (new_lifecycle, fmempty) e"
    using blocks_follow [OF ad steps walk_lineage_Ok(4) [OF walk] start]
      blocks_not_refused [OF ad start steps walk_lineage_Ok(4) [OF walk]]
    by (simp_all add: refused_strict [OF f2])
qed

end
