(* ===== verification/Anchor_Replay.thy ===== *)
theory Anchor_Replay
  imports Anchor Replay_Chain
begin

text \<open>
  Starting from a snapshot instead of from genesis changes nothing that a replay reports. Three steps:
  no operation reads the blob id of a text node or the capture, so trees that differ only there stay
  alike; decoding the history before the anchor gives the counts, kinds and deletions that applying it
  gives; and the files of a validated snapshot are those that replay has at the anchor.
\<close>

section \<open>What operations read of a tree\<close>

definition map_ok :: "('a \<Rightarrow> 'b) \<Rightarrow> ('e, 'a) result \<Rightarrow> ('e, 'b) result" where
  "map_ok f r = rbind r (\<lambda>x. Ok (f x))"

lemma map_ok_simps [simp]: "map_ok f (Ok x) = Ok (f x)" "map_ok f (Err e) = Err e"
  by (simp_all add: map_ok_def)

lemma map_ok_Ok: "map_ok f r = Ok y \<longleftrightarrow> (\<exists>x. r = Ok x \<and> y = f x)"
  by (cases r) auto

definition erase :: "replay_live_node \<Rightarrow> replay_live_node" where
  "erase r = (if rl_kind r = BinaryFile then r else r\<lparr> rl_blob_id := ObjectId [] \<rparr>)"

definition strip :: "replay_tree \<Rightarrow> replay_tree" where
  "strip t = t\<lparr> tree_nodes := fmmap erase (tree_nodes t), capture := capture_for_ids {||} \<rparr>"

lemma erase_simps [simp]:
  "rl_path (erase r) = rl_path r" "rl_kind (erase r) = rl_kind r" "rl_mode (erase r) = rl_mode r"
  "erase (erase r) = erase r"
  "erase ((erase r)\<lparr> rl_path := p \<rparr>) = erase (r\<lparr> rl_path := p \<rparr>)"
  "erase ((erase r)\<lparr> rl_mode := m \<rparr>) = erase (r\<lparr> rl_mode := m \<rparr>)"
  "erase ((erase r)\<lparr> rl_blob_id := b \<rparr>) = erase (r\<lparr> rl_blob_id := b \<rparr>)"
  by (auto simp: erase_def)

lemma fmmap_erase_twice [simp]: "fmmap erase (fmmap erase m) = fmmap erase m"
  by (rule fmap_ext) (simp add: option.map_comp comp_def)

lemma fmmap_upd [simp]: "fmmap f (fmupd k v m) = fmupd k (f v) (fmmap f m)"
  by (rule fmap_ext) simp

lemma strip_simps [simp]:
  "files (strip t) = files t" "deleted_files (strip t) = deleted_files t"
  "tree_nodes (strip t) = fmmap erase (tree_nodes t)" "strip (strip t) = strip t"
  "strip (t\<lparr> files := fs \<rparr>) = (strip t)\<lparr> files := fs \<rparr>"
  "strip (t\<lparr> deleted_files := ds \<rparr>) = (strip t)\<lparr> deleted_files := ds \<rparr>"
  "strip (t\<lparr> tree_nodes := ns \<rparr>) = (strip t)\<lparr> tree_nodes := fmmap erase ns \<rparr>"
  "strip (t\<lparr> capture := c \<rparr>) = strip t"
  by (simp_all add: strip_def)

lemma strip_eq:
  "strip t = strip t' \<longleftrightarrow> files t = files t' \<and> deleted_files t = deleted_files t'
     \<and> fmmap erase (tree_nodes t) = fmmap erase (tree_nodes t')"
  by (cases t; cases t') (auto simp: strip_def)

lemma map_ok_rbind [simp]: "map_ok f (rbind r g) = rbind r (\<lambda>x. map_ok f (g x))"
  by (cases r) simp_all

lemma map_ok_prod [simp]: "map_ok f (case x of (a, b) \<Rightarrow> g a b) = (case x of (a, b) \<Rightarrow> map_ok f (g a b))"
  by (cases x) simp

lemma rbind_ok_or_map [simp]: "rbind (ok_or e (map_option f x)) g = rbind (ok_or e x) (g \<circ> f)"
  by (cases x) simp_all

lemma create_file_strip:
  "map_ok strip (tree_create_file read path i b mode (strip t)) = map_ok strip (tree_create_file read path i b mode t)"
  by (simp add: tree_create_file_def)

lemma delete_file_strip:
  "map_ok strip (tree_delete_file H path i k b (strip t)) = map_ok strip (tree_delete_file H path i k b t)"
  by (cases "fmlookup (tree_nodes t) i") (simp_all add: tree_delete_file_def)

lemma edit_text_strip:
  "map_ok strip (tree_edit_text H i sp oh lh rh rep old ll rl (strip t)) = map_ok strip (tree_edit_text H i sp oh lh rh rep old ll rl t)"
  by (simp add: tree_edit_text_def comp_def)

lemma replace_binary_strip:
  "map_ok strip (tree_replace_binary H read i b b' (strip t)) = map_ok strip (tree_replace_binary H read i b b' t)"
  by (simp add: tree_replace_binary_def comp_def)

lemma change_perm_strip:
  "map_ok strip (tree_change_perm i m m' (strip t)) = map_ok strip (tree_change_perm i m m' t)"
  by (simp add: tree_change_perm_def comp_def)

lemma apply_operation_strip:
  "map_ok strip (apply_decoded_operation H read op (strip t)) = map_ok strip (apply_decoded_operation H read op t)"
  by (cases "dop_kind op")
    (auto simp: apply_decoded_operation_def create_file_strip delete_file_strip edit_text_strip
      replace_binary_strip change_perm_strip split: decoded_delete_preimage.splits)

lemma rename_resolve_strip: "rename_resolve (strip t) = rename_resolve t"
  by (auto simp: fun_eq_iff rename_resolve_def comp_def split: decoded_operation_kind.splits)

lemma rename_commit_strip: "strip (rename_commit e (strip t)) = strip (rename_commit e t)"
  by (auto simp: rename_commit_def split: prod.splits option.splits)

lemma fold_commit_strip: "strip (fold rename_commit staged (strip t)) = strip (fold rename_commit staged t)"
proof (induction staged arbitrary: t)
  case (Cons e staged)
  have "strip (fold rename_commit staged (rename_commit e (strip t)))
      = strip (fold rename_commit staged (strip (rename_commit e (strip t))))"
    by (rule Cons.IH [symmetric])
  also have "\<dots> = strip (fold rename_commit staged (rename_commit e t))"
    by (simp add: rename_commit_strip Cons.IH)
  finally show ?case
    by simp
qed simp

lemma rename_batch_strip:
  "map_ok strip (apply_rename_batch run (strip t)) = map_ok strip (apply_rename_batch run t)"
proof -
  have "strip (fold rename_commit staged ((strip t)\<lparr> files := fs \<rparr>)) = strip (fold rename_commit staged (t\<lparr> files := fs \<rparr>))" for staged fs
    using fold_commit_strip [of staged "t\<lparr> files := fs \<rparr>"] by simp
  then show ?thesis
    by (simp add: apply_rename_batch_def rename_resolve_strip)
qed

lemma step_alike:
  assumes "\<And>t. map_ok strip (f (strip t)) = map_ok strip (f t)" "strip t = strip u" "f t = Ok t'"
  shows "\<exists>u'. f u = Ok u' \<and> strip u' = strip t'"
proof -
  have "map_ok strip (f u) = map_ok strip (f t)"
    using assms(1) [of t] assms(1) [of u] assms(2) by simp
  then show ?thesis
    using assms(3) by (cases "f u") auto
qed

lemma sequence_alike:
  assumes "apply_operation_sequence H read ops (t, n, ks) = Ok (t', n', ks')" "strip t = strip u"
  shows "\<exists>u'. apply_operation_sequence H read ops (u, n, ks) = Ok (u', n', ks') \<and> strip u' = strip t'"
  using assms
proof (induction ops arbitrary: t u n ks rule: measure_induct_rule [of length])
  case (less ops)
  show ?case
  proof (cases ops)
    case Nil
    then show ?thesis
      using less.prems by simp
  next
    case (Cons first rest)
    show ?thesis
    proof (cases "path_rename first")
      case True
      let ?run = "first # takeWhile path_rename rest"
      obtain t1 where t1: "apply_rename_batch ?run t = Ok t1"
          and tail: "apply_operation_sequence H read (dropWhile path_rename rest)
            (t1, n + length ?run, finsert ''rename-path'' ks) = Ok (t', n', ks')"
        using less.prems(1) True by (auto simp: Cons Let_def)
      obtain u1 where "apply_rename_batch ?run u = Ok u1" "strip u1 = strip t1"
        using step_alike [OF rename_batch_strip less.prems(2) t1] by blast
      then show ?thesis
        using less.IH [OF _ tail, of u1] True length_dropWhile_le [of path_rename rest]
        by (simp add: Cons Let_def)
    next
      case False
      then obtain t1 where t1: "apply_decoded_operation H read first t = Ok t1"
          and tail: "apply_operation_sequence H read rest
            (t1, n + 1, finsert (applied_operation_kind_label (dop_kind first)) ks) = Ok (t', n', ks')"
        using less.prems(1) by (auto simp: Cons)
      obtain u1 where "apply_decoded_operation H read first u = Ok u1" "strip u1 = strip t1"
        using step_alike [OF apply_operation_strip less.prems(2) t1] by blast
      then show ?thesis
        using less.IH [OF _ tail, of u1] False by (simp add: Cons)
    qed
  qed
qed

text \<open>Two replays that report the same so far: alike trees, the same counts and kinds.\<close>

definition alike :: "chain_replay \<Rightarrow> chain_replay \<Rightarrow> bool" where
  "alike c d \<longleftrightarrow> strip (ch_tree c) = strip (ch_tree d) \<and> patch_count c = patch_count d
     \<and> applied_operation_count c = applied_operation_count d
     \<and> applied_operation_kinds c = applied_operation_kinds d"

lemma chain_patch_alike:
  assumes "chain_patch H read i c = Ok c'" "alike c d"
  shows "\<exists>d'. chain_patch H read i d = Ok d' \<and> alike c' d'"
proof -
  obtain e ops t n ks where e: "read_patch read i = Ok e"
      "decode_patch_operations H (env_payload e) (env_schema e) = Ok ops"
      and seq: "apply_operation_sequence H read ops (ch_tree c, 0, {||}) = Ok (t, n, ks)"
      and c': "c' = c\<lparr> ch_tree := t, applied_operation_count := applied_operation_count c + n,
        applied_operation_kinds := applied_operation_kinds c |\<union>| ks, patch_count := patch_count c + 1 \<rparr>"
    using assms(1) by (auto simp: chain_patch_def)
  obtain u where "apply_operation_sequence H read ops (ch_tree d, 0, {||}) = Ok (u, n, ks)" "strip u = strip t"
    using sequence_alike [OF seq] assms(2) by (auto simp: alike_def)
  then show ?thesis
    using assms(2) by (auto simp: chain_patch_def e c' alike_def)
qed

lemma rfold_alike:
  assumes "\<And>x c c' d. f x c = Ok c' \<Longrightarrow> R c d \<Longrightarrow> \<exists>d'. g x d = Ok d' \<and> R c' d'"
    and "rfold f xs c = Ok c'" "R c d"
  shows "\<exists>d'. rfold g xs d = Ok d' \<and> R c' d'"
  using assms(2,3)
proof (induction xs arbitrary: c d)
  case (Cons x xs)
  then obtain c1 where "f x c = Ok c1" "rfold f xs c1 = Ok c'"
    by auto
  then show ?case
    using assms(1) [of x c c1 d] Cons.prems(2) Cons.IH by fastforce
qed simp

lemma chain_blocks_alike:
  assumes "rfold (chain_block H read) ids c = Ok c'" "alike c d"
  shows "\<exists>d'. rfold (chain_block H read) ids d = Ok d' \<and> alike c' d'"
proof (rule rfold_alike [where f = "chain_block H read" and R = alike, OF _ assms])
  fix i c c' d
  assume "chain_block H read i c = Ok c'" "alike c d"
  then show "\<exists>d'. chain_block H read i d = Ok d' \<and> alike c' d'"
    using rfold_alike [where f = "chain_patch H read" and g = "chain_patch H read" and R = alike, OF chain_patch_alike]
    by (auto simp: chain_block_def)
qed

section \<open>History is decoded as it is applied\<close>

text \<open>The history fields agree; the decoding side keeps its files and nodes.\<close>

definition same_history :: "chain_replay \<Rightarrow> chain_replay \<Rightarrow> bool" where
  "same_history c h \<longleftrightarrow> deleted_files (ch_tree c) = deleted_files (ch_tree h) \<and> patch_count c = patch_count h
     \<and> applied_operation_count c = applied_operation_count h
     \<and> applied_operation_kinds c = applied_operation_kinds h"

definition noted :: "decoded_patch_operation list \<Rightarrow> chain_replay \<Rightarrow> chain_replay" where
  "noted ops h = h\<lparr>
     applied_operation_kinds := applied_operation_kinds h |\<union>| fset_of_list (map (applied_operation_kind_label \<circ> dop_kind) ops),
     applied_operation_count := applied_operation_count h + length ops \<rparr>"

lemma history_renames:
  "\<forall>op \<in> set run. path_rename op \<Longrightarrow> rfold history_operation run h = Ok (noted run h)"
proof (induction run arbitrary: h)
  case (Cons op run)
  then show ?case
    by (auto simp: history_operation_def noted_def path_rename_def ensure_apply_supported_def Let_def
      split: decoded_operation_kind.splits)
qed (simp add: noted_def)

lemma rename_commit_deleted [simp]: "deleted_files (rename_commit e t) = deleted_files t"
  by (simp add: rename_commit_def split: prod.splits)

lemma fold_commit_deleted [simp]: "deleted_files (fold rename_commit staged t) = deleted_files t"
  by (induction staged arbitrary: t) simp_all

lemma rename_batch_deleted: "apply_rename_batch run t = Ok t' \<Longrightarrow> deleted_files t' = deleted_files t"
  by (auto simp: apply_rename_batch_def split: if_splits)

lemma operation_history:
  assumes "apply_decoded_operation H read op t = Ok t'" "deleted_files t = deleted_files (ch_tree h)"
  shows "\<exists>ds. history_operation op h = Ok ((noted [op] h)\<lparr> ch_tree := (ch_tree h)\<lparr> deleted_files := ds \<rparr> \<rparr>) \<and> ds = deleted_files t'"
  using assms
  by (cases "dop_kind op")
    (auto simp: apply_decoded_operation_def history_operation_def noted_def Let_def tree_create_file_def
      tree_delete_file_def tree_edit_text_def tree_replace_binary_def tree_change_perm_def
      split: decoded_delete_preimage.splits)

lemma noted_append: "noted ys (noted xs h) = noted (xs @ ys) h"
  by (simp add: noted_def ac_simps)

lemma noted_tree [simp]:
  "ch_tree (noted ops h) = ch_tree h" "noted ops (h\<lparr> ch_tree := t \<rparr>) = (noted ops h)\<lparr> ch_tree := t \<rparr>"
  by (simp_all add: noted_def)

definition labels :: "decoded_patch_operation list \<Rightarrow> string fset" where
  "labels ops = fset_of_list (map (applied_operation_kind_label \<circ> dop_kind) ops)"

lemma labels_renames:
  assumes "\<forall>op \<in> set run. path_rename op" "run \<noteq> []"
  shows "labels run = {|''rename-path''|}"
proof -
  have "map (applied_operation_kind_label \<circ> dop_kind) run = replicate (length run) ''rename-path''"
    using assms(1) by (induction run)
      (auto simp: path_rename_def applied_operation_kind_label_def split: decoded_operation_kind.splits)
  then show ?thesis
    using assms(2) by (simp add: labels_def fset_of_list_elem) (auto simp: fset_of_list.rep_eq fset_eq_iff fset_of_list_elem)
qed

lemma labels_append: "labels (xs @ ys) = labels xs |\<union>| labels ys"
  by (simp add: labels_def)

lemma sequence_history:
  assumes "apply_operation_sequence H read ops (t, n, ks) = Ok (t', n', ks')" "deleted_files t = deleted_files (ch_tree h)"
  shows "rfold history_operation ops h = Ok ((noted ops h)\<lparr> ch_tree := (ch_tree h)\<lparr> deleted_files := deleted_files t' \<rparr> \<rparr>)
    \<and> n' = n + length ops \<and> ks' = ks |\<union>| labels ops"
  using assms
proof (induction ops arbitrary: t n ks h rule: measure_induct_rule [of length])
  case (less ops)
  show ?case
  proof (cases ops)
    case Nil
    then show ?thesis
      using less.prems by (simp add: noted_def labels_def)
  next
    case (Cons first rest)
    show ?thesis
    proof (cases "path_rename first")
      case True
      define run where "run = first # takeWhile path_rename rest"
      have ops: "ops = run @ dropWhile path_rename rest" and run: "\<forall>op \<in> set run. path_rename op" "run \<noteq> []"
        using True by (auto simp: Cons run_def dest: set_takeWhileD)
      obtain t1 where t1: "apply_rename_batch run t = Ok t1"
          and tail: "apply_operation_sequence H read (dropWhile path_rename rest)
            (t1, n + length run, finsert ''rename-path'' ks) = Ok (t', n', ks')"
        using less.prems(1) True by (auto simp: Cons Let_def run_def)
      have "deleted_files t1 = deleted_files (ch_tree (noted run h))"
        using rename_batch_deleted [OF t1] less.prems(2) by simp
      note ih = less.IH [OF _ tail this]
      have small: "length (dropWhile path_rename rest) < length ops"
        using length_dropWhile_le [of path_rename rest] by (simp add: Cons)
      show ?thesis
        unfolding ops using ih [OF small] labels_renames [OF run]
        by (simp add: rfold_append history_renames [OF run(1)] noted_append labels_append)
    next
      case False
      then obtain t1 where t1: "apply_decoded_operation H read first t = Ok t1"
          and tail: "apply_operation_sequence H read rest
            (t1, n + 1, finsert (applied_operation_kind_label (dop_kind first)) ks) = Ok (t', n', ks')"
        using less.prems(1) by (auto simp: Cons)
      let ?h = "(noted [first] h)\<lparr> ch_tree := (ch_tree h)\<lparr> deleted_files := deleted_files t1 \<rparr> \<rparr>"
      have first: "history_operation first h = Ok ?h"
        using operation_history [OF t1 less.prems(2)] by simp
      have "deleted_files t1 = deleted_files (ch_tree ?h)"
        by simp
      note ih = less.IH [OF _ tail this]
      show ?thesis
        using ih labels_append [of "[first]" rest]
        by (simp add: Cons first noted_append) (simp add: labels_def)
    qed
  qed
qed

lemma chain_patch_history:
  assumes "chain_patch H read i c = Ok c'" "same_history c h"
  shows "\<exists>h'. history_patch H read i h = Ok h' \<and> same_history c' h'"
proof -
  obtain e ops t n ks where e: "read_patch read i = Ok e"
      "decode_patch_operations H (env_payload e) (env_schema e) = Ok ops"
      and seq: "apply_operation_sequence H read ops (ch_tree c, 0, {||}) = Ok (t, n, ks)"
      and c': "c' = c\<lparr> ch_tree := t, applied_operation_count := applied_operation_count c + n,
        applied_operation_kinds := applied_operation_kinds c |\<union>| ks, patch_count := patch_count c + 1 \<rparr>"
    using assms(1) by (auto simp: chain_patch_def)
  have "deleted_files (ch_tree c) = deleted_files (ch_tree h)"
    using assms(2) by (simp add: same_history_def)
  from sequence_history [OF seq this] show ?thesis
    using assms(2) by (simp add: history_patch_def e c' same_history_def noted_def labels_def)
qed

lemma chain_blocks_history:
  assumes "rfold (chain_block H read) ids c = Ok c'" "same_history c h"
  shows "\<exists>h'. decode_history H read ids h = Ok h' \<and> same_history c' h'"
  unfolding decode_history_def
proof (rule rfold_alike [where f = "chain_block H read" and R = same_history, OF _ assms])
  fix i c c' h
  assume "chain_block H read i c = Ok c'" "same_history c h"
  then show "\<exists>h'. rbind (read_block read i) (\<lambda>block. rfold (history_patch H read) (block_patch_ids block) h) = Ok h'
      \<and> same_history c' h'"
    using rfold_alike [where f = "chain_patch H read" and g = "history_patch H read" and R = same_history, OF chain_patch_history]
    by (auto simp: chain_block_def)
qed

section \<open>The files of a snapshot\<close>

text \<open>Every preimage that naming the given contents as file blobs hashes.\<close>

definition content_preimages :: "bytes set \<Rightarrow> bytes set" where
  "content_preimages cs = {object_id_preimage Blob 1 (fields_bytes (blob_fields (new_blob k c))) | k c. c \<in> cs}"

lemma blob_fields_inject:
  "fields_bytes (blob_fields (new_blob k c)) = fields_bytes (blob_fields (new_blob k d)) \<longleftrightarrow> c = d"
proof
  assume eq: "fields_bytes (blob_fields (new_blob k c)) = fields_bytes (blob_fields (new_blob k d))"
  have len: "length (fields_bytes (blob_fields (new_blob k x))) = 43 + length x" for x
    by (simp add: blob_fields_def new_blob_def length_fbytes)
  have "length c = length d"
    using arg_cong [OF eq, of length] by (simp add: len)
  then show "c = d"
    using eq by (simp add: blob_fields_def new_blob_def fbytes_def)
qed simp

lemma same_blob_id:
  assumes "file_blob_id_for_kind H c k = Ok b" "file_blob_id_for_kind H d k = Ok b"
    and "\<not> collide H (content_preimages A) (content_preimages B)" "c \<in> A" "d \<in> B"
  shows "c = d"
proof -
  obtain bk where bk: "blob_kind_for_node ''DeleteNode symlink node has no file-content blob'' k = Ok bk"
    using assms(1) by (auto simp: file_blob_id_for_kind_Ok)
  let ?p = "\<lambda>x. object_id_preimage Blob 1 (fields_bytes (blob_fields (new_blob bk x)))"
  have eq: "H (?p c) = H (?p d)"
    using assms(1,2) bk by (simp add: file_blob_id_for_kind_Ok from_canonical_payload_def)
  have "?p c \<in> content_preimages A" "?p d \<in> content_preimages B"
    unfolding content_preimages_def using assms(4,5) by blast+
  from not_collide [OF assms(3) this eq] have "?p c = ?p d" .
  then show ?thesis
    by (simp add: object_id_preimage_inject blob_fields_inject)
qed

lemma snapshot_state_lookup:
  assumes "distinct (map sf_path fs)" "distinct (map sf_node_id fs)"
  shows "fmlookup (fst (replay_state_from_snapshot fs)) p = Some c \<longleftrightarrow> (\<exists>f \<in> set fs. sf_path f = p \<and> sf_bytes f = c)"
    and "fmlookup (snd (replay_state_from_snapshot fs)) i = Some r \<longleftrightarrow> (\<exists>f \<in> set fs. sf_node_id f = i
      \<and> r = \<lparr> rl_path = sf_path f, rl_kind = sf_kind f, rl_mode = sf_mode f, rl_blob_id = sf_blob_id f \<rparr>)"
proof -
  have "(fmlookup (fst (replay_state_from_snapshot fs)) p = Some c \<longleftrightarrow> (\<exists>f \<in> set fs. sf_path f = p \<and> sf_bytes f = c))
    \<and> (fmlookup (snd (replay_state_from_snapshot fs)) i = Some r \<longleftrightarrow> (\<exists>f \<in> set fs. sf_node_id f = i
      \<and> r = \<lparr> rl_path = sf_path f, rl_kind = sf_kind f, rl_mode = sf_mode f, rl_blob_id = sf_blob_id f \<rparr>))"
    using assms
  proof (induction fs rule: rev_induct)
    case Nil
    then show ?case
      by (simp add: replay_state_from_snapshot_def)
  next
    case (snoc f fs)
    then show ?case
      by (auto simp: replay_state_from_snapshot_def split: prod.splits)
  qed
  then show "fmlookup (fst (replay_state_from_snapshot fs)) p = Some c \<longleftrightarrow> (\<exists>f \<in> set fs. sf_path f = p \<and> sf_bytes f = c)"
    and "fmlookup (snd (replay_state_from_snapshot fs)) i = Some r \<longleftrightarrow> (\<exists>f \<in> set fs. sf_node_id f = i
      \<and> r = \<lparr> rl_path = sf_path f, rl_kind = sf_kind f, rl_mode = sf_mode f, rl_blob_id = sf_blob_id f \<rparr>)"
    by blast+
qed

lemma snapshot_file_of_entry_OkD:
  assumes "addressed H read" "format2 read" "snapshot_file_of_entry read i e = Ok f"
  shows "sf_path f = path_str (se_path e)" "sf_node_id f = se_node_id e" "sf_kind f = se_kind e"
    "sf_mode f = se_mode e" "se_content e = ContentBlob (sf_blob_id f)"
    "file_blob_id_for_kind H (sf_bytes f) (sf_kind f) = Ok (sf_blob_id f)"
proof -
  obtain b env where b: "se_content e = ContentBlob b" "read b = Ok (Some env)" "env_type env = Blob"
      "decode_file_content_blob_with_kind (env_payload env) = Ok (se_kind e, sf_bytes f)"
      and f: "sf_path f = path_str (se_path e)" "sf_node_id f = se_node_id e" "sf_kind f = se_kind e"
        "sf_mode f = se_mode e" "sf_blob_id f = b"
    using assms(3)
    by (cases "se_content e") (auto simp: snapshot_file_of_entry_def Let_def read_typed_def split: option.splits if_splits)
  then show "sf_path f = path_str (se_path e)" "sf_node_id f = se_node_id e" "sf_kind f = se_kind e"
    "sf_mode f = se_mode e" "se_content e = ContentBlob (sf_blob_id f)"
    by simp_all
  obtain blob where blob: "decode_blob (env_payload env) = Ok blob" "blob_content blob = sf_bytes f"
      "node_kind_from_file_blob_kind (blob_kind_of blob) = Ok (se_kind e)"
    using b(4) by (auto simp: decode_file_content_blob_with_kind_def)
  have "env_schema env = 1"
    using format2_admitted [OF assms(2) b(2)] b(3) by (auto simp: admitted_schemas_def)
  then have "resolve_blob read True b = Ok (Some blob)"
    using b(2,3) blob(1) by (auto simp: resolve_blob_schema)
  from resolved_file_blob(2) [OF assms(1) this blob(3)]
  show "file_blob_id_for_kind H (sf_bytes f) (sf_kind f) = Ok (sf_blob_id f)"
    using blob(2) f by simp
qed

lemma entries_from_state_Ok:
  "entries_from_state s = Ok es \<longleftrightarrow> validate_entries es = Ok ()
     \<and> es = sort_key (path_str \<circ> se_path) (map state_entry_of (live_nodes s))"
  by (auto simp: entries_from_state_def Let_def)

lemma set_entries_from_state:
  assumes "entries_from_state s = Ok es"
  shows "e \<in> set es \<longleftrightarrow> (\<exists>i n. status s i = Live n \<and> e = state_entry_of (i, n))"
  using assms by (auto simp: entries_from_state_Ok live_nodes_def set_in_key_order image_iff Bex_def split: prod.splits)

lemma state_entry_of_simps:
  "se_path (state_entry_of (i, n)) = ln_path n" "se_node_id (state_entry_of (i, n)) = i"
  "se_kind (state_entry_of (i, n)) = ln_kind n"
  "ln_content n = FileContent b m \<Longrightarrow> se_mode (state_entry_of (i, n)) = m \<and> se_content (state_entry_of (i, n)) = ContentBlob b"
  by (auto simp: state_entry_of_def Let_def split: node_content.splits)

lemma snapshot_restores:
  assumes ad: "addressed H read" and f2: "format2 read" and ag: "agree H read st t"
    and es: "entries_from_state (fst st) = Ok es"
    and fs: "rmap (snapshot_file_of_entry read i0) es = Ok fs"
    and nc: "\<not> collide H (content_preimages (fmran' (files t))) (content_preimages (sf_bytes ` set fs))"
  shows "fst (replay_state_from_snapshot fs) = files t"
    and "fmmap erase (snd (replay_state_from_snapshot fs)) = fmmap erase (tree_nodes t)"
proof -
  have wf: "wf_lifecycle (fst st)" and m: "mirrors H read (status (fst st)) (snd st) t"
    using ag by (auto simp: agree_def)
  have all: "list_all2 (\<lambda>e f. snapshot_file_of_entry read i0 e = Ok f) es fs"
    using fs by (simp add: rmap_eq_Ok)
  have v: "sorted_wrt (<) (map (path_str \<circ> se_path) es)" "distinct (map se_node_id es)"
    using es by (auto simp: entries_from_state_Ok validate_entries_iff)
  have keys: "map sf_path fs = map (path_str \<circ> se_path) es" "map sf_node_id fs = map se_node_id es"
    using all by (induction rule: list_all2_induct) (auto simp: snapshot_file_of_entry_OkD [OF ad f2])
  have d: "distinct (map sf_path fs)" "distinct (map sf_node_id fs)"
    using v by (simp_all add: keys strict_sorted_iff)
  have restored: "\<exists>n r. status (fst st) (sf_node_id f) = Live n \<and> fmlookup (tree_nodes t) (sf_node_id f) = Some r
      \<and> fmlookup (files t) (sf_path f) = Some (sf_bytes f) \<and> path_str (ln_path n) = sf_path f
      \<and> erase r = erase \<lparr> rl_path = sf_path f, rl_kind = sf_kind f, rl_mode = sf_mode f, rl_blob_id = sf_blob_id f \<rparr>"
    if f: "f \<in> set fs" for f
  proof -
    obtain e where e: "e \<in> set es" "snapshot_file_of_entry read i0 e = Ok f"
      using list_all2_members(2) [OF all f] by blast
    obtain i n where n: "status (fst st) i = Live n" "e = state_entry_of (i, n)"
      using e(1) by (auto simp: set_entries_from_state [OF es] simp del: status_Live)
    obtain r c where r: "fmlookup (tree_nodes t) i = Some r" "fmlookup (files t) (rl_path r) = Some c"
        "node_mirror H read (snd st) i n r c"
      using mirrorsD(1) [OF m n(1)] by blast
    obtain b where b: "ln_content n = FileContent b (rl_mode r)" "file_blob_id_for_kind H c (rl_kind r) = Ok b"
        "rl_kind r = BinaryFile \<longrightarrow> rl_blob_id r = b" "path_str (ln_path n) = rl_path r" "ln_kind n = rl_kind r"
      using r(3) by (auto simp: node_mirror_def)
    note sf = snapshot_file_of_entry_OkD [OF ad f2 e(2)]
    have f': "sf_path f = rl_path r" "sf_node_id f = i" "sf_kind f = rl_kind r" "sf_mode f = rl_mode r" "sf_blob_id f = b"
      using sf(1-5) state_entry_of_simps(4) [OF b(1), of i] b by (auto simp: n(2) state_entry_of_simps)
    have "c = sf_bytes f"
      by (rule same_blob_id [OF b(2) _ nc]) (use sf(6) f f' r(2) in \<open>auto intro: fmran'I\<close>)
    then show ?thesis
      using n(1) r(1,2) b(3,4) f' by (cases r) (auto simp: erase_def simp del: status_Live)
  qed
  have covered: "\<exists>f \<in> set fs. sf_node_id f = i" if n: "status (fst st) i = Live n" for i n
  proof -
    have "state_entry_of (i, n) \<in> set es"
      using n by (auto simp: set_entries_from_state [OF es] simp del: status_Live)
    then obtain f where f: "f \<in> set fs" "snapshot_file_of_entry read i0 (state_entry_of (i, n)) = Ok f"
      using list_all2_members(1) [OF all] by blast
    then have "sf_node_id f = i"
      using snapshot_file_of_entry_OkD(2) [OF ad f2 f(2)] by (simp add: state_entry_of_simps)
    then show ?thesis
      using f(1) by blast
  qed
  show "fst (replay_state_from_snapshot fs) = files t"
  proof (rule fmap_ext)
    fix p
    have "fmlookup (fst (replay_state_from_snapshot fs)) p = Some c \<longleftrightarrow> fmlookup (files t) p = Some c" for c
    proof
      assume "fmlookup (fst (replay_state_from_snapshot fs)) p = Some c"
      then show "fmlookup (files t) p = Some c"
        using restored by (auto simp: snapshot_state_lookup [OF d])
    next
      assume c: "fmlookup (files t) p = Some c"
      then obtain i n where n: "status (fst st) i = Live n" "path_str (ln_path n) = p"
        using mirrorsD(3) [OF m] by blast
      then obtain f where f: "f \<in> set fs" "sf_node_id f = i"
        using covered by blast
      then show "fmlookup (fst (replay_state_from_snapshot fs)) p = Some c"
        using restored [OF f(1)] n c by (auto simp: snapshot_state_lookup [OF d])
    qed
    then show "fmlookup (fst (replay_state_from_snapshot fs)) p = fmlookup (files t) p"
      by (metis option.exhaust)
  qed
  show "fmmap erase (snd (replay_state_from_snapshot fs)) = fmmap erase (tree_nodes t)"
  proof (rule fmap_ext)
    fix i
    show "fmlookup (fmmap erase (snd (replay_state_from_snapshot fs))) i = fmlookup (fmmap erase (tree_nodes t)) i"
    proof (cases "\<exists>f \<in> set fs. sf_node_id f = i")
      case True
      then obtain f where f: "f \<in> set fs" "sf_node_id f = i"
        by blast
      then have "fmlookup (snd (replay_state_from_snapshot fs)) i
          = Some \<lparr> rl_path = sf_path f, rl_kind = sf_kind f, rl_mode = sf_mode f, rl_blob_id = sf_blob_id f \<rparr>"
        by (auto simp: snapshot_state_lookup [OF d])
      then show ?thesis
        using restored [OF f(1)] f(2) by auto
    next
      case False
      then have "fmlookup (snd (replay_state_from_snapshot fs)) i = None"
        using snapshot_state_lookup(2) [OF d] by (metis option.exhaust)
      moreover have "fmlookup (tree_nodes t) i = None"
        using False covered mirrorsD(2) [OF m] by (metis option.exhaust)
      ultimately show ?thesis
        by simp
    qed
  qed
qed

end
