(* ===== verification/Replay_Props.thy ===== *)
theory Replay_Props
  imports Replay_Chain Patch_Codec
begin

text \<open>
  Properties of the two replays of a block chain, with a sample history on which they are
  evaluated: a root block with one patch that creates the file \<open>a\<close> with the contents \<open>hi\<close>.
\<close>

section \<open>A sample history\<close>

text \<open>A digest of the right length that keeps the three sample objects apart.\<close>

definition demo_hash :: "bytes \<Rightarrow> bytes" where
  "demo_hash b = replicate 32 (word_of_nat (length b))"

definition demo_blob :: object_envelope where
  "demo_blob = \<lparr> env_type = Blob, env_schema = 1,
     env_payload = fields_bytes (blob_fields (new_blob BlobText [104, 105])), env_signatures = [] \<rparr>"

definition demo_blob_id :: object_id where
  "demo_blob_id = ObjectId (replicate 32 77)"

definition demo_node :: node_id where
  "demo_node = NodeId (replicate 32 1)"

definition demo_patch_payload :: patch_payload where
  "demo_patch_payload = \<lparr> pp_operations = [\<lparr> op_seq = 1, op_id = None, op_preconditions = [],
       op_kind = CreateFile \<lparr> cf_path = [0x61], cf_node_id = demo_node, cf_blob_id = demo_blob_id,
         cf_mode = 0x81A4 \<rparr> \<rparr>],
     pp_intent = None, pp_preconditions = [], pp_purpose = Normal, pp_message = None \<rparr>"

definition demo_patch_bytes :: bytes where
  "demo_patch_bytes = fields_bytes [tf 1 WRecordListItem (fields_bytes [tf 1 WU32 (u32_be 1),
      tf 10 WRecord (fields_bytes [tf 1 WRepoPath [0x61], tf 2 WBytes (replicate 32 1),
        tf 3 WObjectId (replicate 32 77), tf 4 WU32 (u32_be 0x81A4)])])]"

definition demo_patch :: object_envelope where
  "demo_patch = \<lparr> env_type = Patch, env_schema = 4, env_payload = demo_patch_bytes, env_signatures = [] \<rparr>"

definition demo_patch_id :: object_id where
  "demo_patch_id = ObjectId (replicate 32 182)"

definition demo_block_payload :: block_payload where
  "demo_block_payload = \<lparr> parent_block_ids = [], block_kind_of = BRoot, block_patch_ids = [demo_patch_id],
     state_merkle_root = replicate 32 2, snapshot_blob_ref = None, mainline_parent_id = None,
     merge_baseline_block_id = None \<rparr>"

definition demo_block :: object_envelope where
  "demo_block = \<lparr> env_type = Block, env_schema = 2,
     env_payload = fields_bytes (block_fields demo_block_payload), env_signatures = [] \<rparr>"

definition demo_block_id :: object_id where
  "demo_block_id = ObjectId (replicate 32 131)"

definition demo_store :: memory_object_store where
  "demo_store = snd (memory_write_object demo_hash demo_block (snd (memory_write_object demo_hash demo_patch
     (snd (memory_write_object demo_hash demo_blob new_memory_store)))))"

lemma demo_ids:
  "envelope_object_id demo_hash demo_blob = demo_blob_id"
  "envelope_object_id demo_hash demo_patch = demo_patch_id"
  "envelope_object_id demo_hash demo_block = demo_block_id"
  by (simp_all add: envelope_object_id_def from_canonical_payload_def object_id_preimage_def demo_hash_def
      OBJECT_ID_DOMAIN_def demo_blob_def demo_blob_id_def demo_patch_def demo_patch_id_def demo_patch_bytes_def
      demo_block_def demo_block_id_def demo_block_payload_def block_fields_def blob_fields_def new_blob_def
      opt_field_def length_fbytes ascii_def)

lemma demo_validate:
  "validate_strict demo_blob = Ok ()" "validate_strict demo_patch = Ok ()" "validate_strict demo_block = Ok ()"
  by (simp_all add: demo_blob_def demo_patch_def demo_block_def validate_strict_iff strict_envelope_def)

lemma demo_reads:
  "memory_read_object demo_store i =
     Ok (if i = demo_block_id then Some demo_block else if i = demo_patch_id then Some demo_patch
         else if i = demo_blob_id then Some demo_blob else None)"
  by (simp add: demo_store_def memory_write_object_def memory_read_object_def new_memory_store_def
      demo_validate demo_ids)

lemma demo_payloads:
  "decode_blob (env_payload demo_blob) = Ok (new_blob BlobText [104, 105])"
  "decode_block (env_payload demo_block) = Ok demo_block_payload"
proof -
  show "decode_blob (env_payload demo_blob) = Ok (new_blob BlobText [104, 105])"
    unfolding demo_blob_def object_envelope.simps
    by (rule decode_blob_fields)
      (simp_all add: wf_blob_def new_blob_def blob_fields_def length_fbytes usize_limit_def)
  show "decode_block (env_payload demo_block) = Ok demo_block_payload"
    unfolding demo_block_def object_envelope.simps
    by (rule decode_block_fields)
      (simp_all add: demo_block_payload_def demo_patch_id_def wf_block_def wf_id_def block_fields_def
        opt_field_def is_strictly_sorted_iff length_fbytes usize_limit_def)
qed

lemma demo_patch_encodes: "to_canonical_bytes (encode_patch H) demo_patch_payload = Ok demo_patch_bytes"
proof -
  have "validate_create_file \<lparr> cf_path = [0x61], cf_node_id = demo_node, cf_blob_id = demo_blob_id,
      cf_mode = 0x81A4 \<rparr> = Ok ()"
    using sample_paths
    by (simp add: validate_create_file_def validate_repo_path_iff node_id_is_zero_def demo_node_def
        is_canonical_file_mode_def CANONICAL_FILE_MODES_def)
  then show ?thesis
    by (simp add: demo_patch_payload_def demo_patch_bytes_def to_canonical_bytes_def encode_patch_def
        validate_patch_def is_contiguous_op_seq_nth new_writer_of repeated_record_list_def
        field_record_list_item_def encode_operation_kind field_defs repeated_record_def field_string_opt_def
        encode_create_file_def field_raw_writer_of demo_node_def demo_blob_id_def)
qed

lemma demo_operations:
  "decode_patch_operations H demo_patch_bytes 4
     = Ok [\<lparr> dop_seq = 1, dop_kind = DCreateFile [0x61] demo_node demo_blob_id 0x81A4, dop_patch_id = None \<rparr>]"
proof -
  have "wf_patch demo_patch_payload" "patch_schema_ok 4 demo_patch_payload" "length demo_patch_bytes < usize_limit"
    by (simp_all add: demo_patch_payload_def demo_patch_bytes_def wf_patch_def patch_schema_ok_def wf_node_id_def
        wf_id_def demo_node_def demo_blob_id_def PATCH_MESSAGE_SCHEMA_def length_fbytes usize_limit_def)
  from decode_patch_bytes(2) [OF demo_patch_encodes this] show ?thesis
    by (simp add: demo_patch_payload_def decoded_operation_def)
qed

lemma demo_operations_read:
  "read_patch_operations demo_hash (memory_read_object demo_store) demo_patch_id f
     = Ok [\<lparr> dop_seq = 1, dop_kind = DCreateFile [0x61] demo_node demo_blob_id 0x81A4, dop_patch_id = None \<rparr>]"
  by (simp add: read_patch_operations_def demo_reads demo_patch_id_def demo_block_id_def demo_patch_def
      demo_operations admitted_schemas_def Let_def)

lemma demo_walk:
  "walk_lineage (memory_read_object demo_store) demo_block_id demo_block_id
     = Some (Ok [(demo_block_id, demo_block_payload)])"
proof -
  have "lineage_read_block (memory_read_object demo_store) demo_block_id = Ok demo_block_payload"
    using demo_payloads(2) by (simp add: lineage_read_block_def demo_reads demo_block_def)
  moreover have "parents_of demo_block_payload = []"
    by (simp add: parents_of_def demo_block_payload_def)
  ultimately show ?thesis
    by (subst walk_lineage_def, subst lineage_loop.simps) simp
qed

definition demo_live :: live_node where
  "demo_live = \<lparr> ln_path = RepoPath [0x61], ln_kind = TextFile, ln_content = FileContent demo_blob_id 0x81A4 \<rparr>"

lemma demo_replay:
  "\<exists>st. replay_lineage_with_materialized_text demo_hash (memory_read_object demo_store)
       demo_block_id demo_block_id = Some (Ok st)
     \<and> fmlookup (live_by_id (fst st)) demo_node = Some demo_live"
proof -
  have path: "repo_path_parse [0x61] = Ok (RepoPath [0x61])"
    using sample_paths by (simp add: repo_path_parse_def validate_repo_path_iff)
  have kind: "resolver_blob_kind (memory_read_object demo_store) False demo_blob_id = Ok (Some BlobText)"
    using demo_payloads(1)
    by (simp add: resolver_blob_kind_def resolve_blob_def demo_reads demo_blob_id_def demo_patch_id_def
        demo_block_id_def demo_blob_def validate_blob_schema_def new_blob_def)
  have "node_bytes demo_node \<noteq> replicate 32 0"
    by (simp add: demo_node_def)
  then show ?thesis
    using path kind
    by (simp add: replay_lineage_with_materialized_text_def demo_walk replay_chain_with_appended_patches_def
        apply_patch_ids_def demo_block_payload_def demo_operations_read rename_op_def parse_repo_path_def
        create_node_def new_lifecycle_def demo_live_def effect_def guarded_def ensure_node_id_nonzero_def
        validate_kind_content_shape_def)
qed

lemma demo_reader:
  "addressed demo_hash (memory_read_object demo_store)" "format2 (memory_read_object demo_store)"
proof -
  have "wf_memory demo_hash demo_store"
    unfolding demo_store_def by (intro wf_memory_write wf_new_memory_store)
  then show "addressed demo_hash (memory_read_object demo_store)"
    using memory.addressed by (simp add: addressed_def)
  show "format2 (memory_read_object demo_store)"
    by (auto simp: format2_def demo_reads validate_format2_schema_def admitted_schemas_def demo_blob_def
        demo_patch_def demo_block_def split: if_splits)
qed

section \<open>Properties\<close>

lemma demo_not_refused:
  "\<not> refused_on_chain demo_hash (memory_read_object demo_store) f [(demo_block_id, demo_block_payload)] st e"
  by (auto simp: refused_on_chain_def refused_by_patches_def refused_in_def refuses_def Cons_eq_append_conv
      demo_block_payload_def demo_operations_read)

text \<open>C1 (equivalence): the two replays of a block chain agree. Suppose the lifecycle replay of a lineage
  succeeds. Then the materializing replay walks the same blocks, and either it rebuilds a working tree whose
  manifest lists, in path order, exactly the live nodes of the lifecycle state, with the same path, kind and
  mode and with contents that hash to the recorded blob, or it refuses one operation of the chain. It refuses
  exactly when the chain has, at the state that lifecycle replay holds there, a symlink operation or an
  EditText of a text that is not UTF-8, and the error is the one for that operation. Merge blocks on the chain
  name their mainline parent, and the store holds only objects stored under their own id in an admitted
  schema.\<close>

theorem replays_agree:
  assumes "addressed H read" "format2 read"
    and "walk_lineage read baseline horizon = Some (Ok chain)"
    and "\<forall>(i, block) \<in> set chain. one_parent block"
    and "replay_lineage_with_materialized_text H read baseline horizon = Some (Ok st)"
  shows "single_parent_chain read baseline = Some (Ok (map fst chain))
    \<and> (case replay_chain_capturing H read (map fst chain) None cap of
         Ok c \<Rightarrow> (\<nexists>e. refused_on_chain H read False chain (new_lifecycle, fmempty) e)
           \<and> (\<exists>entries. files_to_replay_manifest (files (ch_tree c)) (tree_nodes (ch_tree c)) = Ok entries
                \<and> lists_live H (status (fst st)) entries)
       | Err e \<Rightarrow> refused_on_chain H read False chain (new_lifecycle, fmempty) e)"
proof -
  have "replay_chain_with_appended_patches H read chain [] False = Ok st"
    using assms(3,5) by (auto simp: replay_lineage_with_materialized_text_def)
  note sim = replayed_chain_follows [OF assms(1,2,3) this]
  show ?thesis
    using walk_lineage_Ok(5) [OF assms(3,4)] sim(1) sim(2,3) [of cap]
      manifest_lists_live [of "fst st" H read "snd st"]
    by (cases "replay_chain_capturing H read (map fst chain) None cap")
      (auto simp: agree_def sound_state_def)
qed

theorem replays_agree_witness:
  "\<exists>(st :: replay_state) c entries. fmlookup (live_by_id (fst st)) demo_node = Some demo_live
    \<and> single_parent_chain (memory_read_object demo_store) demo_block_id = Some (Ok [demo_block_id])
    \<and> replay_chain_capturing demo_hash (memory_read_object demo_store) [demo_block_id] None (capture_for_ids {||}) = Ok c
    \<and> files_to_replay_manifest (files (ch_tree c)) (tree_nodes (ch_tree c)) = Ok entries
    \<and> lists_live demo_hash (status (fst st)) entries"
proof -
  obtain st where st: "replay_lineage_with_materialized_text demo_hash (memory_read_object demo_store)
       demo_block_id demo_block_id = Some (Ok st)" "fmlookup (live_by_id (fst st)) demo_node = Some demo_live"
    using demo_replay by blast
  have "\<forall>(i, block) \<in> set [(demo_block_id, demo_block_payload)]. one_parent block"
    by (simp add: one_parent_def mainline_or_sole_parent_def demo_block_payload_def)
  from replays_agree [OF demo_reader demo_walk this st(1), of "capture_for_ids {||}"] st(2) show ?thesis
    by (cases "replay_chain_capturing demo_hash (memory_read_object demo_store) [demo_block_id] None (capture_for_ids {||})")
      (auto simp: demo_not_refused)
qed

text \<open>C32 (termination): neither walk up the block ancestry runs forever. On every in-memory store, from
  any starting block, the single-parent walk of the materializing replay and the lineage walk of the
  lifecycle replay both return, a result or an error, also when the stored blocks form a cycle; and so
  does the replay over the walked lineage.\<close>

theorem walks_return:
  assumes "wf_memory H m"
  shows "(\<exists>r. single_parent_chain (memory_read_object m) target = Some r)
    \<and> (\<exists>r. walk_lineage (memory_read_object m) baseline horizon = Some r)
    \<and> (\<exists>r. replay_lineage H (memory_read_object m) baseline horizon = Some r)"
  using memory.single_parent_chain_returns [OF assms] memory.walk_lineage_returns [OF assms]
    memory.replay_lineage_returns [OF assms] by blast

theorem walks_return_witness:
  "\<exists>r. replay_lineage demo_hash (memory_read_object demo_store) demo_block_id demo_block_id = Some r"
proof -
  have "wf_memory demo_hash demo_store"
    unfolding demo_store_def by (intro wf_memory_write wf_new_memory_store)
  from walks_return [OF this] show ?thesis
    by blast
qed

end
