(* ===== verification/Snapshot_Props.thy ===== *)
theory Snapshot_Props
  imports Snapshot Replay_Props
begin

text \<open>
  Properties of state roots and of the snapshots that are checked against them, with a checkpoint of
  the sample history: one text file \<open>a\<close> whose blob is not stored yet.
\<close>

section \<open>A sample checkpoint\<close>

definition demo_entry :: state_root_entry where
  "demo_entry = \<lparr> se_path = RepoPath [0x61], se_node_id = demo_node, se_kind = TextFile,
     se_mode = 0x81A4, se_content = ContentBlob demo_blob_id \<rparr>"

definition demo_text :: "node_id \<Rightarrow> bytes option" where
  "demo_text i = (if i = demo_node then Some [104, 105] else None)"

definition demo_root :: bytes where
  "demo_root = demo_hash (root_preimage demo_hash [demo_entry])"

definition checkpoint_block :: "object_id \<Rightarrow> block_payload" where
  "checkpoint_block i = demo_block_payload\<lparr> state_merkle_root := demo_root, snapshot_blob_ref := Some i \<rparr>"

lemma demo_entry_valid: "wf_entry demo_entry" "state_leaf_fields demo_entry = Ok (leaf_bytes demo_entry)"
    "validate_entries [demo_entry] = Ok ()"
proof -
  have "repo_path_parse [0x61] = Ok (RepoPath [0x61])"
    using sample_paths by (simp add: repo_path_parse_def validate_repo_path_iff)
  then show "wf_entry demo_entry"
    by (simp add: demo_entry_def wf_entry_def demo_node_def demo_blob_id_def)
  have v: "validate_entry demo_entry = Ok ()"
    by (simp add: demo_entry_def validate_entry_def demo_node_def node_id_is_zero_def REGULAR_MODE_def)
  then show "state_leaf_fields demo_entry = Ok (leaf_bytes demo_entry)"
    by (simp add: state_leaf_fields_Ok) (simp add: demo_entry_def demo_blob_id_def)
  show "validate_entries [demo_entry] = Ok ()"
    by (simp add: validate_entries_iff v)
qed

lemma demo_root_Ok: "compute_state_root demo_hash [demo_entry] = Ok demo_root"
  by (simp add: compute_state_root_Ok demo_entry_valid demo_root_def)

text \<open>The same file, executable: the sample digest, which only counts bytes, cannot tell the two apart.\<close>

definition demo_script :: state_root_entry where
  "demo_script = demo_entry\<lparr> se_mode := 0x81ED \<rparr>"

lemma demo_script_valid: "wf_entry demo_script" "state_leaf_fields demo_script = Ok (leaf_bytes demo_script)"
    "validate_entries [demo_script] = Ok ()"
proof -
  show "wf_entry demo_script"
    using demo_entry_valid(1) by (simp add: demo_script_def wf_entry_def)
  have v: "validate_entry demo_script = Ok ()"
    by (simp add: demo_script_def demo_entry_def validate_entry_def demo_node_def node_id_is_zero_def EXECUTABLE_MODE_def)
  then show "state_leaf_fields demo_script = Ok (leaf_bytes demo_script)"
    by (simp add: state_leaf_fields_Ok) (simp add: demo_script_def demo_entry_def demo_blob_id_def)
  show "validate_entries [demo_script] = Ok ()"
    by (simp add: validate_entries_iff v)
qed

lemma demo_script_root: "compute_state_root demo_hash [demo_script] = Ok demo_root"
  by (simp add: compute_state_root_Ok demo_script_valid demo_root_def)
    (simp add: root_preimage_def reduce_all.simps leaf_bytes_def demo_script_def demo_hash_def)

lemma demo_hash_length: "\<forall>x. length (demo_hash x) = 32"
  by (simp add: demo_hash_def)

lemma demo_manifest_small:
  "e = demo_entry \<or> e = demo_script \<Longrightarrow> length (manifest_bytes [e]) + 256 < usize_limit"
  by (auto simp: manifest_bytes_def leaf_bytes_def SNAPSHOT_MAGIC_def demo_entry_def demo_script_def
      demo_node_def demo_blob_id_def ascii_def usize_limit_def)

lemma demo_checkpoint_written:
  assumes "e = demo_entry \<or> e = demo_script"
  shows "\<exists>i s. write_checkpoint_snapshot demo_hash memory_read_object (memory_write_object demo_hash)
    demo_text [e] new_memory_store = (Ok i, s)"
proof -
  have encoded: "to_canonical_bytes encode_blob (new_blob k c) = Ok (fields_bytes (blob_fields (new_blob k c)))" for k c
    by (simp add: encode_blob_Ok wf_blob_def new_blob_def)
  have env: "unsigned_envelope Blob 1 (fields_bytes (blob_fields (new_blob BlobText [104, 105]))) = demo_blob"
    by (simp add: unsigned_envelope_def demo_blob_def)
  have content: "se_content e = ContentBlob demo_blob_id" "se_kind e = TextFile" "se_node_id e = demo_node"
    using assms by (auto simp: demo_entry_def demo_script_def)
  then have blob: "checkpoint_blob demo_hash demo_text e demo_blob_id = Ok demo_blob"
    by (simp add: checkpoint_blob_def demo_text_def encoded env demo_ids Let_def)
  have manifest: "manifest_encode \<lparr> sm_entries = [e] \<rparr> = Ok (manifest_bytes [e])"
    using assms by (auto simp: manifest_encode_Ok demo_entry_valid demo_script_valid)
  have strict: "validate_strict (unsigned_envelope Blob 1 payload) = Ok ()" for payload
    by (simp add: unsigned_envelope_def validate_strict_iff strict_envelope_def)
  show ?thesis
    by (simp add: write_checkpoint_snapshot_def checkpoint_entry_def content has_object_def read_typed_def
        memory_read_object_def new_memory_store_def blob encoded manifest strict demo_validate
        memory_write_object_def Let_def)
qed

lemma demo_checkpoint_validates:
  assumes "e = demo_entry \<or> e = demo_script"
  shows "\<exists>i s. validate_snapshot_manifest demo_hash (\<lambda>_. []) (memory_read_object s) demo_block_id (checkpoint_block i)
    = Ok (Some \<lparr> sm_entries = [e] \<rparr>)"
proof -
  obtain i s where w: "write_checkpoint_snapshot demo_hash memory_read_object (memory_write_object demo_hash)
      demo_text [e] new_memory_store = (Ok i, s)"
    using demo_checkpoint_written [OF assms] by blast
  have "compute_state_root demo_hash [e] = Ok demo_root" "wf_entry e"
    using assms demo_root_Ok demo_script_root demo_entry_valid(1) demo_script_valid(1) by auto
  then show ?thesis
    using memory.checkpoint_validates(2) [OF w _ _ _ _ _ demo_manifest_small [OF assms], of demo_root "checkpoint_block i"]
    by (auto simp: checkpoint_block_def)
qed

section \<open>Properties\<close>

text \<open>C7 (safety): a state root binds the state. With a 32-byte digest, two lists of well-formed
  entries for which the same root is computed are the same list, entry for entry: path, node, kind,
  mode and content. Otherwise two different preimages hashed while computing the two roots have the
  same digest.\<close>

theorem state_root_binds_entries:
  assumes "\<forall>x. length (H x) = 32" "\<forall>e \<in> set es \<union> set es'. wf_entry e"
    and "compute_state_root H es = Ok r" "compute_state_root H es' = Ok r"
  shows "es = es' \<or> collide H (root_preimages H es) (root_preimages H es')"
  by (rule state_root_inject [OF assms])

theorem state_root_binds_entries_witness:
  "\<exists>r. compute_state_root demo_hash [demo_entry] = Ok r \<and> compute_state_root demo_hash [demo_script] = Ok r
    \<and> collide demo_hash (root_preimages demo_hash [demo_entry]) (root_preimages demo_hash [demo_script])"
proof -
  have "[demo_entry] \<noteq> [demo_script]"
    by (simp add: demo_entry_def demo_script_def)
  then show ?thesis
    using state_root_binds_entries [OF demo_hash_length _ demo_root_Ok demo_script_root]
      demo_root_Ok demo_script_root demo_entry_valid(1) demo_script_valid(1) by simp
qed

text \<open>C16 (safety): snapshots cannot disagree with the state root they are loaded under. When the
  snapshots of two blocks, read from any two stores, validate and the blocks carry the same state
  root, the two manifests are equal, unless two different preimages of the two root computations
  collide.\<close>

theorem snapshots_of_one_root:
  assumes "\<forall>x. length (H x) = 32"
    and "validate_snapshot_manifest H escape read i block = Ok (Some m)"
    and "validate_snapshot_manifest H escape read' i' block' = Ok (Some m')"
    and "state_merkle_root block = state_merkle_root block'"
  shows "m = m' \<or> collide H (root_preimages H (sm_entries m)) (root_preimages H (sm_entries m'))"
  using state_root_inject [OF assms(1), of "sm_entries m" "sm_entries m'" "state_merkle_root block"]
    validate_snapshot_OkD [OF assms(2)] validate_snapshot_OkD [OF assms(3)] assms(4)
  by (cases m; cases m') auto

theorem snapshots_of_one_root_witness:
  "\<exists>i s i' s'. validate_snapshot_manifest demo_hash (\<lambda>_. []) (memory_read_object s) demo_block_id (checkpoint_block i)
        = Ok (Some \<lparr> sm_entries = [demo_entry] \<rparr>)
     \<and> validate_snapshot_manifest demo_hash (\<lambda>_. []) (memory_read_object s') demo_block_id (checkpoint_block i')
        = Ok (Some \<lparr> sm_entries = [demo_script] \<rparr>)
     \<and> collide demo_hash (root_preimages demo_hash [demo_entry]) (root_preimages demo_hash [demo_script])"
proof -
  obtain i s where v: "validate_snapshot_manifest demo_hash (\<lambda>_. []) (memory_read_object s) demo_block_id (checkpoint_block i)
      = Ok (Some \<lparr> sm_entries = [demo_entry] \<rparr>)"
    using demo_checkpoint_validates by blast
  obtain i' s' where v': "validate_snapshot_manifest demo_hash (\<lambda>_. []) (memory_read_object s') demo_block_id (checkpoint_block i')
      = Ok (Some \<lparr> sm_entries = [demo_script] \<rparr>)"
    using demo_checkpoint_validates by blast
  have "[demo_entry] \<noteq> [demo_script]" "state_merkle_root (checkpoint_block i) = state_merkle_root (checkpoint_block i')"
    by (simp_all add: demo_entry_def demo_script_def checkpoint_block_def)
  then show ?thesis
    using snapshots_of_one_root [OF demo_hash_length v v'] v v' by auto
qed

text \<open>C15 (roundtrip): a checkpoint loads back. Writing a checkpoint of well-formed entries to the
  in-memory store leaves a sound store in which the snapshot validates against the state root of those
  entries and returns exactly them: every blob it names was already stored or was written from the
  edited text, under the id the entry records.\<close>

theorem checkpoint_round_trip:
  assumes "write_checkpoint_snapshot H memory_read_object (memory_write_object H) edited entries s = (Ok i, s')"
    and "wf_memory H s" "\<forall>e \<in> set entries. wf_entry e" "compute_state_root H entries = Ok r"
    and "snapshot_blob_ref block = Some i" "state_merkle_root block = r"
    and "length (manifest_bytes entries) + 256 < usize_limit"
  shows "wf_memory H s'
    \<and> validate_snapshot_manifest H escape (memory_read_object s') block_id block = Ok (Some \<lparr> sm_entries = entries \<rparr>)"
  using memory.checkpoint_validates [OF assms] by blast

theorem checkpoint_round_trip_witness:
  "\<exists>i s. write_checkpoint_snapshot demo_hash memory_read_object (memory_write_object demo_hash) demo_text [demo_entry]
        new_memory_store = (Ok i, s)
     \<and> validate_snapshot_manifest demo_hash (\<lambda>_. []) (memory_read_object s) demo_block_id (checkpoint_block i)
        = Ok (Some \<lparr> sm_entries = [demo_entry] \<rparr>)"
proof -
  obtain i s where w: "write_checkpoint_snapshot demo_hash memory_read_object (memory_write_object demo_hash)
      demo_text [demo_entry] new_memory_store = (Ok i, s)"
    using demo_checkpoint_written by blast
  show ?thesis
    using checkpoint_round_trip [OF w wf_new_memory_store _ demo_root_Ok _ _ demo_manifest_small, of "checkpoint_block i"]
      w demo_entry_valid(1) by (auto simp: checkpoint_block_def)
qed

end
