(* ===== verification/Anchor_Props.thy ===== *)
theory Anchor_Props
  imports Anchor_Replay Snapshot_Props
begin

text \<open>
  Properties of anchored replay: what the anchor-trust function admits, and that a replay that starts
  at a snapshot reports what the replay from genesis reports.
\<close>

section \<open>The anchor that is found\<close>

lemma admit_Usable:
  "admit H ed escape trust read i distance = Usable m \<longleftrightarrow>
     distance \<le> MAX_ANCHOR_DISTANCE \<and> i |\<in>| verified trust
     \<and> (\<exists>e block. read i = Ok (Some e) \<and> env_type e = Block
          \<and> (\<exists>key_id. verify_trusted_publication_envelope H ed (anchor_policy trust) e = Ok key_id)
          \<and> decode_block (env_payload e) = Ok block
          \<and> validate_snapshot_manifest H escape read i block = Ok (Some m))"
  by (auto simp: admit_def not_less split: result.splits option.splits)

lemma read_block_iff:
  "read_block read i = Ok block \<longleftrightarrow>
     (\<exists>e. read i = Ok (Some e) \<and> env_type e = Block \<and> decode_block (env_payload e) = Ok block)"
  by (auto simp: read_block_def read_typed_def split: option.splits if_splits)

definition found_snapshot ::
  "(bytes \<Rightarrow> bytes) \<Rightarrow> (bytes \<Rightarrow> string) \<Rightarrow> reader \<Rightarrow> object_id \<Rightarrow> snapshot_manifest \<Rightarrow> snapshot_file list \<Rightarrow> bool" where
  "found_snapshot H escape read i m fs \<longleftrightarrow> (\<exists>block. read_block read i = Ok block
     \<and> validate_snapshot_manifest H escape read i block = Ok (Some m)) \<and> snapshot_files_from_manifest read i m = Ok fs"

lemma find_anchor_from_Some:
  assumes "find_anchor_from H ed escape read trust len cands = Ok (Some (k, fs), fb)"
  shows "\<exists>i m. (k, i) \<in> set cands \<and> found_snapshot H escape read i m fs"
  using assms
proof (induction cands)
  case (Cons cand older)
  obtain index i where cand: "cand = (index, i)"
    by (cases cand)
  obtain block where block: "read_block read i = Ok block"
    using Cons.prems by (auto simp: cand)
  consider (here) "index = k" "\<exists>m. found_snapshot H escape read i m fs"
    | (older) "find_anchor_from H ed escape read trust len older = Ok (Some (k, fs), fb)"
  proof (cases trust)
    case None
    then show ?thesis
      using that Cons.prems block
      by (auto simp: cand found_snapshot_def load_block_snapshot_def split: if_splits result.splits option.splits)
  next
    case (Some t)
    show ?thesis
    proof (cases "admit H ed escape t read i (len - 1 - index)")
      case (Usable m)
      then have "\<exists>block. read_block read i = Ok block \<and> validate_snapshot_manifest H escape read i block = Ok (Some m)"
        by (auto simp: admit_Usable read_block_iff)
      then show ?thesis
        using that Cons.prems block Some Usable
        by (auto simp: cand found_snapshot_def Let_def split: if_splits result.splits)
    qed (use that Cons.prems block Some in \<open>auto simp: cand Let_def split: if_splits\<close>)
  qed
  then show ?case
    using Cons.IH by cases (auto simp: cand)
qed simp

lemma find_anchor_Some:
  assumes "find_anchor H ed escape read ids trust = Ok (Some (k, fs), fb)"
  shows "k < length ids \<and> (\<exists>m. found_snapshot H escape read (ids ! k) m fs)"
  using find_anchor_from_Some [OF assms [unfolded find_anchor_def]]
  by (auto simp: in_set_enumerate_eq)

lemma find_anchor_returns:
  assumes "\<forall>i \<in> set ids. \<exists>block. read_block read i = Ok block"
  shows "\<exists>r. find_anchor H ed escape read ids trust = Ok r"
proof -
  have "\<exists>r. find_anchor_from H ed escape read trust len cands = Ok r"
    if "\<forall>(_, i) \<in> set cands. \<exists>block. read_block read i = Ok block" for len cands
    using that
  proof (induction cands)
    case (Cons cand older)
    obtain index i where cand: "cand = (index, i)"
      by (cases cand)
    obtain block r where block: "read_block read i = Ok block"
        and r: "find_anchor_from H ed escape read trust len older = Ok r"
      using Cons by (auto simp: cand)
    show ?case
    proof (cases trust)
      case None
      then show ?thesis
        using block r by (cases "load_block_snapshot H escape read i block") (auto simp: cand split: option.split)
    next
      case (Some t)
      then show ?thesis
        using block r by (cases "admit H ed escape t read i (len - 1 - index)") (auto simp: cand Let_def)
    qed
  qed simp
  moreover have "\<forall>(_, i) \<in> set (rev (enumerate 0 ids)). \<exists>block. read_block read i = Ok block"
    using assms by (auto simp: in_set_enumerate_eq)
  ultimately show ?thesis
    unfolding find_anchor_def by blast
qed

section \<open>Replay from an anchor\<close>

text \<open>
  What verification of a history establishes: the blocks can be read, and every signed root is the
  root of the state that the lifecycle replay has at its block.
\<close>

definition verified_chain :: "(bytes \<Rightarrow> bytes) \<Rightarrow> reader \<Rightarrow> (object_id \<times> block_payload) list \<Rightarrow> bool" where
  "verified_chain H read chain \<longleftrightarrow> (\<forall>(i, block) \<in> set chain. read_block read i = Ok block)
     \<and> (\<forall>k < length chain. \<exists>st es. replay_chain_with_appended_patches H read (take (Suc k) chain) [] False = Ok st
          \<and> entries_from_state (fst st) = Ok es \<and> (\<forall>e \<in> set es. wf_entry e)
          \<and> compute_state_root H es = Ok (state_merkle_root (snd (chain ! k))))"

text \<open>
  A collision between what the snapshot at some block of the chain hashes to and what replay has
  there: in the computation of the state root, or in naming the contents of the files.
\<close>

definition anchor_collision ::
  "(bytes \<Rightarrow> bytes) \<Rightarrow> (bytes \<Rightarrow> string) \<Rightarrow> reader \<Rightarrow> (object_id \<times> block_payload) list \<Rightarrow> deleted_content_capture \<Rightarrow> bool" where
  "anchor_collision H escape read chain cap \<longleftrightarrow> (\<exists>k < length chain. \<exists>st es m fs c.
     replay_chain_with_appended_patches H read (take (Suc k) chain) [] False = Ok st
     \<and> entries_from_state (fst st) = Ok es \<and> found_snapshot H escape read (fst (chain ! k)) m fs
     \<and> replay_chain_capturing H read (map fst (take (Suc k) chain)) None cap = Ok c
     \<and> (collide H (root_preimages H (sm_entries m)) (root_preimages H es)
        \<or> collide H (content_preimages (fmran' (files (ch_tree c)))) (content_preimages (sf_bytes ` set fs))))"

lemma rfold_take_drop:
  assumes "rfold f xs s = Ok s'"
  shows "\<exists>t. rfold f (take k xs) s = Ok t \<and> rfold f (drop k xs) t = Ok s'"
  using assms rfold_append [of f "take k xs" "drop k xs" s] by (cases "rfold f (take k xs) s") auto

lemma alike_start:
  "alike ((empty_chain cap)\<lparr> replayed_block_count := n \<rparr>) ((empty_chain cap')\<lparr> replayed_block_count := n' \<rparr>)"
  by (simp_all add: alike_def empty_chain_def empty_tree_def strip_eq)

lemma genesis_alike:
  assumes "replay_chain_capturing H read ids None cap = Ok c"
  shows "\<exists>d. replay_chain_capturing H read ids None cap' = Ok d \<and> alike c d"
proof -
  have "rfold (chain_block H read) ids ((empty_chain cap)\<lparr> replayed_block_count := length ids \<rparr>) = Ok c"
    using assms by (simp add: replay_chain_capturing_def)
  from chain_blocks_alike [OF this alike_start [where cap' = cap' and n' = "length ids"]] show ?thesis
    by (simp add: replay_chain_capturing_def)
qed

lemma prefix_agrees:
  assumes ad: "addressed H read" and f2: "format2 read"
    and blocks: "\<forall>(i, block) \<in> set chain. read_block read i = Ok block"
    and st: "replay_chain_with_appended_patches H read chain [] False = Ok st"
    and c: "rfold (chain_block H read) (map fst chain) ((empty_chain cap)\<lparr> replayed_block_count := n \<rparr>) = Ok c"
  shows "agree H read st (ch_tree c)"
proof -
  have steps: "rfold (\<lambda>(_, block). apply_patch_ids H read True (block_patch_ids block)) chain
      (new_lifecycle, fmempty) = Ok st"
    using st by (auto simp: replay_chain_with_appended_patches_def apply_patch_ids_strict [OF f2])
      (simp add: apply_patch_ids_def)
  have "follows H read ch_tree (refused_on_chain H read True chain (new_lifecycle, fmempty)) st
      (rfold (chain_block H read) (map fst chain) ((empty_chain cap)\<lparr> replayed_block_count := n \<rparr>))"
    by (rule blocks_follow [OF ad steps blocks]) (simp add: empty_chain_def empty_agrees)
  then show ?thesis
    using c by simp
qed

lemma anchored_report:
  assumes size: "\<forall>x. length (H x) = 32" and ad: "addressed H read" and f2: "format2 read"
    and chain: "verified_chain H read chain" and k: "k < length chain"
    and found: "found_snapshot H escape read (fst (chain ! k)) m fs"
    and genesis: "replay_chain_capturing H read (map fst chain) None cap = Ok c"
    and nc: "\<not> anchor_collision H escape read chain cap"
  shows "\<exists>d. replay_chain_capturing H read (map fst chain) (Some (k, fs)) cap' = Ok d \<and> alike c d"
proof -
  let ?ids = "map fst chain" and ?n = "length chain"
  let ?start = "(empty_chain cap)\<lparr> replayed_block_count := ?n \<rparr>"
  have blocks: "\<forall>(i, block) \<in> set chain. read_block read i = Ok block"
    using chain by (simp add: verified_chain_def)
  obtain st es where st: "replay_chain_with_appended_patches H read (take (Suc k) chain) [] False = Ok st"
      and es: "entries_from_state (fst st) = Ok es" "\<forall>e \<in> set es. wf_entry e"
        "compute_state_root H es = Ok (state_merkle_root (snd (chain ! k)))"
    using chain k unfolding verified_chain_def by blast
  obtain ck where ck: "rfold (chain_block H read) (take (Suc k) ?ids) ?start = Ok ck"
      and rest: "rfold (chain_block H read) (drop (Suc k) ?ids) ck = Ok c"
    using rfold_take_drop [of "chain_block H read" ?ids ?start c "Suc k"] genesis
    by (auto simp: replay_chain_capturing_def)
  have agree: "agree H read st (ch_tree ck)"
    by (rule prefix_agrees [OF ad f2 _ st]) (use blocks ck in \<open>auto simp: take_map dest: in_set_takeD\<close>)
  obtain ck' where ck': "replay_chain_capturing H read (map fst (take (Suc k) chain)) None cap = Ok ck'" "alike ck ck'"
    using chain_blocks_alike [OF ck alike_start [where cap' = cap and n' = "length (take (Suc k) ?ids)"]]
    by (auto simp: replay_chain_capturing_def take_map)
  have same_files: "files (ch_tree ck') = files (ch_tree ck)"
    using ck'(2) by (simp add: alike_def strip_eq)
  have nc1: "\<not> collide H (root_preimages H (sm_entries m)) (root_preimages H es)"
    and nc2: "\<not> collide H (content_preimages (fmran' (files (ch_tree ck)))) (content_preimages (sf_bytes ` set fs))"
    using nc k st es(1) found ck'(1) unfolding anchor_collision_def same_files [symmetric] by blast+
  have "read_block read (fst (chain ! k)) = Ok (snd (chain ! k))"
    using blocks nth_mem [OF k] by auto
  then have m: "compute_state_root H (sm_entries m) = Ok (state_merkle_root (snd (chain ! k)))"
      "\<forall>e \<in> set (sm_entries m). wf_entry e" and fs: "snapshot_files_from_manifest read (fst (chain ! k)) m = Ok fs"
    using found validate_snapshot_OkD [of H escape read "fst (chain ! k)" "snd (chain ! k)" m]
    by (auto simp: found_snapshot_def)
  have "sm_entries m = es"
    using state_root_inject [OF size _ m(1) es(3)] m(2) es(2) nc1 by blast
  then have "rmap (snapshot_file_of_entry read (fst (chain ! k))) es = Ok fs"
    using fs by (simp add: snapshot_files_from_manifest_def)
  note restores = snapshot_restores [OF ad f2 agree es(1) this nc2]
  have "same_history ?start (empty_chain cap')"
    by (simp add: same_history_def empty_chain_def empty_tree_def)
  then obtain h where h: "decode_history H read (take (Suc k) ?ids) (empty_chain cap') = Ok h" "same_history ck h"
    using chain_blocks_history [OF ck] by blast
  let ?state = "replay_state_from_snapshot fs"
  let ?d = "h\<lparr> ch_tree := (ch_tree h)\<lparr> files := fst ?state, tree_nodes := snd ?state \<rparr>,
      replayed_block_count := length (drop (Suc k) ?ids) \<rparr>"
  have "alike ck ?d"
    using h(2) restores unfolding alike_def strip_eq same_history_def by simp
  then obtain d where "rfold (chain_block H read) (drop (Suc k) ?ids) ?d = Ok d" "alike c d"
    using chain_blocks_alike [OF rest] by blast
  then show ?thesis
    using h(1) by (auto simp: replay_chain_capturing_def Let_def split: prod.splits)
qed

text \<open>The manifest does not show the blob ids of text nodes.\<close>

lemma by_path_erase: "by_path (fmmap erase nodes) = fmmap (apsnd erase) (by_path nodes)"
proof -
  have "fold (\<lambda>i. case fmlookup (fmmap erase nodes) i of Some node \<Rightarrow> fmupd (rl_path node) (i, node) | None \<Rightarrow> id) is (fmmap (apsnd erase) m)
      = fmmap (apsnd erase) (fold (\<lambda>i. case fmlookup nodes i of Some node \<Rightarrow> fmupd (rl_path node) (i, node) | None \<Rightarrow> id) is m)" for "is" m
  proof (induction "is" arbitrary: m)
    case (Cons i "is")
    show ?case
    proof (cases "fmlookup nodes i")
      case (Some node)
      then show ?thesis
        using Cons.IH [of "fmupd (rl_path node) (i, node) m"] by simp
    qed (use Cons.IH [of m] in simp)
  qed simp
  from this [of _ fmempty] show ?thesis
    by (simp add: by_path_def)
qed

lemma manifest_erase: "files_to_replay_manifest fs (fmmap erase nodes) = files_to_replay_manifest fs nodes"
proof -
  have "manifest_entry (by_path (fmmap erase nodes)) p c = manifest_entry (by_path nodes) p c" for p c
    by (cases "fmlookup (by_path nodes) p") (auto simp: manifest_entry_def by_path_erase erase_def split: prod.splits)
  then show ?thesis
    by (simp add: files_to_replay_manifest_def)
qed

definition chain_manifest :: "chain_replay \<Rightarrow> replay_manifest_entry list res" where
  "chain_manifest c = files_to_replay_manifest (files (ch_tree c)) (tree_nodes (ch_tree c))"

lemma alike_manifest:
  assumes "alike c d"
  shows "chain_manifest d = chain_manifest c"
  using assms manifest_erase [of _ "tree_nodes (ch_tree c)"] manifest_erase [of _ "tree_nodes (ch_tree d)"]
  by (simp add: chain_manifest_def alike_def strip_eq)

section \<open>The sample history with a checkpoint\<close>

definition demo_snapshot :: object_envelope where
  "demo_snapshot = \<lparr> env_type = Blob, env_schema = 1,
     env_payload = fields_bytes (blob_fields (new_blob BlobSnapshot (manifest_bytes [demo_entry]))), env_signatures = [] \<rparr>"

definition demo_snapshot_id :: object_id where
  "demo_snapshot_id = ObjectId (replicate 32 185)"

definition marked_block :: object_envelope where
  "marked_block = \<lparr> env_type = Block, env_schema = 2,
     env_payload = fields_bytes (block_fields (checkpoint_block demo_snapshot_id)), env_signatures = [] \<rparr>"

definition marked_block_id :: object_id where
  "marked_block_id = ObjectId (replicate 32 174)"

definition marked_store :: memory_object_store where
  "marked_store = snd (memory_write_object demo_hash marked_block (snd (memory_write_object demo_hash demo_snapshot
     (snd (memory_write_object demo_hash demo_patch (snd (memory_write_object demo_hash demo_blob new_memory_store)))))))"

definition demo_ed :: ed25519 where
  "demo_ed = \<lparr> key_error = \<lambda>_. None, verify_error = \<lambda>_ _ _. None \<rparr>"

lemma length_demo_manifest: "length (manifest_bytes [demo_entry]) = 110"
  by (simp add: manifest_bytes_def leaf_bytes_def SNAPSHOT_MAGIC_def demo_entry_def demo_node_def demo_blob_id_def ascii_def)

lemma marked_ids:
  "envelope_object_id demo_hash demo_snapshot = demo_snapshot_id"
  "envelope_object_id demo_hash marked_block = marked_block_id"
  by (simp_all add: envelope_object_id_def from_canonical_payload_def object_id_preimage_def demo_hash_def
      OBJECT_ID_DOMAIN_def demo_snapshot_def demo_snapshot_id_def marked_block_def marked_block_id_def
      checkpoint_block_def demo_root_def demo_patch_id_def demo_block_payload_def block_fields_def blob_fields_def new_blob_def
      opt_field_def length_fbytes ascii_def length_demo_manifest)

lemma marked_validate: "validate_strict demo_snapshot = Ok ()" "validate_strict marked_block = Ok ()"
  by (simp_all add: demo_snapshot_def marked_block_def validate_strict_iff strict_envelope_def)

lemma marked_reads:
  "memory_read_object marked_store i =
     Ok (if i = marked_block_id then Some marked_block else if i = demo_snapshot_id then Some demo_snapshot
         else if i = demo_patch_id then Some demo_patch else if i = demo_blob_id then Some demo_blob else None)"
  by (simp add: marked_store_def memory_write_object_def memory_read_object_def new_memory_store_def
      demo_validate demo_ids marked_validate marked_ids)

lemma marked_reader:
  "addressed demo_hash (memory_read_object marked_store)" "format2 (memory_read_object marked_store)"
proof -
  have "wf_memory demo_hash marked_store"
    unfolding marked_store_def by (intro wf_memory_write wf_new_memory_store)
  then show "addressed demo_hash (memory_read_object marked_store)"
    using memory.addressed by (simp add: addressed_def)
  show "format2 (memory_read_object marked_store)"
    by (auto simp: format2_def marked_reads validate_format2_schema_def admitted_schemas_def demo_blob_def
        demo_patch_def demo_snapshot_def marked_block_def split: if_splits)
qed

lemma marked_block_read: "read_block (memory_read_object marked_store) marked_block_id = Ok (checkpoint_block demo_snapshot_id)"
proof -
  have "decode_block (env_payload marked_block) = Ok (checkpoint_block demo_snapshot_id)"
    unfolding marked_block_def object_envelope.simps
    by (rule decode_block_fields)
      (simp_all add: checkpoint_block_def demo_root_def demo_hash_def demo_snapshot_id_def demo_block_payload_def
        demo_patch_id_def wf_block_def wf_id_def block_fields_def opt_field_def is_strictly_sorted_iff length_fbytes usize_limit_def)
  then show ?thesis
    by (simp add: read_block_def read_typed_def marked_reads) (simp add: marked_block_def)
qed

lemma marked_lifecycle:
  "\<exists>st. replay_chain_with_appended_patches demo_hash (memory_read_object marked_store)
       [(marked_block_id, checkpoint_block demo_snapshot_id)] [] False = Ok st
     \<and> live_by_id (fst st) = fmupd demo_node demo_live fmempty"
proof -
  have path: "repo_path_parse [0x61] = Ok (RepoPath [0x61])"
    using sample_paths by (simp add: repo_path_parse_def validate_repo_path_iff)
  have kind: "resolver_blob_kind (memory_read_object marked_store) False demo_blob_id = Ok (Some BlobText)"
    using demo_payloads(1)
    by (simp add: resolver_blob_kind_def resolve_blob_def marked_reads demo_blob_id_def demo_patch_id_def
        marked_block_id_def demo_snapshot_id_def demo_blob_def validate_blob_schema_def new_blob_def)
  have ops: "read_patch_operations demo_hash (memory_read_object marked_store) demo_patch_id f
     = Ok [\<lparr> dop_seq = 1, dop_kind = DCreateFile [0x61] demo_node demo_blob_id 0x81A4, dop_patch_id = None \<rparr>]" for f
    by (simp add: read_patch_operations_def marked_reads demo_patch_id_def marked_block_id_def demo_snapshot_id_def
        demo_patch_def demo_operations admitted_schemas_def Let_def)
  have "node_bytes demo_node \<noteq> replicate 32 0"
    by (simp add: demo_node_def)
  then show ?thesis
    using path kind
    by (simp add: replay_chain_with_appended_patches_def checkpoint_block_def
        apply_patch_ids_def demo_block_payload_def ops rename_op_def parse_repo_path_def
        create_node_def new_lifecycle_def demo_live_def effect_def guarded_def ensure_node_id_nonzero_def
        validate_kind_content_shape_def)
qed

lemma marked_verified:
  "verified_chain demo_hash (memory_read_object marked_store) [(marked_block_id, checkpoint_block demo_snapshot_id)]"
proof -
  obtain st where st: "replay_chain_with_appended_patches demo_hash (memory_read_object marked_store)
       [(marked_block_id, checkpoint_block demo_snapshot_id)] [] False = Ok st"
      "live_by_id (fst st) = fmupd demo_node demo_live fmempty"
    using marked_lifecycle by blast
  have "live_nodes (fst st) = [(demo_node, demo_live)]"
    by (simp add: live_nodes_def st(2) in_key_order_def sorted_list_of_fset.rep_eq)
  moreover have "state_entry_of (demo_node, demo_live) = demo_entry"
    by (simp add: state_entry_of_def demo_live_def demo_entry_def)
  ultimately have "entries_from_state (fst st) = Ok [demo_entry]"
    by (simp add: entries_from_state_def demo_entry_valid(3))
  then show ?thesis
    using st(1) marked_block_read demo_root_Ok demo_entry_valid(1)
    by (auto simp: verified_chain_def checkpoint_block_def)
qed

lemma marked_genesis:
  "\<exists>c. replay_chain_capturing demo_hash (memory_read_object marked_store) [marked_block_id] None cap = Ok c
     \<and> files (ch_tree c) = fmupd [0x61] [104, 105] fmempty"
proof -
  have "read_patch (memory_read_object marked_store) demo_patch_id = Ok demo_patch"
    by (simp add: read_patch_def read_typed_def marked_reads demo_patch_id_def marked_block_id_def demo_snapshot_id_def)
      (simp add: demo_patch_def)
  moreover have "read_blob_bytes_with_kind (memory_read_object marked_store) demo_blob_id = Ok (TextFile, [104, 105])"
    using demo_payloads(1)
    by (simp add: read_blob_bytes_with_kind_def read_typed_def marked_reads demo_blob_id_def demo_patch_id_def
        marked_block_id_def demo_snapshot_id_def demo_blob_def new_blob_def)
  moreover have "env_payload demo_patch = demo_patch_bytes" "env_schema demo_patch = 4"
    by (simp_all add: demo_patch_def)
  ultimately show ?thesis
    by (simp add: replay_chain_capturing_def chain_block_def marked_block_read checkpoint_block_def demo_block_payload_def
        chain_patch_def demo_operations path_rename_def apply_decoded_operation_def ensure_apply_supported_def
        tree_create_file_def empty_chain_def empty_tree_def)
qed

section \<open>Properties\<close>

text \<open>C3 (equivalence): anchoring changes no report. On a verified chain (every signed root is the root
  of the state replayed at its block), a replay that may start at a snapshot, in a read-only report or
  under the anchor-trust function, returns, and with the manifest, the files, the deleted files, the
  patch and operation counts and the operation kinds of the replay from genesis. Otherwise two
  different preimages collide: of the state roots, or of the file contents, at a block of the chain.\<close>

theorem anchoring_changes_no_report:
  assumes "\<forall>x. length (H x) = 32" "addressed H read" "format2 read" "verified_chain H read chain"
    and "replay_chain_anchoring H ed escape read (map fst chain) Never cap = Ok (c, None)"
  shows "(\<exists>d fb. replay_chain_anchoring H ed escape read (map fst chain) anchoring cap' = Ok (d, fb)
      \<and> chain_manifest d = chain_manifest c \<and> files (ch_tree d) = files (ch_tree c)
      \<and> deleted_files (ch_tree d) = deleted_files (ch_tree c) \<and> patch_count d = patch_count c
      \<and> applied_operation_count d = applied_operation_count c \<and> applied_operation_kinds d = applied_operation_kinds c)
    \<or> anchor_collision H escape read chain cap"
proof (rule disjCI)
  assume nc: "\<not> anchor_collision H escape read chain cap"
  let ?ids = "map fst chain"
  have genesis: "replay_chain_capturing H read ?ids None cap = Ok c"
    using assms(5) by (auto simp: replay_chain_anchoring_def)
  have readable: "\<forall>i \<in> set ?ids. \<exists>block. read_block read i = Ok block"
    using assms(4) by (auto simp: verified_chain_def)
  obtain anchor fb where found: "(case anchoring of Never \<Rightarrow> Ok (None, None)
      | ReadOnlyReport \<Rightarrow> find_anchor H ed escape read ?ids None
      | VerifiedWorktreeWrite trust \<Rightarrow> find_anchor H ed escape read ?ids (Some trust)) = Ok (anchor, fb)"
    using find_anchor_returns [OF readable] by (cases anchoring) fastforce+
  have "\<exists>d. replay_chain_capturing H read ?ids anchor cap' = Ok d \<and> alike c d"
  proof (cases anchor)
    case None
    then show ?thesis
      using genesis_alike [OF genesis] by simp
  next
    case (Some a)
    obtain k fs where a: "a = (k, fs)"
      by (cases a)
    obtain trust where "find_anchor H ed escape read ?ids trust = Ok (Some (k, fs), fb)"
      using found by (cases anchoring) (auto simp: Some a)
    then obtain m where "k < length chain" "found_snapshot H escape read (fst (chain ! k)) m fs"
      using find_anchor_Some by fastforce
    from anchored_report [OF assms(1-4) this genesis nc] show ?thesis
      by (simp add: Some a)
  qed
  then obtain d where d: "replay_chain_capturing H read ?ids anchor cap' = Ok d" "alike c d"
    by blast
  have "replay_chain_anchoring H ed escape read ?ids anchoring cap' = Ok (d, fb)"
    unfolding replay_chain_anchoring_def found by (simp add: d(1))
  then show "\<exists>d fb. replay_chain_anchoring H ed escape read ?ids anchoring cap' = Ok (d, fb)
      \<and> chain_manifest d = chain_manifest c \<and> files (ch_tree d) = files (ch_tree c)
      \<and> deleted_files (ch_tree d) = deleted_files (ch_tree c) \<and> patch_count d = patch_count c
      \<and> applied_operation_count d = applied_operation_count c \<and> applied_operation_kinds d = applied_operation_kinds c"
    using d(2) alike_manifest [OF d(2)] by (auto simp: alike_def strip_eq)
qed

theorem anchoring_changes_no_report_witness:
  "verified_chain demo_hash (memory_read_object marked_store) [(marked_block_id, checkpoint_block demo_snapshot_id)]
    \<and> ((\<exists>d fb. replay_chain_anchoring demo_hash demo_ed (\<lambda>_. []) (memory_read_object marked_store) [marked_block_id]
            ReadOnlyReport (capture_for_ids {||}) = Ok (d, fb)
          \<and> files (ch_tree d) = fmupd [0x61] [104, 105] fmempty)
       \<or> anchor_collision demo_hash (\<lambda>_. []) (memory_read_object marked_store)
           [(marked_block_id, checkpoint_block demo_snapshot_id)] (capture_for_ids {||}))"
proof -
  obtain c where c: "replay_chain_capturing demo_hash (memory_read_object marked_store) [marked_block_id] None (capture_for_ids {||}) = Ok c"
      "files (ch_tree c) = fmupd [0x61] [104, 105] fmempty"
    using marked_genesis by blast
  have "replay_chain_anchoring demo_hash demo_ed (\<lambda>_. []) (memory_read_object marked_store)
      (map fst [(marked_block_id, checkpoint_block demo_snapshot_id)]) Never (capture_for_ids {||}) = Ok (c, None)"
    by (simp add: replay_chain_anchoring_def c(1))
  from anchoring_changes_no_report [OF demo_hash_length marked_reader marked_verified this,
      of ReadOnlyReport "capture_for_ids {||}"] show ?thesis
    using marked_verified c(2) by auto
qed

end
