(* ===== verification/Algebra_Types.thy ===== *)
theory Algebra_Types
  imports Node_Lifecycle Text_Span Patch_Decode Blob_Block
begin

text \<open>
  The vocabulary of the patch algebra (\<open>prikk-store/src/patch_algebra\<close>): the classes of a pair of
  operations with their witnesses (\<open>types.rs\<close>, \<open>witness.rs\<close>), the facts read off one operation
  (\<open>facts.rs\<close>), and the evidence a classification may ask for (\<open>evidence_types.rs\<close>). The trait
  \<open>PatchAlgebraEvidence\<close> is the record of its three methods.
\<close>

section \<open>Verdicts\<close>

datatype required_order = LeftBeforeRight | RightBeforeLeft

datatype conflict_witness_kind =
    SamePathCreate | RenameDestinationConflict | NodeIdReuse | LiveStateMismatch | KindMismatch
  | ModeMismatch | BlobMismatch | TextSpanOverlap | TextAnchorStale | DeleteMutationConflict
  | UnsupportedOperation | MalformedWitness | UnknownRelationWitness

fun witness_label :: "conflict_witness_kind \<Rightarrow> string" where
  "witness_label SamePathCreate = ''same-path-create''"
| "witness_label RenameDestinationConflict = ''rename-destination-conflict''"
| "witness_label NodeIdReuse = ''node-id-reuse''"
| "witness_label LiveStateMismatch = ''live-state-mismatch''"
| "witness_label KindMismatch = ''kind-mismatch''"
| "witness_label ModeMismatch = ''mode-mismatch''"
| "witness_label BlobMismatch = ''blob-mismatch''"
| "witness_label TextSpanOverlap = ''text-span-overlap''"
| "witness_label TextAnchorStale = ''text-anchor-stale''"
| "witness_label DeleteMutationConflict = ''delete-mutation-conflict''"
| "witness_label UnsupportedOperation = ''unsupported-operation''"
| "witness_label MalformedWitness = ''malformed-operation''"
| "witness_label UnknownRelationWitness = ''unknown-relation''"

datatype unknown_reason =
    MalformedOperation | SameNodeTextCommutationDeferred | SymlinkDeferred | MissingCandidateEvidence
  | SequenceInternalDependencyDeferred | UnknownRelation

record conflict_witness =
  cw_kind :: conflict_witness_kind
  cw_left_op_seq :: u32
  cw_right_op_seq :: u32
  cw_node_id :: "node_id option"
  cw_path :: "repo_path option"
  cw_text_span :: "bytes option"

datatype pair_class =
    Independent
  | OrderedDependency required_order conflict_witness
  | Conflict conflict_witness
  | UnknownPair unknown_reason conflict_witness

record commutation_proof =
  cp_left_op_seq :: u32
  cp_right_op_seq :: u32

datatype commutation_result =
    Commutes commutation_proof
  | DoesNotCommute pair_class
  | UnknownCommutation unknown_reason

record confluence_proof =
  cf_left_len :: nat
  cf_right_len :: nat

datatype confluence_witness_kind = CwOrderedDependency | CwConflict | CwReplayFailure | CwFinalStateInequality

record confluence_witness =
  cfw_kind :: confluence_witness_kind
  cfw_left_index :: "nat option"
  cfw_right_index :: "nat option"
  cfw_pair_class :: "pair_class option"

datatype confluence_result =
    Confluent confluence_proof
  | NotConfluent confluence_witness
  | UnknownConfluence unknown_reason

section \<open>Evidence\<close>

datatype evidence_scope = SealedBaselineRequired | SealedCandidateRequired | UnsealedCandidateOptional

datatype evidence_fact = FactBaselineState | FactBlobKind | FactBlobBytes | FactBaselineText | FactOperation

datatype evidence_error =
    MissingEvidence evidence_scope evidence_fact "object_id option" "node_id option"
  | WrongObjectType evidence_scope object_id object_type object_type
  | WrongBlobKind evidence_scope object_id blob_kind blob_kind
  | MalformedEvidence evidence_scope evidence_fact "object_id option" string
  | UnreadableEvidence evidence_scope evidence_fact "object_id option" string

text \<open>\<open>Evidence\<close> is what is known or one of the five reasons, which are those of \<open>EvidenceError\<close>.\<close>

datatype 'a evidence = Known 'a | NotKnown evidence_error

fun into_error :: "'a evidence \<Rightarrow> evidence_error" where
  "into_error (Known _) = MalformedEvidence UnsealedCandidateOptional FactBlobBytes None
     ''internal evidence conversion received known evidence''"
| "into_error (NotKnown e) = e"

record patch_algebra_evidence =
  ev_baseline_text :: "evidence_scope \<Rightarrow> node_id \<Rightarrow> object_id \<Rightarrow> bytes evidence"
  ev_blob_kind :: "evidence_scope \<Rightarrow> object_id \<Rightarrow> blob_kind evidence"
  ev_blob_content :: "evidence_scope \<Rightarrow> object_id \<Rightarrow> (blob_kind \<times> bytes) evidence"

definition no_evidence :: patch_algebra_evidence where
  "no_evidence = \<lparr>
     ev_baseline_text = \<lambda>scope node_id blob_id.
       NotKnown (MissingEvidence scope FactBaselineText (Some blob_id) (Some node_id)),
     ev_blob_kind = \<lambda>scope blob_id. NotKnown (MissingEvidence scope FactBlobKind (Some blob_id) None),
     ev_blob_content = \<lambda>scope blob_id. NotKnown (MissingEvidence scope FactBlobBytes (Some blob_id) None) \<rparr>"

text \<open>Missing evidence on an unsealed candidate is an unknown relation, not an error.\<close>

fun missing_candidate :: "evidence_error \<Rightarrow> bool" where
  "missing_candidate (MissingEvidence UnsealedCandidateOptional _ _ _) = True"
| "missing_candidate _ = False"

section \<open>Facts of one operation\<close>

record path_effects =
  occupied_before :: "repo_path fset"
  required_free :: "repo_path fset"
  occupied_after :: "repo_path fset"
  freed :: "repo_path fset"
  newly_occupied :: "repo_path fset"

definition no_effects :: path_effects where
  "no_effects = \<lparr> occupied_before = {||}, required_free = {||}, occupied_after = {||}, freed = {||},
     newly_occupied = {||} \<rparr>"

datatype action =
    ACreateFile repo_path node_id object_id u32
  | ADeleteFile repo_path node_id node_kind object_id u32
  | ADeleteSymlink repo_path node_id
  | AEditText node_id bytes bytes bytes bytes bytes "u32 option" "u32 option"
  | AReplaceBinary node_id object_id object_id
  | ARenamePath node_id repo_path repo_path
  | AChangePerm node_id u32 u32
  | ACreateSymlink repo_path node_id

record operation_facts =
  of_op_seq :: u32
  of_node_id :: "node_id option"
  of_action :: action
  of_effects :: path_effects

fun action_node_id :: "action \<Rightarrow> node_id option" where
  "action_node_id (ACreateFile _ node_id _ _) = Some node_id"
| "action_node_id (ADeleteFile _ node_id _ _ _) = Some node_id"
| "action_node_id (ADeleteSymlink _ node_id) = Some node_id"
| "action_node_id (AEditText node_id _ _ _ _ _ _ _) = Some node_id"
| "action_node_id (AReplaceBinary node_id _ _) = Some node_id"
| "action_node_id (ARenamePath node_id _ _) = Some node_id"
| "action_node_id (AChangePerm node_id _ _) = Some node_id"
| "action_node_id (ACreateSymlink _ node_id) = Some node_id"

definition facts_parse_path :: "bytes \<Rightarrow> (unknown_reason, repo_path) result" where
  "facts_parse_path path = map_err (\<lambda>_. MalformedOperation) (repo_path_parse path)"

definition creating :: "repo_path \<Rightarrow> path_effects" where
  "creating path = no_effects\<lparr> required_free := {|path|}, occupied_after := {|path|}, newly_occupied := {|path|} \<rparr>"

definition operation_action ::
  "decoded_operation_kind \<Rightarrow> (unknown_reason, action \<times> path_effects) result" where
  "operation_action kind = (case kind of
     DCreateFile path node_id blob_id mode \<Rightarrow>
       rbind (facts_parse_path path) (\<lambda>path.
       Ok (ACreateFile path node_id blob_id mode, creating path))
   | DDeleteNode path node_id preimage \<Rightarrow>
       rbind (facts_parse_path path) (\<lambda>path.
       let effects = no_effects\<lparr> occupied_before := {|path|}, freed := {|path|} \<rparr>
       in case preimage of
            DPreFile old_node_kind old_blob_id old_mode \<Rightarrow>
              Ok (ADeleteFile path node_id old_node_kind old_blob_id old_mode, effects)
          | DPreSymlink _ \<Rightarrow> Ok (ADeleteSymlink path node_id, effects))
   | DEditText node_id span_id old_span_hash left_anchor_hash right_anchor_hash _ old_span_text
       left_anchor_len right_anchor_len \<Rightarrow>
       Ok (AEditText node_id span_id old_span_hash left_anchor_hash right_anchor_hash old_span_text
         left_anchor_len right_anchor_len, no_effects)
   | DReplaceBinary node_id old_blob_id new_blob_id \<Rightarrow>
       Ok (AReplaceBinary node_id old_blob_id new_blob_id, no_effects)
   | DRenamePath node_id old_path new_path \<Rightarrow>
       rbind (facts_parse_path old_path) (\<lambda>old_path.
       rbind (facts_parse_path new_path) (\<lambda>new_path.
       Ok (ARenamePath node_id old_path new_path,
         no_effects\<lparr> occupied_before := {|old_path|}, freed := {|old_path|}, required_free := {|new_path|},
           occupied_after := {|new_path|}, newly_occupied := {|new_path|} \<rparr>)))
   | DChangePerm node_id old_mode new_mode \<Rightarrow> Ok (AChangePerm node_id old_mode new_mode, no_effects)
   | DCreateSymlink path node_id _ \<Rightarrow>
       rbind (facts_parse_path path) (\<lambda>path. Ok (ACreateSymlink path node_id, creating path)))"

definition operation_facts :: "decoded_patch_operation \<Rightarrow> (unknown_reason, operation_facts) result" where
  "operation_facts operation =
     rbind (operation_action (dop_kind operation)) (\<lambda>(action, effects).
     Ok \<lparr> of_op_seq = dop_seq operation, of_node_id = action_node_id action, of_action = action,
          of_effects = effects \<rparr>)"

fun deferred_reason :: "action \<Rightarrow> unknown_reason option" where
  "deferred_reason (ACreateSymlink _ _) = Some SymlinkDeferred"
| "deferred_reason (ADeleteSymlink _ _) = Some SymlinkDeferred"
| "deferred_reason _ = None"

section \<open>Witnesses\<close>

definition witness ::
  "conflict_witness_kind \<Rightarrow> u32 \<Rightarrow> u32 \<Rightarrow> node_id option \<Rightarrow> repo_path option \<Rightarrow> bytes option \<Rightarrow> conflict_witness" where
  "witness kind left_op_seq right_op_seq node_id path text_span =
     \<lparr> cw_kind = kind, cw_left_op_seq = left_op_seq, cw_right_op_seq = right_op_seq, cw_node_id = node_id,
       cw_path = path, cw_text_span = text_span \<rparr>"

definition ordered ::
  "required_order \<Rightarrow> conflict_witness_kind \<Rightarrow> operation_facts \<Rightarrow> operation_facts \<Rightarrow> node_id option
   \<Rightarrow> repo_path option \<Rightarrow> pair_class" where
  "ordered required_order kind left right node_id path =
     OrderedDependency required_order (witness kind (of_op_seq left) (of_op_seq right) node_id path None)"

definition conflict ::
  "conflict_witness_kind \<Rightarrow> operation_facts \<Rightarrow> operation_facts \<Rightarrow> node_id option \<Rightarrow> repo_path option
   \<Rightarrow> pair_class" where
  "conflict kind left right node_id path =
     Conflict (witness kind (of_op_seq left) (of_op_seq right) node_id path None)"

definition conflict_with_span ::
  "conflict_witness_kind \<Rightarrow> operation_facts \<Rightarrow> operation_facts \<Rightarrow> node_id \<Rightarrow> repo_path option \<Rightarrow> bytes
   \<Rightarrow> pair_class" where
  "conflict_with_span kind left right node_id path span_id =
     Conflict (witness kind (of_op_seq left) (of_op_seq right) (Some node_id) path (Some span_id))"

definition unknown ::
  "unknown_reason \<Rightarrow> decoded_patch_operation \<Rightarrow> decoded_patch_operation \<Rightarrow> node_id option
   \<Rightarrow> repo_path option \<Rightarrow> pair_class" where
  "unknown reason left right node_id path =
     UnknownPair reason
       (witness (case reason of
           MalformedOperation \<Rightarrow> MalformedWitness
         | SymlinkDeferred \<Rightarrow> UnsupportedOperation
         | _ \<Rightarrow> UnknownRelationWitness) (dop_seq left) (dop_seq right) node_id path None)"

definition unknown_from_facts ::
  "unknown_reason \<Rightarrow> operation_facts \<Rightarrow> operation_facts \<Rightarrow> node_id option \<Rightarrow> repo_path option \<Rightarrow> pair_class" where
  "unknown_from_facts reason left right node_id path =
     UnknownPair reason (witness UnknownRelationWitness (of_op_seq left) (of_op_seq right) node_id path None)"

definition operand_path :: "lifecycle_state \<Rightarrow> operation_facts \<Rightarrow> repo_path option" where
  "operand_path baseline facts = (case of_action facts of
     ACreateFile path _ _ _ \<Rightarrow> Some path
   | ADeleteFile path _ _ _ _ \<Rightarrow> Some path
   | ADeleteSymlink path _ \<Rightarrow> Some path
   | ACreateSymlink path _ \<Rightarrow> Some path
   | ARenamePath _ _ new_path \<Rightarrow> Some new_path
   | AEditText node_id _ _ _ _ _ _ _ \<Rightarrow> map_option ln_path (live_node_at baseline node_id)
   | AReplaceBinary node_id _ _ \<Rightarrow> map_option ln_path (live_node_at baseline node_id)
   | AChangePerm node_id _ _ \<Rightarrow> map_option ln_path (live_node_at baseline node_id))"

definition derive_path :: "lifecycle_state \<Rightarrow> operation_facts \<Rightarrow> operation_facts \<Rightarrow> repo_path option" where
  "derive_path baseline left right =
     (case (operand_path baseline left, operand_path baseline right) of
        (Some left_path, Some right_path) \<Rightarrow> if left_path = right_path then Some left_path else None
      | (Some left_path, None) \<Rightarrow> Some left_path
      | (None, Some right_path) \<Rightarrow> Some right_path
      | (None, None) \<Rightarrow> None)"

definition common_node :: "operation_facts \<Rightarrow> operation_facts \<Rightarrow> node_id option" where
  "common_node left right =
     (case (of_node_id left, of_node_id right) of
        (Some left_id, Some right_id) \<Rightarrow> if left_id = right_id then Some left_id else None
      | _ \<Rightarrow> None)"

end
