(* ===== verification/Algebra_Classify.thy ===== *)
theory Algebra_Classify
  imports Algebra_Types
begin

text \<open>
  Pairwise classification (\<open>patch_algebra/preimage.rs\<close>, \<open>text_preimage.rs\<close>, \<open>text_pair.rs\<close>,
  \<open>create.rs\<close>, \<open>delete.rs\<close>, \<open>classify.rs\<close>): whether two operations authored against one baseline are
  independent, ordered, in conflict or of unknown relation. The baseline is a lifecycle index; SHA-256
  is the argument \<open>sha256\<close>, used by the text-span checks.
\<close>

type_synonym classification = "(evidence_error, pair_class) result"

section \<open>Preimages against the baseline\<close>

datatype preimage_status =
    PreValid
  | PreConflict conflict_witness_kind "node_id option" "repo_path option"
  | PreUnknown unknown_reason "node_id option" "repo_path option"

record text_preimage =
  tp_span_id :: bytes
  tp_old_span_hash :: bytes
  tp_left_anchor_hash :: bytes
  tp_right_anchor_hash :: bytes
  tp_old_span_text :: bytes
  tp_left_anchor_len :: "u32 option"
  tp_right_anchor_len :: "u32 option"

definition validate_text_preimage ::
  "(bytes \<Rightarrow> bytes) \<Rightarrow> lifecycle_state \<Rightarrow> patch_algebra_evidence \<Rightarrow> node_id \<Rightarrow> text_preimage
   \<Rightarrow> (evidence_error, preimage_status) result" where
  "validate_text_preimage sha256 baseline text_resolver node_id preimage =
     (if text_span_hash sha256 (tp_old_span_text preimage) \<noteq> tp_old_span_hash preimage
      then Ok (PreConflict TextAnchorStale (Some node_id) None)
      else case live_node_at baseline node_id of
        None \<Rightarrow> Ok (PreConflict LiveStateMismatch (Some node_id) None)
      | Some live \<Rightarrow>
          if ln_kind live \<noteq> TextFile
          then Ok (PreConflict KindMismatch (Some node_id) (Some (ln_path live)))
          else case ln_content live of
            SymlinkContent _ \<Rightarrow> Ok (PreConflict KindMismatch (Some node_id) (Some (ln_path live)))
          | FileContent blob_id _ \<Rightarrow>
              (case ev_baseline_text text_resolver SealedBaselineRequired node_id blob_id of
                 NotKnown e \<Rightarrow> Err (into_error (NotKnown e :: bytes evidence))
               | Known current_text \<Rightarrow>
                   (case resolve_text_span sha256 current_text (tp_old_span_text preimage)
                      (tp_left_anchor_hash preimage) (tp_right_anchor_hash preimage)
                      (tp_span_id preimage) node_id (tp_old_span_hash preimage)
                      (tp_left_anchor_len preimage) (tp_right_anchor_len preimage) of
                      Ok _ \<Rightarrow> Ok PreValid
                    | Err _ \<Rightarrow> Ok (PreConflict TextAnchorStale (Some node_id) (Some (ln_path live))))))"

definition baseline_file_matches ::
  "lifecycle_state \<Rightarrow> node_id \<Rightarrow> node_kind \<Rightarrow> object_id \<Rightarrow> u32 \<Rightarrow> bool" where
  "baseline_file_matches baseline node_id kind blob_id mode =
     (case live_node_at baseline node_id of
        None \<Rightarrow> False
      | Some live \<Rightarrow>
          if ln_kind live \<noteq> kind then False
          else case ln_content live of
            FileContent live_blob live_mode \<Rightarrow> live_blob = blob_id \<and> live_mode = mode
          | SymlinkContent _ \<Rightarrow> False)"

definition baseline_text_blob_for_mode :: "lifecycle_state \<Rightarrow> node_id \<Rightarrow> u32 \<Rightarrow> object_id option" where
  "baseline_text_blob_for_mode baseline node_id mode =
     Option.bind (live_node_at baseline node_id) (\<lambda>live.
     if ln_kind live \<noteq> TextFile then None
     else case ln_content live of
       FileContent blob_id live_mode \<Rightarrow> if live_mode = mode then Some blob_id else None
     | SymlinkContent _ \<Rightarrow> None)"

definition validate_preimage ::
  "(bytes \<Rightarrow> bytes) \<Rightarrow> lifecycle_state \<Rightarrow> patch_algebra_evidence \<Rightarrow> operation_facts
   \<Rightarrow> (evidence_error, preimage_status) result" where
  "validate_preimage sha256 baseline text_resolver facts = (case of_action facts of
     ACreateFile path node_id _ _ \<Rightarrow>
       if node_id_at baseline path \<noteq> None then Ok (PreConflict SamePathCreate (Some node_id) (Some path))
       else if contains_seen_node_id baseline node_id
       then Ok (PreConflict NodeIdReuse (Some node_id) (Some path))
       else Ok PreValid
   | ADeleteFile path node_id old_node_kind old_blob_id old_mode \<Rightarrow>
       if baseline_file_matches baseline node_id old_node_kind old_blob_id old_mode
          \<and> node_id_at baseline path = Some node_id
       then Ok PreValid
       else Ok (PreConflict LiveStateMismatch (Some node_id) (Some path))
   | AEditText node_id span_id old_span_hash left_anchor_hash right_anchor_hash old_span_text
       left_anchor_len right_anchor_len \<Rightarrow>
       validate_text_preimage sha256 baseline text_resolver node_id
         \<lparr> tp_span_id = span_id, tp_old_span_hash = old_span_hash,
           tp_left_anchor_hash = left_anchor_hash, tp_right_anchor_hash = right_anchor_hash,
           tp_old_span_text = old_span_text, tp_left_anchor_len = left_anchor_len,
           tp_right_anchor_len = right_anchor_len \<rparr>
   | AReplaceBinary node_id old_blob_id _ \<Rightarrow>
       (case live_node_at baseline node_id of
          None \<Rightarrow> Ok (PreConflict LiveStateMismatch (Some node_id) None)
        | Some live \<Rightarrow>
            (case ln_content live of
               FileContent blob_id _ \<Rightarrow>
                 if ln_kind live = BinaryFile \<and> blob_id = old_blob_id then Ok PreValid
                 else if ln_kind live \<noteq> BinaryFile
                 then Ok (PreConflict KindMismatch (Some node_id) (Some (ln_path live)))
                 else Ok (PreConflict BlobMismatch (Some node_id) (Some (ln_path live)))
             | SymlinkContent _ \<Rightarrow> Ok (PreConflict KindMismatch (Some node_id) (Some (ln_path live)))))
   | AChangePerm node_id old_mode _ \<Rightarrow>
       (case live_node_at baseline node_id of
          None \<Rightarrow> Ok (PreConflict LiveStateMismatch (Some node_id) None)
        | Some live \<Rightarrow>
            (case ln_content live of
               FileContent _ mode \<Rightarrow>
                 if mode = old_mode then Ok PreValid
                 else Ok (PreConflict ModeMismatch (Some node_id) (Some (ln_path live)))
             | SymlinkContent _ \<Rightarrow> Ok (PreConflict KindMismatch (Some node_id) (Some (ln_path live)))))
   | ARenamePath node_id old_path _ \<Rightarrow>
       (case live_node_at baseline node_id of
          Some live \<Rightarrow>
            if ln_path live = old_path then Ok PreValid
            else Ok (PreConflict LiveStateMismatch (Some node_id) (Some (ln_path live)))
        | None \<Rightarrow> Ok (PreConflict LiveStateMismatch (Some node_id) (Some old_path)))
   | ACreateSymlink _ _ \<Rightarrow>
       Ok (PreUnknown (case deferred_reason (of_action facts) of Some r \<Rightarrow> r | None \<Rightarrow> UnknownRelation)
         (of_node_id facts) None)
   | ADeleteSymlink _ _ \<Rightarrow>
       Ok (PreUnknown (case deferred_reason (of_action facts) of Some r \<Rightarrow> r | None \<Rightarrow> UnknownRelation)
         (of_node_id facts) None))"

definition or_else :: "'a option \<Rightarrow> 'a option \<Rightarrow> 'a option" where
  "or_else first second = (case first of Some x \<Rightarrow> Some x | None \<Rightarrow> second)"

definition invalid_preimage_class ::
  "(bytes \<Rightarrow> bytes) \<Rightarrow> lifecycle_state \<Rightarrow> patch_algebra_evidence \<Rightarrow> operation_facts \<Rightarrow> operation_facts
   \<Rightarrow> (evidence_error, pair_class option) result" where
  "invalid_preimage_class sha256 baseline text_resolver subject peer =
     rbind (validate_preimage sha256 baseline text_resolver subject) (\<lambda>st. Ok (case st of
       PreValid \<Rightarrow> None
     | PreConflict kind node_id path \<Rightarrow>
         Some (conflict kind subject peer (or_else node_id (of_node_id subject)) path)
     | PreUnknown reason node_id path \<Rightarrow>
         Some (unknown_from_facts reason subject peer (or_else node_id (of_node_id subject)) path)))"

definition is_delete_preimage_valid :: "(bytes \<Rightarrow> bytes) \<Rightarrow> lifecycle_state \<Rightarrow> operation_facts \<Rightarrow> bool" where
  "is_delete_preimage_valid sha256 baseline facts = (case of_action facts of
     ADeleteFile _ _ _ _ _ \<Rightarrow> validate_preimage sha256 baseline no_evidence facts = Ok PreValid
   | _ \<Rightarrow> False)"

definition is_create_after_delete_valid ::
  "lifecycle_state \<Rightarrow> operation_facts \<Rightarrow> operation_facts \<Rightarrow> bool" where
  "is_create_after_delete_valid baseline delete create =
     (case (of_action delete, of_action create) of
        (ADeleteFile deleted_path _ _ _ _, ACreateFile created_path created_node_id _ _) \<Rightarrow>
          if deleted_path \<noteq> created_path then False
          else \<not> contains_seen_node_id baseline created_node_id
      | _ \<Rightarrow> False)"

section \<open>A mode change and a text edit of one node\<close>

text \<open>The caller passes only an \<open>EditText\<close> as the edit; the source ends any other case in \<open>unreachable!\<close>.\<close>

definition classify_mode_and_text_edit ::
  "(bytes \<Rightarrow> bytes) \<Rightarrow> lifecycle_state \<Rightarrow> patch_algebra_evidence \<Rightarrow> operation_facts \<Rightarrow> operation_facts
   \<Rightarrow> node_id \<Rightarrow> u32 \<Rightarrow> text_preimage \<Rightarrow> classification" where
  "classify_mode_and_text_edit sha256 baseline text_resolver left right node_id old_mode edit =
     (case baseline_text_blob_for_mode baseline node_id old_mode of
        None \<Rightarrow> Ok (conflict LiveStateMismatch left right (Some node_id) (derive_path baseline left right))
      | Some current_blob_id \<Rightarrow>
          (case ev_baseline_text text_resolver SealedBaselineRequired node_id current_blob_id of
             NotKnown e \<Rightarrow> Err (into_error (NotKnown e :: bytes evidence))
           | Known current_text \<Rightarrow>
               if text_span_hash sha256 (tp_old_span_text edit) \<noteq> tp_old_span_hash edit
               then Ok (conflict_with_span TextAnchorStale left right node_id
                 (derive_path baseline left right) (tp_span_id edit))
               else case resolve_text_span sha256 current_text (tp_old_span_text edit)
                      (tp_left_anchor_hash edit) (tp_right_anchor_hash edit) (tp_span_id edit) node_id
                      (tp_old_span_hash edit) (tp_left_anchor_len edit) (tp_right_anchor_len edit) of
                 Ok _ \<Rightarrow> Ok Independent
               | Err _ \<Rightarrow> Ok (conflict_with_span TextAnchorStale left right node_id
                   (derive_path baseline left right) (tp_span_id edit))))"

section \<open>Creating a node and changing it\<close>

definition invalid_create_in_same_node_pair ::
  "(bytes \<Rightarrow> bytes) \<Rightarrow> lifecycle_state \<Rightarrow> operation_facts \<Rightarrow> operation_facts \<Rightarrow> classification option" where
  "invalid_create_in_same_node_pair sha256 baseline create_candidate peer =
     (case of_action create_candidate of
        ACreateFile _ _ _ _ \<Rightarrow>
          (case invalid_preimage_class sha256 baseline no_evidence create_candidate peer of
             Ok (Some class_of_pair) \<Rightarrow> Some (Ok class_of_pair)
           | Ok None \<Rightarrow> None
           | Err err \<Rightarrow> Some (Err err))
      | _ \<Rightarrow> None)"

record same_node_pair =
  sp_baseline :: lifecycle_state
  sp_left :: operation_facts
  sp_right :: operation_facts
  sp_node_id :: node_id

definition pair_path :: "same_node_pair \<Rightarrow> repo_path option" where
  "pair_path pair = derive_path (sp_baseline pair) (sp_left pair) (sp_right pair)"

definition classify_create_then_replace_binary ::
  "same_node_pair \<Rightarrow> patch_algebra_evidence \<Rightarrow> required_order \<Rightarrow> object_id \<Rightarrow> object_id \<Rightarrow> classification" where
  "classify_create_then_replace_binary pair evidence required_order create_blob_id replace_old_blob_id =
     (if create_blob_id \<noteq> replace_old_blob_id
      then Ok (conflict BlobMismatch (sp_left pair) (sp_right pair) (Some (sp_node_id pair)) (pair_path pair))
      else case ev_blob_kind evidence UnsealedCandidateOptional create_blob_id of
        Known BlobBinary \<Rightarrow> Ok (ordered required_order LiveStateMismatch (sp_left pair) (sp_right pair)
          (Some (sp_node_id pair)) (pair_path pair))
      | Known _ \<Rightarrow> Ok (conflict KindMismatch (sp_left pair) (sp_right pair) (Some (sp_node_id pair))
          (pair_path pair))
      | NotKnown e \<Rightarrow>
          if missing_candidate e
          then Ok (unknown_from_facts MissingCandidateEvidence (sp_left pair) (sp_right pair)
            (Some (sp_node_id pair)) (pair_path pair))
          else Err (into_error (NotKnown e :: blob_kind evidence)))"

definition classify_create_then_edit_text ::
  "(bytes \<Rightarrow> bytes) \<Rightarrow> same_node_pair \<Rightarrow> patch_algebra_evidence \<Rightarrow> required_order \<Rightarrow> object_id
   \<Rightarrow> text_preimage \<Rightarrow> classification" where
  "classify_create_then_edit_text sha256 pair evidence required_order create_blob_id edit =
     (let stale = conflict_with_span TextAnchorStale (sp_left pair) (sp_right pair) (sp_node_id pair)
            (pair_path pair) (tp_span_id edit)
      in case ev_blob_content evidence UnsealedCandidateOptional create_blob_id of
        NotKnown e \<Rightarrow>
          if missing_candidate e
          then Ok (unknown_from_facts MissingCandidateEvidence (sp_left pair) (sp_right pair)
            (Some (sp_node_id pair)) (pair_path pair))
          else Err (into_error (NotKnown e :: (blob_kind \<times> bytes) evidence))
      | Known (kind, content) \<Rightarrow>
          if kind \<noteq> BlobText
          then Ok (conflict KindMismatch (sp_left pair) (sp_right pair) (Some (sp_node_id pair))
            (pair_path pair))
          else if text_span_hash sha256 (tp_old_span_text edit) \<noteq> tp_old_span_hash edit then Ok stale
          else case resolve_text_span sha256 content (tp_old_span_text edit) (tp_left_anchor_hash edit)
                 (tp_right_anchor_hash edit) (tp_span_id edit) (sp_node_id pair) (tp_old_span_hash edit)
                 (tp_left_anchor_len edit) (tp_right_anchor_len edit) of
            Ok _ \<Rightarrow> Ok (ordered required_order LiveStateMismatch (sp_left pair) (sp_right pair)
              (Some (sp_node_id pair)) (pair_path pair))
          | Err _ \<Rightarrow> Ok stale)"

text \<open>The fields of an \<open>EditText\<close> action that the span checks read.\<close>

fun edit_preimage :: "action \<Rightarrow> text_preimage option" where
  "edit_preimage (AEditText _ span_id old_span_hash left_anchor_hash right_anchor_hash old_span_text
     left_anchor_len right_anchor_len) =
     Some \<lparr> tp_span_id = span_id, tp_old_span_hash = old_span_hash,
       tp_left_anchor_hash = left_anchor_hash, tp_right_anchor_hash = right_anchor_hash,
       tp_old_span_text = old_span_text, tp_left_anchor_len = left_anchor_len,
       tp_right_anchor_len = right_anchor_len \<rparr>"
| "edit_preimage _ = None"

definition create_then_mutate ::
  "(bytes \<Rightarrow> bytes) \<Rightarrow> same_node_pair \<Rightarrow> patch_algebra_evidence \<Rightarrow> required_order \<Rightarrow> object_id \<Rightarrow> u32
   \<Rightarrow> action \<Rightarrow> classification" where
  "create_then_mutate sha256 pair evidence required_order blob_id mode mutation = (case mutation of
     AChangePerm _ old_mode _ \<Rightarrow>
       if mode = old_mode
       then Ok (ordered required_order LiveStateMismatch (sp_left pair) (sp_right pair)
         (Some (sp_node_id pair)) (pair_path pair))
       else Ok (conflict ModeMismatch (sp_left pair) (sp_right pair) (Some (sp_node_id pair))
         (pair_path pair))
   | AReplaceBinary _ old_blob_id _ \<Rightarrow>
       classify_create_then_replace_binary pair evidence required_order blob_id old_blob_id
   | AEditText _ _ _ _ _ _ _ _ \<Rightarrow>
       classify_create_then_edit_text sha256 pair evidence required_order blob_id
         (the (edit_preimage mutation))
   | _ \<Rightarrow> Ok (conflict NodeIdReuse (sp_left pair) (sp_right pair) (Some (sp_node_id pair))
       (pair_path pair)))"

text \<open>
  The arms of the source come in mirrored pairs, first with the create on the left, then on the right;
  \<open>create_then_mutate\<close> is one such pair of arms. Two creates take the arm for a create on the left.
\<close>

definition classify_create_then_mutate ::
  "(bytes \<Rightarrow> bytes) \<Rightarrow> lifecycle_state \<Rightarrow> patch_algebra_evidence \<Rightarrow> operation_facts \<Rightarrow> operation_facts
   \<Rightarrow> node_id \<Rightarrow> classification option" where
  "classify_create_then_mutate sha256 baseline evidence left right node_id =
     or_else (invalid_create_in_same_node_pair sha256 baseline left right)
       (or_else (invalid_create_in_same_node_pair sha256 baseline right left)
          (let pair = \<lparr> sp_baseline = baseline, sp_left = left, sp_right = right, sp_node_id = node_id \<rparr>
           in case (of_action left, of_action right) of
                (ACreateFile _ _ blob_id mode, mutation) \<Rightarrow>
                  Some (create_then_mutate sha256 pair evidence LeftBeforeRight blob_id mode mutation)
              | (mutation, ACreateFile _ _ blob_id mode) \<Rightarrow>
                  Some (create_then_mutate sha256 pair evidence RightBeforeLeft blob_id mode mutation)
              | _ \<Rightarrow> None))"

section \<open>Changing a node and deleting it\<close>

definition mutate_then_delete ::
  "lifecycle_state \<Rightarrow> operation_facts \<Rightarrow> operation_facts \<Rightarrow> node_id \<Rightarrow> required_order \<Rightarrow> bool \<Rightarrow> pair_class" where
  "mutate_then_delete baseline left right node_id required_order sequenced =
     (if sequenced
      then ordered required_order LiveStateMismatch left right (Some node_id)
        (derive_path baseline left right)
      else conflict DeleteMutationConflict left right (Some node_id) (derive_path baseline left right))"

definition classify_mutate_then_delete ::
  "lifecycle_state \<Rightarrow> operation_facts \<Rightarrow> operation_facts \<Rightarrow> node_id \<Rightarrow> pair_class option" where
  "classify_mutate_then_delete baseline left right node_id =
     (case (of_action left, of_action right) of
        (AChangePerm _ old_mode new_mode, ADeleteFile _ _ old_node_kind old_blob_id delete_mode) \<Rightarrow>
          Some (mutate_then_delete baseline left right node_id LeftBeforeRight
            (new_mode = delete_mode
             \<and> baseline_file_matches baseline node_id old_node_kind old_blob_id old_mode))
      | (ADeleteFile _ _ old_node_kind old_blob_id delete_mode, AChangePerm _ old_mode new_mode) \<Rightarrow>
          Some (mutate_then_delete baseline left right node_id RightBeforeLeft
            (new_mode = delete_mode
             \<and> baseline_file_matches baseline node_id old_node_kind old_blob_id old_mode))
      | (AReplaceBinary _ old_blob_id new_blob_id, ADeleteFile _ _ old_node_kind delete_blob old_mode) \<Rightarrow>
          Some (mutate_then_delete baseline left right node_id LeftBeforeRight
            (new_blob_id = delete_blob
             \<and> baseline_file_matches baseline node_id old_node_kind old_blob_id old_mode))
      | (ADeleteFile _ _ old_node_kind delete_blob old_mode, AReplaceBinary _ old_blob_id new_blob_id) \<Rightarrow>
          Some (mutate_then_delete baseline left right node_id RightBeforeLeft
            (new_blob_id = delete_blob
             \<and> baseline_file_matches baseline node_id old_node_kind old_blob_id old_mode))
      | _ \<Rightarrow> None)"

section \<open>Paths\<close>

definition disjoint_paths :: "repo_path fset \<Rightarrow> repo_path fset \<Rightarrow> bool" where
  "disjoint_paths a b \<longleftrightarrow> a |\<inter>| b = {||}"

definition classify_same_path_create ::
  "lifecycle_state \<Rightarrow> operation_facts \<Rightarrow> operation_facts \<Rightarrow> pair_class option" where
  "classify_same_path_create baseline left right =
     (if \<not> disjoint_paths (newly_occupied (of_effects left)) (newly_occupied (of_effects right))
      then Some (conflict SamePathCreate left right (common_node left right) (derive_path baseline left right))
      else None)"

definition classify_rename_destination_conflict ::
  "lifecycle_state \<Rightarrow> operation_facts \<Rightarrow> operation_facts \<Rightarrow> pair_class option" where
  "classify_rename_destination_conflict baseline left right =
     (case (of_action left, of_action right) of
        (ARenamePath left_node _ left_new, ARenamePath right_node _ right_new) \<Rightarrow>
          if left_node \<noteq> right_node \<or> left_new = right_new then None
          else Some (conflict RenameDestinationConflict left right (Some left_node)
            (derive_path baseline left right))
      | _ \<Rightarrow> None)"

definition has_rename :: "operation_facts \<Rightarrow> bool" where
  "has_rename facts = (case of_action facts of ARenamePath _ _ _ \<Rightarrow> True | _ \<Rightarrow> False)"

text \<open>Arms shared by the two directions of the create-after-delete check.\<close>

definition create_after_delete ::
  "(bytes \<Rightarrow> bytes) \<Rightarrow> lifecycle_state \<Rightarrow> operation_facts \<Rightarrow> operation_facts \<Rightarrow> operation_facts
   \<Rightarrow> operation_facts \<Rightarrow> required_order \<Rightarrow> pair_class" where
  "create_after_delete sha256 baseline delete create left right required_order =
     (if \<not> is_delete_preimage_valid sha256 baseline delete
         \<or> \<not> is_create_after_delete_valid baseline delete create
      then conflict LiveStateMismatch left right (common_node left right) (derive_path baseline left right)
      else ordered required_order LiveStateMismatch left right (common_node left right)
        (derive_path baseline left right))"

definition classify_path_relation ::
  "(bytes \<Rightarrow> bytes) \<Rightarrow> lifecycle_state \<Rightarrow> operation_facts \<Rightarrow> operation_facts \<Rightarrow> pair_class option" where
  "classify_path_relation sha256 baseline left right =
     or_else (classify_rename_destination_conflict baseline left right)
       (or_else (classify_same_path_create baseline left right)
          (let both_freed = conflict DeleteMutationConflict left right (common_node left right)
                 (derive_path baseline left right);
               freed_apart = disjoint_paths (freed (of_effects left)) (freed (of_effects right))
           in if has_rename left \<or> has_rename right
              then (if \<not> freed_apart then Some both_freed else None)
              else if \<not> disjoint_paths (freed (of_effects left)) (required_free (of_effects right))
              then Some (create_after_delete sha256 baseline left right left right LeftBeforeRight)
              else if \<not> disjoint_paths (freed (of_effects right)) (required_free (of_effects left))
              then Some (create_after_delete sha256 baseline right left left right RightBeforeLeft)
              else if \<not> freed_apart then Some both_freed
              else None))"

section \<open>The classification\<close>

definition classify_cross_node ::
  "(bytes \<Rightarrow> bytes) \<Rightarrow> lifecycle_state \<Rightarrow> patch_algebra_evidence \<Rightarrow> operation_facts \<Rightarrow> operation_facts
   \<Rightarrow> classification" where
  "classify_cross_node sha256 baseline text_resolver left right =
     rbind (invalid_preimage_class sha256 baseline text_resolver left right) (\<lambda>found.
     case found of
       Some class_of_pair \<Rightarrow> Ok class_of_pair
     | None \<Rightarrow>
         rbind (invalid_preimage_class sha256 baseline text_resolver right left) (\<lambda>found.
         case found of
           Some class_of_pair \<Rightarrow> Ok class_of_pair
         | None \<Rightarrow> Ok Independent))"

definition classify_mutations ::
  "(bytes \<Rightarrow> bytes) \<Rightarrow> lifecycle_state \<Rightarrow> patch_algebra_evidence \<Rightarrow> operation_facts \<Rightarrow> operation_facts
   \<Rightarrow> node_id \<Rightarrow> classification" where
  "classify_mutations sha256 baseline text_resolver left right node_id =
     (let path = derive_path baseline left right;
          mode_and_blob = (\<lambda>old_mode old_blob_id.
            if baseline_file_matches baseline node_id BinaryFile old_blob_id old_mode then Ok Independent
            else Ok (conflict LiveStateMismatch left right (Some node_id) path));
          mode_and_text = (\<lambda>old_mode edit.
            classify_mode_and_text_edit sha256 baseline text_resolver left right node_id old_mode
              (the (edit_preimage edit)))
      in case (of_action left, of_action right) of
           (AEditText _ left_span _ _ _ _ _ _, AEditText _ right_span _ _ _ _ _ _) \<Rightarrow>
             if left_span = right_span
             then Ok (conflict_with_span TextSpanOverlap left right node_id path left_span)
             else Ok (unknown_from_facts SameNodeTextCommutationDeferred left right (Some node_id) path)
         | (AChangePerm _ old_mode _, AReplaceBinary _ old_blob_id _) \<Rightarrow> mode_and_blob old_mode old_blob_id
         | (AReplaceBinary _ old_blob_id _, AChangePerm _ old_mode _) \<Rightarrow> mode_and_blob old_mode old_blob_id
         | (ARenamePath _ _ _, AEditText _ _ _ _ _ _ _ _) \<Rightarrow> Ok Independent
         | (ARenamePath _ _ _, AChangePerm _ _ _) \<Rightarrow> Ok Independent
         | (ARenamePath _ _ _, AReplaceBinary _ _ _) \<Rightarrow> Ok Independent
         | (AEditText _ _ _ _ _ _ _ _, ARenamePath _ _ _) \<Rightarrow> Ok Independent
         | (AChangePerm _ _ _, ARenamePath _ _ _) \<Rightarrow> Ok Independent
         | (AReplaceBinary _ _ _, ARenamePath _ _ _) \<Rightarrow> Ok Independent
         | (AChangePerm _ old_mode _, AEditText _ _ _ _ _ _ _ _) \<Rightarrow>
             mode_and_text old_mode (of_action right)
         | (AEditText _ _ _ _ _ _ _ _, AChangePerm _ old_mode _) \<Rightarrow>
             mode_and_text old_mode (of_action left)
         | _ \<Rightarrow> Ok (conflict UnknownRelationWitness left right (Some node_id) path))"

definition classify_same_node ::
  "(bytes \<Rightarrow> bytes) \<Rightarrow> lifecycle_state \<Rightarrow> patch_algebra_evidence \<Rightarrow> operation_facts \<Rightarrow> operation_facts
   \<Rightarrow> node_id \<Rightarrow> classification" where
  "classify_same_node sha256 baseline text_resolver left right node_id =
     (case classify_create_then_mutate sha256 baseline text_resolver left right node_id of
        Some found \<Rightarrow> found
      | None \<Rightarrow>
          (case classify_mutate_then_delete baseline left right node_id of
             Some class_of_pair \<Rightarrow> Ok class_of_pair
           | None \<Rightarrow> classify_mutations sha256 baseline text_resolver left right node_id))"

definition classify_facts ::
  "(bytes \<Rightarrow> bytes) \<Rightarrow> lifecycle_state \<Rightarrow> patch_algebra_evidence \<Rightarrow> decoded_patch_operation
   \<Rightarrow> decoded_patch_operation \<Rightarrow> operation_facts \<Rightarrow> operation_facts \<Rightarrow> classification" where
  "classify_facts sha256 baseline text_resolver left right left_facts right_facts =
     (let left_deferred = deferred_reason (of_action left_facts);
          right_deferred = deferred_reason (of_action right_facts)
      in case (if left_deferred = None \<and> right_deferred = None
               then classify_path_relation sha256 baseline left_facts right_facts else None) of
           Some class_of_pair \<Rightarrow> Ok class_of_pair
         | None \<Rightarrow>
             (case or_else left_deferred right_deferred of
                Some reason \<Rightarrow>
                  Ok (unknown reason left right (common_node left_facts right_facts)
                    (or_else (derive_path baseline left_facts right_facts)
                       (if left_deferred \<noteq> None then operand_path baseline left_facts
                        else operand_path baseline right_facts)))
              | None \<Rightarrow>
                  (case common_node left_facts right_facts of
                     Some node_id \<Rightarrow>
                       classify_same_node sha256 baseline text_resolver left_facts right_facts node_id
                   | None \<Rightarrow> classify_cross_node sha256 baseline text_resolver left_facts right_facts)))"

definition classify_pair_with_text_resolver ::
  "(bytes \<Rightarrow> bytes) \<Rightarrow> lifecycle_state \<Rightarrow> patch_algebra_evidence \<Rightarrow> decoded_patch_operation
   \<Rightarrow> decoded_patch_operation \<Rightarrow> classification" where
  "classify_pair_with_text_resolver sha256 baseline text_resolver left right =
     (case operation_facts left of
        Err reason \<Rightarrow> Ok (unknown reason left right None None)
      | Ok left_facts \<Rightarrow>
          (case operation_facts right of
             Err reason \<Rightarrow> Ok (unknown reason left right None None)
           | Ok right_facts \<Rightarrow>
               classify_facts sha256 baseline text_resolver left right left_facts right_facts))"

end
