(* ===== verification/Algebra_Oracle.thy ===== *)
theory Algebra_Oracle
  imports Algebra_Classify Lifecycle_Spec
begin

text \<open>
  The replay oracle and the verdicts it backs (\<open>patch_algebra/replay_oracle.rs\<close>,
  \<open>patch_algebra/commutation.rs\<close>): replaying a sequence of operations over a baseline index with the
  evidence at hand, deciding whether a pair commutes and whether two sequences are confluent. The
  callers drop the orc state on an error, so an error carries none.
\<close>

section \<open>The replay oracle\<close>

record oracle_state =
  os_lifecycle :: lifecycle_state
  os_texts :: "(node_id, bytes) fmap"

datatype oracle_failure = OracleEvidence evidence_error | OracleUnknown unknown_reason | OracleReplay

type_synonym 'a replayed = "(oracle_failure, 'a) result"

definition oracle_text :: "oracle_state \<Rightarrow> node_id \<Rightarrow> bytes option" where
  "oracle_text orc node_id = fmlookup (os_texts orc) node_id"

definition text_nodes :: "oracle_state \<Rightarrow> node_id list" where
  "text_nodes orc = sorted_list_of_fset (fmdom (os_texts orc))"

definition malformed_operation :: "evidence_scope \<Rightarrow> string \<Rightarrow> oracle_failure" where
  "malformed_operation scope reason =
     (if scope = UnsealedCandidateOptional then OracleUnknown MalformedOperation
      else OracleEvidence (MalformedEvidence scope FactOperation None reason))"

definition oracle_parse_path :: "evidence_scope \<Rightarrow> bytes \<Rightarrow> repo_path replayed" where
  "oracle_parse_path scope path =
     map_err (\<lambda>_. malformed_operation scope ''malformed oracle path'') (repo_path_parse path)"

text \<open>\<open>oracle.lifecycle.method(..).map_err(|_| OracleFailure::Replay)\<close>.\<close>

definition oracle_effect :: "'a res \<times> lifecycle_state \<Rightarrow> oracle_state \<Rightarrow> oracle_state replayed" where
  "oracle_effect outcome orc =
     rbind (map_err (\<lambda>_. OracleReplay) (fst outcome)) (\<lambda>_. Ok (orc\<lparr> os_lifecycle := snd outcome \<rparr>))"

text \<open>What evidence that is not known makes of a replay.\<close>

definition oracle_unknown_evidence :: "evidence_error \<Rightarrow> oracle_failure" where
  "oracle_unknown_evidence e =
     (if missing_candidate e then OracleUnknown MissingCandidateEvidence
      else OracleEvidence (into_error (NotKnown e :: unit evidence)))"

definition apply_create ::
  "patch_algebra_evidence \<Rightarrow> evidence_scope \<Rightarrow> bytes \<Rightarrow> node_id \<Rightarrow> object_id \<Rightarrow> u32 \<Rightarrow> oracle_state
   \<Rightarrow> oracle_state replayed" where
  "apply_create evidence candidate_scope path node_id blob_id mode orc =
     rbind (case ev_blob_kind evidence candidate_scope blob_id of
              Known kind \<Rightarrow> Ok kind
            | NotKnown e \<Rightarrow> Err (oracle_unknown_evidence e)) (\<lambda>blob_kind.
     rbind (map_err (\<lambda>_. OracleReplay) (node_kind_from_file_blob_kind blob_kind)) (\<lambda>node_kind.
     rbind (oracle_parse_path candidate_scope path) (\<lambda>path.
     oracle_effect (create_node node_id
       \<lparr> ln_path = path, ln_kind = node_kind, ln_content = FileContent blob_id mode \<rparr>
       (os_lifecycle orc)) orc)))"

definition apply_delete_file ::
  "evidence_scope \<Rightarrow> bytes \<Rightarrow> node_id \<Rightarrow> node_kind \<Rightarrow> object_id \<Rightarrow> u32 \<Rightarrow> oracle_state \<Rightarrow> oracle_state replayed" where
  "apply_delete_file candidate_scope path node_id old_node_kind old_blob_id old_mode orc =
     rbind (oracle_parse_path candidate_scope path) (\<lambda>path.
     oracle_effect (delete_node_checked node_id
       \<lparr> ln_path = path, ln_kind = old_node_kind, ln_content = FileContent old_blob_id old_mode \<rparr>
       (os_lifecycle orc)) orc)"

definition apply_replace_binary ::
  "patch_algebra_evidence \<Rightarrow> evidence_scope \<Rightarrow> node_id \<Rightarrow> object_id \<Rightarrow> object_id \<Rightarrow> oracle_state
   \<Rightarrow> oracle_state replayed" where
  "apply_replace_binary evidence candidate_scope node_id old_blob_id new_blob_id orc =
     rbind (case ev_blob_kind evidence candidate_scope new_blob_id of
              Known actual \<Rightarrow> fail_if (actual \<noteq> BlobBinary)
                (OracleEvidence (WrongBlobKind candidate_scope new_blob_id BlobBinary actual))
            | NotKnown e \<Rightarrow> Err (oracle_unknown_evidence e)) (\<lambda>_.
     oracle_effect (replace_file_blob node_id old_blob_id new_blob_id (os_lifecycle orc)) orc)"

definition oracle_current_text ::
  "lifecycle_state \<Rightarrow> patch_algebra_evidence \<Rightarrow> evidence_scope \<Rightarrow> node_id \<Rightarrow> oracle_state
   \<Rightarrow> (bytes \<times> oracle_state) replayed" where
  "oracle_current_text baseline evidence candidate_scope node_id orc =
     (case fmlookup (os_texts orc) node_id of
        Some text \<Rightarrow> Ok (text, orc)
      | None \<Rightarrow>
          rbind (ok_or OracleReplay (live_node_at (os_lifecycle orc) node_id)) (\<lambda>live.
          rbind (fail_if (ln_kind live \<noteq> TextFile) OracleReplay) (\<lambda>_.
          rbind (case ln_content live of
                   FileContent blob_id _ \<Rightarrow> Ok blob_id
                 | SymlinkContent _ \<Rightarrow> Err OracleReplay) (\<lambda>blob_id.
          rbind (if live_node_at baseline node_id = None then
                   (case ev_blob_content evidence candidate_scope blob_id of
                      Known (kind, text) \<Rightarrow>
                        if kind = BlobText then Ok text
                        else Err (OracleEvidence (WrongBlobKind candidate_scope blob_id BlobText kind))
                    | NotKnown e \<Rightarrow> Err (oracle_unknown_evidence e))
                 else
                   (case ev_baseline_text evidence SealedBaselineRequired node_id blob_id of
                      Known text \<Rightarrow> Ok text
                    | NotKnown e \<Rightarrow> Err (OracleEvidence (into_error (NotKnown e :: bytes evidence))))) (\<lambda>text.
          Ok (text, orc\<lparr> os_texts := fmupd node_id text (os_texts orc) \<rparr>))))))"

fun apply_text_edit ::
  "(bytes \<Rightarrow> bytes) \<Rightarrow> lifecycle_state \<Rightarrow> patch_algebra_evidence \<Rightarrow> evidence_scope \<Rightarrow> decoded_operation_kind
   \<Rightarrow> oracle_state \<Rightarrow> oracle_state replayed" where
  "apply_text_edit sha256 baseline evidence candidate_scope
       (DEditText node_id span_id old_span_hash left_anchor_hash right_anchor_hash replacement_text
          old_span_text left_anchor_len right_anchor_len) orc =
     rbind (oracle_current_text baseline evidence candidate_scope node_id orc) (\<lambda>(current_text, orc).
     rbind (map_err (\<lambda>_. OracleReplay)
              (resolve_text_span sha256 current_text old_span_text left_anchor_hash right_anchor_hash
                 span_id node_id old_span_hash left_anchor_len right_anchor_len)) (\<lambda>(start, stop).
     rbind (map_err (\<lambda>_. OracleReplay) (splice_text current_text start stop replacement_text)) (\<lambda>new_text.
     rbind (map_err (\<lambda>_. OracleReplay) (text_blob_id sha256 new_text)) (\<lambda>new_blob_id.
     rbind (oracle_effect (set_text_blob node_id new_blob_id (os_lifecycle orc)) orc) (\<lambda>orc.
     Ok (orc\<lparr> os_texts := fmupd node_id new_text (os_texts orc) \<rparr>))))))"
| "apply_text_edit _ _ _ _ _ _ = Err OracleReplay"

definition apply_operation ::
  "(bytes \<Rightarrow> bytes) \<Rightarrow> lifecycle_state \<Rightarrow> patch_algebra_evidence \<Rightarrow> evidence_scope \<Rightarrow> decoded_operation_kind
   \<Rightarrow> oracle_state \<Rightarrow> oracle_state replayed" where
  "apply_operation sha256 baseline evidence candidate_scope kind orc = (case kind of
     DCreateFile path node_id blob_id mode \<Rightarrow>
       apply_create evidence candidate_scope path node_id blob_id mode orc
   | DDeleteNode path node_id preimage \<Rightarrow>
       (case preimage of
          DPreFile old_node_kind old_blob_id old_mode \<Rightarrow>
            apply_delete_file candidate_scope path node_id old_node_kind old_blob_id old_mode orc
        | DPreSymlink _ \<Rightarrow> Err (OracleUnknown UnknownRelation))
   | DChangePerm node_id old_mode new_mode \<Rightarrow>
       oracle_effect (change_file_mode node_id old_mode new_mode (os_lifecycle orc)) orc
   | DReplaceBinary node_id old_blob_id new_blob_id \<Rightarrow>
       apply_replace_binary evidence candidate_scope node_id old_blob_id new_blob_id orc
   | DEditText _ _ _ _ _ _ _ _ _ \<Rightarrow> apply_text_edit sha256 baseline evidence candidate_scope kind orc
   | DRenamePath _ _ _ \<Rightarrow> Err OracleReplay
   | DCreateSymlink _ _ _ \<Rightarrow> Err (OracleUnknown UnknownRelation))"

fun oracle_rename_triple :: "evidence_scope \<Rightarrow> decoded_operation_kind \<Rightarrow> rename_entry replayed" where
  "oracle_rename_triple candidate_scope (DRenamePath node_id old_path new_path) =
     rbind (oracle_parse_path candidate_scope old_path) (\<lambda>old_path.
     rbind (oracle_parse_path candidate_scope new_path) (\<lambda>new_path.
     Ok (node_id, old_path, new_path)))"
| "oracle_rename_triple _ _ = Err OracleReplay"

definition renames :: "decoded_patch_operation \<Rightarrow> bool" where
  "renames operation = (case dop_kind operation of DRenamePath _ _ _ \<Rightarrow> True | _ \<Rightarrow> False)"

definition same_rename_batch :: "decoded_patch_operation \<Rightarrow> decoded_patch_operation \<Rightarrow> bool" where
  "same_rename_batch first second \<longleftrightarrow>
     renames first \<and> renames second \<and> dop_patch_id first \<noteq> None \<and> dop_patch_id first = dop_patch_id second"

function replay_loop ::
  "(bytes \<Rightarrow> bytes) \<Rightarrow> lifecycle_state \<Rightarrow> patch_algebra_evidence \<Rightarrow> evidence_scope
   \<Rightarrow> decoded_patch_operation list \<Rightarrow> oracle_state \<Rightarrow> oracle_state replayed" where
  "replay_loop sha256 baseline evidence candidate_scope [] orc = Ok orc"
| "replay_loop sha256 baseline evidence candidate_scope (operation # rest) orc =
     (if renames operation then
        rbind (rmap (\<lambda>next. oracle_rename_triple candidate_scope (dop_kind next))
                 (operation # takeWhile (same_rename_batch operation) rest)) (\<lambda>batch.
        rbind (oracle_effect (rename_nodes_checked_batch batch (os_lifecycle orc)) orc)
          (replay_loop sha256 baseline evidence candidate_scope
             (dropWhile (same_rename_batch operation) rest)))
      else
        rbind (apply_operation sha256 baseline evidence candidate_scope (dop_kind operation) orc)
          (replay_loop sha256 baseline evidence candidate_scope rest))"
  by pat_completeness auto
termination
  by (relation "measure (\<lambda>(_, _, _, _, operations, _). length operations)")
    (auto simp: le_imp_less_Suc length_dropWhile_le)

definition start_oracle :: "lifecycle_state \<Rightarrow> oracle_state" where
  "start_oracle baseline = \<lparr> os_lifecycle = baseline, os_texts = fmempty \<rparr>"

definition replay_operations ::
  "(bytes \<Rightarrow> bytes) \<Rightarrow> lifecycle_state \<Rightarrow> patch_algebra_evidence \<Rightarrow> evidence_scope
   \<Rightarrow> decoded_patch_operation list \<Rightarrow> oracle_state replayed" where
  "replay_operations sha256 baseline evidence candidate_scope operations =
     replay_loop sha256 baseline evidence candidate_scope operations (start_oracle baseline)"

text \<open>The slice around an index that replays as one: walk back, then forward, while the neighbours join.\<close>

definition replay_unit :: "decoded_patch_operation list \<Rightarrow> nat \<Rightarrow> decoded_patch_operation list" where
  "replay_unit sequence index =
     (if index \<ge> length sequence then []
      else let subject = sequence ! index
           in rev (takeWhile (\<lambda>prior. same_rename_batch prior subject) (rev (take index sequence)))
              @ [subject]
              @ takeWhile (same_rename_batch subject) (drop (Suc index) sequence))"

section \<open>Commutation\<close>

definition validate_operation_provenance ::
  "decoded_patch_operation \<Rightarrow> evidence_scope \<Rightarrow> (evidence_error, unit) result" where
  "validate_operation_provenance operation candidate_scope = (case operation_facts operation of
     Ok _ \<Rightarrow> Ok ()
   | Err reason \<Rightarrow>
       if reason = MalformedOperation \<and> candidate_scope \<noteq> UnsealedCandidateOptional
       then Err (MalformedEvidence candidate_scope FactOperation None ''malformed sealed candidate operation'')
       else Ok ())"

definition prove_pair_replay ::
  "(bytes \<Rightarrow> bytes) \<Rightarrow> lifecycle_state \<Rightarrow> patch_algebra_evidence \<Rightarrow> evidence_scope
   \<Rightarrow> decoded_patch_operation \<Rightarrow> decoded_patch_operation \<Rightarrow> unit replayed" where
  "prove_pair_replay sha256 baseline evidence candidate_scope left right =
     rbind (replay_operations sha256 baseline evidence candidate_scope [left, right]) (\<lambda>left_then_right.
     rbind (replay_operations sha256 baseline evidence candidate_scope [right, left]) (\<lambda>right_then_left.
     fail_if (left_then_right \<noteq> right_then_left) OracleReplay))"

definition commute_pair ::
  "(bytes \<Rightarrow> bytes) \<Rightarrow> lifecycle_state \<Rightarrow> patch_algebra_evidence \<Rightarrow> evidence_scope
   \<Rightarrow> decoded_patch_operation \<Rightarrow> decoded_patch_operation
   \<Rightarrow> (evidence_error, commutation_result) result" where
  "commute_pair sha256 baseline evidence candidate_scope left right =
     rbind (validate_operation_provenance left candidate_scope) (\<lambda>_.
     rbind (validate_operation_provenance right candidate_scope) (\<lambda>_.
     rbind (classify_pair_with_text_resolver sha256 baseline evidence left right) (\<lambda>pair_class.
     case pair_class of
       Independent \<Rightarrow>
         (case prove_pair_replay sha256 baseline evidence candidate_scope left right of
            Ok _ \<Rightarrow> Ok (Commutes \<lparr> cp_left_op_seq = dop_seq left, cp_right_op_seq = dop_seq right \<rparr>)
          | Err (OracleEvidence error) \<Rightarrow> Err error
          | Err (OracleUnknown reason) \<Rightarrow> Ok (UnknownCommutation reason)
          | Err OracleReplay \<Rightarrow> Ok (UnknownCommutation UnknownRelation))
     | UnknownPair reason _ \<Rightarrow> Ok (UnknownCommutation reason)
     | other \<Rightarrow> Ok (DoesNotCommute other))))"

section \<open>Confluence\<close>

record flat_sequence_check =
  fs_hard :: "confluence_result option"
  fs_deferred :: "confluence_result option"

definition get_or_insert :: "'a \<Rightarrow> 'a option \<Rightarrow> 'a option" where
  "get_or_insert x slot = (case slot of Some y \<Rightarrow> Some y | None \<Rightarrow> Some x)"

definition facts_node :: "decoded_patch_operation \<Rightarrow> node_id option" where
  "facts_node operation = (case operation_facts operation of Ok facts \<Rightarrow> of_node_id facts | Err _ \<Rightarrow> None)"

fun prefix_dependency ::
  "(bytes \<Rightarrow> bytes) \<Rightarrow> lifecycle_state \<Rightarrow> patch_algebra_evidence \<Rightarrow> evidence_scope
   \<Rightarrow> decoded_patch_operation \<Rightarrow> decoded_patch_operation list \<Rightarrow> (evidence_error, bool) result" where
  "prefix_dependency sha256 baseline evidence candidate_scope subject [] = Ok False"
| "prefix_dependency sha256 baseline evidence candidate_scope subject (prior # rest) =
     rbind (validate_operation_provenance prior candidate_scope) (\<lambda>_.
     if facts_node subject \<noteq> None \<and> facts_node prior = facts_node subject then Ok True
     else
       rbind (classify_pair_with_text_resolver sha256 baseline evidence prior subject) (\<lambda>pair_class.
       case pair_class of
         OrderedDependency _ _ \<Rightarrow> Ok True
       | _ \<Rightarrow> prefix_dependency sha256 baseline evidence candidate_scope subject rest))"

definition has_prefix_dependency ::
  "(bytes \<Rightarrow> bytes) \<Rightarrow> lifecycle_state \<Rightarrow> patch_algebra_evidence \<Rightarrow> evidence_scope
   \<Rightarrow> decoded_patch_operation list \<Rightarrow> nat \<Rightarrow> (evidence_error, bool) result" where
  "has_prefix_dependency sha256 baseline evidence candidate_scope sequence index =
     (if index \<ge> length sequence then Ok False
      else prefix_dependency sha256 baseline evidence candidate_scope (sequence ! index)
        (take index sequence))"

definition flat_step ::
  "(bytes \<Rightarrow> bytes) \<Rightarrow> lifecycle_state \<Rightarrow> patch_algebra_evidence \<Rightarrow> evidence_scope
   \<Rightarrow> decoded_patch_operation list \<Rightarrow> bool \<Rightarrow> nat \<times> decoded_patch_operation \<Rightarrow> flat_sequence_check
   \<Rightarrow> (evidence_error, flat_sequence_check) result" where
  "flat_step sha256 baseline evidence candidate_scope sequence is_right = (\<lambda>(index, operation) check.
     rbind (validate_operation_provenance operation candidate_scope) (\<lambda>_.
     case (case operation_facts operation of
             Ok facts \<Rightarrow> deferred_reason (of_action facts) | Err _ \<Rightarrow> None) of
       Some reason \<Rightarrow>
         Ok (check\<lparr> fs_deferred := get_or_insert (UnknownConfluence reason) (fs_deferred check) \<rparr>)
     | None \<Rightarrow>
         (case replay_operations sha256 baseline evidence candidate_scope (replay_unit sequence index) of
            Ok _ \<Rightarrow> Ok check
          | Err (OracleEvidence error) \<Rightarrow> Err error
          | Err (OracleUnknown reason) \<Rightarrow>
              Ok (check\<lparr> fs_hard := get_or_insert (UnknownConfluence reason) (fs_hard check) \<rparr>)
          | Err OracleReplay \<Rightarrow>
              rbind (has_prefix_dependency sha256 baseline evidence candidate_scope sequence index)
                (\<lambda>depends.
              Ok (check\<lparr> fs_hard := get_or_insert
                (if depends then UnknownConfluence SequenceInternalDependencyDeferred
                 else NotConfluent \<lparr> cfw_kind = CwReplayFailure,
                        cfw_left_index = (if \<not> is_right then Some index else None),
                        cfw_right_index = (if is_right then Some index else None),
                        cfw_pair_class = None \<rparr>) (fs_hard check) \<rparr>)))))"

definition ensure_flat_sequence ::
  "(bytes \<Rightarrow> bytes) \<Rightarrow> lifecycle_state \<Rightarrow> patch_algebra_evidence \<Rightarrow> evidence_scope
   \<Rightarrow> decoded_patch_operation list \<Rightarrow> bool \<Rightarrow> (evidence_error, flat_sequence_check) result" where
  "ensure_flat_sequence sha256 baseline evidence candidate_scope sequence is_right =
     rfold (flat_step sha256 baseline evidence candidate_scope sequence is_right)
       (enumerate 0 sequence) \<lparr> fs_hard = None, fs_deferred = None \<rparr>"

fun show_unknown_reason :: "unknown_reason \<Rightarrow> string" where
  "show_unknown_reason MalformedOperation = ''MalformedOperation''"
| "show_unknown_reason SameNodeTextCommutationDeferred = ''SameNodeTextCommutationDeferred''"
| "show_unknown_reason SymlinkDeferred = ''SymlinkDeferred''"
| "show_unknown_reason MissingCandidateEvidence = ''MissingCandidateEvidence''"
| "show_unknown_reason SequenceInternalDependencyDeferred = ''SequenceInternalDependencyDeferred''"
| "show_unknown_reason UnknownRelation = ''UnknownRelation''"

fun sequence_failure :: "evidence_scope \<Rightarrow> oracle_failure \<Rightarrow> evidence_error" where
  "sequence_failure candidate_scope (OracleEvidence error) = error"
| "sequence_failure candidate_scope (OracleUnknown reason) =
     MalformedEvidence candidate_scope FactOperation None
       (''unexpected unknown during composed replay: '' @ show_unknown_reason reason)"
| "sequence_failure candidate_scope OracleReplay =
     MalformedEvidence candidate_scope FactOperation None
       ''sequence operations do not compose against a shared baseline''"

definition replay_sequence_order ::
  "(bytes \<Rightarrow> bytes) \<Rightarrow> lifecycle_state \<Rightarrow> patch_algebra_evidence \<Rightarrow> evidence_scope
   \<Rightarrow> decoded_patch_operation list \<Rightarrow> decoded_patch_operation list
   \<Rightarrow> (evidence_error, oracle_state) result" where
  "replay_sequence_order sha256 baseline evidence candidate_scope first second =
     map_err (sequence_failure candidate_scope)
       (replay_operations sha256 baseline evidence candidate_scope (first @ second))"

definition confluence_pair_witness :: "nat \<Rightarrow> nat \<Rightarrow> pair_class \<Rightarrow> confluence_witness" where
  "confluence_pair_witness left_index right_index pair_class =
     \<lparr> cfw_kind = (case pair_class of
          OrderedDependency _ _ \<Rightarrow> CwOrderedDependency
        | Conflict _ \<Rightarrow> CwConflict
        | _ \<Rightarrow> CwReplayFailure),
       cfw_left_index = Some left_index, cfw_right_index = Some right_index,
       cfw_pair_class = Some pair_class \<rparr>"

text \<open>The nested loop over all pairs, in row order; the first pair that does not commute decides.\<close>

fun check_pairs ::
  "(bytes \<Rightarrow> bytes) \<Rightarrow> lifecycle_state \<Rightarrow> patch_algebra_evidence \<Rightarrow> evidence_scope
   \<Rightarrow> ((nat \<times> decoded_patch_operation) \<times> nat \<times> decoded_patch_operation) list
   \<Rightarrow> (evidence_error, confluence_result option) result" where
  "check_pairs sha256 baseline evidence candidate_scope [] = Ok None"
| "check_pairs sha256 baseline evidence candidate_scope
       (((left_index, left_operation), right_index, right_operation) # rest) =
     rbind (commute_pair sha256 baseline evidence candidate_scope left_operation right_operation)
       (\<lambda>verdict. case verdict of
          Commutes _ \<Rightarrow> check_pairs sha256 baseline evidence candidate_scope rest
        | UnknownCommutation reason \<Rightarrow> Ok (Some (UnknownConfluence reason))
        | DoesNotCommute pair_class \<Rightarrow>
            Ok (Some (NotConfluent (confluence_pair_witness left_index right_index pair_class))))"

definition check_confluence ::
  "(bytes \<Rightarrow> bytes) \<Rightarrow> lifecycle_state \<Rightarrow> patch_algebra_evidence \<Rightarrow> evidence_scope
   \<Rightarrow> decoded_patch_operation list \<Rightarrow> decoded_patch_operation list
   \<Rightarrow> (evidence_error, confluence_result) result" where
  "check_confluence sha256 baseline evidence candidate_scope left right =
     rbind (ensure_flat_sequence sha256 baseline evidence candidate_scope left False) (\<lambda>left_check.
     rbind (ensure_flat_sequence sha256 baseline evidence candidate_scope right True) (\<lambda>right_check.
     case or_else (fs_hard left_check) (fs_hard right_check) of
       Some verdict \<Rightarrow> Ok verdict
     | None \<Rightarrow>
         rbind (check_pairs sha256 baseline evidence candidate_scope
                  (List.product (enumerate 0 left) (enumerate 0 right))) (\<lambda>found.
         case or_else found (or_else (fs_deferred left_check) (fs_deferred right_check)) of
           Some verdict \<Rightarrow> Ok verdict
         | None \<Rightarrow>
             rbind (replay_sequence_order sha256 baseline evidence candidate_scope left right)
               (\<lambda>left_then_right.
             rbind (replay_sequence_order sha256 baseline evidence candidate_scope right left)
               (\<lambda>right_then_left.
             if left_then_right = right_then_left
             then Ok (Confluent \<lparr> cf_left_len = length left, cf_right_len = length right \<rparr>)
             else Ok (NotConfluent \<lparr> cfw_kind = CwFinalStateInequality, cfw_left_index = None,
                    cfw_right_index = None, cfw_pair_class = None \<rparr>))))))"

end
