(* ===== verification/Algebra_Effects.thy ===== *)
theory Algebra_Effects
  imports Algebra_Oracle
begin

text \<open>
  What the replay oracle does, one node at a time. An operation changes the status and the text of one
  node, and may claim a path that no other live node holds. This node-local reading is proved to be what
  the oracle computes; commutation of operations and of whole sequences is then a fact about functions
  on one node.
\<close>

section \<open>Node-local effects\<close>

type_synonym view = "node_status \<times> bytes option"

definition oracle_view :: "oracle_state \<Rightarrow> node_id \<Rightarrow> view" where
  "oracle_view orc n = (status (os_lifecycle orc) n, fmlookup (os_texts orc) n)"

fun res_option :: "('e, 'a) result \<Rightarrow> 'a option" where
  "res_option (Ok x) = Some x"
| "res_option (Err _) = None"

fun kind_node :: "decoded_operation_kind \<Rightarrow> node_id" where
  "kind_node (DCreateFile _ n _ _) = n"
| "kind_node (DDeleteNode _ n _) = n"
| "kind_node (DEditText n _ _ _ _ _ _ _ _) = n"
| "kind_node (DReplaceBinary n _ _) = n"
| "kind_node (DRenamePath n _ _) = n"
| "kind_node (DChangePerm n _ _) = n"
| "kind_node (DCreateSymlink _ n _) = n"

text \<open>The path an operation needs free of other live nodes.\<close>

fun kind_claim :: "decoded_operation_kind \<Rightarrow> repo_path option" where
  "kind_claim (DCreateFile path _ _ _) = res_option (repo_path_parse path)"
| "kind_claim (DRenamePath _ _ new_path) = res_option (repo_path_parse new_path)"
| "kind_claim (DCreateSymlink path _ _) = res_option (repo_path_parse path)"
| "kind_claim _ = None"

definition known :: "'a evidence \<Rightarrow> 'a option" where
  "known e = (case e of Known x \<Rightarrow> Some x | NotKnown _ \<Rightarrow> None)"

definition live_text_blob :: "node_status \<Rightarrow> object_id option" where
  "live_text_blob st = (case st of
     Live node \<Rightarrow> if ln_kind node \<noteq> TextFile then None
       else (case ln_content node of FileContent blob_id _ \<Rightarrow> Some blob_id | SymlinkContent _ \<Rightarrow> None)
   | _ \<Rightarrow> None)"

definition view_text ::
  "lifecycle_state \<Rightarrow> patch_algebra_evidence \<Rightarrow> evidence_scope \<Rightarrow> node_id \<Rightarrow> view \<Rightarrow> bytes option" where
  "view_text baseline evidence scope n v = (case snd v of
     Some t \<Rightarrow> Some t
   | None \<Rightarrow> Option.bind (live_text_blob (fst v)) (\<lambda>blob_id.
       if live_node_at baseline n = None
       then Option.bind (known (ev_blob_content evidence scope blob_id)) (\<lambda>(kind, t).
         if kind = BlobText then Some t else None)
       else known (ev_baseline_text evidence SealedBaselineRequired n blob_id)))"

definition on_file :: "node_status \<Rightarrow> (live_node \<Rightarrow> object_id \<Rightarrow> u32 \<Rightarrow> node_content option) \<Rightarrow> node_status option" where
  "on_file st f = (case st of
     Live node \<Rightarrow> (case ln_content node of
         FileContent blob_id mode \<Rightarrow>
           map_option (\<lambda>content. Live (node\<lparr> ln_content := content \<rparr>)) (f node blob_id mode)
       | SymlinkContent _ \<Rightarrow> None)
   | _ \<Rightarrow> None)"

definition set_text :: "object_id \<Rightarrow> live_node \<Rightarrow> object_id \<Rightarrow> u32 \<Rightarrow> node_content option" where
  "set_text fresh node blob_id mode = (if ln_kind node = TextFile then Some (FileContent fresh mode) else None)"

definition set_mode :: "u32 \<Rightarrow> u32 \<Rightarrow> live_node \<Rightarrow> object_id \<Rightarrow> u32 \<Rightarrow> node_content option" where
  "set_mode old new node blob_id mode = (if mode = old then Some (FileContent blob_id new) else None)"

definition set_blob :: "object_id \<Rightarrow> object_id \<Rightarrow> live_node \<Rightarrow> object_id \<Rightarrow> u32 \<Rightarrow> node_content option" where
  "set_blob old new node blob_id mode =
     (if ln_kind node = BinaryFile \<and> blob_id = old then Some (FileContent new mode) else None)"

definition set_path :: "repo_path \<Rightarrow> repo_path \<Rightarrow> node_status \<Rightarrow> node_status option" where
  "set_path old new st = (case st of
     Live node \<Rightarrow> if ln_path node = old then Some (Live (node\<lparr> ln_path := new \<rparr>)) else None
   | _ \<Rightarrow> None)"

text \<open>The new text of an edit and its blob id, from the current text.\<close>

definition edited ::
  "(bytes \<Rightarrow> bytes) \<Rightarrow> node_id \<Rightarrow> bytes \<Rightarrow> bytes \<Rightarrow> bytes \<Rightarrow> bytes \<Rightarrow> bytes \<Rightarrow> bytes \<Rightarrow> u32 option \<Rightarrow> u32 option
   \<Rightarrow> bytes \<Rightarrow> (bytes \<times> object_id) option" where
  "edited sha256 n span_id old_span_hash left right replacement old_span_text llen rlen current =
     Option.bind (res_option (resolve_text_span sha256 current old_span_text left right span_id n
       old_span_hash llen rlen)) (\<lambda>(start, stop).
     Option.bind (res_option (splice_text current start stop replacement)) (\<lambda>t.
     Option.bind (res_option (text_blob_id sha256 t)) (\<lambda>blob_id. Some (t, blob_id))))"

fun node_effect ::
  "(bytes \<Rightarrow> bytes) \<Rightarrow> lifecycle_state \<Rightarrow> patch_algebra_evidence \<Rightarrow> evidence_scope \<Rightarrow> decoded_operation_kind
   \<Rightarrow> view \<Rightarrow> view option" where
  "node_effect sha256 baseline evidence scope (DCreateFile path n blob_id mode) v =
     Option.bind (known (ev_blob_kind evidence scope blob_id)) (\<lambda>blob_kind.
     Option.bind (res_option (node_kind_from_file_blob_kind blob_kind)) (\<lambda>kind.
     Option.bind (res_option (repo_path_parse path)) (\<lambda>p.
     let node = \<lparr> ln_path = p, ln_kind = kind, ln_content = FileContent blob_id mode \<rparr>
     in if \<not> node_id_is_zero n \<and> shape_consistent kind (FileContent blob_id mode)
           \<and> (fst v = Unseen \<or> fst v = Tombstoned (tombstone_of node))
        then Some (Live node, snd v) else None)))"
| "node_effect sha256 baseline evidence scope (DDeleteNode path n (DPreFile kind blob_id mode)) v =
     Option.bind (res_option (repo_path_parse path)) (\<lambda>p.
     let node = \<lparr> ln_path = p, ln_kind = kind, ln_content = FileContent blob_id mode \<rparr>
     in if fst v = Live node then Some (Tombstoned (tombstone_of node), snd v) else None)"
| "node_effect sha256 baseline evidence scope (DChangePerm n old new) v =
     map_option (\<lambda>st. (st, snd v)) (on_file (fst v) (set_mode old new))"
| "node_effect sha256 baseline evidence scope (DReplaceBinary n old new) v =
     (if known (ev_blob_kind evidence scope new) = Some BlobBinary
      then map_option (\<lambda>st. (st, snd v)) (on_file (fst v) (set_blob old new)) else None)"
| "node_effect sha256 baseline evidence scope (DEditText n span_id old_span_hash left right replacement
       old_span_text llen rlen) v =
     Option.bind (view_text baseline evidence scope n v) (\<lambda>current.
     Option.bind (edited sha256 n span_id old_span_hash left right replacement old_span_text llen rlen
       current) (\<lambda>(t, blob_id).
     map_option (\<lambda>st. (st, Some t)) (on_file (fst v) (set_text blob_id))))"
| "node_effect sha256 baseline evidence scope (DRenamePath n old_path new_path) v =
     Option.bind (res_option (repo_path_parse old_path)) (\<lambda>old.
     Option.bind (res_option (repo_path_parse new_path)) (\<lambda>new.
     map_option (\<lambda>st. (st, snd v)) (set_path old new (fst v))))"
| "node_effect _ _ _ _ _ _ = None"

definition tree_of :: "(node_id \<Rightarrow> view) \<Rightarrow> tree" where
  "tree_of V n = fst (V n)"

definition claim_free :: "(node_id \<Rightarrow> view) \<Rightarrow> node_id set \<Rightarrow> decoded_operation_kind \<Rightarrow> bool" where
  "claim_free V inside kind \<longleftrightarrow>
     (\<forall>p. kind_claim kind = Some p \<longrightarrow> \<not> occupied_outside (tree_of V) inside p)"

section \<open>The index is determined by its view\<close>

lemma view_inj:
  assumes "wf_lifecycle (os_lifecycle a)" "wf_lifecycle (os_lifecycle b)" "oracle_view a = oracle_view b"
  shows "a = b"
proof -
  have "status (os_lifecycle a) = status (os_lifecycle b)" "os_texts a = os_texts b"
    using assms(3) by (auto simp: oracle_view_def fun_eq_iff intro: fmap_ext)
  then show ?thesis
    using status_inj assms(1,2) by (cases a, cases b) auto
qed

lemma exec_op_Ok_iff:
  assumes "wf_lifecycle s"
  shows "exec_op opn s = (Ok (), t) \<longleftrightarrow> wf_lifecycle t \<and> spec_op opn (status s) = Some (status t)"
  using exec_op_meets [OF assms, of opn] status_inj
  by (cases "exec_op opn s"; cases "fst (exec_op opn s)") (auto simp: meets_def)

lemma tree_of_view [simp]: "tree_of (oracle_view orc) = status (os_lifecycle orc)"
  by (auto simp: tree_of_def oracle_view_def)

lemma res_option_Some [simp]: "res_option r = Some x \<longleftrightarrow> r = Ok x"
  by (cases r) auto

lemma known_Some [simp]: "known e = Some x \<longleftrightarrow> e = Known x"
  by (cases e) (auto simp: known_def)

lemma bind_Some_iff [simp]: "Option.bind a f = Some y \<longleftrightarrow> (\<exists>x. a = Some x \<and> f x = Some y)"
  by (cases a) auto

lemma oracle_effect_exec:
  assumes "wf_lifecycle (os_lifecycle orc)"
  shows "oracle_effect (exec_op opn (os_lifecycle orc)) orc = Ok orc' \<longleftrightarrow>
    wf_lifecycle (os_lifecycle orc') \<and> os_texts orc' = os_texts orc
    \<and> spec_op opn (status (os_lifecycle orc)) = Some (status (os_lifecycle orc'))"
proof -
  have "oracle_effect (exec_op opn (os_lifecycle orc)) orc = Ok orc' \<longleftrightarrow>
    os_texts orc' = os_texts orc \<and> exec_op opn (os_lifecycle orc) = (Ok (), os_lifecycle orc')"
    by (cases "exec_op opn (os_lifecycle orc)"; cases orc; cases orc')
      (auto simp: oracle_effect_def)
  then show ?thesis
    using exec_op_Ok_iff [OF assms] by auto
qed

lemma oracle_effect_delete:
  "oracle_effect (delete_node_checked n node s) orc = oracle_effect (exec_op (DeleteCheckedOp n node) s) orc"
  by (cases "delete_node_checked n node s"; cases "fst (delete_node_checked n node s)")
    (auto simp: oracle_effect_def)

section \<open>The oracle computes the effects\<close>

text \<open>An outcome that updates the status of one node and leaves the texts alone.\<close>

lemma view_update_status:
  "oracle_view orc' = (oracle_view orc)(n := (st, fmlookup (os_texts orc) n)) \<longleftrightarrow>
     os_texts orc' = os_texts orc \<and> status (os_lifecycle orc') = (status (os_lifecycle orc))(n := st)"
proof
  assume v: "oracle_view orc' = (oracle_view orc)(n := (st, fmlookup (os_texts orc) n))"
  have eq: "oracle_view orc' m = ((oracle_view orc)(n := (st, fmlookup (os_texts orc) n))) m" for m
    by (simp add: v)
  have "os_texts orc' = os_texts orc"
  proof (rule fmap_ext)
    show "fmlookup (os_texts orc') m = fmlookup (os_texts orc) m" for m
      using eq [of m] by (cases "m = n") (auto simp: oracle_view_def)
  qed
  moreover have "status (os_lifecycle orc') = (status (os_lifecycle orc))(n := st)"
  proof
    show "status (os_lifecycle orc') m = ((status (os_lifecycle orc))(n := st)) m" for m
      using eq [of m] by (cases "m = n") (auto simp: oracle_view_def)
  qed
  ultimately show "os_texts orc' = os_texts orc \<and>
      status (os_lifecycle orc') = (status (os_lifecycle orc))(n := st)" ..
qed (auto simp: oracle_view_def)

lemma view_update_text:
  "os_texts orc' = fmupd n t (os_texts orc) \<and> status (os_lifecycle orc') = (status (os_lifecycle orc))(n := st)
   \<longleftrightarrow> oracle_view orc' = (oracle_view orc)(n := (st, Some t))"
proof -
  let ?start = "orc\<lparr> os_texts := fmupd n t (os_texts orc) \<rparr>"
  have "(oracle_view ?start)(n := (st, Some t)) = (oracle_view orc)(n := (st, Some t))"
    by (auto simp: oracle_view_def)
  then show ?thesis
    using view_update_status [of orc' ?start n st] by auto
qed

definition effect_holds ::
  "(bytes \<Rightarrow> bytes) \<Rightarrow> lifecycle_state \<Rightarrow> patch_algebra_evidence \<Rightarrow> evidence_scope \<Rightarrow> decoded_operation_kind
   \<Rightarrow> oracle_state \<Rightarrow> oracle_state \<Rightarrow> bool" where
  "effect_holds sha256 baseline evidence scope kind orc orc' \<longleftrightarrow>
     wf_lifecycle (os_lifecycle orc')
     \<and> claim_free (oracle_view orc) {kind_node kind} kind
     \<and> (\<exists>v. node_effect sha256 baseline evidence scope kind (oracle_view orc (kind_node kind)) = Some v
          \<and> oracle_view orc' = (oracle_view orc)(kind_node kind := v))"

lemma occupied_outside_self:
  "(\<nexists>node. T n = Live node) \<Longrightarrow> occupied_outside T {n} p \<longleftrightarrow> occupied_outside T {} p"
  by (auto simp: occupied_outside_def)

lemma oracle_parse_path_Ok [simp]: "oracle_parse_path scope path = Ok p \<longleftrightarrow> repo_path_parse path = Ok p"
  by (cases "repo_path_parse path") (auto simp: oracle_parse_path_def)

lemma case_known_Ok [simp]:
  "(case e of Known x \<Rightarrow> f x | NotKnown err \<Rightarrow> Err (g err)) = Ok y \<longleftrightarrow> (\<exists>x. e = Known x \<and> f x = Ok y)"
  by (cases e) auto

lemma apply_create_iff:
  assumes wf: "wf_lifecycle (os_lifecycle orc)"
  shows "apply_create evidence scope path n blob_id mode orc = Ok orc' \<longleftrightarrow>
    effect_holds sha256 baseline evidence scope (DCreateFile path n blob_id mode) orc orc'"
proof -
  let ?node = "\<lambda>p kind. \<lparr> ln_path = p, ln_kind = kind, ln_content = FileContent blob_id mode \<rparr>"
  let ?T = "status (os_lifecycle orc)"
  have step: "oracle_effect (create_node n (?node p kind) (os_lifecycle orc)) orc = Ok orc' \<longleftrightarrow>
      wf_lifecycle (os_lifecycle orc') \<and> \<not> occupied_outside ?T {n} p
      \<and> \<not> node_id_is_zero n \<and> shape_consistent kind (FileContent blob_id mode)
      \<and> (?T n = Unseen \<or> ?T n = Tombstoned (tombstone_of (?node p kind)))
      \<and> oracle_view orc' = (oracle_view orc)(n := (Live (?node p kind), fmlookup (os_texts orc) n))" for p kind
    using oracle_effect_exec [OF wf, of "CreateOp n (?node p kind)" orc'] occupied_outside_self [of ?T n p]
    by (auto simp: view_update_status simp del: status_Live split: if_splits)
  have local_view: "fst (oracle_view orc n) = ?T n" "snd (oracle_view orc n) = fmlookup (os_texts orc) n"
    by (simp_all add: oracle_view_def)
  show ?thesis
  proof (cases "\<exists>bk kind p. ev_blob_kind evidence scope blob_id = Known bk
      \<and> node_kind_from_file_blob_kind bk = Ok kind \<and> repo_path_parse path = Ok p")
    case True
    then obtain bk kind p where "ev_blob_kind evidence scope blob_id = Known bk"
      "node_kind_from_file_blob_kind bk = Ok kind" "repo_path_parse path = Ok p"
      by blast
    then show ?thesis
      by (auto simp: apply_create_def effect_holds_def claim_free_def step local_view known_def
          oracle_parse_path_def Let_def split: if_splits)
  next
    case False
    then show ?thesis
      by (auto simp: apply_create_def effect_holds_def)
  qed
qed

lemma apply_delete_iff:
  assumes wf: "wf_lifecycle (os_lifecycle orc)"
  shows "apply_delete_file scope path n kind blob_id mode orc = Ok orc' \<longleftrightarrow>
    effect_holds sha256 baseline evidence scope (DDeleteNode path n (DPreFile kind blob_id mode)) orc orc'"
proof -
  let ?node = "\<lambda>p. \<lparr> ln_path = p, ln_kind = kind, ln_content = FileContent blob_id mode \<rparr>"
  have step: "oracle_effect (delete_node_checked n (?node p) (os_lifecycle orc)) orc = Ok orc' \<longleftrightarrow>
      wf_lifecycle (os_lifecycle orc') \<and> status (os_lifecycle orc) n = Live (?node p)
      \<and> oracle_view orc' = (oracle_view orc)(n := (Tombstoned (tombstone_of (?node p)), fmlookup (os_texts orc) n))"
    for p
    unfolding oracle_effect_delete
    using oracle_effect_exec [OF wf, of "DeleteCheckedOp n (?node p)" orc']
    by (auto simp: view_update_status split: if_splits)
  show ?thesis
    by (auto simp: apply_delete_file_def effect_holds_def claim_free_def step oracle_view_def Let_def
        simp del: status_Live split: if_splits)
qed

lemma content_step:
  assumes wf: "wf_lifecycle (os_lifecycle orc)"
    and spec: "spec_op opn (status (os_lifecycle orc)) =
      map_option (\<lambda>st. (status (os_lifecycle orc))(n := st)) (on_file (status (os_lifecycle orc) n) f)"
  shows "oracle_effect (exec_op opn (os_lifecycle orc)) orc = Ok orc' \<longleftrightarrow>
    wf_lifecycle (os_lifecycle orc') \<and> (\<exists>st. on_file (status (os_lifecycle orc) n) f = Some st
      \<and> oracle_view orc' = (oracle_view orc)(n := (st, fmlookup (os_texts orc) n)))"
  using oracle_effect_exec [OF wf, of opn orc'] spec by (auto simp: view_update_status)

lemma on_file_spec:
  "spec_op (ChangeModeOp n old new) T = map_option (\<lambda>st. T(n := st)) (on_file (T n) (set_mode old new))"
  "spec_op (ReplaceBlobOp n b b') T = map_option (\<lambda>st. T(n := st)) (on_file (T n) (set_blob b b'))"
  "spec_op (SetTextBlobOp n b') T = map_option (\<lambda>st. T(n := st)) (on_file (T n) (set_text b'))"
  by (auto simp: on_file_def set_mode_def set_blob_def set_text_def split: node_status.splits node_content.splits)

lemma apply_mode_iff:
  assumes wf: "wf_lifecycle (os_lifecycle orc)"
  shows "oracle_effect (change_file_mode n old new (os_lifecycle orc)) orc = Ok orc' \<longleftrightarrow>
    effect_holds sha256 baseline evidence scope (DChangePerm n old new) orc orc'"
  using content_step [OF wf on_file_spec(1), of n old new orc']
  by (auto simp: effect_holds_def claim_free_def oracle_view_def)

lemma apply_replace_iff:
  assumes wf: "wf_lifecycle (os_lifecycle orc)"
  shows "apply_replace_binary evidence scope n old new orc = Ok orc' \<longleftrightarrow>
    effect_holds sha256 baseline evidence scope (DReplaceBinary n old new) orc orc'"
  using content_step [OF wf on_file_spec(2), of n old new orc']
  by (auto simp: apply_replace_binary_def effect_holds_def claim_free_def oracle_view_def)

lemma fmupd_idle: "fmlookup m k = Some v \<Longrightarrow> fmupd k v m = m"
  by (rule fmap_ext) auto

lemma oracle_current_text_iff:
  "oracle_current_text baseline evidence scope n orc = Ok (t, orc') \<longleftrightarrow>
     view_text baseline evidence scope n (oracle_view orc n) = Some t
     \<and> orc' = orc\<lparr> os_texts := fmupd n t (os_texts orc) \<rparr>"
proof (cases "fmlookup (os_texts orc) n")
  case (Some a)
  then have "orc\<lparr> os_texts := fmupd n a (os_texts orc) \<rparr> = orc"
    by (simp add: fmupd_idle)
  with Some show ?thesis
    by (auto simp: oracle_current_text_def view_text_def oracle_view_def)
next
  case None
  let ?live = "live_node_at (os_lifecycle orc) n"
  show ?thesis
  proof (cases "\<exists>live blob_id mode. ?live = Some live \<and> ln_kind live = TextFile
      \<and> ln_content live = FileContent blob_id mode")
    case True
    then obtain live blob_id mode where live: "?live = Some live" "ln_kind live = TextFile"
      "ln_content live = FileContent blob_id mode"
      by blast
    then have "live_text_blob (status (os_lifecycle orc) n) = Some blob_id"
      by (auto simp: live_text_blob_def live_node_at_def)
    with None live show ?thesis
      by (cases "live_node_at baseline n = None")
        (auto simp: oracle_current_text_def view_text_def oracle_view_def split: if_splits)
  next
    case False
    then have "live_text_blob (status (os_lifecycle orc) n) = None"
      by (auto simp: live_text_blob_def live_node_at_def split: node_status.splits node_content.splits)
    with None False show ?thesis
      by (auto simp: oracle_current_text_def view_text_def oracle_view_def split: node_content.splits)
  qed
qed

lemma apply_text_edit_iff:
  assumes wf: "wf_lifecycle (os_lifecycle orc)"
  shows "apply_text_edit sha256 baseline evidence scope (DEditText n span_id old_span_hash left right
      replacement old_span_text llen rlen) orc = Ok orc' \<longleftrightarrow>
    effect_holds sha256 baseline evidence scope (DEditText n span_id old_span_hash left right replacement
      old_span_text llen rlen) orc orc'"
proof -
  let ?st = "status (os_lifecycle orc) n"
  have stored: "rbind (oracle_effect (set_text_blob n b (os_lifecycle orc)) (orc\<lparr> os_texts := m \<rparr>))
      (\<lambda>orc. Ok (orc\<lparr> os_texts := fmupd n t (os_texts orc) \<rparr>)) = Ok orc' \<longleftrightarrow>
      wf_lifecycle (os_lifecycle orc') \<and> (\<exists>st. on_file ?st (set_text b) = Some st
        \<and> oracle_view orc' = (oracle_view orc)(n := (st, Some t)))"
    if "m = fmupd n c (os_texts orc)" for b c t m
  proof -
    let ?s = "os_lifecycle orc"
    have "rbind (oracle_effect (set_text_blob n b ?s) (orc\<lparr> os_texts := m \<rparr>))
        (\<lambda>orc. Ok (orc\<lparr> os_texts := fmupd n t (os_texts orc) \<rparr>)) = Ok orc' \<longleftrightarrow>
      exec_op (SetTextBlobOp n b) ?s = (Ok (), os_lifecycle orc') \<and> os_texts orc' = fmupd n t (os_texts orc)"
      by (cases "set_text_blob n b ?s"; cases orc; cases orc') (auto simp: oracle_effect_def that)
    also have "\<dots> \<longleftrightarrow> wf_lifecycle (os_lifecycle orc') \<and> os_texts orc' = fmupd n t (os_texts orc)
        \<and> (\<exists>st. on_file ?st (set_text b) = Some st
            \<and> status (os_lifecycle orc') = (status ?s)(n := st))"
      using exec_op_Ok_iff [OF wf] by (auto simp: on_file_spec simp del: spec_op.simps exec_op.simps)
    also have "\<dots> \<longleftrightarrow> wf_lifecycle (os_lifecycle orc') \<and> (\<exists>st. on_file ?st (set_text b) = Some st
        \<and> oracle_view orc' = (oracle_view orc)(n := (st, Some t)))"
      using view_update_text by blast
    finally show ?thesis .
  qed
  have view: "fst (oracle_view orc n) = ?st"
    by (simp add: oracle_view_def)
  show ?thesis
  proof (cases "\<exists>c t b. view_text baseline evidence scope n (oracle_view orc n) = Some c
      \<and> edited sha256 n span_id old_span_hash left right replacement old_span_text llen rlen c = Some (t, b)")
    case True
    then obtain c t b where c: "view_text baseline evidence scope n (oracle_view orc n) = Some c"
      and e: "edited sha256 n span_id old_span_hash left right replacement old_span_text llen rlen c = Some (t, b)"
      by blast
    obtain x y where "resolve_text_span sha256 c old_span_text left right span_id n old_span_hash llen rlen = Ok (x, y)"
      "splice_text c x y replacement = Ok t" "text_blob_id sha256 t = Ok b"
      using e by (auto simp: edited_def)
    moreover have "oracle_current_text baseline evidence scope n orc =
        Ok (c, orc\<lparr> os_texts := fmupd n c (os_texts orc) \<rparr>)"
      using c by (simp add: oracle_current_text_iff)
    ultimately have "apply_text_edit sha256 baseline evidence scope (DEditText n span_id old_span_hash left
        right replacement old_span_text llen rlen) orc =
      rbind (oracle_effect (set_text_blob n b (os_lifecycle orc))
          (orc\<lparr> os_texts := fmupd n c (os_texts orc) \<rparr>))
        (\<lambda>orc. Ok (orc\<lparr> os_texts := fmupd n t (os_texts orc) \<rparr>))"
      by simp
    then show ?thesis
      using c e by (auto simp only: stored [OF refl]) (auto simp: effect_holds_def claim_free_def view)
  next
    case False
    then show ?thesis
      by (auto simp: effect_holds_def oracle_current_text_iff edited_def)
  qed
qed


lemma apply_operation_iff:
  assumes "wf_lifecycle (os_lifecycle orc)" "\<And>n old new. kind \<noteq> DRenamePath n old new"
  shows "apply_operation sha256 baseline evidence scope kind orc = Ok orc' \<longleftrightarrow>
    effect_holds sha256 baseline evidence scope kind orc orc'"
proof (cases kind)
  case (DDeleteNode path n preimage)
  then show ?thesis
    using apply_delete_iff [OF assms(1)]
    by (cases preimage) (auto simp: apply_operation_def effect_holds_def)
next
  case (DCreateFile path n blob_id mode)
  then show ?thesis
    using apply_create_iff [OF assms(1)] by (simp add: apply_operation_def)
next
  case (DReplaceBinary n old new)
  then show ?thesis
    using apply_replace_iff [OF assms(1)] by (simp add: apply_operation_def)
next
  case (DChangePerm n old new)
  then show ?thesis
    using apply_mode_iff [OF assms(1)] by (simp add: apply_operation_def)
next
  case (DEditText n span_id old_span_hash left right replacement old_span_text llen rlen)
  then show ?thesis
    using apply_text_edit_iff [OF assms(1)] by (simp add: apply_operation_def del: apply_text_edit.simps)
next
  case (DCreateSymlink path n target)
  then show ?thesis
    by (simp add: apply_operation_def effect_holds_def)
qed (use assms(2) in simp)

section \<open>Sequences of effects\<close>

fun effects ::
  "(bytes \<Rightarrow> bytes) \<Rightarrow> lifecycle_state \<Rightarrow> patch_algebra_evidence \<Rightarrow> evidence_scope
   \<Rightarrow> decoded_operation_kind list \<Rightarrow> (node_id \<Rightarrow> view) \<Rightarrow> (node_id \<Rightarrow> view) option" where
  "effects sha256 baseline evidence scope [] V = Some V"
| "effects sha256 baseline evidence scope (k # ks) V =
     Option.bind (node_effect sha256 baseline evidence scope k (V (kind_node k)))
       (\<lambda>v. effects sha256 baseline evidence scope ks (V(kind_node k := v)))"

lemma effects_append:
  "effects sha256 baseline evidence scope (ks @ ls) V =
     Option.bind (effects sha256 baseline evidence scope ks V) (effects sha256 baseline evidence scope ls)"
  by (induction ks arbitrary: V) (auto simp: Option.bind_assoc)

definition renaming :: "decoded_operation_kind \<Rightarrow> rename_entry \<Rightarrow> bool" where
  "renaming k entry \<longleftrightarrow> (\<exists>old new. k = DRenamePath (fst entry) old new
     \<and> repo_path_parse old = Ok (fst (snd entry)) \<and> repo_path_parse new = Ok (snd (snd entry)))"

lemma oracle_rename_triple_Ok: "oracle_rename_triple scope k = Ok entry \<longleftrightarrow> renaming k entry"
  by (cases k; cases entry) (auto simp: renaming_def)

lemma moved_Cons:
  assumes "n \<notin> fst ` set rest" "T n = Live node"
  shows "moved ((n, old, new) # rest) T = moved rest (T(n := Live (node\<lparr> ln_path := new \<rparr>)))"
proof -
  have "map_of (batch_targets rest) n = None"
    using assms(1) by (force simp: batch_targets_def map_of_eq_None_iff)
  then show ?thesis
    using assms(2) by (auto simp: moved_def batch_targets_def fun_eq_iff split: node_status.splits option.splits)
qed

lemma moved_Nil [simp]: "moved [] T = T"
  by (auto simp: moved_def batch_targets_def fun_eq_iff split: node_status.splits)

lemma effects_of_batch:
  assumes "list_all2 renaming ks batch" "distinct (map fst batch)"
    and "\<forall>(n, old, _) \<in> set batch. \<exists>node. fst (V n) = Live node \<and> ln_path node = old"
  shows "effects sha256 baseline evidence scope ks V = Some (\<lambda>m. (moved batch (tree_of V) m, snd (V m)))"
  using assms
proof (induction ks batch arbitrary: V rule: list_all2_induct)
  case Nil
  then show ?case
    by (simp add: tree_of_def)
next
  case (Cons k ks entry batch)
  obtain n old new where entry: "entry = (n, old, new)"
    by (cases entry)
  obtain node where node: "fst (V n) = Live node" "ln_path node = old"
    using Cons.prems entry by auto
  let ?V = "V(n := (Live (node\<lparr> ln_path := new \<rparr>), snd (V n)))"
  have k: "kind_node k = n" "node_effect sha256 baseline evidence scope k (V n) = Some (?V n)"
    using Cons.hyps(1) node by (auto simp: renaming_def entry set_path_def)
  have fresh: "n \<notin> fst ` set batch"
    using Cons.prems entry by auto
  have "effects sha256 baseline evidence scope ks ?V = Some (\<lambda>m. (moved batch (tree_of ?V) m, snd (?V m)))"
    using Cons.prems fresh by (intro Cons.IH) (force simp: entry)+
  moreover have "tree_of ?V = (tree_of V)(n := Live (node\<lparr> ln_path := new \<rparr>))"
    by (auto simp: tree_of_def)
  then have "moved batch (tree_of ?V) = moved (entry # batch) (tree_of V)"
    unfolding entry using moved_Cons [OF fresh, of "tree_of V"] node(1) by (simp add: tree_of_def)
  ultimately show ?case
    using k by (auto simp: fun_eq_iff)
qed


lemma renaming_node: "list_all2 renaming ks batch \<Longrightarrow> map kind_node ks = map fst batch"
  by (induction rule: list_all2_induct) (auto simp: renaming_def)

lemma renaming_claims:
  "list_all2 renaming ks batch \<Longrightarrow> map kind_claim ks = map (Some \<circ> snd \<circ> snd) batch"
  by (induction rule: list_all2_induct) (auto simp: renaming_def)

lemma batch_claims_free:
  assumes "list_all2 renaming ks batch"
  shows "(\<forall>(_, _, new) \<in> set batch. \<not> occupied_outside (tree_of V) (fst ` set batch) new)
    \<longleftrightarrow> (\<forall>k \<in> set ks. claim_free V (kind_node ` set ks) k)"
proof -
  have nodes: "kind_node ` set ks = fst ` set batch"
    by (metis assms renaming_node list.set_map)
  have claims: "kind_claim ` set ks = (Some \<circ> snd \<circ> snd) ` set batch"
    by (metis assms renaming_claims list.set_map)
  let ?free = "\<lambda>c. \<forall>p. c = Some p \<longrightarrow> \<not> occupied_outside (tree_of V) (fst ` set batch) p"
  have "(\<forall>(_, _, new) \<in> set batch. \<not> occupied_outside (tree_of V) (fst ` set batch) new)
      \<longleftrightarrow> (\<forall>c \<in> (Some \<circ> snd \<circ> snd) ` set batch. ?free c)"
    by (auto split: prod.splits)
  also have "\<dots> \<longleftrightarrow> (\<forall>k \<in> set ks. claim_free V (kind_node ` set ks) k)"
    unfolding claims [symmetric] claim_free_def nodes by simp
  finally show ?thesis .
qed

lemma batch_step:
  assumes wf: "wf_lifecycle (os_lifecycle orc)" and ks: "list_all2 renaming ks batch"
    and ok: "oracle_effect (rename_nodes_checked_batch batch (os_lifecycle orc)) orc = Ok orc'"
  shows "wf_lifecycle (os_lifecycle orc')"
    and "effects sha256 baseline evidence scope ks (oracle_view orc) = Some (oracle_view orc')"
    and "\<forall>k \<in> set ks. claim_free (oracle_view orc) (kind_node ` set ks) k"
    and "distinct (map fst batch)" "distinct (map (snd \<circ> snd) batch)"
proof -
  have facts: "wf_lifecycle (os_lifecycle orc')" "os_texts orc' = os_texts orc"
    and spec: "spec_op (RenameBatchOp batch) (status (os_lifecycle orc)) = Some (status (os_lifecycle orc'))"
    using oracle_effect_exec [OF wf, of "RenameBatchOp batch" orc'] ok by auto
  then show "wf_lifecycle (os_lifecycle orc')" "distinct (map fst batch)" "distinct (map (snd \<circ> snd) batch)"
    by (auto split: if_splits)
  have "\<forall>(n, old, _) \<in> set batch. \<exists>node. fst (oracle_view orc n) = Live node \<and> ln_path node = old"
    using spec by (auto simp: oracle_view_def simp del: status_Live split: if_splits)
  moreover have "moved batch (status (os_lifecycle orc)) = status (os_lifecycle orc')"
    using spec by (auto split: if_splits)
  ultimately show "effects sha256 baseline evidence scope ks (oracle_view orc) = Some (oracle_view orc')"
    using effects_of_batch [OF ks] spec facts(2)
    by (auto simp: oracle_view_def fun_eq_iff split: if_splits)
  show "\<forall>k \<in> set ks. claim_free (oracle_view orc) (kind_node ` set ks) k"
    using batch_claims_free [OF ks, of "oracle_view orc"] spec by (auto split: if_splits)
qed

lemma effects_batch_sources:
  assumes "list_all2 renaming ks batch" "distinct (map fst batch)"
    and "effects sha256 baseline evidence scope ks V \<noteq> None"
  shows "\<forall>(n, old, _) \<in> set batch. \<exists>node. fst (V n) = Live node \<and> ln_path node = old"
  using assms
proof (induction ks batch arbitrary: V rule: list_all2_induct)
  case (Cons k ks entry batch)
  obtain n old new where entry: "entry = (n, old, new)"
    by (cases entry)
  obtain node where node: "fst (V n) = Live node" "ln_path node = old"
    and rest: "effects sha256 baseline evidence scope ks
      (V(n := (Live (node\<lparr> ln_path := new \<rparr>), snd (V n)))) \<noteq> None"
    using Cons.prems Cons.hyps(1)
    by (auto simp: entry renaming_def set_path_def split: node_status.splits if_splits)
  have "\<forall>(m, old, _) \<in> set batch. \<exists>node'. fst ((V(n := (Live (node\<lparr> ln_path := new \<rparr>), snd (V n)))) m)
      = Live node' \<and> ln_path node' = old"
    using Cons.IH [OF _ rest] Cons.prems(1) by simp
  moreover have "n \<notin> fst ` set batch"
    using Cons.prems(1) by (auto simp: entry)
  ultimately show ?case
    using node by (force simp: entry)
qed simp

text \<open>A batch that is defined node by node and whose claims are free goes through.\<close>

lemma batch_realized:
  assumes wf: "wf_lifecycle (os_lifecycle orc)" and ks: "list_all2 renaming ks batch"
    and dist: "distinct (map fst batch)" "distinct (map (snd \<circ> snd) batch)"
    and eff: "effects sha256 baseline evidence scope ks (oracle_view orc) \<noteq> None"
    and free: "\<forall>k \<in> set ks. claim_free (oracle_view orc) (kind_node ` set ks) k"
  shows "\<exists>orc'. oracle_effect (rename_nodes_checked_batch batch (os_lifecycle orc)) orc = Ok orc'"
proof -
  let ?T = "status (os_lifecycle orc)"
  have "\<forall>(n, old, _) \<in> set batch. \<exists>node. ?T n = Live node \<and> ln_path node = old"
    using effects_batch_sources [OF ks dist(1) eff] by (auto simp: oracle_view_def simp del: status_Live)
  then have "spec_op (RenameBatchOp batch) ?T = Some (moved batch ?T)"
    using dist batch_claims_free [OF ks, of "oracle_view orc"] free by simp
  then obtain t where "rename_nodes_checked_batch batch (os_lifecycle orc) = (Ok (), t)"
    using exec_op_meets [OF wf, of "RenameBatchOp batch"]
    by (cases "rename_nodes_checked_batch batch (os_lifecycle orc)";
        cases "fst (rename_nodes_checked_batch batch (os_lifecycle orc))") (auto simp: meets_def)
  then show ?thesis
    by (simp add: oracle_effect_def)
qed

lemma not_renames: "\<not> renames opn \<Longrightarrow> dop_kind opn \<noteq> DRenamePath n old new"
  by (auto simp: renames_def)

text \<open>A replay that succeeds does what the effects say.\<close>

lemma replay_sound:
  assumes "replay_loop sha256 baseline evidence scope ops orc = Ok orc'" "wf_lifecycle (os_lifecycle orc)"
  shows "wf_lifecycle (os_lifecycle orc')
    \<and> effects sha256 baseline evidence scope (map dop_kind ops) (oracle_view orc) = Some (oracle_view orc')"
  using assms
proof (induction sha256 baseline evidence scope ops orc rule: replay_loop.induct)
  case (2 sha256 baseline evidence scope opn rest orc)
  show ?case
  proof (cases "renames opn")
    case True
    let ?unit = "opn # takeWhile (same_rename_batch opn) rest"
    let ?rest = "dropWhile (same_rename_batch opn) rest"
    obtain batch mid where batch: "rmap (\<lambda>next. oracle_rename_triple scope (dop_kind next)) ?unit = Ok batch"
      and mid: "oracle_effect (rename_nodes_checked_batch batch (os_lifecycle orc)) orc = Ok mid"
      and go: "replay_loop sha256 baseline evidence scope ?rest mid = Ok orc'"
      using 2(3) True by (auto simp del: rmap.simps)
    have ks: "list_all2 renaming (map dop_kind ?unit) batch"
      using batch by (simp only: rmap_eq_Ok oracle_rename_triple_Ok list_all2_map1)
    note step = batch_step [OF 2(4) ks mid]
    have IH: "wf_lifecycle (os_lifecycle orc')
        \<and> effects sha256 baseline evidence scope (map dop_kind ?rest) (oracle_view mid) = Some (oracle_view orc')"
      using 2(1) [OF True batch mid go step(1)] .
    have "map dop_kind (opn # rest) = map dop_kind ?unit @ map dop_kind ?rest"
      by (metis append_Cons map_append takeWhile_dropWhile_id)
    then show ?thesis
      using IH step(2) [of sha256 baseline evidence scope] by (simp only: effects_append Option.bind.bind_lunit)
  next
    case False
    then obtain mid where mid: "apply_operation sha256 baseline evidence scope (dop_kind opn) orc = Ok mid"
      and go: "replay_loop sha256 baseline evidence scope rest mid = Ok orc'"
      using 2(3) by auto
    have "effect_holds sha256 baseline evidence scope (dop_kind opn) orc mid"
      using mid apply_operation_iff [OF 2(4) not_renames [OF False]] by simp
    then show ?thesis
      using 2(2) [OF False mid go] by (auto simp: effect_holds_def)
  qed
qed simp


section \<open>Orthogonal effects\<close>

text \<open>
  Two operations on one node that read and write different parts of it: its path, its mode, its content.
\<close>

fun writes_path :: "decoded_operation_kind \<Rightarrow> bool" where
  "writes_path (DRenamePath _ _ _) = True"
| "writes_path _ = False"

fun writes_mode :: "decoded_operation_kind \<Rightarrow> bool" where
  "writes_mode (DChangePerm _ _ _) = True"
| "writes_mode _ = False"

fun writes_content :: "decoded_operation_kind \<Rightarrow> bool" where
  "writes_content (DEditText _ _ _ _ _ _ _ _ _) = True"
| "writes_content (DReplaceBinary _ _ _) = True"
| "writes_content _ = False"

definition orthogonal :: "decoded_operation_kind \<Rightarrow> decoded_operation_kind \<Rightarrow> bool" where
  "orthogonal k l \<longleftrightarrow>
     writes_path k \<and> (writes_mode l \<or> writes_content l) \<or> writes_mode k \<and> (writes_path l \<or> writes_content l)
     \<or> writes_content k \<and> (writes_path l \<or> writes_mode l)"

lemma orthogonal_sym: "orthogonal k l \<Longrightarrow> orthogonal l k"
  by (auto simp: orthogonal_def)

lemma on_file_Some:
  "on_file st f = Some st' \<longleftrightarrow> (\<exists>node b m c. st = Live node \<and> ln_content node = FileContent b m
     \<and> f node b m = Some c \<and> st' = Live (node\<lparr> ln_content := c \<rparr>))"
  by (cases st) (auto simp: on_file_def split: node_content.splits)

lemma set_path_Some:
  "set_path old new st = Some st' \<longleftrightarrow> (\<exists>node. st = Live node \<and> ln_path node = old
     \<and> st' = Live (node\<lparr> ln_path := new \<rparr>))"
  by (cases st) (auto simp: set_path_def)

lemma view_text_cong:
  "live_text_blob (fst v) = live_text_blob (fst w) \<Longrightarrow> snd v = snd w \<Longrightarrow>
     view_text baseline evidence scope n v = view_text baseline evidence scope n w"
  by (simp add: view_text_def split: option.split)

lemma live_text_blob_path [simp]:
  "live_text_blob (Live (node\<lparr> ln_path := p \<rparr>)) = live_text_blob (Live node)"
  by (simp add: live_text_blob_def)

lemma live_text_blob_mode:
  "ln_content node = FileContent b m \<Longrightarrow>
     live_text_blob (Live (node\<lparr> ln_content := FileContent b m' \<rparr>)) = live_text_blob (Live node)"
  by (simp add: live_text_blob_def)

lemma path_content_diamond:
  assumes "writes_path k" "writes_mode l \<or> writes_content l" "kind_node k = kind_node l"
    and k: "node_effect sha256 baseline evidence scope k v = Some a"
    and l: "node_effect sha256 baseline evidence scope l v = Some b"
  shows "\<exists>w. node_effect sha256 baseline evidence scope l a = Some w
    \<and> node_effect sha256 baseline evidence scope k b = Some w"
proof -
  obtain n old_path new_path where kind: "k = DRenamePath n old_path new_path"
    using assms(1) by (cases k) auto
  obtain old new node where p: "repo_path_parse old_path = Ok old" "repo_path_parse new_path = Ok new"
    and v: "fst v = Live node" "ln_path node = old" and a: "a = (Live (node\<lparr> ln_path := new \<rparr>), snd v)"
    using k by (auto simp: kind set_path_Some)
  have same: "view_text baseline evidence scope m a = view_text baseline evidence scope m v" for m
    by (rule view_text_cong) (simp_all add: a v)
  obtain blob mode where c: "ln_content node = FileContent blob mode"
    using assms(2) l v by (cases l) (auto simp: on_file_Some split: if_splits)
  show ?thesis
    using assms(2) l
    by (cases l) (auto simp: kind p a v c set_path_def on_file_def same [unfolded a] set_mode_def set_blob_def
        set_text_def split: if_splits prod.splits)
qed

lemma mode_content_diamond:
  assumes "writes_mode k" "writes_content l"
    and k: "node_effect sha256 baseline evidence scope k v = Some a"
    and l: "node_effect sha256 baseline evidence scope l v = Some b"
  shows "\<exists>w. node_effect sha256 baseline evidence scope l a = Some w
    \<and> node_effect sha256 baseline evidence scope k b = Some w"
proof -
  obtain n old new where kind: "k = DChangePerm n old new"
    using assms(1) by (cases k) auto
  obtain node blob where v: "fst v = Live node" "ln_content node = FileContent blob old"
    and a: "a = (Live (node\<lparr> ln_content := FileContent blob new \<rparr>), snd v)"
    using k by (auto simp: kind on_file_Some set_mode_def split: if_splits)
  have same: "view_text baseline evidence scope m a = view_text baseline evidence scope m v" for m
    by (rule view_text_cong) (simp_all add: a v live_text_blob_mode)
  show ?thesis
    using assms(2) l
    by (cases l) (auto simp: kind a v on_file_def same [unfolded a] set_mode_def set_blob_def
        set_text_def split: if_splits prod.splits)
qed

lemma orthogonal_diamond:
  assumes "orthogonal k l" "kind_node k = kind_node l"
    and "node_effect sha256 baseline evidence scope k v = Some a"
    and "node_effect sha256 baseline evidence scope l v = Some b"
  shows "\<exists>w. node_effect sha256 baseline evidence scope l a = Some w
    \<and> node_effect sha256 baseline evidence scope k b = Some w"
  using assms path_content_diamond [of k l] path_content_diamond [of l k] mode_content_diamond [of k l]
    mode_content_diamond [of l k]
  unfolding orthogonal_def by (elim disjE conjE) (metis (no_types, lifting))+

end
