(* ===== verification/Algebra_Confluence.thy ===== *)
theory Algebra_Confluence
  imports Algebra_Effects
begin

text \<open>
  From pairs to sequences. Operations that the classification calls independent are apart: they touch
  different nodes, or different parts of one node, and claim different paths. Sequences whose operations
  are pairwise apart have the diamond property, and a sequence that replays still replays after the
  other one.
\<close>

section \<open>The diamond\<close>

definition apart :: "decoded_operation_kind \<Rightarrow> decoded_operation_kind \<Rightarrow> bool" where
  "apart k l \<longleftrightarrow> (kind_node k \<noteq> kind_node l \<or> orthogonal k l)
     \<and> (\<forall>p. kind_claim k = Some p \<longrightarrow> kind_claim l \<noteq> Some p)"

lemma apart_sym: "apart k l \<Longrightarrow> apart l k"
  by (auto simp: apart_def dest: orthogonal_sym)

lemma step_diamond:
  assumes "apart k l"
    and k: "effects sha256 baseline evidence scope [k] V = Some A"
    and l: "effects sha256 baseline evidence scope [l] V = Some B"
  shows "\<exists>W. effects sha256 baseline evidence scope [l] A = Some W
    \<and> effects sha256 baseline evidence scope [k] B = Some W"
proof -
  obtain a b where a: "node_effect sha256 baseline evidence scope k (V (kind_node k)) = Some a"
      "A = V(kind_node k := a)"
    and b: "node_effect sha256 baseline evidence scope l (V (kind_node l)) = Some b" "B = V(kind_node l := b)"
    using k l by auto
  show ?thesis
  proof (cases "kind_node k = kind_node l")
    case True
    then have "orthogonal k l"
      using assms(1) by (simp add: apart_def)
    then obtain w where "node_effect sha256 baseline evidence scope l a = Some w"
      "node_effect sha256 baseline evidence scope k b = Some w"
      using orthogonal_diamond [OF _ True a(1)] b(1) True by metis
    then show ?thesis
      using a(2) b(2) True by auto
  next
    case False
    then show ?thesis
      using a b by (auto simp: fun_upd_twist)
  qed
qed

lemma effects_Cons:
  "effects sha256 baseline evidence scope (k # ks) V = Option.bind (effects sha256 baseline evidence scope [k] V)
     (effects sha256 baseline evidence scope ks)"
  by (cases "node_effect sha256 baseline evidence scope k (V (kind_node k))") auto

lemma strip_diamond:
  assumes "\<forall>l \<in> set ls. apart k l"
    and "effects sha256 baseline evidence scope [k] V = Some A"
    and "effects sha256 baseline evidence scope ls V = Some B"
  shows "\<exists>W. effects sha256 baseline evidence scope ls A = Some W
    \<and> effects sha256 baseline evidence scope [k] B = Some W"
  using assms
proof (induction ls arbitrary: V A)
  case Nil
  then show ?case
    by simp
next
  case (Cons l ls)
  obtain V' where V': "effects sha256 baseline evidence scope [l] V = Some V'"
    and B: "effects sha256 baseline evidence scope ls V' = Some B"
    using Cons.prems(3) by (subst (asm) effects_Cons) auto
  obtain A' where A': "effects sha256 baseline evidence scope [l] A = Some A'"
    "effects sha256 baseline evidence scope [k] V' = Some A'"
    using step_diamond [OF _ Cons.prems(2) V'] Cons.prems(1) by auto
  obtain W where "effects sha256 baseline evidence scope ls A' = Some W"
    "effects sha256 baseline evidence scope [k] B = Some W"
    using Cons.IH [OF _ A'(2) B] Cons.prems(1) by auto
  then show ?case
    using A'(1) by (subst effects_Cons) auto
qed

lemma effects_diamond:
  assumes "\<forall>k \<in> set ks. \<forall>l \<in> set ls. apart k l"
    and "effects sha256 baseline evidence scope ks V = Some A"
    and "effects sha256 baseline evidence scope ls V = Some B"
  shows "\<exists>W. effects sha256 baseline evidence scope ls A = Some W
    \<and> effects sha256 baseline evidence scope ks B = Some W"
  using assms
proof (induction ks arbitrary: V B)
  case Nil
  then show ?case
    by simp
next
  case (Cons k ks)
  obtain V' where V': "effects sha256 baseline evidence scope [k] V = Some V'"
    and A: "effects sha256 baseline evidence scope ks V' = Some A"
    using Cons.prems(2) by (subst (asm) effects_Cons) auto
  obtain B' where B': "effects sha256 baseline evidence scope ls V' = Some B'"
    "effects sha256 baseline evidence scope [k] B = Some B'"
    using strip_diamond [OF _ V' Cons.prems(3)] Cons.prems(1) by auto
  obtain W where "effects sha256 baseline evidence scope ls A = Some W"
    "effects sha256 baseline evidence scope ks B' = Some W"
    using Cons.IH [OF _ A B'(1)] Cons.prems(1) by auto
  then show ?case
    using B'(2) by (auto simp: effects_Cons [of _ _ _ _ k ks] simp del: effects.simps)
qed

text \<open>Sequences that are pairwise apart give one result in both orders, when both orders are defined.\<close>

lemma effects_exchange:
  assumes "\<forall>k \<in> set ks. \<forall>l \<in> set ls. apart k l"
    and "effects sha256 baseline evidence scope (ks @ ls) V = Some A"
    and "effects sha256 baseline evidence scope (ls @ ks) V = Some B"
  shows "A = B"
proof -
  obtain A' B' where "effects sha256 baseline evidence scope ks V = Some A'"
    "effects sha256 baseline evidence scope ls V = Some B'"
    "effects sha256 baseline evidence scope ls A' = Some A" "effects sha256 baseline evidence scope ks B' = Some B"
    using assms(2,3) by (auto simp: effects_append)
  then show ?thesis
    using effects_diamond [OF assms(1)] by fastforce
qed

lemma effects_swap:
  assumes "apart k l" "effects sha256 baseline evidence scope [k, l] V = Some A"
    "effects sha256 baseline evidence scope [l, k] V = Some B"
  shows "A = B"
  using effects_exchange [of "[k]" "[l]"] assms by simp

section \<open>Paths and untouched nodes\<close>

lemma effects_untouched:
  "effects sha256 baseline evidence scope ks V = Some W \<Longrightarrow> n \<notin> kind_node ` set ks \<Longrightarrow> W n = V n"
  by (induction ks arbitrary: V) fastforce+

lemma node_effect_path:
  assumes "node_effect sha256 baseline evidence scope k v = Some w" "fst w = Live node"
  shows "kind_claim k = Some (ln_path node) \<or> (\<exists>before. fst v = Live before \<and> ln_path before = ln_path node)"
proof (cases k)
  case (DDeleteNode path n preimage)
  then show ?thesis
    using assms by (cases preimage) (auto simp: Let_def split: if_splits)
qed (use assms in \<open>auto simp: Let_def on_file_Some set_path_Some split: if_splits\<close>)

lemma effects_path:
  assumes "effects sha256 baseline evidence scope ks V = Some W" "fst (W m) = Live node"
  shows "(\<exists>k \<in> set ks. kind_claim k = Some (ln_path node))
    \<or> (\<exists>before. fst (V m) = Live before \<and> ln_path before = ln_path node)"
  using assms
proof (induction ks arbitrary: V)
  case (Cons k ks)
  obtain v where v: "node_effect sha256 baseline evidence scope k (V (kind_node k)) = Some v"
    and rest: "effects sha256 baseline evidence scope ks (V(kind_node k := v)) = Some W"
    using Cons.prems(1) by auto
  show ?case
    using Cons.IH [OF rest Cons.prems(2)] node_effect_path [OF v]
    by (auto split: if_splits)
qed auto

text \<open>A claim that is free stays free after effects that claim other paths.\<close>

lemma claim_free_effects:
  assumes "effects sha256 baseline evidence scope ks V = Some W" "\<forall>k \<in> set ks. apart k l"
    and "claim_free V inside l"
  shows "claim_free W inside l"
proof -
  have False if p: "kind_claim l = Some p" and m: "m \<notin> inside" "fst (W m) = Live node" "ln_path node = p"
    for p m node
  proof -
    have "\<not> (\<exists>k \<in> set ks. kind_claim k = Some p)"
      using assms(2) p by (auto simp: apart_def)
    then obtain before where "fst (V m) = Live before" "ln_path before = p"
      using effects_path [OF assms(1) m(2)] m(3) by auto
    then show False
      using assms(3) p m(1) by (auto simp: claim_free_def occupied_outside_def tree_of_def)
  qed
  then show ?thesis
    by (auto simp: claim_free_def occupied_outside_def tree_of_def)
qed


section \<open>Effects are realized\<close>

lemma exec_op_realizes:
  assumes "wf_lifecycle s" "spec_op opn (status s) = Some T"
  shows "\<exists>t. wf_lifecycle t \<and> status t = T"
  using exec_op_meets [OF assms(1), of opn] assms(2)
  by (cases "exec_op opn s"; cases "fst (exec_op opn s)") (auto simp: meets_def)

lemma sets_file:
  "set_text b' node b m = Some c \<Longrightarrow> \<exists>b m. c = FileContent b m"
  "set_blob old new node b m = Some c \<Longrightarrow> \<exists>b m. c = FileContent b m"
  "set_mode o' n' node b m = Some c \<Longrightarrow> \<exists>b m. c = FileContent b m"
  by (auto simp: set_text_def set_blob_def set_mode_def split: if_splits)

lemma status_realized:
  assumes wf: "wf_lifecycle s" and v: "fst v = status s (kind_node k)"
    and eff: "node_effect sha256 baseline evidence scope k v = Some w"
    and free: "\<And>p. kind_claim k = Some p \<Longrightarrow> \<not> occupied_outside (status s) {kind_node k} p"
  shows "\<exists>t. wf_lifecycle t \<and> status t = (status s)(kind_node k := fst w)"
proof -
  have content: "\<exists>t. wf_lifecycle t \<and> status t = (status s)(n := st)"
    if on: "on_file (status s n) f = Some st" and files: "\<And>node b m c. f node b m = Some c \<Longrightarrow> \<exists>b' m'. c = FileContent b' m'"
    for n f st
  proof -
    obtain node b m b' m' where node: "fmlookup (live_by_id s) n = Some node" "ln_content node = FileContent b m"
      and st: "st = Live (node\<lparr> ln_content := FileContent b' m' \<rparr>)"
      using on by (auto simp: on_file_Some dest: files)
    have "shape_consistent (ln_kind node) (ln_content node)"
      using wf node(1) by (auto simp: wf_lifecycle_def)
    then have "shape_consistent (ln_kind node) (FileContent b' m')"
      using node(2) by (simp add: shape_File)
    then show ?thesis
      using update_content [OF wf node(1), of "node\<lparr> ln_content := FileContent b' m' \<rparr>"] st by auto
  qed
  show ?thesis
  proof (cases k)
    case (DCreateFile path n blob_id mode)
    let ?node = "\<lambda>p kind. \<lparr> ln_path = p, ln_kind = kind, ln_content = FileContent blob_id mode \<rparr>"
    obtain p kind where p: "repo_path_parse path = Ok p" and w: "fst w = Live (?node p kind)"
      and guard: "\<not> node_id_is_zero n" "shape_consistent kind (FileContent blob_id mode)"
        "status s n = Unseen \<or> status s n = Tombstoned (tombstone_of (?node p kind))"
      using eff v by (auto simp: DCreateFile Let_def split: if_splits)
    have "\<not> occupied_outside (status s) {} p"
      using free [of p] occupied_outside_self [of "status s" n p] guard(3) DCreateFile p
      by (auto simp del: status_Live)
    then show ?thesis
      using exec_op_realizes [OF wf, of "CreateOp n (?node p kind)"] guard w DCreateFile by simp
  next
    case (DDeleteNode path n preimage)
    then obtain node where "status s n = Live node" "fst w = Tombstoned (tombstone_of node)"
      using eff v by (cases preimage) (auto simp: Let_def simp del: status_Live split: if_splits)
    then show ?thesis
      using exec_op_realizes [OF wf, of "DeleteCheckedOp n node"] DDeleteNode by (simp del: status_Live)
  next
    case (DEditText n span_id old_span_hash left right replacement old_span_text llen rlen)
    then obtain b where "on_file (status s n) (set_text b) = Some (fst w)"
      using eff v by auto
    then show ?thesis
      using content [OF _ sets_file(1)] DEditText by simp
  next
    case (DReplaceBinary n old new)
    then have "on_file (status s n) (set_blob old new) = Some (fst w)"
      using eff v by (auto split: if_splits)
    then show ?thesis
      using content [OF _ sets_file(2)] DReplaceBinary by simp
  next
    case (DChangePerm n old new)
    then have "on_file (status s n) (set_mode old new) = Some (fst w)"
      using eff v by auto
    then show ?thesis
      using content [OF _ sets_file(3)] DChangePerm by simp
  next
    case (DRenamePath n old_path new_path)
    then obtain new node where "repo_path_parse new_path = Ok new" "status s n = Live node"
      "fst w = Live (node\<lparr> ln_path := new \<rparr>)"
      using eff v by (auto simp: set_path_Some simp del: status_Live)
    then show ?thesis
      using exec_op_realizes [OF wf, of "RenameOp n new"] free [of new] DRenamePath by (simp del: status_Live)
  next
    case (DCreateSymlink path n target)
    then show ?thesis
      using eff by simp
  qed
qed

lemma effect_realized:
  assumes wf: "wf_lifecycle (os_lifecycle orc)"
    and eff: "node_effect sha256 baseline evidence scope k (oracle_view orc (kind_node k)) = Some w"
    and free: "claim_free (oracle_view orc) {kind_node k} k"
  shows "\<exists>orc'. effect_holds sha256 baseline evidence scope k orc orc'"
proof -
  let ?n = "kind_node k"
  let ?texts = "case snd w of Some x \<Rightarrow> fmupd ?n x (os_texts orc) | None \<Rightarrow> fmdrop ?n (os_texts orc)"
  obtain t where t: "wf_lifecycle t" "status t = (status (os_lifecycle orc))(?n := fst w)"
    using status_realized [OF wf _ eff] free by (auto simp: oracle_view_def claim_free_def)
  have "oracle_view \<lparr> os_lifecycle = t, os_texts = ?texts \<rparr> = (oracle_view orc)(?n := w)"
    using t(2) by (cases w) (auto simp: oracle_view_def fun_eq_iff split: option.splits)
  then show ?thesis
    using eff free t(1) unfolding effect_holds_def
    by (metis oracle_state.select_convs(1))
qed

section \<open>Replaying one side after the other\<close>

lemma effect_holds_effects:
  "effect_holds sha256 baseline evidence scope k orc orc' \<Longrightarrow>
     effects sha256 baseline evidence scope [k] (oracle_view orc) = Some (oracle_view orc')"
  by (auto simp: effect_holds_def)

lemma replay_transfer:
  assumes "replay_loop sha256 baseline evidence scope ops orc = Ok orc'"
    and "wf_lifecycle (os_lifecycle orc)" "wf_lifecycle (os_lifecycle moved_orc)"
    and "effects sha256 baseline evidence scope ks (oracle_view orc) = Some (oracle_view moved_orc)"
    and "\<forall>k \<in> set ks. \<forall>opn \<in> set ops. apart k (dop_kind opn)"
  shows "\<exists>moved'. replay_loop sha256 baseline evidence scope ops moved_orc = Ok moved'
    \<and> effects sha256 baseline evidence scope ks (oracle_view orc') = Some (oracle_view moved')"
  using assms
proof (induction sha256 baseline evidence scope ops orc arbitrary: moved_orc rule: replay_loop.induct)
  case (1 sha256 baseline evidence scope orc)
  then show ?case
    by auto
next
  case (2 sha256 baseline evidence scope opn rest orc)
  note wf = 2(4) and wf_moved = 2(5) and ks = 2(6) and apart = 2(7)
  show ?case
  proof (cases "renames opn")
    case True
    let ?unit = "opn # takeWhile (same_rename_batch opn) rest"
    let ?kinds = "map dop_kind ?unit"
    obtain batch mid where batch: "rmap (\<lambda>next. oracle_rename_triple scope (dop_kind next)) ?unit = Ok batch"
      and mid: "oracle_effect (rename_nodes_checked_batch batch (os_lifecycle orc)) orc = Ok mid"
      and go: "replay_loop sha256 baseline evidence scope (dropWhile (same_rename_batch opn) rest) mid = Ok orc'"
      using 2(3) True by (auto simp del: rmap.simps)
    have kinds: "list_all2 renaming ?kinds batch"
      using batch by (simp only: rmap_eq_Ok oracle_rename_triple_Ok list_all2_map1)
    note step = batch_step [OF wf kinds mid]
    have apart_unit: "\<forall>k \<in> set ks. \<forall>l \<in> set ?kinds. apart k l"
      using apart by (auto dest: set_takeWhileD)
    obtain W where W: "effects sha256 baseline evidence scope ?kinds (oracle_view moved_orc) = Some W"
      "effects sha256 baseline evidence scope ks (oracle_view mid) = Some W"
      using effects_diamond [OF apart_unit ks step(2)] by blast
    have "\<forall>l \<in> set ?kinds. claim_free (oracle_view moved_orc) (kind_node ` set ?kinds) l"
      using claim_free_effects [OF ks] step(3) apart_unit by blast
    then obtain mid' where mid': "oracle_effect (rename_nodes_checked_batch batch (os_lifecycle moved_orc))
        moved_orc = Ok mid'"
      using batch_realized [OF wf_moved kinds step(4,5)] W(1) by blast
    note step' = batch_step [OF wf_moved kinds mid']
    have "effects sha256 baseline evidence scope ks (oracle_view mid) = Some (oracle_view mid')"
      using step'(2) [of sha256 baseline evidence scope] W by (simp del: effects.simps list.map)
    moreover have "\<forall>k \<in> set ks. \<forall>l \<in> set (dropWhile (same_rename_batch opn) rest). apart k (dop_kind l)"
      using apart by (auto dest: set_dropWhileD)
    ultimately show ?thesis
      using 2(1) [OF True batch mid go step(1) step'(1)] True batch mid' by (auto simp del: rmap.simps)
  next
    case False
    obtain mid where mid: "apply_operation sha256 baseline evidence scope (dop_kind opn) orc = Ok mid"
      and go: "replay_loop sha256 baseline evidence scope rest mid = Ok orc'"
      using 2(3) False by auto
    have holds: "effect_holds sha256 baseline evidence scope (dop_kind opn) orc mid"
      using mid apply_operation_iff [OF wf not_renames [OF False]] by simp
    have apart_opn: "\<forall>k \<in> set ks. \<forall>l \<in> set [dop_kind opn]. apart k l"
      using apart by simp
    obtain W where W: "effects sha256 baseline evidence scope [dop_kind opn] (oracle_view moved_orc) = Some W"
      "effects sha256 baseline evidence scope ks (oracle_view mid) = Some W"
      using effects_diamond [OF apart_opn ks effect_holds_effects [OF holds]] by blast
    have free: "claim_free (oracle_view moved_orc) {kind_node (dop_kind opn)} (dop_kind opn)"
      using claim_free_effects [OF ks] holds apart_opn by (auto simp: effect_holds_def)
    obtain w where "node_effect sha256 baseline evidence scope (dop_kind opn)
        (oracle_view moved_orc (kind_node (dop_kind opn))) = Some w"
      using W(1) by auto
    then obtain mid' where holds': "effect_holds sha256 baseline evidence scope (dop_kind opn) moved_orc mid'"
      using effect_realized [OF wf_moved _ free] by blast
    then have mid': "apply_operation sha256 baseline evidence scope (dop_kind opn) moved_orc = Ok mid'"
      using apply_operation_iff [OF wf_moved not_renames [OF False]] by simp
    have "effects sha256 baseline evidence scope ks (oracle_view mid) = Some (oracle_view mid')"
      using effect_holds_effects [OF holds'] W by (simp del: effects.simps)
    then show ?thesis
      using 2(2) [OF False mid go] holds holds' apart False mid' by (auto simp: effect_holds_def)
  qed
qed


section \<open>Independent operations are apart\<close>

lemma or_else_None [simp]: "or_else a b = None \<longleftrightarrow> a = None \<and> b = None"
  by (cases a) (auto simp: or_else_def)

lemma facts_parse_path_Ok [simp]: "facts_parse_path path = Ok p \<longleftrightarrow> repo_path_parse path = Ok p"
  by (simp add: facts_parse_path_def)

lemma operation_action_Ok:
  assumes "operation_action k = Ok (a, eff)"
  shows "action_node_id a = Some (kind_node k)"
    and "newly_occupied eff = (case kind_claim k of Some p \<Rightarrow> {|p|} | None \<Rightarrow> {||})"
proof -
  have "action_node_id a = Some (kind_node k)
      \<and> newly_occupied eff = (case kind_claim k of Some p \<Rightarrow> {|p|} | None \<Rightarrow> {||})"
  proof (cases k)
    case (DDeleteNode path n preimage)
    then show ?thesis
      using assms by (cases preimage) (auto simp: operation_action_def no_effects_def)
  qed (use assms in \<open>auto simp: operation_action_def creating_def no_effects_def\<close>)
  then show "action_node_id a = Some (kind_node k)"
    "newly_occupied eff = (case kind_claim k of Some p \<Rightarrow> {|p|} | None \<Rightarrow> {||})"
    by simp_all
qed

lemma operation_facts_Ok:
  assumes "operation_facts opn = Ok facts"
  shows "operation_action (dop_kind opn) = Ok (of_action facts, of_effects facts)"
    and "of_node_id facts = Some (kind_node (dop_kind opn))"
    and "newly_occupied (of_effects facts) = (case kind_claim (dop_kind opn) of Some p \<Rightarrow> {|p|} | None \<Rightarrow> {||})"
proof -
  show act: "operation_action (dop_kind opn) = Ok (of_action facts, of_effects facts)"
    using assms by (auto simp: operation_facts_def)
  have "of_node_id facts = action_node_id (of_action facts)"
    using assms by (auto simp: operation_facts_def)
  then show "of_node_id facts = Some (kind_node (dop_kind opn))"
    using operation_action_Ok(1) [OF act] by simp
  show "newly_occupied (of_effects facts) = (case kind_claim (dop_kind opn) of Some p \<Rightarrow> {|p|} | None \<Rightarrow> {||})"
    by (rule operation_action_Ok(2) [OF act])
qed

lemma common_node_facts:
  assumes "operation_facts l = Ok lf" "operation_facts r = Ok rf"
  shows "common_node lf rf = (if kind_node (dop_kind l) = kind_node (dop_kind r)
    then Some (kind_node (dop_kind l)) else None)"
  using operation_facts_Ok(2) [OF assms(1)] operation_facts_Ok(2) [OF assms(2)] by (simp add: common_node_def)

text \<open>The part of a node an action writes, as the operation it was read from does.\<close>

fun action_part :: "action \<Rightarrow> nat option" where
  "action_part (ARenamePath _ _ _) = Some 0"
| "action_part (AChangePerm _ _ _) = Some 1"
| "action_part (AEditText _ _ _ _ _ _ _ _) = Some 2"
| "action_part (AReplaceBinary _ _ _) = Some 2"
| "action_part _ = None"

definition kind_part :: "decoded_operation_kind \<Rightarrow> nat option" where
  "kind_part k = (if writes_path k then Some 0 else if writes_mode k then Some 1
     else if writes_content k then Some 2 else None)"

lemma action_part_kind: "operation_action k = Ok (a, eff) \<Longrightarrow> action_part a = kind_part k"
proof (cases k)
  case (DDeleteNode path n preimage)
  then show "operation_action k = Ok (a, eff) \<Longrightarrow> action_part a = kind_part k"
    by (cases preimage) (auto simp: operation_action_def kind_part_def)
qed (auto simp: operation_action_def kind_part_def)

lemma orthogonal_parts: "kind_part k = Some i \<Longrightarrow> kind_part l = Some j \<Longrightarrow> i \<noteq> j \<Longrightarrow> orthogonal k l"
  by (auto simp: kind_part_def orthogonal_def split: if_splits)

lemma verdicts_not_independent [simp]:
  "conflict kd l r n p \<noteq> Independent" "ordered ro kd l r n p \<noteq> Independent"
  "conflict_with_span kd l r m p sp \<noteq> Independent" "unknown_from_facts re l r n p \<noteq> Independent"
  "unknown re lo ro' n p \<noteq> Independent"
  by (simp_all add: conflict_def ordered_def conflict_with_span_def unknown_from_facts_def unknown_def)

lemma create_then_mutate_not_independent: "create_then_mutate sha256 pair evidence ro b m a \<noteq> Ok Independent"
  by (cases a) (auto simp: create_then_mutate_def classify_create_then_replace_binary_def
      classify_create_then_edit_text_def Let_def split: evidence.splits blob_kind.splits result.splits)

lemma invalid_preimage_not_independent:
  "invalid_preimage_class sha256 baseline evidence c p \<noteq> Ok (Some Independent)"
proof
  assume "invalid_preimage_class sha256 baseline evidence c p = Ok (Some Independent)"
  then obtain st where "(case st of PreValid \<Rightarrow> None
     | PreConflict kind node_id path \<Rightarrow> Some (conflict kind c p (or_else node_id (of_node_id c)) path)
     | PreUnknown reason node_id path \<Rightarrow>
         Some (unknown_from_facts reason c p (or_else node_id (of_node_id c)) path)) = Some Independent"
    by (auto simp: invalid_preimage_class_def)
  then show False
    by (cases st) auto
qed

lemma invalid_create_not_independent:
  "invalid_create_in_same_node_pair sha256 baseline c p \<noteq> Some (Ok Independent)"
  using invalid_preimage_not_independent [of sha256 baseline no_evidence c p]
  by (auto simp: invalid_create_in_same_node_pair_def split: action.splits result.splits option.splits)

lemma create_then_mutate_pair_not_independent:
  "classify_create_then_mutate sha256 baseline evidence l r n \<noteq> Some (Ok Independent)"
  using invalid_create_not_independent [of sha256 baseline l r] invalid_create_not_independent [of sha256 baseline r l]
  by (auto simp: classify_create_then_mutate_def or_else_def create_then_mutate_not_independent Let_def
      split: option.splits action.splits)

lemma mutate_then_delete_not_independent: "classify_mutate_then_delete baseline l r n \<noteq> Some Independent"
  by (cases "of_action l"; cases "of_action r")
    (simp_all add: classify_mutate_then_delete_def mutate_then_delete_def)

lemma classify_mutations_independent:
  assumes "classify_mutations sha256 baseline evidence l r n = Ok Independent"
  shows "\<exists>i j. action_part (of_action l) = Some i \<and> action_part (of_action r) = Some j \<and> i \<noteq> j"
  using assms
  by (cases "of_action l"; cases "of_action r") (simp_all add: classify_mutations_def Let_def split: if_splits)

lemma classify_same_node_independent:
  assumes "classify_same_node sha256 baseline evidence l r n = Ok Independent"
  shows "\<exists>i j. action_part (of_action l) = Some i \<and> action_part (of_action r) = Some j \<and> i \<noteq> j"
  using assms create_then_mutate_pair_not_independent [of sha256 baseline evidence l r n]
    mutate_then_delete_not_independent [of baseline l r n]
  by (auto simp: classify_same_node_def split: option.splits dest: classify_mutations_independent)

lemma path_relation_None:
  "classify_path_relation sha256 baseline l r = None \<Longrightarrow>
     disjoint_paths (newly_occupied (of_effects l)) (newly_occupied (of_effects r))"
  by (auto simp: classify_path_relation_def classify_same_path_create_def split: if_splits)

lemma independent_apart:
  assumes "classify_pair_with_text_resolver sha256 baseline evidence l r = Ok Independent"
  shows "apart (dop_kind l) (dop_kind r)"
proof -
  obtain lf rf where lf: "operation_facts l = Ok lf" and rf: "operation_facts r = Ok rf"
    and facts: "classify_facts sha256 baseline evidence l r lf rf = Ok Independent"
    using assms by (auto simp: classify_pair_with_text_resolver_def split: result.splits)
  have none: "deferred_reason (of_action lf) = None" "deferred_reason (of_action rf) = None"
    and paths: "classify_path_relation sha256 baseline lf rf \<noteq> None \<Longrightarrow>
      classify_path_relation sha256 baseline lf rf = Some Independent"
    using facts by (auto simp: classify_facts_def or_else_def Let_def split: option.splits if_splits)
  have path_not: "classify_path_relation sha256 baseline lf rf \<noteq> Some Independent"
    by (auto simp: classify_path_relation_def or_else_def classify_rename_destination_conflict_def
        classify_same_path_create_def create_after_delete_def Let_def split: action.splits option.splits if_splits)
  then have free: "classify_path_relation sha256 baseline lf rf = None"
    using paths by blast
  have claims: "\<forall>p. kind_claim (dop_kind l) = Some p \<longrightarrow> kind_claim (dop_kind r) \<noteq> Some p"
    using path_relation_None [OF free] operation_facts_Ok(3) [OF lf] operation_facts_Ok(3) [OF rf]
    by (auto simp: disjoint_paths_def)
  have "orthogonal (dop_kind l) (dop_kind r)" if same: "kind_node (dop_kind l) = kind_node (dop_kind r)"
  proof -
    have "classify_same_node sha256 baseline evidence lf rf (kind_node (dop_kind l)) = Ok Independent"
      using facts none free common_node_facts [OF lf rf] same by (simp add: classify_facts_def or_else_def)
    then obtain i j where "action_part (of_action lf) = Some i" "action_part (of_action rf) = Some j" "i \<noteq> j"
      using classify_same_node_independent by blast
    then show ?thesis
      using orthogonal_parts action_part_kind [OF operation_facts_Ok(1) [OF lf]]
        action_part_kind [OF operation_facts_Ok(1) [OF rf]] by simp
  qed
  with claims show ?thesis
    by (auto simp: apart_def)
qed

lemma commutes_independent:
  assumes "commute_pair sha256 baseline evidence scope l r = Ok (Commutes cp)"
  shows "classify_pair_with_text_resolver sha256 baseline evidence l r = Ok Independent"
    and "prove_pair_replay sha256 baseline evidence scope l r = Ok ()"
proof -
  obtain pc where pc: "classify_pair_with_text_resolver sha256 baseline evidence l r = Ok pc"
    using assms by (auto simp: commute_pair_def)
  then have "pc = Independent \<and> prove_pair_replay sha256 baseline evidence scope l r = Ok ()"
    using assms by (cases pc) (auto simp: commute_pair_def split: result.splits oracle_failure.splits)
  then show "classify_pair_with_text_resolver sha256 baseline evidence l r = Ok Independent"
    "prove_pair_replay sha256 baseline evidence scope l r = Ok ()"
    using pc by simp_all
qed

lemma check_pairs_None:
  assumes "check_pairs sha256 baseline evidence scope ps = Ok None" "((i, l), j, r) \<in> set ps"
  shows "\<exists>cp. commute_pair sha256 baseline evidence scope l r = Ok (Commutes cp)"
  using assms
proof (induction ps)
  case (Cons p ps)
  obtain i' l' j' r' where p: "p = ((i', l'), j', r')"
    by (metis prod.exhaust)
  obtain verdict where v: "commute_pair sha256 baseline evidence scope l' r' = Ok verdict"
    using Cons.prems(1) by (auto simp: p)
  then obtain cp where "verdict = Commutes cp" "check_pairs sha256 baseline evidence scope ps = Ok None"
    using Cons.prems(1) by (cases verdict) (auto simp: p)
  then show ?case
    using Cons v by (auto simp: p)
qed simp

lemma check_pairs_apart:
  assumes "check_pairs sha256 baseline evidence scope
      (List.product (enumerate 0 left) (enumerate 0 right)) = Ok None"
  shows "\<forall>k \<in> set (map dop_kind left). \<forall>l \<in> set (map dop_kind right). apart k l"
proof -
  have "apart (dop_kind l) (dop_kind r)" if l: "l \<in> set left" and r: "r \<in> set right" for l r
  proof -
    have index: "\<exists>i. (i, x) \<in> set (enumerate 0 xs)" if "x \<in> set xs" for x :: decoded_patch_operation and xs
      using that unfolding in_set_conv_nth [of x] by (auto simp: in_set_enumerate_eq)
    obtain i j where "(i, l) \<in> set (enumerate 0 left)" "(j, r) \<in> set (enumerate 0 right)"
      using index [OF l] index [OF r] by blast
    then have "((i, l), j, r) \<in> set (List.product (enumerate 0 left) (enumerate 0 right))"
      by simp
    then show ?thesis
      using check_pairs_None [OF assms] commutes_independent(1) independent_apart by blast
  qed
  then show ?thesis
    by auto
qed

section \<open>Joining two sides\<close>

lemma replay_append:
  assumes "\<forall>x \<in> set xs. \<forall>y \<in> set ys. \<not> same_rename_batch x y"
  shows "replay_loop sha256 baseline evidence scope (xs @ ys) orc =
    rbind (replay_loop sha256 baseline evidence scope xs orc) (replay_loop sha256 baseline evidence scope ys)"
  using assms
proof (induction sha256 baseline evidence scope xs orc rule: replay_loop.induct)
  case (2 sha256 baseline evidence scope opn rest orc)
  let ?same = "same_rename_batch opn"
  have ys: "takeWhile ?same ys = []" "dropWhile ?same ys = ys"
    using 2(3) by (cases ys; simp)+
  have split: "takeWhile ?same (rest @ ys) = takeWhile ?same rest
      \<and> dropWhile ?same (rest @ ys) = dropWhile ?same rest @ ys"
  proof (cases "\<forall>x \<in> set rest. ?same x")
    case True
    then show ?thesis
      using ys takeWhile_eq_all_conv [of ?same rest] dropWhile_eq_Nil_conv [of ?same rest]
      by (metis append_Nil append_Nil2 dropWhile_append2 takeWhile_append2)
  next
    case False
    then show ?thesis
      by (metis takeWhile_append1 dropWhile_append1)
  qed
  have rest: "\<forall>x \<in> set (dropWhile ?same rest). \<forall>y \<in> set ys. \<not> same_rename_batch x y"
    using 2(3) by (auto dest: set_dropWhileD)
  show ?case
  proof (cases "renames opn")
    case True
    show ?thesis
      using 2(1) [OF True] rest True
      by (auto simp: split rbind_assoc simp del: rmap.simps intro!: rbind_cong)
  next
    case False
    show ?thesis
      using 2(2) [OF False] 2(3) False by (auto simp: rbind_assoc intro!: rbind_cong)
  qed
qed simp

end
