(* ===== verification/Algebra_Props.thy ===== *)
theory Algebra_Props
  imports Algebra_Confluence
begin

text \<open>
  The verdicts of the patch algebra: independent operations commute, two sides whose pairs commute
  join, and a confluence verdict is the equality of the two composed replays.
\<close>

section \<open>Joining\<close>

lemma start_oracle_lifecycle [simp]: "os_lifecycle (start_oracle baseline) = baseline"
  by (simp add: start_oracle_def)

lemma sides_join:
  assumes wf: "wf_lifecycle baseline"
    and left: "replay_operations sha256 baseline evidence scope left = Ok a"
    and right: "replay_operations sha256 baseline evidence scope right = Ok b"
    and apart: "\<forall>k \<in> set (map dop_kind left). \<forall>l \<in> set (map dop_kind right). apart k l"
    and batches: "\<forall>x \<in> set left. \<forall>y \<in> set right. \<not> same_rename_batch x y \<and> \<not> same_rename_batch y x"
  shows "\<exists>c. replay_operations sha256 baseline evidence scope (left @ right) = Ok c
    \<and> replay_operations sha256 baseline evidence scope (right @ left) = Ok c
    \<and> effects sha256 baseline evidence scope (map dop_kind right) (oracle_view a) = Some (oracle_view c)
    \<and> effects sha256 baseline evidence scope (map dop_kind left) (oracle_view b) = Some (oracle_view c)"
proof -
  let ?start = "start_oracle baseline"
  note L = left [unfolded replay_operations_def] and R = right [unfolded replay_operations_def]
  have a: "wf_lifecycle (os_lifecycle a)"
      "effects sha256 baseline evidence scope (map dop_kind left) (oracle_view ?start) = Some (oracle_view a)"
    and b: "wf_lifecycle (os_lifecycle b)"
      "effects sha256 baseline evidence scope (map dop_kind right) (oracle_view ?start) = Some (oracle_view b)"
    using replay_sound [OF L] replay_sound [OF R] wf by simp_all
  obtain c where c: "replay_loop sha256 baseline evidence scope right a = Ok c"
      "effects sha256 baseline evidence scope (map dop_kind left) (oracle_view b) = Some (oracle_view c)"
    using replay_transfer [OF R _ a(1) a(2)] wf apart by auto
  obtain d where d: "replay_loop sha256 baseline evidence scope left b = Ok d"
    using replay_transfer [OF L _ b(1) b(2)] wf apart apart_sym by (metis image_eqI list.set_map start_oracle_lifecycle)
  have "oracle_view d = oracle_view c" "wf_lifecycle (os_lifecycle d)" "wf_lifecycle (os_lifecycle c)"
    using replay_sound [OF d b(1)] replay_sound [OF c(1) a(1)] c(2) by simp_all
  then have "d = c"
    using view_inj by blast
  moreover have "effects sha256 baseline evidence scope (map dop_kind right) (oracle_view a) = Some (oracle_view c)"
    using replay_sound [OF c(1) a(1)] by simp
  ultimately show ?thesis
    using L R c d batches by (auto simp: replay_operations_def replay_append)
qed

lemma renames_part: "renames opn \<longleftrightarrow> writes_path (dop_kind opn)"
  by (cases "dop_kind opn") (auto simp: renames_def)

lemma single_rename:
  assumes wf: "wf_lifecycle baseline" and rn: "renames l"
    and ok: "replay_operations sha256 baseline evidence scope [l] = Ok a"
  obtains entry where "renaming (dop_kind l) entry"
    and "claim_free (oracle_view (start_oracle baseline)) {kind_node (dop_kind l)} (dop_kind l)"
proof -
  obtain entry where e: "oracle_rename_triple scope (dop_kind l) = Ok entry"
    and step: "oracle_effect (rename_nodes_checked_batch [entry] baseline) (start_oracle baseline) = Ok a"
    using ok rn by (auto simp: replay_operations_def)
  have ks: "list_all2 renaming [dop_kind l] [entry]"
    using e by (simp add: oracle_rename_triple_Ok)
  show thesis
    using that [of entry] batch_step(3) [OF _ ks, of "start_oracle baseline" a] wf step ks by simp
qed

text \<open>Two renames of one declared patch replay as one batch.\<close>

lemma batch_pair:
  assumes wf: "wf_lifecycle baseline" and same: "same_rename_batch l r" and apart: "apart (dop_kind l) (dop_kind r)"
    and l: "replay_operations sha256 baseline evidence scope [l] = Ok a"
    and r: "replay_operations sha256 baseline evidence scope [r] = Ok b"
  shows "\<exists>c. replay_operations sha256 baseline evidence scope [l, r] = Ok c
    \<and> wf_lifecycle (os_lifecycle c)
    \<and> effects sha256 baseline evidence scope [dop_kind l, dop_kind r] (oracle_view (start_oracle baseline))
        = Some (oracle_view c)"
proof -
  let ?start = "start_oracle baseline"
  have rn: "renames l" "renames r"
    using same by (auto simp: same_rename_batch_def)
  obtain el where el: "renaming (dop_kind l) el" "claim_free (oracle_view ?start) {kind_node (dop_kind l)} (dop_kind l)"
    using single_rename [OF wf rn(1) l] by blast
  obtain er where er: "renaming (dop_kind r) er" "claim_free (oracle_view ?start) {kind_node (dop_kind r)} (dop_kind r)"
    using single_rename [OF wf rn(2) r] by blast
  have ks: "list_all2 renaming [dop_kind l, dop_kind r] [el, er]"
    using el er by simp
  have "\<not> orthogonal (dop_kind l) (dop_kind r)"
    using rn by (cases "dop_kind l"; cases "dop_kind r") (auto simp: renames_part orthogonal_def)
  then have dist: "distinct (map fst [el, er])" "distinct (map (snd \<circ> snd) [el, er])"
    using apart el(1) er(1) by (auto simp: apart_def renaming_def)
  have single: "effects sha256 baseline evidence scope [dop_kind l] (oracle_view ?start) = Some (oracle_view a)"
    "effects sha256 baseline evidence scope [dop_kind r] (oracle_view ?start) = Some (oracle_view b)"
    using replay_sound [OF l [unfolded replay_operations_def]] replay_sound [OF r [unfolded replay_operations_def]] wf
    by simp_all
  obtain W where "effects sha256 baseline evidence scope [dop_kind r] (oracle_view a) = Some W"
    using step_diamond [OF apart single] by blast
  then have eff: "effects sha256 baseline evidence scope [dop_kind l, dop_kind r] (oracle_view ?start) \<noteq> None"
    unfolding effects_Cons [of _ _ _ _ "dop_kind l" "[dop_kind r]"] single by (simp del: effects.simps)
  have "claim_free (oracle_view ?start) {kind_node (dop_kind l), kind_node (dop_kind r)} k"
    if "k = dop_kind l \<or> k = dop_kind r" for k
    using that el(2) er(2) by (auto simp: claim_free_def occupied_outside_def)
  then obtain c where c: "oracle_effect (rename_nodes_checked_batch [el, er] baseline) ?start = Ok c"
    using batch_realized [OF _ ks dist eff] wf by auto
  have "oracle_rename_triple scope (dop_kind l) = Ok el" "oracle_rename_triple scope (dop_kind r) = Ok er"
    using el(1) er(1) by (simp_all add: oracle_rename_triple_Ok)
  then have "replay_operations sha256 baseline evidence scope [l, r] = Ok c"
    using c rn same by (simp add: replay_operations_def)
  then show ?thesis
    using replay_sound [of sha256 baseline evidence scope "[l, r]" ?start c] wf
    by (auto simp: replay_operations_def)
qed

lemma independent_facts:
  assumes "classify_pair_with_text_resolver sha256 baseline evidence l r = Ok Independent"
  shows "\<exists>lf. operation_facts l = Ok lf" "\<exists>rf. operation_facts r = Ok rf"
  using assms by (auto simp: classify_pair_with_text_resolver_def split: result.splits)

lemma same_rename_batch_sym: "same_rename_batch l r \<Longrightarrow> same_rename_batch r l"
  by (metis same_rename_batch_def)

section \<open>A sample pair\<close>

text \<open>One text file at \<open>a\<close>; one side renames it to \<open>b\<close>, the other makes it executable.\<close>

definition pair_evidence :: patch_algebra_evidence where
  "pair_evidence = no_evidence\<lparr> ev_blob_kind := \<lambda>_ _. Known BlobText \<rparr>"

definition pair_file :: live_node where
  "pair_file = \<lparr> ln_path = RepoPath [97], ln_kind = TextFile,
     ln_content = FileContent (ObjectId (replicate 32 1)) 420 \<rparr>"

definition pair_base :: lifecycle_state where
  "pair_base = snd (create_node (NodeId (replicate 32 1)) pair_file new_lifecycle)"

definition pair_rename :: decoded_patch_operation where
  "pair_rename = \<lparr> dop_seq = 1, dop_kind = DRenamePath (NodeId (replicate 32 1)) [97] [98], dop_patch_id = None \<rparr>"

definition pair_chmod :: decoded_patch_operation where
  "pair_chmod = \<lparr> dop_seq = 1, dop_kind = DChangePerm (NodeId (replicate 32 1)) 420 493, dop_patch_id = None \<rparr>"

definition no_digest :: "bytes \<Rightarrow> bytes" where
  "no_digest _ = []"

definition replays :: "decoded_patch_operation list \<Rightarrow> bool" where
  "replays ops = (case replay_operations no_digest pair_base pair_evidence UnsealedCandidateOptional ops of
     Ok _ \<Rightarrow> True | Err _ \<Rightarrow> False)"

lemma pair_wf: "wf_lifecycle pair_base"
proof -
  have "fst (create_node (NodeId (replicate 32 1)) pair_file new_lifecycle) = Ok ()"
    by code_simp
  then have "exec_op (CreateOp (NodeId (replicate 32 1)) pair_file) new_lifecycle = (Ok (), pair_base)"
    by (simp add: pair_base_def prod_eq_iff)
  then show ?thesis
    using exec_op_Ok_iff [OF wf_new_lifecycle] by blast
qed

lemma pair_independent:
  "classify_pair_with_text_resolver no_digest pair_base pair_evidence pair_rename pair_chmod = Ok Independent"
  by code_simp

lemma pair_replays:
  obtains a b where
    "replay_operations no_digest pair_base pair_evidence UnsealedCandidateOptional [pair_rename] = Ok a"
    "replay_operations no_digest pair_base pair_evidence UnsealedCandidateOptional [pair_chmod] = Ok b"
proof -
  have "replays [pair_rename]" "replays [pair_chmod]"
    by code_simp+
  then show thesis
    using that by (auto simp: replays_def split: result.splits)
qed

section \<open>Pairs\<close>

lemma independent_commute:
  assumes "wf_lifecycle baseline"
    and "classify_pair_with_text_resolver sha256 baseline evidence left right = Ok Independent"
    and "replay_operations sha256 baseline evidence scope [left] = Ok a"
    and "replay_operations sha256 baseline evidence scope [right] = Ok b"
  shows "commute_pair sha256 baseline evidence scope left right =
    Ok (Commutes \<lparr> cp_left_op_seq = dop_seq left, cp_right_op_seq = dop_seq right \<rparr>)"
proof -
  note apart = independent_apart [OF assms(2)]
  have "\<exists>c. replay_operations sha256 baseline evidence scope [left, right] = Ok c
    \<and> replay_operations sha256 baseline evidence scope [right, left] = Ok c"
  proof (cases "same_rename_batch left right")
    case True
    obtain c where c: "replay_operations sha256 baseline evidence scope [left, right] = Ok c"
      "wf_lifecycle (os_lifecycle c)" "effects sha256 baseline evidence scope [dop_kind left, dop_kind right]
         (oracle_view (start_oracle baseline)) = Some (oracle_view c)"
      using batch_pair [OF assms(1) True apart assms(3,4)] by blast
    obtain d where d: "replay_operations sha256 baseline evidence scope [right, left] = Ok d"
      "wf_lifecycle (os_lifecycle d)" "effects sha256 baseline evidence scope [dop_kind right, dop_kind left]
         (oracle_view (start_oracle baseline)) = Some (oracle_view d)"
      using batch_pair [OF assms(1) same_rename_batch_sym [OF True] apart_sym [OF apart] assms(4,3)] by blast
    have "oracle_view c = oracle_view d"
      using effects_swap [OF apart c(3) d(3)] .
    then show ?thesis
      using c d view_inj by metis
  next
    case False
    then show ?thesis
      using sides_join [OF assms(1,3,4)] apart same_rename_batch_sym by auto
  qed
  then have "prove_pair_replay sha256 baseline evidence scope left right = Ok ()"
    by (auto simp: prove_pair_replay_def)
  then show ?thesis
    using assms(2) independent_facts [OF assms(2)]
    by (auto simp: commute_pair_def validate_operation_provenance_def)
qed


text \<open>C4 (functional): two operations that the classification calls independent and that each replay over
  the baseline are found to commute: both orders replay, and to the same state.\<close>

theorem independent_pairs_commute:
  assumes "wf_lifecycle baseline"
    and "classify_pair_with_text_resolver sha256 baseline evidence left right = Ok Independent"
    and "replay_operations sha256 baseline evidence scope [left] = Ok a"
    and "replay_operations sha256 baseline evidence scope [right] = Ok b"
  shows "commute_pair sha256 baseline evidence scope left right =
    Ok (Commutes \<lparr> cp_left_op_seq = dop_seq left, cp_right_op_seq = dop_seq right \<rparr>)"
  using assms by (rule independent_commute)

theorem independent_pairs_commute_witness:
  "commute_pair no_digest pair_base pair_evidence UnsealedCandidateOptional pair_rename pair_chmod =
     Ok (Commutes \<lparr> cp_left_op_seq = 1, cp_right_op_seq = 1 \<rparr>)"
proof -
  obtain a b where
    "replay_operations no_digest pair_base pair_evidence UnsealedCandidateOptional [pair_rename] = Ok a"
    "replay_operations no_digest pair_base pair_evidence UnsealedCandidateOptional [pair_chmod] = Ok b"
    by (rule pair_replays)
  from independent_pairs_commute [OF pair_wf pair_independent this]
  show ?thesis
    by (simp add: pair_rename_def pair_chmod_def)
qed

section \<open>Confluence\<close>

definition final_inequality :: "confluence_result \<Rightarrow> bool" where
  "final_inequality verdict = (case verdict of
     NotConfluent w \<Rightarrow> cfw_kind w = CwFinalStateInequality | _ \<Rightarrow> False)"

definition only_replay_failures :: "flat_sequence_check \<Rightarrow> bool" where
  "only_replay_failures check \<longleftrightarrow>
     (\<forall>verdict. fs_hard check = Some verdict \<or> fs_deferred check = Some verdict \<longrightarrow>
        \<not> final_inequality verdict \<and> (\<forall>p. verdict \<noteq> Confluent p))"

lemma get_or_insert_Some: "get_or_insert x slot = Some y \<Longrightarrow> y = x \<or> slot = Some y"
  by (auto simp: get_or_insert_def split: option.splits)

lemma flat_step_failures:
  assumes "flat_step sha256 baseline evidence scope ops is_right entry check = Ok check'"
    "only_replay_failures check"
  shows "only_replay_failures check'"
proof -
  obtain i opn where entry: "entry = (i, opn)"
    by (cases entry)
  let ?deferred = "case operation_facts opn of Ok facts \<Rightarrow> deferred_reason (of_action facts) | Err _ \<Rightarrow> None"
  show ?thesis
  proof (cases ?deferred)
    case (Some reason)
    then show ?thesis
      using assms by (auto simp: flat_step_def entry only_replay_failures_def final_inequality_def
          dest!: get_or_insert_Some)
  next
    case None
    then show ?thesis
      using assms
      by (auto simp: flat_step_def entry only_replay_failures_def final_inequality_def
          split: result.splits oracle_failure.splits if_splits dest!: get_or_insert_Some)
  qed
qed

lemma flat_sequence_failures:
  assumes "ensure_flat_sequence sha256 baseline evidence scope ops is_right = Ok check"
  shows "only_replay_failures check"
proof -
  have "only_replay_failures check'" if "rfold (flat_step sha256 baseline evidence scope ops is_right) es start = Ok check'"
    "only_replay_failures start" for es start check'
    using that by (induction es arbitrary: start) (auto dest: flat_step_failures)
  moreover have "only_replay_failures \<lparr> fs_hard = None, fs_deferred = None \<rparr>"
    by (simp add: only_replay_failures_def)
  ultimately show ?thesis
    using assms unfolding ensure_flat_sequence_def by blast
qed

lemma check_pairs_verdict:
  "check_pairs sha256 baseline evidence scope ps = Ok (Some verdict) \<Longrightarrow>
     \<not> final_inequality verdict \<and> (\<forall>p. verdict \<noteq> Confluent p)"
proof (induction ps)
  case (Cons p ps)
  obtain i l j r where p: "p = ((i, l), j, r)"
    by (metis prod.exhaust)
  obtain found where "commute_pair sha256 baseline evidence scope l r = Ok found"
    using Cons.prems by (auto simp: p)
  then show ?case
    using Cons by (cases found)
      (auto simp: p final_inequality_def confluence_pair_witness_def split: pair_class.splits)
qed simp

lemma or_else_Some: "or_else a b = Some x \<longleftrightarrow> a = Some x \<or> a = None \<and> b = Some x"
  by (auto simp: or_else_def split: option.splits)

lemma composed_replays_equal:
  assumes wf: "wf_lifecycle baseline"
    and pairs: "check_pairs sha256 baseline evidence scope
      (List.product (enumerate 0 left) (enumerate 0 right)) = Ok None"
    and lr: "replay_operations sha256 baseline evidence scope (left @ right) = Ok a"
    and rl: "replay_operations sha256 baseline evidence scope (right @ left) = Ok b"
  shows "a = b"
proof -
  have "wf_lifecycle (os_lifecycle a)" "wf_lifecycle (os_lifecycle b)"
    "effects sha256 baseline evidence scope (map dop_kind left @ map dop_kind right)
       (oracle_view (start_oracle baseline)) = Some (oracle_view a)"
    "effects sha256 baseline evidence scope (map dop_kind right @ map dop_kind left)
       (oracle_view (start_oracle baseline)) = Some (oracle_view b)"
    using replay_sound [OF lr [unfolded replay_operations_def]]
      replay_sound [OF rl [unfolded replay_operations_def]] wf by simp_all
  then show ?thesis
    using effects_exchange [OF check_pairs_apart [OF pairs]] view_inj by blast
qed

text \<open>The nodes a sequence names.\<close>

definition touches :: "decoded_patch_operation list \<Rightarrow> node_id \<Rightarrow> bool" where
  "touches ops n \<longleftrightarrow> (\<exists>opn \<in> set ops. kind_node (dop_kind opn) = n)"

definition same_node :: "oracle_state \<Rightarrow> oracle_state \<Rightarrow> node_id \<Rightarrow> bool" where
  "same_node a b n \<longleftrightarrow> live_node_at (os_lifecycle a) n = live_node_at (os_lifecycle b) n
     \<and> latest_tombstone (os_lifecycle a) n = latest_tombstone (os_lifecycle b) n
     \<and> oracle_text a n = oracle_text b n"

lemma same_node_view:
  assumes "wf_lifecycle (os_lifecycle a)" "wf_lifecycle (os_lifecycle b)" "oracle_view a n = oracle_view b n"
  shows "same_node a b n"
proof -
  have st: "status (os_lifecycle a) n = status (os_lifecycle b) n"
    and t: "fmlookup (os_texts a) n = fmlookup (os_texts b) n"
    using assms(3) by (auto simp: oracle_view_def)
  have "fmlookup (live_by_id (os_lifecycle a)) n = fmlookup (live_by_id (os_lifecycle b)) n"
    by (metis st option.exhaust status_Live)
  moreover have "fmlookup (latest_tombstone_by_id (os_lifecycle a)) n = fmlookup (latest_tombstone_by_id (os_lifecycle b)) n"
    by (metis st option.exhaust wf_tombstone_iff assms(1,2))
  ultimately show ?thesis
    using t by (simp add: same_node_def live_node_at_def latest_tombstone_def oracle_text_def)
qed

lemma composed_keeps_first:
  assumes wf: "wf_lifecycle baseline"
    and both: "replay_operations sha256 baseline evidence scope (first @ second) = Ok c"
    and one: "replay_operations sha256 baseline evidence scope first = Ok a" and n: "\<not> touches second n"
  shows "same_node c a n"
proof -
  have c: "wf_lifecycle (os_lifecycle c)" "effects sha256 baseline evidence scope
      (map dop_kind first @ map dop_kind second) (oracle_view (start_oracle baseline)) = Some (oracle_view c)"
    and a: "wf_lifecycle (os_lifecycle a)" "effects sha256 baseline evidence scope (map dop_kind first)
      (oracle_view (start_oracle baseline)) = Some (oracle_view a)"
    using replay_sound [OF both [unfolded replay_operations_def]]
      replay_sound [OF one [unfolded replay_operations_def]] wf by simp_all
  have "effects sha256 baseline evidence scope (map dop_kind second) (oracle_view a) = Some (oracle_view c)"
    using c(2) a(2) by (auto simp: effects_append)
  then have "oracle_view c n = oracle_view a n"
    using effects_untouched n by (force simp: touches_def)
  then show ?thesis
    using same_node_view c(1) a(1) by blast
qed

text \<open>A verdict comes early, from an operation or a pair, or from the two composed replays.\<close>

lemma check_confluence_cases:
  assumes "check_confluence sha256 baseline evidence scope left right = Ok verdict"
  obtains (early) "\<not> final_inequality verdict" "\<forall>p. verdict \<noteq> Confluent p"
    | (composed) x y where
        "check_pairs sha256 baseline evidence scope (List.product (enumerate 0 left) (enumerate 0 right)) = Ok None"
        "replay_operations sha256 baseline evidence scope (left @ right) = Ok x"
        "replay_operations sha256 baseline evidence scope (right @ left) = Ok y"
        "verdict = (if x = y then Confluent \<lparr> cf_left_len = length left, cf_right_len = length right \<rparr>
           else NotConfluent \<lparr> cfw_kind = CwFinalStateInequality, cfw_left_index = None,
              cfw_right_index = None, cfw_pair_class = None \<rparr>)"
proof -
  obtain lc rc where lc: "only_replay_failures lc" and rc: "only_replay_failures rc"
    and rest: "(case or_else (fs_hard lc) (fs_hard rc) of
       Some verdict \<Rightarrow> Ok verdict
     | None \<Rightarrow>
         rbind (check_pairs sha256 baseline evidence scope
                  (List.product (enumerate 0 left) (enumerate 0 right))) (\<lambda>found.
         case or_else found (or_else (fs_deferred lc) (fs_deferred rc)) of
           Some verdict \<Rightarrow> Ok verdict
         | None \<Rightarrow>
             rbind (replay_sequence_order sha256 baseline evidence scope left right) (\<lambda>x.
             rbind (replay_sequence_order sha256 baseline evidence scope right left) (\<lambda>y.
             if x = y then Ok (Confluent \<lparr> cf_left_len = length left, cf_right_len = length right \<rparr>)
             else Ok (NotConfluent \<lparr> cfw_kind = CwFinalStateInequality, cfw_left_index = None,
                    cfw_right_index = None, cfw_pair_class = None \<rparr>))))) = Ok verdict"
    using assms unfolding check_confluence_def rbind_eq_Ok by (blast dest: flat_sequence_failures)
  show ?thesis
  proof (cases "or_else (fs_hard lc) (fs_hard rc)")
    case (Some v)
    then have "v = verdict"
      using rest by simp
    then show ?thesis
      using Some lc rc by (intro early) (auto simp: or_else_Some only_replay_failures_def)
  next
    case None
    obtain found where found: "check_pairs sha256 baseline evidence scope
        (List.product (enumerate 0 left) (enumerate 0 right)) = Ok found"
      using rest None by auto
    show ?thesis
    proof (cases "or_else found (or_else (fs_deferred lc) (fs_deferred rc))")
      case (Some v)
      then have "v = verdict"
        using rest None found by simp
      then show ?thesis
        using Some found lc rc
        by (intro early) (auto simp: or_else_Some only_replay_failures_def dest: check_pairs_verdict)
    next
      case all: None
      then obtain x y where "replay_operations sha256 baseline evidence scope (left @ right) = Ok x"
        "replay_operations sha256 baseline evidence scope (right @ left) = Ok y"
        "verdict = (if x = y then Confluent \<lparr> cf_left_len = length left, cf_right_len = length right \<rparr>
           else NotConfluent \<lparr> cfw_kind = CwFinalStateInequality, cfw_left_index = None,
              cfw_right_index = None, cfw_pair_class = None \<rparr>)"
        using rest None found by (auto simp: replay_sequence_order_def or_else_def split: if_splits)
      then show ?thesis
        using all found by (intro composed) simp_all
    qed
  qed
qed

text \<open>C2 (safety): a confluence verdict can be relied on. When two sides are found confluent, they replay to one
  state in both orders, and every node that only one side touches is in that state as that side alone
  leaves it. When they are found not confluent, the reason is a pair or an operation: the comparison of
  the two final states never decides.\<close>

theorem confluence_verdict:
  assumes "wf_lifecycle baseline"
    and "check_confluence sha256 baseline evidence scope left right = Ok verdict"
  shows "case verdict of
      Confluent proved \<Rightarrow> proved = \<lparr> cf_left_len = length left, cf_right_len = length right \<rparr>
        \<and> (\<exists>c. replay_operations sha256 baseline evidence scope (left @ right) = Ok c
          \<and> replay_operations sha256 baseline evidence scope (right @ left) = Ok c
          \<and> (\<forall>a n. replay_operations sha256 baseline evidence scope left = Ok a \<and> \<not> touches right n
               \<longrightarrow> same_node c a n)
          \<and> (\<forall>b n. replay_operations sha256 baseline evidence scope right = Ok b \<and> \<not> touches left n
               \<longrightarrow> same_node c b n))
    | NotConfluent found \<Rightarrow> cfw_kind found \<noteq> CwFinalStateInequality
    | UnknownConfluence reason \<Rightarrow> True"
  using assms(2)
proof (cases rule: check_confluence_cases)
  case early
  then show ?thesis
    by (cases verdict) (auto simp: final_inequality_def)
next
  case (composed x y)
  have "x = y"
    using composed_replays_equal [OF assms(1) _ composed(2,3)] composed(1) by simp
  then show ?thesis
    using composed composed_keeps_first [OF assms(1) composed(2)] composed_keeps_first [OF assms(1) composed(3)]
    by auto
qed

lemma in_set_enumerate_snd: "(i, x) \<in> set (enumerate k xs) \<Longrightarrow> x \<in> set xs"
  by (auto simp: in_set_enumerate_eq)

lemma commuting_confluent:
  assumes "wf_lifecycle baseline"
    and "ensure_flat_sequence sha256 baseline evidence scope left False = Ok \<lparr> fs_hard = None, fs_deferred = None \<rparr>"
    and "ensure_flat_sequence sha256 baseline evidence scope right True = Ok \<lparr> fs_hard = None, fs_deferred = None \<rparr>"
    and "\<forall>l \<in> set left. \<forall>r \<in> set right. \<exists>proved.
      commute_pair sha256 baseline evidence scope l r = Ok (Commutes proved)"
    and "replay_operations sha256 baseline evidence scope left = Ok a"
    and "replay_operations sha256 baseline evidence scope right = Ok b"
    and "\<forall>l \<in> set left. \<forall>r \<in> set right. dop_patch_id l = None \<or> dop_patch_id l \<noteq> dop_patch_id r"
  shows "check_confluence sha256 baseline evidence scope left right =
    Ok (Confluent \<lparr> cf_left_len = length left, cf_right_len = length right \<rparr>)"
proof -
  have "check_pairs sha256 baseline evidence scope ps = Ok None"
    if "\<forall>((i, l), j, r) \<in> set ps. \<exists>proved. commute_pair sha256 baseline evidence scope l r = Ok (Commutes proved)"
    for ps
    using that by (induction ps) auto
  moreover have "\<forall>((i, l), j, r) \<in> set (List.product (enumerate 0 left) (enumerate 0 right)).
      \<exists>proved. commute_pair sha256 baseline evidence scope l r = Ok (Commutes proved)"
    using assms(4) by (auto dest!: in_set_enumerate_snd)
  ultimately have pairs: "check_pairs sha256 baseline evidence scope
      (List.product (enumerate 0 left) (enumerate 0 right)) = Ok None"
    by blast
  have "\<forall>l \<in> set left. \<forall>r \<in> set right. \<not> same_rename_batch l r \<and> \<not> same_rename_batch r l"
    using assms(7) by (metis same_rename_batch_def)
  then obtain c where "replay_operations sha256 baseline evidence scope (left @ right) = Ok c"
    "replay_operations sha256 baseline evidence scope (right @ left) = Ok c"
    using sides_join [OF assms(1,5,6) check_pairs_apart [OF pairs]] by blast
  then show ?thesis
    using assms(2,3) pairs by (simp add: check_confluence_def replay_sequence_order_def or_else_def)
qed


lemma replay_unit_single: "replay_unit [opn] 0 = [opn]"
  by (simp add: replay_unit_def)

lemma flat_single:
  assumes "operation_facts opn = Ok facts" "deferred_reason (of_action facts) = None"
    and "replay_operations sha256 baseline evidence scope [opn] = Ok a"
  shows "ensure_flat_sequence sha256 baseline evidence scope [opn] is_right = Ok \<lparr> fs_hard = None, fs_deferred = None \<rparr>"
  using assms by (simp add: ensure_flat_sequence_def flat_step_def validate_operation_provenance_def replay_unit_single)

lemma pair_flat:
  "ensure_flat_sequence no_digest pair_base pair_evidence UnsealedCandidateOptional [pair_rename] False =
     Ok \<lparr> fs_hard = None, fs_deferred = None \<rparr>"
  "ensure_flat_sequence no_digest pair_base pair_evidence UnsealedCandidateOptional [pair_chmod] True =
     Ok \<lparr> fs_hard = None, fs_deferred = None \<rparr>"
proof -
  obtain a b where
    a: "replay_operations no_digest pair_base pair_evidence UnsealedCandidateOptional [pair_rename] = Ok a"
    and b: "replay_operations no_digest pair_base pair_evidence UnsealedCandidateOptional [pair_chmod] = Ok b"
    by (rule pair_replays)
  obtain fa fb where "operation_facts pair_rename = Ok fa" "operation_facts pair_chmod = Ok fb"
    using independent_facts [OF pair_independent] by blast
  moreover from this have "deferred_reason (of_action fa) = None" "deferred_reason (of_action fb) = None"
    by (auto simp: operation_facts_def operation_action_def pair_rename_def pair_chmod_def)
  ultimately show
    "ensure_flat_sequence no_digest pair_base pair_evidence UnsealedCandidateOptional [pair_rename] False =
       Ok \<lparr> fs_hard = None, fs_deferred = None \<rparr>"
    "ensure_flat_sequence no_digest pair_base pair_evidence UnsealedCandidateOptional [pair_chmod] True =
       Ok \<lparr> fs_hard = None, fs_deferred = None \<rparr>"
    using flat_single a b by blast+
qed

text \<open>C12 (liveness): two sides that pass the flat check, that each replay on their own, that come from
  different patches and whose pairs all commute are found confluent: composing them cannot fail.\<close>

theorem commuting_sides_confluent:
  assumes "wf_lifecycle baseline"
    and "ensure_flat_sequence sha256 baseline evidence scope left False = Ok \<lparr> fs_hard = None, fs_deferred = None \<rparr>"
    and "ensure_flat_sequence sha256 baseline evidence scope right True = Ok \<lparr> fs_hard = None, fs_deferred = None \<rparr>"
    and "\<forall>l \<in> set left. \<forall>r \<in> set right. \<exists>proved.
      commute_pair sha256 baseline evidence scope l r = Ok (Commutes proved)"
    and "replay_operations sha256 baseline evidence scope left = Ok a"
    and "replay_operations sha256 baseline evidence scope right = Ok b"
    and "\<forall>l \<in> set left. \<forall>r \<in> set right. dop_patch_id l = None \<or> dop_patch_id l \<noteq> dop_patch_id r"
  shows "check_confluence sha256 baseline evidence scope left right =
    Ok (Confluent \<lparr> cf_left_len = length left, cf_right_len = length right \<rparr>)"
  using assms by (rule commuting_confluent)

theorem commuting_sides_confluent_witness:
  "check_confluence no_digest pair_base pair_evidence UnsealedCandidateOptional [pair_rename] [pair_chmod] =
     Ok (Confluent \<lparr> cf_left_len = 1, cf_right_len = 1 \<rparr>)"
proof -
  obtain a b where
    ab: "replay_operations no_digest pair_base pair_evidence UnsealedCandidateOptional [pair_rename] = Ok a"
    "replay_operations no_digest pair_base pair_evidence UnsealedCandidateOptional [pair_chmod] = Ok b"
    by (rule pair_replays)
  then show ?thesis
    using commuting_sides_confluent [OF pair_wf pair_flat _ ab] independent_commute [OF pair_wf pair_independent ab]
    by (simp add: pair_rename_def)
qed

theorem confluence_verdict_witness:
  "\<exists>c. replay_operations no_digest pair_base pair_evidence UnsealedCandidateOptional [pair_rename, pair_chmod] = Ok c
     \<and> replay_operations no_digest pair_base pair_evidence UnsealedCandidateOptional [pair_chmod, pair_rename] = Ok c"
proof -
  obtain a b where
    ab: "replay_operations no_digest pair_base pair_evidence UnsealedCandidateOptional [pair_rename] = Ok a"
    "replay_operations no_digest pair_base pair_evidence UnsealedCandidateOptional [pair_chmod] = Ok b"
    by (rule pair_replays)
  have "check_confluence no_digest pair_base pair_evidence UnsealedCandidateOptional [pair_rename] [pair_chmod] =
      Ok (Confluent \<lparr> cf_left_len = 1, cf_right_len = 1 \<rparr>)"
    using commuting_confluent [OF pair_wf pair_flat _ ab] independent_commute [OF pair_wf pair_independent ab]
    by (simp add: pair_rename_def)
  from confluence_verdict [OF pair_wf this] show ?thesis
    by auto
qed

end
