(* ===== verification/Algebra_Fold.thy ===== *)
theory Algebra_Fold
  imports Algebra_Effects
begin

text \<open>
  Folding one side to its net effect (\<open>patch_algebra/fold.rs\<close>): a run of operations on one node becomes
  one baseline-relative operation per changed part, when that is expressible and a replay of the folded
  side reproduces the original one. The last section shows what a folded side keeps.
\<close>

section \<open>Folded sides\<close>

record folded_side =
  fd_operations :: "decoded_patch_operation list"
  fd_origins :: "(nat \<times> nat) list"
  fd_derived_kinds :: "(object_id, blob_kind) fmap"

definition unfolded :: "decoded_patch_operation list \<Rightarrow> folded_side" where
  "unfolded ops = \<lparr> fd_operations = ops, fd_origins = map (\<lambda>index. (index, index)) [0..<length ops],
     fd_derived_kinds = fmempty \<rparr>"

text \<open>The kinds of both sides in one map; an entry of the second side replaces one of the first.\<close>

definition fold_evidence :: "patch_algebra_evidence \<Rightarrow> folded_side \<Rightarrow> folded_side \<Rightarrow> patch_algebra_evidence" where
  "fold_evidence inner first second =
     (let derived_kinds = fd_derived_kinds first ++\<^sub>f fd_derived_kinds second
      in inner\<lparr> ev_blob_kind := \<lambda>scope blob_id.
           case fmlookup derived_kinds blob_id of
             Some kind \<Rightarrow> Known kind
           | None \<Rightarrow> ev_blob_kind inner scope blob_id \<rparr>)"

datatype net = NetReplace "decoded_patch_operation list" | NetDrop

section \<open>Runs\<close>

definition is_edit :: "decoded_patch_operation \<Rightarrow> bool" where
  "is_edit opn = (case dop_kind opn of DEditText _ _ _ _ _ _ _ _ _ \<Rightarrow> True | _ \<Rightarrow> False)"

definition changes_content_or_mode :: "decoded_patch_operation \<Rightarrow> bool" where
  "changes_content_or_mode opn = (case dop_kind opn of
     DEditText _ _ _ _ _ _ _ _ _ \<Rightarrow> True | DChangePerm _ _ _ \<Rightarrow> True | DReplaceBinary _ _ _ \<Rightarrow> True | _ \<Rightarrow> False)"

definition create_then_edits ::
  "(bytes \<Rightarrow> bytes) \<Rightarrow> lifecycle_state \<Rightarrow> patch_algebra_evidence \<Rightarrow> evidence_scope \<Rightarrow> oracle_state
   \<Rightarrow> decoded_patch_operation list \<Rightarrow> (decoded_patch_operation \<times> object_id \<times> blob_kind) option" where
  "create_then_edits sha256 baseline evidence candidate_scope original run = (case run of
     [] \<Rightarrow> None
   | first # edits \<Rightarrow>
       (case dop_kind first of
          DCreateFile path node_id blob_id mode \<Rightarrow>
            if edits = [] \<or> live_node_at baseline node_id \<noteq> None \<or> \<not> list_all is_edit edits then None
            else if ev_blob_kind evidence candidate_scope blob_id \<noteq> Known BlobText then None
            else Option.bind (oracle_text original node_id) (\<lambda>text.
                 Option.bind (res_option (text_blob_id sha256 text)) (\<lambda>content_id.
                 Some (\<lparr> dop_seq = dop_seq first, dop_kind = DCreateFile path node_id content_id mode,
                         dop_patch_id = None \<rparr>, content_id, BlobText)))
        | _ \<Rightarrow> None))"

text \<open>The net change of content: nothing, or one operation; \<open>None\<close> when it cannot be expressed.\<close>

definition net_content ::
  "(bytes \<Rightarrow> bytes) \<Rightarrow> patch_algebra_evidence \<Rightarrow> oracle_state \<Rightarrow> node_id \<Rightarrow> node_kind \<Rightarrow> object_id \<Rightarrow> object_id
   \<Rightarrow> decoded_operation_kind list option" where
  "net_content sha256 evidence original node_id kind base_blob_id final_blob_id = (case kind of
     TextFile \<Rightarrow>
       (case ev_baseline_text evidence SealedBaselineRequired node_id base_blob_id of
          NotKnown _ \<Rightarrow> None
        | Known base_text \<Rightarrow>
            let final_text = (case oracle_text original node_id of Some t \<Rightarrow> t | None \<Rightarrow> base_text)
            in if final_text \<noteq> base_text then
                 Option.bind (res_option (plan_authored_text_span sha256 base_text final_text node_id)) (\<lambda>planned.
                 Option.bind planned (\<lambda>plan.
                 Some [DEditText node_id (as_span_id plan) (as_old_span_hash plan) (as_left_anchor_hash plan)
                   (as_right_anchor_hash plan) (as_replacement_text plan) (as_old_span_text plan)
                   (Some (as_left_anchor_len plan)) (Some (as_right_anchor_len plan))]))
               else Some [])
   | BinaryFile \<Rightarrow>
       Some (if final_blob_id \<noteq> base_blob_id then [DReplaceBinary node_id base_blob_id final_blob_id] else [])
   | _ \<Rightarrow> None)"

definition net_effect ::
  "(bytes \<Rightarrow> bytes) \<Rightarrow> lifecycle_state \<Rightarrow> patch_algebra_evidence \<Rightarrow> oracle_state \<Rightarrow> node_id
   \<Rightarrow> decoded_patch_operation list \<Rightarrow> net option" where
  "net_effect sha256 baseline evidence original node_id run =
     (if run = [] then None
      else case live_node_at baseline node_id of
        None \<Rightarrow> None
      | Some base \<Rightarrow>
          (case ln_content base of
             SymlinkContent _ \<Rightarrow> None
           | FileContent base_blob_id base_mode \<Rightarrow>
               let operation = (\<lambda>kind. \<lparr> dop_seq = dop_seq (hd run), dop_kind = kind, dop_patch_id = None \<rparr>)
               in case dop_kind (last run) of
                    DDeleteNode path _ (DPreFile _ _ _) \<Rightarrow>
                      if butlast run = [] \<or> \<not> list_all changes_content_or_mode (butlast run) then None
                      else Some (NetReplace [operation (DDeleteNode path node_id
                             (DPreFile (ln_kind base) base_blob_id base_mode))])
                  | _ \<Rightarrow>
                      if \<not> list_all changes_content_or_mode run then None
                      else case live_node_at (os_lifecycle original) node_id of
                        None \<Rightarrow> None
                      | Some final_node \<Rightarrow>
                          (case ln_content final_node of
                             SymlinkContent _ \<Rightarrow> None
                           | FileContent final_blob_id final_mode \<Rightarrow>
                               Option.bind (net_content sha256 evidence original node_id (ln_kind base)
                                 base_blob_id final_blob_id) (\<lambda>content.
                               let kinds = content @ (if final_mode \<noteq> base_mode
                                     then [DChangePerm node_id base_mode final_mode] else [])
                               in Some (if kinds = [] then NetDrop else NetReplace (map operation kinds))))))"

section \<open>The fold\<close>

definition by_node_step :: "nat \<times> node_id \<Rightarrow> (node_id, nat list) fmap \<Rightarrow> (node_id, nat list) fmap" where
  "by_node_step = (\<lambda>(index, node_id) by_node.
     fmupd node_id ((case fmlookup by_node node_id of Some is \<Rightarrow> is | None \<Rightarrow> []) @ [index]) by_node)"

fun all_nodes :: "decoded_patch_operation list \<Rightarrow> node_id list option" where
  "all_nodes [] = Some []"
| "all_nodes (opn # ops) = Option.bind (facts_node opn) (\<lambda>n. Option.bind (all_nodes ops) (\<lambda>ns. Some (n # ns)))"

record fold_state =
  fl_nets :: "(nat, nat \<times> net) fmap"
  fl_consumed :: "nat fset"
  fl_folded_deletes :: "node_id fset"
  fl_derived_kinds :: "(object_id, blob_kind) fmap"

definition is_delete :: "decoded_patch_operation \<Rightarrow> bool" where
  "is_delete opn = (case dop_kind opn of DDeleteNode _ _ _ \<Rightarrow> True | _ \<Rightarrow> False)"

text \<open>What a run folds to, and the kind of a content id it makes up.\<close>

definition run_net ::
  "(bytes \<Rightarrow> bytes) \<Rightarrow> lifecycle_state \<Rightarrow> patch_algebra_evidence \<Rightarrow> evidence_scope \<Rightarrow> oracle_state \<Rightarrow> node_id
   \<Rightarrow> decoded_patch_operation list \<Rightarrow> (net \<times> (object_id \<times> blob_kind) option) option" where
  "run_net sha256 baseline evidence candidate_scope original node_id run =
     (case create_then_edits sha256 baseline evidence candidate_scope original run of
        Some (create, content_id, kind) \<Rightarrow> Some (NetReplace [create], Some (content_id, kind))
      | None \<Rightarrow> map_option (\<lambda>net. (net, None)) (net_effect sha256 baseline evidence original node_id run))"

definition fold_node ::
  "(bytes \<Rightarrow> bytes) \<Rightarrow> lifecycle_state \<Rightarrow> patch_algebra_evidence \<Rightarrow> evidence_scope
   \<Rightarrow> decoded_patch_operation list \<Rightarrow> oracle_state \<Rightarrow> node_id list option \<Rightarrow> node_id \<times> nat list
   \<Rightarrow> fold_state \<Rightarrow> fold_state" where
  "fold_node sha256 baseline evidence candidate_scope operations original other_nodes =
     (\<lambda>(node_id, indices) st.
     if indices = [] \<or> hd indices = last indices then st
     else
       let run = map ((!) operations) (filter (\<lambda>i. i < length operations) indices)
       in case run_net sha256 baseline evidence candidate_scope original node_id run of
            None \<Rightarrow> st
          | Some (net, derived) \<Rightarrow>
              let derived_kinds = (case derived of
                      Some (content_id, kind) \<Rightarrow> fmupd content_id kind (fl_derived_kinds st)
                    | None \<Rightarrow> fl_derived_kinds st);
                  other_leaves_node_alone = (case other_nodes of
                      Some nodes \<Rightarrow> node_id \<notin> set nodes | None \<Rightarrow> False);
                  st = st\<lparr> fl_derived_kinds := derived_kinds \<rparr>
              in if net = NetDrop \<and> \<not> other_leaves_node_alone then st
                 else st\<lparr> fl_folded_deletes := (case net of
                              NetReplace replacements \<Rightarrow>
                                if list_ex is_delete replacements then finsert node_id (fl_folded_deletes st)
                                else fl_folded_deletes st
                            | NetDrop \<Rightarrow> fl_folded_deletes st),
                          fl_consumed := fl_consumed st |\<union>| fset_of_list indices,
                          fl_nets := fmupd (last indices) (hd indices, net) (fl_nets st) \<rparr>)"

definition assemble_step ::
  "fold_state \<Rightarrow> nat \<times> decoded_patch_operation \<Rightarrow> (decoded_patch_operation \<times> nat \<times> nat) list" where
  "assemble_step st = (\<lambda>(index, opn).
     case fmlookup (fl_nets st) index of
       Some (first, NetReplace replacements) \<Rightarrow> map (\<lambda>replacement. (replacement, first, index)) replacements
     | Some (_, NetDrop) \<Rightarrow> []
     | None \<Rightarrow> if index |\<in>| fl_consumed st then [] else [(opn, index, index)])"

definition assemble :: "fold_state \<Rightarrow> decoded_patch_operation list \<Rightarrow> folded_side" where
  "assemble st operations =
     (let kept = concat (map (assemble_step st) (enumerate 0 operations))
      in \<lparr> fd_operations = map fst kept, fd_origins = map snd kept, fd_derived_kinds = fl_derived_kinds st \<rparr>)"

text \<open>The guard: the folded side's replay against the original side's.\<close>

definition same_tombstone :: "node_id fset \<Rightarrow> node_id \<Rightarrow> tombstone \<Rightarrow> tombstone \<Rightarrow> bool" where
  "same_tombstone folded_deletes node_id l r \<longleftrightarrow> l = r \<or>
     node_id |\<in>| folded_deletes \<and> tb_kind l = tb_kind r \<and> tb_path l = tb_path r
     \<and> (case (tb_content l, tb_content r) of (FileContent _ _, FileContent _ _) \<Rightarrow> True | _ \<Rightarrow> False)"

definition same_text :: "(bytes \<Rightarrow> bytes) \<Rightarrow> lifecycle_state \<Rightarrow> node_id \<Rightarrow> bytes option \<Rightarrow> bytes option \<Rightarrow> bool" where
  "same_text sha256 left node_id l r =
     (let stored = (\<lambda>text. case live_node_at left node_id of
            None \<Rightarrow> True
          | Some live \<Rightarrow>
              (case ln_content live of
                 FileContent blob_id _ \<Rightarrow>
                   ln_kind live = TextFile \<and> res_option (text_blob_id sha256 text) = Some blob_id
               | SymlinkContent _ \<Rightarrow> False))
      in case (l, r) of
           (Some left_text, Some right_text) \<Rightarrow> left_text = right_text
         | (Some text, None) \<Rightarrow> stored text
         | (None, Some text) \<Rightarrow> stored text
         | (None, None) \<Rightarrow> True)"

definition equivalent :: "(bytes \<Rightarrow> bytes) \<Rightarrow> oracle_state \<Rightarrow> oracle_state \<Rightarrow> node_id fset \<Rightarrow> bool" where
  "equivalent sha256 original folded folded_deletes =
     (let left = os_lifecycle original; right = os_lifecycle folded
      in if live_nodes left \<noteq> live_nodes right then False
         else if length (tombstones left) \<noteq> length (tombstones right) then False
         else list_all (\<lambda>(node_id, left_tombstone). case latest_tombstone right node_id of
                   None \<Rightarrow> False
                 | Some right_tombstone \<Rightarrow> same_tombstone folded_deletes node_id left_tombstone right_tombstone)
                (tombstones left)
              \<and> list_all (\<lambda>node_id. same_text sha256 left node_id (oracle_text original node_id)
                   (oracle_text folded node_id)) (text_nodes original @ text_nodes folded))"

definition fold_operations_of ::
  "(bytes \<Rightarrow> bytes) \<Rightarrow> lifecycle_state \<Rightarrow> patch_algebra_evidence \<Rightarrow> evidence_scope
   \<Rightarrow> decoded_patch_operation list \<Rightarrow> decoded_patch_operation list \<Rightarrow> folded_side option" where
  "fold_operations_of sha256 baseline evidence candidate_scope operations other_side =
     Option.bind (all_nodes operations) (\<lambda>nodes.
     let by_node = fold by_node_step (enumerate 0 nodes) fmempty
     in if list_all (\<lambda>(_, indices). length indices < 2) (in_key_order by_node) then None
        else Option.bind (res_option (replay_operations sha256 baseline evidence candidate_scope operations))
          (\<lambda>original.
        let st = fold (fold_node sha256 baseline evidence candidate_scope operations original
              (all_nodes other_side)) (in_key_order by_node)
              \<lparr> fl_nets = fmempty, fl_consumed = {||}, fl_folded_deletes = {||}, fl_derived_kinds = fmempty \<rparr>
        in if fl_nets st = fmempty then None
           else let folded = assemble st operations
                in Option.bind (res_option (replay_operations sha256 baseline
                     (fold_evidence evidence folded folded) candidate_scope (fd_operations folded))) (\<lambda>replayed.
                   if equivalent sha256 original replayed (fl_folded_deletes st) then Some folded else None)))"

definition fold_side ::
  "(bytes \<Rightarrow> bytes) \<Rightarrow> lifecycle_state \<Rightarrow> patch_algebra_evidence \<Rightarrow> evidence_scope
   \<Rightarrow> decoded_patch_operation list \<Rightarrow> decoded_patch_operation list \<Rightarrow> folded_side" where
  "fold_side sha256 baseline evidence candidate_scope operations other_side =
     (case fold_operations_of sha256 baseline evidence candidate_scope operations other_side of
        Some folded \<Rightarrow> folded
      | None \<Rightarrow> unfolded operations)"


section \<open>What a folded side keeps\<close>

lemma in_key_order_inj: "in_key_order m = in_key_order m' \<Longrightarrow> m = m'"
proof (rule fmap_ext)
  fix k
  assume "in_key_order m = in_key_order m'"
  then have "fmlookup m k = Some v \<longleftrightarrow> fmlookup m' k = Some v" for v
    by (metis set_in_key_order)
  then show "fmlookup m k = fmlookup m' k"
    by (metis option.exhaust)
qed

lemma length_in_key_order: "length (in_key_order m) = fcard (fmdom m)"
  by (simp add: in_key_order_def sorted_list_of_fset.rep_eq fcard.rep_eq)

text \<open>The guard compares live nodes and tombstones; the path index and the seen ids follow.\<close>

lemma equivalent_keeps:
  assumes wf: "wf_lifecycle (os_lifecycle original)" "wf_lifecycle (os_lifecycle folded)"
    and eq: "equivalent sha256 original folded deletes"
  shows "live_by_id (os_lifecycle original) = live_by_id (os_lifecycle folded)"
    and "path_to_id (os_lifecycle original) = path_to_id (os_lifecycle folded)"
    and "seen_ids (os_lifecycle original) = seen_ids (os_lifecycle folded)"
    and "rel_option (\<lambda>x y. tb_kind x = tb_kind y \<and> tb_path x = tb_path y \<and> (x = y \<or> n |\<in>| deletes))
      (latest_tombstone (os_lifecycle original) n) (latest_tombstone (os_lifecycle folded) n)"
proof -
  let ?l = "os_lifecycle original" and ?r = "os_lifecycle folded"
  have "live_nodes ?l = live_nodes ?r" and len: "length (tombstones ?l) = length (tombstones ?r)"
    and tombs: "list_all (\<lambda>(n, t). case latest_tombstone ?r n of None \<Rightarrow> False
        | Some t' \<Rightarrow> same_tombstone deletes n t t') (tombstones ?l)"
    using eq by (auto simp: equivalent_def Let_def split: if_splits)
  then show live: "live_by_id ?l = live_by_id ?r"
    using in_key_order_inj by (simp add: live_nodes_def)
  show "path_to_id ?l = path_to_id ?r"
  proof (rule fmap_ext)
    fix p
    have "fmlookup (path_to_id ?l) p = Some m \<longleftrightarrow> fmlookup (path_to_id ?r) p = Some m" for m
      using wf live by (simp add: wf_lifecycle_def index_ok_def)
    then show "fmlookup (path_to_id ?l) p = fmlookup (path_to_id ?r) p"
      by (metis option.exhaust)
  qed
  have tomb: "\<exists>t'. latest_tombstone ?r m = Some t' \<and> same_tombstone deletes m t t'"
    if "fmlookup (latest_tombstone_by_id ?l) m = Some t" for m t
    using tombs that unfolding list_all_iff tombstones_def
    by (fastforce simp: set_in_key_order split: option.splits)
  have sub: "fmdom (latest_tombstone_by_id ?l) |\<subseteq>| fmdom (latest_tombstone_by_id ?r)"
    using tomb by (auto simp: fmlookup_dom_iff latest_tombstone_def dest!: tomb)
  moreover have "fcard (fmdom (latest_tombstone_by_id ?l)) = fcard (fmdom (latest_tombstone_by_id ?r))"
    using len by (simp add: tombstones_def length_in_key_order)
  ultimately have dom: "fmdom (latest_tombstone_by_id ?l) = fmdom (latest_tombstone_by_id ?r)"
    using fcard_seteq by (metis order_refl)
  show "seen_ids ?l = seen_ids ?r"
  proof (rule fset_eqI)
    fix m
    have "fmlookup (latest_tombstone_by_id ?l) m = None \<longleftrightarrow> fmlookup (latest_tombstone_by_id ?r) m = None"
      using dom by (metis fmdom_notI fmdom_notD)
    moreover have "m |\<in>| seen_ids s \<longleftrightarrow> fmlookup (live_by_id s) m \<noteq> None
        \<or> fmlookup (latest_tombstone_by_id s) m \<noteq> None" if "wf_lifecycle s" for s
      using that by (simp add: wf_lifecycle_def)
    ultimately show "m |\<in>| seen_ids ?l \<longleftrightarrow> m |\<in>| seen_ids ?r"
      using wf live by metis
  qed
  show "rel_option (\<lambda>x y. tb_kind x = tb_kind y \<and> tb_path x = tb_path y \<and> (x = y \<or> n |\<in>| deletes))
      (latest_tombstone ?l n) (latest_tombstone ?r n)"
  proof (cases "fmlookup (latest_tombstone_by_id ?l) n")
    case None
    then have "fmlookup (latest_tombstone_by_id ?r) n = None"
      using dom by (metis fmdom_notI fmdom_notD)
    with None show ?thesis
      by (simp add: latest_tombstone_def)
  next
    case (Some t)
    then show ?thesis
      using tomb [OF Some] by (auto simp: latest_tombstone_def same_tombstone_def)
  qed
qed

lemma by_node_indices:
  assumes "fmlookup (fold by_node_step (enumerate k nodes) start) n = Some is"
    and "\<And>m js. fmlookup start m = Some js \<Longrightarrow> js \<noteq> [] \<and> sorted js \<and> (\<forall>j \<in> set js. j < k)"
  shows "is \<noteq> [] \<and> sorted is"
  using assms
proof (induction nodes arbitrary: k start)
  case (Cons m nodes)
  have "fmlookup (fold by_node_step (enumerate (Suc k) nodes) (by_node_step (k, m) start)) n = Some is"
    using Cons.prems(1) by simp
  moreover have "js \<noteq> [] \<and> sorted js \<and> (\<forall>j \<in> set js. j < Suc k)"
    if "fmlookup (by_node_step (k, m) start) m' = Some js" for m' js
    using that Cons.prems(2)
    by (fastforce simp: by_node_step_def sorted_append less_SucI less_imp_le split: if_splits option.splits)
  ultimately show ?case
    using Cons.IH by blast
qed auto

lemma sorted_hd_last: "xs \<noteq> [] \<Longrightarrow> sorted xs \<Longrightarrow> hd xs \<le> last xs" for xs :: "nat list"
  by (metis last_in_set list.collapse list.set_intros(1) set_ConsD sorted_simps(2) order_refl)

definition nets_ordered :: "fold_state \<Rightarrow> bool" where
  "nets_ordered st \<longleftrightarrow> (\<forall>i f net. fmlookup (fl_nets st) i = Some (f, net) \<longrightarrow> f \<le> i)"

lemma fold_node_ordered:
  assumes "nets_ordered st" "snd entry \<noteq> [] \<and> sorted (snd entry)"
  shows "nets_ordered (fold_node sha256 baseline evidence scope ops original others entry st)"
  using assms sorted_hd_last [of "snd entry"]
  by (cases entry) (auto simp: fold_node_def nets_ordered_def Let_def split: option.splits prod.splits)

lemma fold_nodes_ordered:
  assumes "nets_ordered st" "\<forall>entry \<in> set entries. snd entry \<noteq> [] \<and> sorted (snd entry)"
  shows "nets_ordered (fold (fold_node sha256 baseline evidence scope ops original others) entries st)"
  using assms by (induction entries arbitrary: st) (auto simp: fold_node_ordered)

lemma assemble_origins:
  assumes "nets_ordered st"
  shows "length (fd_origins (assemble st ops)) = length (fd_operations (assemble st ops))"
    and "(i, j) \<in> set (fd_origins (assemble st ops)) \<Longrightarrow> i \<le> j \<and> j < length ops"
proof -
  show "length (fd_origins (assemble st ops)) = length (fd_operations (assemble st ops))"
    by (simp add: assemble_def Let_def)
  assume "(i, j) \<in> set (fd_origins (assemble st ops))"
  then obtain index opn replacement where "(index, opn) \<in> set (enumerate 0 ops)"
    and "(replacement, i, j) \<in> set (assemble_step st (index, opn))"
    by (force simp: assemble_def Let_def)
  moreover from this have "index < length ops"
    by (auto simp: in_set_enumerate_eq)
  ultimately show "i \<le> j \<and> j < length ops"
    using assms by (auto simp: assemble_step_def nets_ordered_def split: option.splits net.splits if_splits)
qed

text \<open>C11 (equivalence): folding keeps the side. A side that is changed by folding replays, and its replay holds
  the same live nodes at the same paths, the same ids seen, and a tombstone of the same kind and path for
  every deleted node; every folded operation names a range of the original operations.\<close>

theorem folding_keeps_the_side:
  assumes "wf_lifecycle baseline"
    and "fold_side sha256 baseline evidence scope ops other = folded" "folded \<noteq> unfolded ops"
  shows "\<exists>original replayed. replay_operations sha256 baseline evidence scope ops = Ok original
    \<and> replay_operations sha256 baseline (fold_evidence evidence folded folded) scope (fd_operations folded) = Ok replayed
    \<and> live_by_id (os_lifecycle original) = live_by_id (os_lifecycle replayed)
    \<and> path_to_id (os_lifecycle original) = path_to_id (os_lifecycle replayed)
    \<and> seen_ids (os_lifecycle original) = seen_ids (os_lifecycle replayed)
    \<and> (\<forall>n. rel_option (\<lambda>x y. tb_kind x = tb_kind y \<and> tb_path x = tb_path y)
          (latest_tombstone (os_lifecycle original) n) (latest_tombstone (os_lifecycle replayed) n))
    \<and> length (fd_origins folded) = length (fd_operations folded)
    \<and> (\<forall>(i, j) \<in> set (fd_origins folded). i \<le> j \<and> j < length ops)"
proof -
  have "fold_operations_of sha256 baseline evidence scope ops other = Some folded"
    using assms(2,3) by (auto simp: fold_side_def split: option.splits)
  then obtain nodes original st replayed where nodes: "all_nodes ops = Some nodes"
    and original: "replay_operations sha256 baseline evidence scope ops = Ok original"
    and st: "st = fold (fold_node sha256 baseline evidence scope ops original (all_nodes other))
        (in_key_order (fold by_node_step (enumerate 0 nodes) fmempty))
        \<lparr> fl_nets = fmempty, fl_consumed = {||}, fl_folded_deletes = {||}, fl_derived_kinds = fmempty \<rparr>"
    and folded: "folded = assemble st ops"
    and replayed: "replay_operations sha256 baseline (fold_evidence evidence folded folded) scope
        (fd_operations folded) = Ok replayed"
    and guard: "equivalent sha256 original replayed (fl_folded_deletes st)"
    by (auto simp: fold_operations_of_def Let_def split: if_splits)
  have "wf_lifecycle (os_lifecycle original)" "wf_lifecycle (os_lifecycle replayed)"
    using replay_sound [OF original [unfolded replay_operations_def]]
      replay_sound [OF replayed [unfolded replay_operations_def]] assms(1) by (simp_all add: start_oracle_def)
  note kept = equivalent_keeps [OF this guard]
  have "nets_ordered st"
    unfolding st by (rule fold_nodes_ordered) (auto simp: nets_ordered_def set_in_key_order dest!: by_node_indices)
  then have origins: "length (fd_origins folded) = length (fd_operations folded)"
    "\<forall>(i, j) \<in> set (fd_origins folded). i \<le> j \<and> j < length ops"
    using assemble_origins folded by auto
  have "rel_option (\<lambda>x y. tb_kind x = tb_kind y \<and> tb_path x = tb_path y)
      (latest_tombstone (os_lifecycle original) n) (latest_tombstone (os_lifecycle replayed) n)" for n
    using kept(4) [of n] by (auto elim: option.rel_mono_strong)
  then show ?thesis
    using original replayed kept(1-3) origins by blast
qed


section \<open>A sample fold\<close>

text \<open>Two mode changes of one file fold to one.\<close>

definition fold_base :: lifecycle_state where
  "fold_base = snd (create_node (NodeId (replicate 32 1)) \<lparr> ln_path = RepoPath [97], ln_kind = BinaryFile,
     ln_content = FileContent (ObjectId (replicate 32 1)) 420 \<rparr> new_lifecycle)"

definition chmod_op :: "u32 \<Rightarrow> u32 \<Rightarrow> u32 \<Rightarrow> decoded_patch_operation" where
  "chmod_op i old new = \<lparr> dop_seq = i, dop_kind = DChangePerm (NodeId (replicate 32 1)) old new, dop_patch_id = None \<rparr>"

lemma fold_base_wf: "wf_lifecycle fold_base"
proof -
  let ?node = "\<lparr> ln_path = RepoPath [97], ln_kind = BinaryFile, ln_content = FileContent (ObjectId (replicate 32 1)) 420 \<rparr>"
  have "fst (create_node (NodeId (replicate 32 1)) ?node new_lifecycle) = Ok ()"
    by code_simp
  then have "exec_op (CreateOp (NodeId (replicate 32 1)) ?node) new_lifecycle = (Ok (), fold_base)"
    by (simp add: fold_base_def prod_eq_iff)
  then show ?thesis
    using exec_op_Ok_iff [OF wf_new_lifecycle] by blast
qed

definition sample_run :: "decoded_patch_operation list" where
  "sample_run = [chmod_op 1 420 493, chmod_op 2 493 384]"

definition replay_sample :: "decoded_patch_operation list \<Rightarrow> oracle_state replayed" where
  "replay_sample = replay_operations (\<lambda>_. []) fold_base no_evidence UnsealedCandidateOptional"

definition outcome :: "decoded_patch_operation list \<Rightarrow> oracle_state" where
  "outcome ops = (case replay_sample ops of Ok x \<Rightarrow> x | Err _ \<Rightarrow> start_oracle fold_base)"

definition sample_net :: fold_state where
  "sample_net = \<lparr> fl_nets = fmupd 1 (0, NetReplace [chmod_op 1 420 384]) fmempty,
     fl_consumed = {||} |\<union>| fset_of_list [0, 1], fl_folded_deletes = {||}, fl_derived_kinds = fmempty \<rparr>"

lemma sample_replays: "replay_sample sample_run = Ok (outcome sample_run)"
  "replay_sample [chmod_op 1 420 384] = Ok (outcome [chmod_op 1 420 384])"
proof -
  have "case replay_sample sample_run of Ok _ \<Rightarrow> True | Err _ \<Rightarrow> False"
    "case replay_sample [chmod_op 1 420 384] of Ok _ \<Rightarrow> True | Err _ \<Rightarrow> False"
    by code_simp+
  then show "replay_sample sample_run = Ok (outcome sample_run)"
    "replay_sample [chmod_op 1 420 384] = Ok (outcome [chmod_op 1 420 384])"
    by (auto simp: outcome_def split: result.splits)
qed

lemma sample_pieces:
  "all_nodes sample_run = Some [NodeId (replicate 32 1), NodeId (replicate 32 1)]"
  "in_key_order (fold by_node_step (enumerate 0 [NodeId (replicate 32 1), NodeId (replicate 32 1)]) fmempty)
     = [(NodeId (replicate 32 1), [0, 1])]"
  "run_net (\<lambda>_. []) fold_base no_evidence UnsealedCandidateOptional (outcome sample_run)
     (NodeId (replicate 32 1)) sample_run = Some (NetReplace [chmod_op 1 420 384], None)"
  "equivalent (\<lambda>_. []) (outcome sample_run) (outcome [chmod_op 1 420 384]) {||}"
  "fl_nets sample_net \<noteq> fmempty"
  by code_simp+

lemma sample_assembled:
  "assemble sample_net sample_run =
     \<lparr> fd_operations = [chmod_op 1 420 384], fd_origins = [(0, 1)], fd_derived_kinds = fmempty \<rparr>"
  by (simp add: assemble_def assemble_step_def sample_net_def sample_run_def)

lemma fold_evidence_idle: "fd_derived_kinds f = fmempty \<Longrightarrow> fold_evidence evidence f f = evidence"
  by (simp add: fold_evidence_def)

lemma sample_fold:
  "fold_side (\<lambda>_. []) fold_base no_evidence UnsealedCandidateOptional sample_run [] =
     \<lparr> fd_operations = [chmod_op 1 420 384], fd_origins = [(0, 1)], fd_derived_kinds = fmempty \<rparr>"
proof -
  have "map ((!) sample_run) (filter (\<lambda>i. i < length sample_run) [0, 1]) = sample_run"
    by (simp add: sample_run_def)
  then have "fold_node (\<lambda>_. []) fold_base no_evidence UnsealedCandidateOptional sample_run (outcome sample_run)
      (all_nodes []) (NodeId (replicate 32 1), [0, 1])
      \<lparr> fl_nets = fmempty, fl_consumed = {||}, fl_folded_deletes = {||}, fl_derived_kinds = fmempty \<rparr> = sample_net"
    using sample_pieces(3) by (simp add: fold_node_def sample_net_def is_delete_def chmod_op_def del: filter.simps list.map)
  moreover have "fl_folded_deletes sample_net = {||}"
    by (simp add: sample_net_def)
  ultimately show ?thesis
    using sample_replays sample_pieces sample_assembled
    by (simp add: fold_side_def fold_operations_of_def Let_def fold_evidence_idle replay_sample_def [symmetric]
        del: all_nodes.simps)
qed

theorem folding_keeps_the_side_witness:
  "\<exists>original replayed. replay_operations (\<lambda>_. []) fold_base no_evidence UnsealedCandidateOptional
      [chmod_op 1 420 493, chmod_op 2 493 384] = Ok original
    \<and> replay_operations (\<lambda>_. []) fold_base no_evidence UnsealedCandidateOptional [chmod_op 1 420 384] = Ok replayed
    \<and> live_by_id (os_lifecycle original) = live_by_id (os_lifecycle replayed)"
proof -
  have "\<lparr> fd_operations = [chmod_op 1 420 384], fd_origins = [(0, 1)], fd_derived_kinds = fmempty \<rparr> \<noteq> unfolded sample_run"
    by (simp add: unfolded_def sample_run_def)
  from folding_keeps_the_side [OF fold_base_wf sample_fold this] show ?thesis
    by (auto simp: fold_evidence_idle sample_run_def)
qed

end
