(* ===== verification/Merge_Candidates.thy ===== *)
theory Merge_Candidates
  imports Trust Lifecycle_Replay
begin

text \<open>
  What a merge looks at (\<open>prikk-store/src/merge/evidence.rs\<close>): the blocks between a baseline and a target,
  found by following every parent, ordered with parents first, and the patches they add. A walk that may
  meet a cycle of blocks is a \<open>partial_function (option)\<close>, where \<open>None\<close> is a run that does not end.
\<close>

section \<open>The shape of a block\<close>

fun show_block_kind :: "block_kind \<Rightarrow> string" where
  "show_block_kind BRoot = ''Root''"
| "show_block_kind BNormal = ''Normal''"
| "show_block_kind BMerge = ''Merge''"
| "show_block_kind BRepair = ''Repair''"
| "show_block_kind BImport = ''Import''"

definition validate_non_merge_shape :: "block_payload \<Rightarrow> unit res" where
  "validate_non_merge_shape payload =
     fail_if (mainline_parent_id payload \<noteq> None \<or> merge_baseline_block_id payload \<noteq> None)
       (Integrity (''format-2 '' @ show_block_kind (block_kind_of payload)
         @ '' Block must not carry a mainline parent or merge baseline''))"

definition validate_merge_shape :: "block_payload \<Rightarrow> unit res" where
  "validate_merge_shape payload =
     rbind (ok_or (Integrity ''format-2 Merge Block must name a mainline parent'') (mainline_parent_id payload))
       (\<lambda>mainline.
     rbind (fail_if (mainline \<notin> set (parent_block_ids payload))
       (Integrity ''format-2 Merge Block mainline parent must be one of its own parents'')) (\<lambda>_.
     fail_if (merge_baseline_block_id payload = None)
       (Integrity ''format-2 Merge Block must record the baseline confluence was proven against'')))"

definition validate_block_v2_shape :: "block_payload \<Rightarrow> unit res" where
  "validate_block_v2_shape payload = (case (block_kind_of payload, parent_block_ids payload) of
     (BRoot, []) \<Rightarrow> validate_non_merge_shape payload
   | (BNormal, [_]) \<Rightarrow> validate_non_merge_shape payload
   | (BMerge, [_, _]) \<Rightarrow> validate_merge_shape payload
   | (BRoot, _) \<Rightarrow> Err (Integrity ''format-2 Root Block must have zero parents'')
   | (BNormal, _) \<Rightarrow> Err (Integrity ''format-2 Normal Block must have exactly one parent'')
   | (BMerge, _) \<Rightarrow> Err (Integrity ''format-2 Merge Block must have exactly two parents'')
   | (_, _) \<Rightarrow> Err (Integrity ''format-2 Block kind is not authorized''))"

section \<open>Ancestry\<close>

text \<open>A fallible step after a walk that returned.\<close>

definition run_then :: "'a res option \<Rightarrow> ('a \<Rightarrow> 'b res option) \<Rightarrow> 'b res option" where
  "run_then run f = Option.bind run (\<lambda>outcome. case outcome of Err e \<Rightarrow> Some (Err e) | Ok x \<Rightarrow> f x)"

partial_function (option) horizon_loop ::
  "reader \<Rightarrow> object_id set \<Rightarrow> object_id \<Rightarrow> object_id res option" where [code]:
  "horizon_loop read visited current =
     (if current \<in> visited
      then Some (Err (Integrity (''block parent chain contains a cycle at '' @ show_id current)))
      else case read_block read current of
             Err e \<Rightarrow> Some (Err e)
           | Ok block \<Rightarrow>
               (case mainline_or_sole_parent block of
                  Some None \<Rightarrow> Some (Ok current)
                | Some (Some parent) \<Rightarrow> horizon_loop read (insert current visited) parent
                | None \<Rightarrow> Some (Err (UnsupportedObjectType
                    (''merge evidence requires a single-parent baseline lineage; block '' @ show_id current
                     @ '' has '' @ dec (length (parent_block_ids block)) @ '' parents'')))))"

definition lineage_horizon :: "reader \<Rightarrow> object_id \<Rightarrow> object_id res option" where
  "lineage_horizon read baseline = horizon_loop read {} baseline"

definition lifecycle_state_at ::
  "(bytes \<Rightarrow> bytes) \<Rightarrow> reader \<Rightarrow> object_id \<Rightarrow> replay_derived_lifecycle_state res option" where
  "lifecycle_state_at sha256 read block_id =
     run_then (lineage_horizon read block_id) (replay_derived_state sha256 read block_id)"

type_synonym ancestry = "(object_id, block_payload) fmap"

text \<open>The stack has its top first; a block's parents are pushed in order, so the last is popped first.\<close>

partial_function (option) ancestors_loop ::
  "reader \<Rightarrow> ancestry \<Rightarrow> object_id list \<Rightarrow> ancestry res option" where [code]:
  "ancestors_loop read ancestors stack = (case stack of
     [] \<Rightarrow> Some (Ok ancestors)
   | current # below \<Rightarrow>
       if current |\<in>| fmdom ancestors then ancestors_loop read ancestors below
       else case rbind (read_block read current) (\<lambda>block.
                   rbind (validate_block_v2_shape block) (\<lambda>_. Ok block)) of
              Err e \<Rightarrow> Some (Err e)
            | Ok block \<Rightarrow>
                ancestors_loop read (fmupd current block ancestors) (rev (parent_block_ids block) @ below))"

definition ancestors_inclusive :: "reader \<Rightarrow> object_id \<Rightarrow> ancestry res option" where
  "ancestors_inclusive read start = ancestors_loop read fmempty [start]"

section \<open>Parents first\<close>

record pending =
  remaining_parents :: "(object_id, nat) fmap"
  children :: "(object_id, object_id list) fmap"

definition children_of :: "pending \<Rightarrow> object_id \<Rightarrow> object_id list" where
  "children_of p i = (case fmlookup (children p) i of Some cs \<Rightarrow> cs | None \<Rightarrow> [])"

definition pending_step ::
  "object_id fset \<Rightarrow> ancestry \<Rightarrow> object_id \<Rightarrow> pending \<Rightarrow> pending res" where
  "pending_step new_ids ancestors i p =
     rbind (ok_or (Integrity (''candidate block set references untracked block '' @ show_id i))
       (fmlookup ancestors i)) (\<lambda>block.
     let inside = filter (\<lambda>parent. parent |\<in>| new_ids) (parent_block_ids block)
     in Ok \<lparr> remaining_parents = fmupd i (length inside) (remaining_parents p),
             children = fold (\<lambda>parent cs. fmupd parent
               ((case fmlookup cs parent of Some c \<Rightarrow> c | None \<Rightarrow> []) @ [i]) cs) inside (children p) \<rparr>)"

text \<open>One popped block: each of its children waits for one parent fewer.\<close>

fun release ::
  "object_id list \<Rightarrow> (object_id, nat) fmap \<times> object_id list \<Rightarrow> ((object_id, nat) fmap \<times> object_id list) res" where
  "release [] st = Ok st"
| "release (child # rest) (remaining, queue) = (case fmlookup remaining child of
     None \<Rightarrow> Err (Integrity ''candidate block set topological sort lost a tracked child'')
   | Some entry \<Rightarrow>
       release rest (fmupd child (entry - 1) remaining, if entry - 1 = 0 then queue @ [child] else queue))"

partial_function (option) order_loop ::
  "pending \<Rightarrow> (object_id, nat) fmap \<Rightarrow> object_id list \<Rightarrow> object_id list \<Rightarrow> object_id list res option" where [code]:
  "order_loop p remaining queue order = (case queue of
     [] \<Rightarrow> Some (Ok order)
   | i # later \<Rightarrow>
       (case release (children_of p i) (remaining, later) of
          Err e \<Rightarrow> Some (Err e)
        | Ok (remaining', queue') \<Rightarrow> order_loop p remaining' queue' (order @ [i])))"

definition topological_order :: "object_id fset \<Rightarrow> ancestry \<Rightarrow> object_id list res option" where
  "topological_order new_ids ancestors =
     run_then (Some (rfold (pending_step new_ids ancestors) (sorted_list_of_fset new_ids)
       \<lparr> remaining_parents = fmempty, children = fmempty \<rparr>)) (\<lambda>p.
     let ready = map fst (filter (\<lambda>(_, count). count = 0) (in_key_order (remaining_parents p)))
     in run_then (order_loop p (remaining_parents p) (sort ready) []) (\<lambda>order.
        Some (if length order \<noteq> fcard new_ids
              then Err (Integrity ''candidate block set contains a cycle'') else Ok order)))"

section \<open>Candidates\<close>

definition candidate_blocks :: "reader \<Rightarrow> object_id \<Rightarrow> object_id \<Rightarrow> (object_id \<times> block_payload) list res option" where
  "candidate_blocks read baseline target =
     run_then (ancestors_inclusive read target) (\<lambda>target_ancestors.
     if baseline |\<notin>| fmdom target_ancestors
     then Some (Err (Precondition (''baseline Block '' @ show_id baseline
       @ '' is not an ancestor of target Block '' @ show_id target)))
     else
       run_then (ancestors_inclusive read baseline) (\<lambda>baseline_ancestors.
       let new_ids = fmdom target_ancestors |-| fmdom baseline_ancestors
       in run_then (topological_order new_ids target_ancestors) (\<lambda>order.
          Some (rmap (\<lambda>i. rbind (ok_or (Integrity (''missing Block '' @ show_id i @ '' in candidate set''))
            (fmlookup target_ancestors i)) (\<lambda>payload. Ok (i, payload))) order))))"

definition baseline_reachable_patch_ids :: "reader \<Rightarrow> object_id \<Rightarrow> object_id set res option" where
  "baseline_reachable_patch_ids read baseline =
     run_then (ancestors_inclusive read baseline) (\<lambda>ancestors.
     Some (Ok (\<Union>block \<in> fmran' ancestors. set (block_patch_ids block))))"

definition candidate_patch_ids :: "reader \<Rightarrow> object_id \<Rightarrow> object_id \<Rightarrow> object_id list res option" where
  "candidate_patch_ids read baseline target =
     run_then (baseline_reachable_patch_ids read baseline) (\<lambda>excluded.
     run_then (candidate_blocks read baseline target) (\<lambda>blocks.
     Some (Ok (filter (\<lambda>patch_id. patch_id \<notin> excluded) (concat (map (block_patch_ids \<circ> snd) blocks))))))"

definition require_author_key_id :: "(bytes \<Rightarrow> bytes) \<Rightarrow> object_envelope \<Rightarrow> bytes res" where
  "require_author_key_id sha256 envelope =
     ok_or (Integrity (object_type_name (env_type envelope) @ '' '' @ show_id (envelope_object_id sha256 envelope)
       @ '' has no AUTHOR signature''))
       (map_option sig_key_id (find (\<lambda>signature. sig_role signature = Author) (env_signatures envelope)))"

text \<open>The operations of one patch, each under its patch id, with the author of every rename.\<close>

definition candidate_operation ::
  "(bytes \<Rightarrow> bytes) \<Rightarrow> object_id \<Rightarrow> object_envelope \<Rightarrow> decoded_patch_operation
   \<Rightarrow> decoded_patch_operation list \<times> bytes option list
   \<Rightarrow> (decoded_patch_operation list \<times> bytes option list) res" where
  "candidate_operation sha256 patch_id envelope operation = (\<lambda>(operations, author_key_ids).
     rbind (case dop_kind operation of
              DRenamePath _ _ _ \<Rightarrow> rbind (require_author_key_id sha256 envelope) (\<lambda>key_id. Ok (Some key_id))
            | _ \<Rightarrow> Ok None) (\<lambda>author_key_id.
     Ok (operations @ [operation\<lparr> dop_patch_id := Some patch_id \<rparr>], author_key_ids @ [author_key_id])))"

definition candidate_patch ::
  "(bytes \<Rightarrow> bytes) \<Rightarrow> reader \<Rightarrow> object_id set \<Rightarrow> object_id
   \<Rightarrow> decoded_patch_operation list \<times> bytes option list
   \<Rightarrow> (decoded_patch_operation list \<times> bytes option list) res" where
  "candidate_patch sha256 read excluded patch_id st =
     (if patch_id \<in> excluded then Ok st
      else rbind (read_patch read patch_id) (\<lambda>envelope.
           rbind (decode_patch_operations sha256 (env_payload envelope) (env_schema envelope)) (\<lambda>decoded.
           rfold (candidate_operation sha256 patch_id envelope) decoded st)))"

definition candidate_sequence ::
  "(bytes \<Rightarrow> bytes) \<Rightarrow> reader \<Rightarrow> object_id \<Rightarrow> object_id
   \<Rightarrow> (decoded_patch_operation list \<times> bytes option list) res option" where
  "candidate_sequence sha256 read baseline target =
     run_then (baseline_reachable_patch_ids read baseline) (\<lambda>excluded.
     run_then (candidate_blocks read baseline target) (\<lambda>blocks.
     Some (rfold (\<lambda>(_, block). rfold (candidate_patch sha256 read excluded) (block_patch_ids block)) blocks ([], []))))"

definition verify_candidate_blocks_trusted ::
  "(bytes \<Rightarrow> bytes) \<Rightarrow> ed25519 \<Rightarrow> reader \<Rightarrow> maintainer_trust_policy \<Rightarrow> object_id \<Rightarrow> object_id \<Rightarrow> unit res option" where
  "verify_candidate_blocks_trusted sha256 ed read policy baseline target =
     run_then (candidate_blocks read baseline target) (\<lambda>blocks.
     Some (rfold (\<lambda>(block_id, _) _.
       rbind (read_typed read block_id Block) (\<lambda>found.
       rbind (ok_or (Integrity (''missing Block '' @ show_id block_id)) found) (\<lambda>envelope.
       rbind (map_err (\<lambda>issue. InvalidSignature (''adopted Block '' @ show_id block_id
           @ '' has no trusted MAINTAINER signature ('' @ issue_code issue @ '': '' @ issue_message issue @ '')''))
         (verify_trusted_publication_envelope sha256 ed policy envelope)) (\<lambda>_. Ok ())))) blocks ()))"

end
