(* ===== verification/Merge_Order.thy ===== *)
theory Merge_Order
  imports Merge_Candidates Lifecycle_Props
begin

text \<open>
  The walks of \<open>Merge_Candidates\<close> are correct: the ancestry walk finds exactly the blocks that parent links
  reach, and the ordering (Kahn's algorithm) lists the new blocks once each with parents first.
\<close>

section \<open>Ancestry\<close>

definition block_at :: "reader \<Rightarrow> object_id \<Rightarrow> block_payload \<Rightarrow> bool" where
  "block_at read i block \<longleftrightarrow> read_block read i = Ok block \<and> validate_block_v2_shape block = Ok ()"

definition parent_links :: "reader \<Rightarrow> (object_id \<times> object_id) set" where
  "parent_links read = {(parent, i). \<exists>block. block_at read i block \<and> parent \<in> set (parent_block_ids block)}"

definition reach :: "reader \<Rightarrow> object_id \<Rightarrow> object_id set" where
  "reach read start = {i. (i, start) \<in> (parent_links read)\<^sup>*}"

lemma reach_self [simp]: "i \<in> reach read i"
  by (simp add: reach_def)

lemma reach_trans: "i \<in> reach read j \<Longrightarrow> j \<in> reach read k \<Longrightarrow> i \<in> reach read k"
  by (auto simp: reach_def intro: rtrancl_trans)

lemma reach_parent:
  "block_at read j block \<Longrightarrow> i \<in> set (parent_block_ids block) \<Longrightarrow> i \<in> reach read j"
  by (auto simp: reach_def parent_links_def)

lemma block_at_readable: "block_at read i block \<Longrightarrow> i \<in> readable read"
  by (auto simp: block_at_def dest: read_block_readable)

lemma block_at_unique: "block_at read i b \<Longrightarrow> block_at read i c \<Longrightarrow> b = c"
  by (simp add: block_at_def)

lemma block_at_read:
  "rbind (read_block read i) (\<lambda>block. rbind (validate_block_v2_shape block) (\<lambda>_. Ok block)) = Ok block
     \<longleftrightarrow> block_at read i block"
  by (auto simp: block_at_def)

text \<open>What the walk knows: the blocks found are blocks, and their parents are found or waiting.\<close>

definition explored :: "reader \<Rightarrow> ancestry \<Rightarrow> object_id set \<Rightarrow> bool" where
  "explored read ancestors waiting \<longleftrightarrow> (\<forall>i block. fmlookup ancestors i = Some block \<longrightarrow>
     block_at read i block \<and> set (parent_block_ids block) \<subseteq> fset (fmdom ancestors) \<union> waiting)"

lemma explored_add:
  assumes "explored read ancestors (set (i # below))" "block_at read i block"
  shows "explored read (fmupd i block ancestors) (set (rev (parent_block_ids block) @ below))"
  using assms by (auto simp: explored_def)

definition walk_outcome :: "reader \<Rightarrow> object_id \<Rightarrow> object_id set \<Rightarrow> ancestry res \<Rightarrow> bool" where
  "walk_outcome read start inside r \<longleftrightarrow> (case r of
      Ok found \<Rightarrow> explored read found {} \<and> inside \<subseteq> fset (fmdom found) \<and> fset (fmdom found) \<subseteq> reach read start
    | Err _ \<Rightarrow> \<exists>i \<in> reach read start. \<nexists>block. block_at read i block)"

lemma walk_outcome_mono: "walk_outcome read start wider r \<Longrightarrow> inside \<subseteq> wider \<Longrightarrow> walk_outcome read start inside r"
  by (auto simp: walk_outcome_def split: result.splits)

lemma ancestors_loop_spec:
  assumes "finite (readable read)" "explored read ancestors (set stack)"
    and "fset (fmdom ancestors) \<union> set stack \<subseteq> reach read start"
  shows "\<exists>r. ancestors_loop read ancestors stack = Some r
    \<and> walk_outcome read start (fset (fmdom ancestors) \<union> set stack) r"
  using assms(2,3)
proof (induction "(card (readable read - fset (fmdom ancestors)), length stack)"
    arbitrary: ancestors stack rule: wf_induct_rule [OF wf_lex_prod [OF wf_less_than wf_less_than]])
  case 1
  show ?case
  proof (cases stack)
    case Nil
    then show ?thesis
      using "1.prems" by (subst ancestors_loop.simps) (simp add: walk_outcome_def)
  next
    case (Cons i below)
    let ?read = "rbind (read_block read i) (\<lambda>block. rbind (validate_block_v2_shape block) (\<lambda>_. Ok block))"
    consider (old) "i |\<in>| fmdom ancestors"
      | (bad) e where "i |\<notin>| fmdom ancestors" "?read = Err e"
      | (fresh) block where "i |\<notin>| fmdom ancestors" "?read = Ok block"
      by (cases ?read) auto
    then show ?thesis
    proof cases
      case old
      have "explored read ancestors (set below)"
        using "1.prems"(1) old by (auto simp: explored_def Cons)
      then obtain r where "ancestors_loop read ancestors below = Some r"
        "walk_outcome read start (fset (fmdom ancestors) \<union> set below) r"
        using "1.hyps" [of ancestors below] "1.prems"(2) by (auto simp: Cons)
      moreover have "fset (fmdom ancestors) \<union> set stack = fset (fmdom ancestors) \<union> set below"
        using old by (auto simp: Cons)
      ultimately show ?thesis
        using old by (subst ancestors_loop.simps) (simp add: Cons)
    next
      case bad
      then have "\<nexists>block. block_at read i block"
        by (metis block_at_read result.distinct(1))
      then show ?thesis
        using bad "1.prems"(2) by (subst ancestors_loop.simps) (auto simp: Cons walk_outcome_def)
    next
      case fresh
      have block: "block_at read i block"
        using fresh(2) by (simp only: block_at_read)
      let ?found = "fmupd i block ancestors" and ?stack = "rev (parent_block_ids block) @ below"
      have "readable read - fset (fmdom ?found) \<subset> readable read - fset (fmdom ancestors)"
        using block_at_readable [OF block] fresh(1) by auto
      then have "card (readable read - fset (fmdom ?found)) < card (readable read - fset (fmdom ancestors))"
        using assms(1) by (meson finite_Diff psubset_card_mono)
      moreover have "explored read ?found (set ?stack)"
        using explored_add "1.prems"(1) block by (simp add: Cons)
      moreover have "fset (fmdom ?found) \<union> set ?stack \<subseteq> reach read start"
        using "1.prems"(2) reach_trans [OF reach_parent [OF block]] by (auto simp: Cons)
      ultimately obtain r where r: "ancestors_loop read ?found ?stack = Some r"
        "walk_outcome read start (fset (fmdom ?found) \<union> set ?stack) r"
        using "1.hyps" [of ?found ?stack] by auto
      have "walk_outcome read start (fset (fmdom ancestors) \<union> set stack) r"
        by (rule walk_outcome_mono [OF r(2)]) (auto simp: Cons)
      then show ?thesis
        using fresh r(1) by (subst ancestors_loop.simps) (simp add: Cons)
    qed
  qed
qed

lemma explored_reach:
  assumes "explored read found {}" "start \<in> fset (fmdom found)"
  shows "reach read start \<subseteq> fset (fmdom found)"
proof
  fix i assume "i \<in> reach read start"
  then have "(i, start) \<in> (parent_links read)\<^sup>*"
    by (simp add: reach_def)
  then show "i \<in> fset (fmdom found)"
  proof (induction rule: converse_rtrancl_induct)
    case (step i j)
    then obtain block block' where "block_at read j block" "i \<in> set (parent_block_ids block)"
      and "fmlookup found j = Some block'"
      by (auto simp: parent_links_def fmlookup_dom_iff)
    then show ?case
      using assms(1) block_at_unique by (fastforce simp: explored_def)
  qed (use assms(2) in simp)
qed

lemma ancestors_inclusive_spec:
  assumes "finite (readable read)"
  shows "\<exists>r. ancestors_inclusive read start = Some r \<and> (case r of
      Ok found \<Rightarrow> fset (fmdom found) = reach read start
        \<and> (\<forall>i block. fmlookup found i = Some block \<longrightarrow> block_at read i block)
    | Err _ \<Rightarrow> \<exists>i \<in> reach read start. \<nexists>block. block_at read i block)"
proof -
  have "explored read fmempty (set [start])" "fset (fmdom fmempty) \<union> set [start] \<subseteq> reach read start"
    by (simp_all add: explored_def)
  from ancestors_loop_spec [OF assms this] show ?thesis
    using explored_reach [of read _ start] unfolding ancestors_inclusive_def
    by (fastforce simp: explored_def walk_outcome_def split: result.splits)
qed

lemma horizon_loop_returns:
  assumes "finite (readable read)"
  shows "\<exists>r. horizon_loop read visited current = Some r"
proof (induction "card (readable read - visited)" arbitrary: visited current rule: less_induct)
  case less
  show ?case
  proof (cases "current \<in> visited")
    case True
    then show ?thesis
      by (subst horizon_loop.simps) simp
  next
    case fresh: False
    show ?thesis
    proof (cases "read_block read current")
      case (Err e)
      then show ?thesis
        using fresh by (subst horizon_loop.simps) simp
    next
      case (Ok block)
      have "readable read - insert current visited \<subset> readable read - visited"
        using read_block_readable [OF Ok] fresh by blast
      then have "card (readable read - insert current visited) < card (readable read - visited)"
        using assms by (meson finite_Diff psubset_card_mono)
      from less [OF this] show ?thesis
        using Ok fresh by (subst horizon_loop.simps) (auto split: option.splits)
    qed
  qed
qed

lemma lineage_horizon_returns: "finite (readable read) \<Longrightarrow> \<exists>r. lineage_horizon read baseline = Some r"
  unfolding lineage_horizon_def by (rule horizon_loop_returns)

section \<open>Waiting for parents\<close>

text \<open>The parents of a block inside the set to order.\<close>

definition inner_parents :: "object_id fset \<Rightarrow> ancestry \<Rightarrow> object_id \<Rightarrow> object_id list" where
  "inner_parents new_ids ancestors i = (case fmlookup ancestors i of
     Some block \<Rightarrow> filter (\<lambda>parent. parent |\<in>| new_ids) (parent_block_ids block) | None \<Rightarrow> [])"

definition lookup_list :: "('k, 'a list) fmap \<Rightarrow> 'k \<Rightarrow> 'a list" where
  "lookup_list m k = (case fmlookup m k of Some xs \<Rightarrow> xs | None \<Rightarrow> [])"

lemma lookup_list_upd [simp]: "lookup_list (fmupd k xs m) j = (if j = k then xs else lookup_list m j)"
  by (simp add: lookup_list_def)

lemma lookup_list_empty [simp]: "lookup_list fmempty j = []"
  by (simp add: lookup_list_def)

lemma append_children:
  "lookup_list (fold (\<lambda>parent cs. fmupd parent (lookup_list cs parent @ [i]) cs) inside cs) j =
     lookup_list cs j @ replicate (count_list inside j) i"
  by (induction inside arbitrary: cs) (auto simp: replicate_app_Cons_same)

lemma pending_step_Ok:
  assumes "i \<in> fset (fmdom ancestors)"
  shows "\<exists>p'. pending_step new_ids ancestors i p = Ok p'
    \<and> remaining_parents p' = fmupd i (length (inner_parents new_ids ancestors i)) (remaining_parents p)
    \<and> (\<forall>j. lookup_list (children p') j =
         lookup_list (children p) j @ replicate (count_list (inner_parents new_ids ancestors i) j) i)"
  using assms
  by (auto simp: fmlookup_dom_iff pending_step_def inner_parents_def Let_def append_children
      simp flip: lookup_list_def)

lemma pending_steps:
  assumes "set xs \<subseteq> fset (fmdom ancestors)"
  shows "\<exists>p'. rfold (pending_step new_ids ancestors) xs p = Ok p'
    \<and> (\<forall>i. fmlookup (remaining_parents p') i =
         (if i \<in> set xs then Some (length (inner_parents new_ids ancestors i)) else fmlookup (remaining_parents p) i))
    \<and> (\<forall>j. lookup_list (children p') j = lookup_list (children p) j
         @ concat (map (\<lambda>i. replicate (count_list (inner_parents new_ids ancestors i) j) i) xs))"
  using assms
proof (induction xs arbitrary: p)
  case (Cons x xs)
  obtain p1 where p1: "pending_step new_ids ancestors x p = Ok p1"
    "remaining_parents p1 = fmupd x (length (inner_parents new_ids ancestors x)) (remaining_parents p)"
    "\<forall>j. lookup_list (children p1) j =
       lookup_list (children p) j @ replicate (count_list (inner_parents new_ids ancestors x) j) x"
    using pending_step_Ok [of x ancestors new_ids p] Cons.prems by auto
  obtain p' where "rfold (pending_step new_ids ancestors) xs p1 = Ok p'"
    "\<forall>i. fmlookup (remaining_parents p') i =
       (if i \<in> set xs then Some (length (inner_parents new_ids ancestors i)) else fmlookup (remaining_parents p1) i)"
    "\<forall>j. lookup_list (children p') j = lookup_list (children p1) j
       @ concat (map (\<lambda>i. replicate (count_list (inner_parents new_ids ancestors i) j) i) xs)"
    using Cons.IH [of p1] Cons.prems by auto
  then show ?case
    using p1 by (intro exI [of _ p']) auto
qed simp

lemma count_replicate: "count_list (replicate n x) c = (if c = x then n else 0)"
  by (induction n) auto

lemma count_concat_replicate:
  "distinct xs \<Longrightarrow> count_list (concat (map (\<lambda>i. replicate (f i) i) xs)) c = (if c \<in> set xs then f c else 0)"
  by (induction xs) (auto simp: count_list_append count_replicate)

lemma pending_children:
  assumes "fset new_ids \<subseteq> fset (fmdom ancestors)"
  shows "\<exists>p. rfold (pending_step new_ids ancestors) (sorted_list_of_fset new_ids)
      \<lparr> remaining_parents = fmempty, children = fmempty \<rparr> = Ok p
    \<and> (\<forall>i. fmlookup (remaining_parents p) i =
         (if i |\<in>| new_ids then Some (length (inner_parents new_ids ancestors i)) else None))
    \<and> (\<forall>j c. count_list (children_of p j) c =
         (if c |\<in>| new_ids then count_list (inner_parents new_ids ancestors c) j else 0))"
proof -
  obtain p where "rfold (pending_step new_ids ancestors) (sorted_list_of_fset new_ids)
      \<lparr> remaining_parents = fmempty, children = fmempty \<rparr> = Ok p"
    "\<forall>i. fmlookup (remaining_parents p) i =
         (if i |\<in>| new_ids then Some (length (inner_parents new_ids ancestors i)) else None)"
    and ch: "\<forall>j. lookup_list (children p) j =
      concat (map (\<lambda>i. replicate (count_list (inner_parents new_ids ancestors i) j) i) (sorted_list_of_fset new_ids))"
    using pending_steps [of "sorted_list_of_fset new_ids" ancestors new_ids
        "\<lparr> remaining_parents = fmempty, children = fmempty \<rparr>"] assms by auto
  moreover have "children_of p j = lookup_list (children p) j" for j
    by (simp add: children_of_def lookup_list_def)
  moreover have "distinct (sorted_list_of_fset new_ids)"
    by (simp add: sorted_list_of_fset.rep_eq)
  ultimately show ?thesis
    by (intro exI [of _ p]) (simp add: count_concat_replicate)
qed

section \<open>Releasing children\<close>

text \<open>Every child waits for at least as many parents as it is released, so the count never goes below zero.\<close>

lemma release_spec:
  assumes "\<And>c. c \<in> set cs \<Longrightarrow> \<exists>n. fmlookup rem c = Some n \<and> count_list cs c \<le> n"
  shows "\<exists>rem' zs. release cs (rem, queue) = Ok (rem', queue @ zs) \<and> distinct zs
    \<and> set zs = {c \<in> set cs. fmlookup rem c = Some (count_list cs c)}
    \<and> (\<forall>c. fmlookup rem' c = map_option (\<lambda>n. n - count_list cs c) (fmlookup rem c))"
  using assms
proof (induction cs arbitrary: rem queue)
  case Nil
  then show ?case
    by (auto simp: option.map_ident)
next
  case (Cons c cs)
  obtain n where n: "fmlookup rem c = Some n" "Suc (count_list cs c) \<le> n"
    using Cons.prems [of c] by auto
  let ?rem = "fmupd c (n - 1) rem" and ?queue = "if n - 1 = 0 then queue @ [c] else queue"
  have "\<exists>m. fmlookup ?rem d = Some m \<and> count_list cs d \<le> m" if "d \<in> set cs" for d
    using Cons.prems [of d] that n by (cases "d = c") auto
  then obtain rem' zs where go: "release cs (?rem, ?queue) = Ok (rem', ?queue @ zs)" "distinct zs"
    and zs: "set zs = {d \<in> set cs. fmlookup ?rem d = Some (count_list cs d)}"
    and rem': "\<forall>d. fmlookup rem' d = map_option (\<lambda>n. n - count_list cs d) (fmlookup ?rem d)"
    using Cons.IH [of ?rem ?queue] by blast
  have run: "release (c # cs) (rem, queue) = Ok (rem', queue @ (if n - 1 = 0 then [c] else []) @ zs)"
    using go(1) n(1) by auto
  have none: "c \<notin> set cs \<and> c \<notin> set zs" if "n - 1 = 0"
    using that n(2) zs count_list_0_iff [of cs c] by auto
  have "set ((if n - 1 = 0 then [c] else []) @ zs) = {d \<in> set (c # cs). fmlookup rem d = Some (count_list (c # cs) d)}"
  proof (rule set_eqI)
    fix d
    show "d \<in> set ((if n - 1 = 0 then [c] else []) @ zs)
        \<longleftrightarrow> d \<in> {d \<in> set (c # cs). fmlookup rem d = Some (count_list (c # cs) d)}"
    proof (cases "d = c")
      case True
      have "c \<in> set zs \<longleftrightarrow> c \<in> set cs \<and> n - 1 = count_list cs c"
        using zs by auto
      moreover have "c \<notin> set cs \<Longrightarrow> count_list cs c = 0"
        by simp
      moreover obtain k where "n = Suc k"
        using n(2) by (cases n) auto
      ultimately show ?thesis
        using n count_list_0_iff [of cs c] unfolding True by (cases "k = 0") auto
    next
      case False
      then show ?thesis
        using zs by simp
    qed
  qed
  moreover have "distinct ((if n - 1 = 0 then [c] else []) @ zs)"
    using go(2) none by auto
  moreover have "fmlookup rem' d = map_option (\<lambda>n. n - count_list (c # cs) d) (fmlookup rem d)" for d
    using rem' n by (cases "fmlookup rem d") auto
  ultimately show ?case
    using run by blast
qed

section \<open>Parents first\<close>

text \<open>
  The state of the ordering: what is listed or ready is what has all its parents listed, and every block
  waits for the parents that are not listed.
\<close>

definition ordering_state ::
  "object_id set \<Rightarrow> (object_id \<Rightarrow> object_id list) \<Rightarrow> (object_id, nat) fmap \<Rightarrow> object_id list \<Rightarrow> object_id list \<Rightarrow> bool" where
  "ordering_state N par rem queue order \<longleftrightarrow>
     distinct (order @ queue) \<and> set (order @ queue) \<subseteq> N
     \<and> (\<forall>i. fmlookup rem i = (if i \<in> N then Some (length (filter (\<lambda>p. p \<notin> set order) (par i))) else None))
     \<and> (\<forall>i \<in> N. i \<in> set (order @ queue) \<longleftrightarrow> set (par i) \<subseteq> set order)
     \<and> (\<forall>k < length order. set (par (order ! k)) \<subseteq> set (take k order))"

lemma filter_listed:
  "i \<notin> A \<Longrightarrow> length (filter (\<lambda>p. p \<notin> insert i A) xs) = length (filter (\<lambda>p. p \<notin> A) xs) - count_list xs i
     \<and> count_list xs i \<le> length (filter (\<lambda>p. p \<notin> A) xs)"
  by (induction xs) auto

lemma filter_all_counted:
  assumes "i \<notin> A"
  shows "length (filter (\<lambda>p. p \<notin> A) xs) = count_list xs i \<longleftrightarrow> set xs \<subseteq> insert i A"
proof -
  have "length (filter (\<lambda>p. p \<notin> insert i A) xs) = 0 \<longleftrightarrow> set xs \<subseteq> insert i A"
    by (auto simp: filter_empty_conv)
  then show ?thesis
    using filter_listed [OF assms, of xs] by auto
qed

lemma ordering_step:
  assumes ord: "ordering_state N par rem (i # later) order"
    and cs: "\<And>c. count_list cs c = (if c \<in> N then count_list (par c) i else 0)"
  shows "\<exists>rem' zs. release cs (rem, later) = Ok (rem', later @ zs) \<and> ordering_state N par rem' (later @ zs) (order @ [i])"
proof -
  let ?A = "set order"
  have i: "i \<notin> ?A" and dist: "distinct (order @ i # later)" and sub: "set (order @ i # later) \<subseteq> N"
    and rem: "\<And>c. fmlookup rem c = (if c \<in> N then Some (length (filter (\<lambda>p. p \<notin> ?A) (par c))) else None)"
    and mem: "\<And>c. c \<in> N \<Longrightarrow> c \<in> set (order @ i # later) \<longleftrightarrow> set (par c) \<subseteq> ?A"
    and topo: "\<And>k. k < length order \<Longrightarrow> set (par (order ! k)) \<subseteq> set (take k order)"
    using ord by (auto simp: ordering_state_def)
  have in_cs: "c \<in> set cs \<longleftrightarrow> c \<in> N \<and> i \<in> set (par c)" for c
    using cs [of c] count_list_0_iff [of cs c] count_list_0_iff [of "par c" i] by (auto split: if_splits)
  have "\<exists>n. fmlookup rem c = Some n \<and> count_list cs c \<le> n" if "c \<in> set cs" for c
    using that rem [of c] cs [of c] filter_listed [OF i, of "par c"] by (auto simp: in_cs)
  then obtain rem' zs where go: "release cs (rem, later) = Ok (rem', later @ zs)" "distinct zs"
    and zs: "set zs = {c \<in> set cs. fmlookup rem c = Some (count_list cs c)}"
    and rem': "\<forall>c. fmlookup rem' c = map_option (\<lambda>n. n - count_list cs c) (fmlookup rem c)"
    using release_spec [of cs rem later] by blast
  have in_zs: "c \<in> set zs \<longleftrightarrow> c \<in> N \<and> i \<in> set (par c) \<and> set (par c) \<subseteq> insert i ?A" for c
    using zs rem [of c] cs [of c] filter_all_counted [OF i, of "par c"] by (auto simp: in_cs)
  have apart: "c \<notin> set (order @ i # later)" if "c \<in> set zs" for c
    using mem [of c] that i unfolding in_zs by blast
  have "ordering_state N par rem' (later @ zs) (order @ [i])"
    unfolding ordering_state_def
  proof (intro conjI allI ballI impI)
    show "distinct ((order @ [i]) @ later @ zs)"
      using dist go(2) apart by auto
    show "set ((order @ [i]) @ later @ zs) \<subseteq> N"
      using sub by (auto simp: in_zs)
    show "fmlookup rem' c = (if c \<in> N then Some (length (filter (\<lambda>p. p \<notin> set (order @ [i])) (par c))) else None)" for c
      using rem' rem [of c] cs [of c] filter_listed [OF i, of "par c"] by simp
    show "c \<in> set ((order @ [i]) @ later @ zs) \<longleftrightarrow> set (par c) \<subseteq> set (order @ [i])" if "c \<in> N" for c
      using mem [OF that] that by (auto simp: in_zs)
    show "set (par ((order @ [i]) ! k)) \<subseteq> set (take k (order @ [i]))" if "k < length (order @ [i])" for k
    proof (cases "k < length order")
      case True
      then show ?thesis
        using topo [of k] by (simp add: nth_append)
    next
      case False
      then have "k = length order"
        using that by simp
      then show ?thesis
        using mem [of i] sub by simp
    qed
  qed
  then show ?thesis
    using go(1) by blast
qed

lemma order_loop_spec:
  assumes "finite N" "ordering_state N par rem queue order"
    and "\<And>i c. count_list (children_of p i) c = (if c \<in> N then count_list (par c) i else 0)"
  shows "\<exists>rem' order'. order_loop p rem queue order = Some (Ok order') \<and> ordering_state N par rem' [] order'"
  using assms(2)
proof (induction "card N - length order" arbitrary: rem queue order rule: less_induct)
  case less
  show ?case
  proof (cases queue)
    case Nil
    then show ?thesis
      using less.prems by (subst order_loop.simps) auto
  next
    case (Cons i later)
    obtain rem' zs where go: "release (children_of p i) (rem, later) = Ok (rem', later @ zs)"
      "ordering_state N par rem' (later @ zs) (order @ [i])"
      using ordering_step [OF less.prems [unfolded Cons] assms(3)] by blast
    have "distinct (order @ [i])" "set (order @ [i]) \<subseteq> N"
      using less.prems by (auto simp: ordering_state_def Cons)
    then have "length (order @ [i]) \<le> card N"
      by (metis assms(1) card_mono distinct_card)
    then show ?thesis
      using less.hyps [OF _ go(2)] go(1) by (subst order_loop.simps) (auto simp: Cons)
  qed
qed

definition inner_links :: "object_id set \<Rightarrow> (object_id \<Rightarrow> object_id list) \<Rightarrow> (object_id \<times> object_id) set" where
  "inner_links N par = {(parent, i). i \<in> N \<and> parent \<in> N \<and> parent \<in> set (par i)}"

lemma ordering_complete:
  assumes "finite N" "\<And>i. set (par i) \<subseteq> N" "ordering_state N par rem [] order" "acyclic (inner_links N par)"
  shows "set order = N"
proof -
  have "finite (inner_links N par)"
    by (rule finite_subset [of _ "N \<times> N"]) (auto simp: inner_links_def assms(1))
  then have "wf (inner_links N par)"
    using assms(4) by (rule finite_acyclic_wf)
  then have "i \<in> N \<longrightarrow> i \<in> set order" for i
  proof (induction i rule: wf_induct_rule)
    case (less i)
    show ?case
    proof
      assume i: "i \<in> N"
      have "set (par i) \<subseteq> set order"
        using less i assms(2) [of i] by (auto simp: inner_links_def)
      then show "i \<in> set order"
        using assms(3) i by (simp add: ordering_state_def)
    qed
  qed
  then show ?thesis
    using assms(3) by (auto simp: ordering_state_def)
qed

lemma topological_order_spec:
  fixes new_ids ancestors
  defines "par \<equiv> inner_parents new_ids ancestors"
  assumes "fset new_ids \<subseteq> fset (fmdom ancestors)"
  shows "\<exists>r. topological_order new_ids ancestors = Some r \<and> (case r of
      Ok order \<Rightarrow> distinct order \<and> set order = fset new_ids
        \<and> (\<forall>k < length order. set (par (order ! k)) \<subseteq> set (take k order))
    | Err _ \<Rightarrow> \<not> acyclic (inner_links (fset new_ids) par))"
proof -
  let ?N = "fset new_ids"
  obtain p where p: "rfold (pending_step new_ids ancestors) (sorted_list_of_fset new_ids)
      \<lparr> remaining_parents = fmempty, children = fmempty \<rparr> = Ok p"
    and rem: "\<And>i. fmlookup (remaining_parents p) i = (if i \<in> ?N then Some (length (par i)) else None)"
    and ch: "\<And>i c. count_list (children_of p i) c = (if c \<in> ?N then count_list (par c) i else 0)"
    using pending_children [OF assms(2)] unfolding par_def by blast
  let ?ready = "sort (map fst (filter (\<lambda>(_, count). count = 0) (in_key_order (remaining_parents p))))"
  have "distinct (map fst (in_key_order (remaining_parents p)))"
    by (simp add: in_key_order_def o_def sorted_list_of_fset.rep_eq)
  then have ready: "distinct ?ready" "set ?ready = {i \<in> ?N. par i = []}"
    using rem by (auto simp: set_in_key_order distinct_map_filter image_iff split: if_splits)
  have "ordering_state ?N par (remaining_parents p) ?ready []"
    using ready rem by (simp add: ordering_state_def)
  from order_loop_spec [OF finite_fset this ch] obtain rem' order where
    order: "order_loop p (remaining_parents p) ?ready [] = Some (Ok order)"
    and ord: "ordering_state ?N par rem' [] order"
    by blast
  have facts: "distinct order" "set order \<subseteq> ?N" "\<forall>k < length order. set (par (order ! k)) \<subseteq> set (take k order)"
    using ord by (auto simp: ordering_state_def)
  have run: "topological_order new_ids ancestors = Some (if length order \<noteq> fcard new_ids
      then Err (Integrity ''candidate block set contains a cycle'') else Ok order)"
    unfolding topological_order_def p run_then_def by (simp add: order Let_def)
  have "\<And>i. set (par i) \<subseteq> ?N"
    by (auto simp: par_def inner_parents_def split: option.splits)
  then have complete: "acyclic (inner_links ?N par) \<Longrightarrow> length order = fcard new_ids"
    using ordering_complete [OF _ _ ord] facts(1) by (simp add: fcard.rep_eq distinct_card [symmetric])
  show ?thesis
  proof (cases "length order = fcard new_ids")
    case True
    then have "set order = ?N"
      using facts by (simp add: fcard.rep_eq card_subset_eq distinct_card [symmetric])
    then show ?thesis
      using run True facts by simp
  next
    case False
    then show ?thesis
      using run complete by auto
  qed
qed

end
