(* ===== verification/Algebra_Evidence.thy ===== *)
theory Algebra_Evidence
  imports Algebra_Confluence Replay_Chain
begin

text \<open>
  Evidence from the object store (\<open>patch_algebra/evidence.rs\<close>) and what it makes of the replay oracle.
  The locale states what an evidence source owes the algebra: it knows what lifecycle replay can read.
  Under it, a side that lifecycle replay accepts also replays in the oracle, with the same node index and
  the same texts. The store evidence is its instance.
\<close>

section \<open>Store evidence\<close>

definition evidence_read_blob :: "reader \<Rightarrow> evidence_scope \<Rightarrow> evidence_fact \<Rightarrow> object_id \<Rightarrow> blob_payload evidence" where
  "evidence_read_blob read scope wanted blob_id = (case read blob_id of
     Err err \<Rightarrow> NotKnown (UnreadableEvidence scope wanted (Some blob_id) (display_error err))
   | Ok None \<Rightarrow> NotKnown (MissingEvidence scope wanted (Some blob_id) None)
   | Ok (Some envelope) \<Rightarrow>
       if env_type envelope \<noteq> Blob
       then NotKnown (WrongObjectType scope blob_id Blob (env_type envelope))
       else case decode_blob (env_payload envelope) of
         Ok blob \<Rightarrow> Known blob
       | Err err \<Rightarrow> NotKnown (MalformedEvidence scope wanted (Some blob_id) (display_error err)))"

definition map_blob_payload_evidence :: "(blob_payload \<Rightarrow> 'a evidence) \<Rightarrow> blob_payload evidence \<Rightarrow> 'a evidence" where
  "map_blob_payload_evidence on_known evidence = (case evidence of
     Known blob \<Rightarrow> on_known blob | NotKnown e \<Rightarrow> NotKnown e)"

text \<open>
  The text of a baseline node. A blob that is not stored may be the identity of an edited text, which
  \<open>materialize\<close> answers for: the replay of the lineage, or its anchored form.
\<close>

definition store_baseline_text ::
  "reader \<Rightarrow> (node_id \<Rightarrow> object_id \<Rightarrow> bytes option res) \<Rightarrow> lifecycle_state \<Rightarrow> evidence_scope \<Rightarrow> node_id
   \<Rightarrow> object_id \<Rightarrow> bytes evidence" where
  "store_baseline_text read materialize baseline_state scope node_id blob_id =
     (case live_node_at baseline_state node_id of
        None \<Rightarrow> NotKnown (MissingEvidence scope FactBaselineText (Some blob_id) (Some node_id))
      | Some live \<Rightarrow>
          (case ln_content live of
             SymlinkContent _ \<Rightarrow> NotKnown (MalformedEvidence scope FactBaselineText (Some blob_id)
               ''baseline text node has symlink content'')
           | FileContent live_blob_id _ \<Rightarrow>
               if ln_kind live \<noteq> TextFile \<or> live_blob_id \<noteq> blob_id
               then NotKnown (MalformedEvidence scope FactBaselineText (Some blob_id)
                 ''baseline text request does not match live text node'')
               else case evidence_read_blob read scope FactBaselineText blob_id of
                 Known blob \<Rightarrow>
                   if blob_kind_of blob = BlobText then Known (blob_content blob)
                   else NotKnown (WrongBlobKind scope blob_id BlobText (blob_kind_of blob))
               | NotKnown (MissingEvidence scope wanted object_id _) \<Rightarrow>
                   (case materialize node_id blob_id of
                      Ok (Some text) \<Rightarrow> Known text
                    | Ok None \<Rightarrow> NotKnown (MissingEvidence scope wanted object_id (Some node_id))
                    | Err err \<Rightarrow> NotKnown (UnreadableEvidence scope wanted object_id (display_error err)))
               | NotKnown e \<Rightarrow> NotKnown e))"

definition store_evidence ::
  "reader \<Rightarrow> (node_id \<Rightarrow> object_id \<Rightarrow> bytes option res) \<Rightarrow> lifecycle_state \<Rightarrow> patch_algebra_evidence" where
  "store_evidence read materialize baseline_state = \<lparr>
     ev_baseline_text = store_baseline_text read materialize baseline_state,
     ev_blob_kind = \<lambda>scope blob_id. map_blob_payload_evidence (\<lambda>blob. Known (blob_kind_of blob))
       (evidence_read_blob read scope FactBlobKind blob_id),
     ev_blob_content = \<lambda>scope blob_id.
       map_blob_payload_evidence (\<lambda>blob. Known (blob_kind_of blob, blob_content blob))
         (evidence_read_blob read scope FactBlobBytes blob_id) \<rparr>"

definition from_replay_derived ::
  "reader \<Rightarrow> (node_id \<Rightarrow> object_id \<Rightarrow> bytes option res) \<Rightarrow> replay_derived_lifecycle_state
   \<Rightarrow> (evidence_error, patch_algebra_evidence) result" where
  "from_replay_derived read materialize replay =
     rbind (map_err (\<lambda>err. MalformedEvidence SealedBaselineRequired FactBaselineState
              (Some (rd_baseline_block_id replay)) (display_error err))
              (validate_internal_consistency (rd_state replay))) (\<lambda>_.
     Ok (store_evidence read materialize (rd_state replay)))"

section \<open>What evidence owes the algebra\<close>

locale algebra_evidence =
  fixes read :: reader and schema_one :: bool and baseline :: lifecycle_state and base_texts :: text_cache
    and evidence :: patch_algebra_evidence and scope :: evidence_scope
  assumes kind_known: "resolver_blob_kind read schema_one b = Ok (Some k) \<Longrightarrow> ev_blob_kind evidence scope b = Known k"
    and content_known: "resolver_blob_content read schema_one b = Ok (Some (BlobText, c)) \<Longrightarrow>
          ev_blob_content evidence scope b = Known (BlobText, c)"
    and edited_known: "live_node_at baseline n = Some node \<Longrightarrow> ln_kind node = TextFile \<Longrightarrow>
          ln_content node = FileContent b m \<Longrightarrow> fmlookup base_texts n = Some t \<Longrightarrow>
          ev_baseline_text evidence SealedBaselineRequired n b = Known t"
    and stored_known: "live_node_at baseline n = Some node \<Longrightarrow> ln_kind node = TextFile \<Longrightarrow>
          ln_content node = FileContent b m \<Longrightarrow> fmlookup base_texts n = None \<Longrightarrow>
          resolver_blob_content read schema_one b = Ok (Some (BlobText, c)) \<Longrightarrow>
          ev_baseline_text evidence SealedBaselineRequired n b = Known c"
    and texts_live: "fmlookup base_texts n \<noteq> None \<Longrightarrow> live_node_at baseline n \<noteq> None"

fun created_node :: "decoded_operation_kind \<Rightarrow> node_id option" where
  "created_node (DCreateFile _ n _ _) = Some n"
| "created_node _ = None"

fun deleted_node :: "decoded_operation_kind \<Rightarrow> node_id option" where
  "deleted_node (DDeleteNode _ n _) = Some n"
| "deleted_node _ = None"

definition creates :: "decoded_operation_kind list \<Rightarrow> node_id set" where
  "creates ks = {n. \<exists>k \<in> set ks. created_node k = Some n}"

text \<open>No node comes back after it was deleted on the same side.\<close>

fun no_restore :: "decoded_operation_kind list \<Rightarrow> bool" where
  "no_restore [] \<longleftrightarrow> True"
| "no_restore (k # ks) \<longleftrightarrow> (\<forall>n. deleted_node k = Some n \<longrightarrow> n \<notin> creates ks) \<and> no_restore ks"

fun symlink_op :: "decoded_operation_kind \<Rightarrow> bool" where
  "symlink_op (DCreateSymlink _ _ _) = True"
| "symlink_op (DDeleteNode _ _ (DPreSymlink _)) = True"
| "symlink_op _ = False"

text \<open>
  The oracle state beside the state of lifecycle replay: one index, and for every live text file the
  oracle would read the text that lifecycle replay would. The last argument is what is still to come.
\<close>

definition is_live :: "node_status \<Rightarrow> bool" where
  "is_live st = (case st of Live _ \<Rightarrow> True | _ \<Rightarrow> False)"

definition beside_at ::
  "reader \<Rightarrow> bool \<Rightarrow> lifecycle_state \<Rightarrow> patch_algebra_evidence \<Rightarrow> evidence_scope \<Rightarrow> node_id \<Rightarrow> view
   \<Rightarrow> bytes option \<Rightarrow> node_id set \<Rightarrow> bool" where
  "beside_at read schema_one baseline evidence scope n v txt coming \<longleftrightarrow>
     (\<forall>b. live_text_blob (fst v) = Some b \<longrightarrow>
        (case txt of
           Some t \<Rightarrow> view_text baseline evidence scope n v = Some t
         | None \<Rightarrow> (\<forall>c. resolver_blob_content read schema_one b = Ok (Some (BlobText, c)) \<longrightarrow>
             view_text baseline evidence scope n v = Some c)))
     \<and> (snd v \<noteq> None \<and> is_live (fst v) \<longrightarrow> txt = snd v)
     \<and> (\<not> is_live (fst v) \<and> (snd v \<noteq> None \<or> txt \<noteq> None \<or> live_node_at baseline n \<noteq> None) \<longrightarrow> n \<notin> coming)"

definition beside ::
  "reader \<Rightarrow> bool \<Rightarrow> lifecycle_state \<Rightarrow> patch_algebra_evidence \<Rightarrow> evidence_scope \<Rightarrow> oracle_state \<Rightarrow> replay_state
   \<Rightarrow> node_id set \<Rightarrow> bool" where
  "beside read schema_one baseline evidence scope orc st coming \<longleftrightarrow>
     os_lifecycle orc = fst st
     \<and> (\<forall>n. beside_at read schema_one baseline evidence scope n (oracle_view orc n) (fmlookup (snd st) n) coming)"

lemma creates_Cons: "creates ks \<subseteq> creates (k # ks)"
  by (auto simp: creates_def)

lemma beside_at_fewer:
  "beside_at read schema_one baseline evidence scope n v txt wider \<Longrightarrow> coming \<subseteq> wider \<Longrightarrow>
     beside_at read schema_one baseline evidence scope n v txt coming"
  by (auto simp: beside_at_def)

lemma beside_at_text:
  "beside_at read schema_one baseline evidence scope n v txt coming \<Longrightarrow> snd v = Some t \<Longrightarrow> is_live (fst v) \<Longrightarrow>
     txt = Some t"
  by (simp add: beside_at_def)

text \<open>A text that lifecycle replay reads is the text that the oracle reads.\<close>

lemma beside_current_text:
  assumes rel: "beside read schema_one baseline evidence scope orc st coming"
    and live: "live_node_at (fst st) n = Some node" "ln_kind node = TextFile" "ln_content node = FileContent b m"
    and current: "replay_current_text read schema_one (snd st) n b = Ok c"
  shows "oracle_current_text baseline evidence scope n orc = Ok (c, orc\<lparr> os_texts := fmupd n c (os_texts orc) \<rparr>)"
proof -
  have "fst (oracle_view orc n) = Live node"
    using live(1) rel by (simp add: beside_def oracle_view_def live_node_at_def)
  moreover have "beside_at read schema_one baseline evidence scope n (oracle_view orc n) (fmlookup (snd st) n) coming"
    using rel by (simp add: beside_def)
  ultimately have "view_text baseline evidence scope n (oracle_view orc n) = Some c"
    using current live(2,3)
    by (auto simp: beside_at_def live_text_blob_def replay_current_text_def split: option.splits if_splits)
  then show ?thesis
    by (simp add: oracle_current_text_iff)
qed

lemma beside_step:
  assumes "beside read schema_one baseline evidence scope orc st wider" "coming \<subseteq> wider"
    and "os_lifecycle orc' = fst st'" "oracle_view orc' = (oracle_view orc)(n := v)"
    and "\<And>m. m \<noteq> n \<Longrightarrow> fmlookup (snd st') m = fmlookup (snd st) m"
    and "beside_at read schema_one baseline evidence scope n v (fmlookup (snd st') n) coming"
  shows "beside read schema_one baseline evidence scope orc' st' coming"
  using assms by (auto simp: beside_def intro: beside_at_fewer)

lemma oracle_effect_Ok:
  "outcome = (Ok x, s) \<Longrightarrow> oracle_effect outcome orc = Ok (orc\<lparr> os_lifecycle := s \<rparr>)"
  by (simp add: oracle_effect_def)

text \<open>Changing the path or the mode of a node changes no text.\<close>

lemma beside_at_same_blob:
  assumes "beside_at read schema_one baseline evidence scope n v txt wider" "coming \<subseteq> wider"
    and "live_text_blob (fst w) = live_text_blob (fst v)" "snd w = snd v" "is_live (fst v)" "is_live (fst w)"
  shows "beside_at read schema_one baseline evidence scope n w txt coming"
proof -
  have "view_text baseline evidence scope n w = view_text baseline evidence scope n v"
    using assms(3,4) by (rule view_text_cong)
  then show ?thesis
    using assms unfolding beside_at_def by (auto split: option.splits)
qed

context algebra_evidence
begin

lemma create_step:
  assumes wf: "wf_lifecycle (fst st)"
    and rel: "beside read schema_one baseline evidence scope orc st (creates (DCreateFile path n b m # ks))"
    and ok: "apply_state_effect sha256 read schema_one (DCreateFile path n b m) st = Ok st'"
  shows "\<exists>orc'. apply_operation sha256 baseline evidence scope (DCreateFile path n b m) orc = Ok orc'
    \<and> beside read schema_one baseline evidence scope orc' st' (creates ks)"
proof -
  obtain p bk kind s' where p: "repo_path_parse path = Ok p"
    and bk: "resolver_blob_kind read schema_one b = Ok (Some bk)"
    and kind: "node_kind_from_file_blob_kind bk = Ok kind"
    and s': "create_node n \<lparr> ln_path = p, ln_kind = kind, ln_content = FileContent b m \<rparr> (fst st) = (Ok (), s')"
    and st': "st' = (s', snd st)"
    using ok by (cases st) (auto simp: parse_repo_path_Ok effect_Ok)
  let ?orc = "orc\<lparr> os_lifecycle := s' \<rparr>"
  have same: "os_lifecycle orc = fst st"
    using rel by (simp add: beside_def)
  have run: "apply_operation sha256 baseline evidence scope (DCreateFile path n b m) orc = Ok ?orc"
    using kind_known [OF bk] p kind s' same by (simp add: apply_operation_def apply_create_def oracle_effect_Ok)
  then have holds: "effect_holds sha256 baseline evidence scope (DCreateFile path n b m) orc ?orc"
    using apply_operation_iff [of orc "DCreateFile path n b m"] wf same by simp
  let ?v = "(Live \<lparr> ln_path = p, ln_kind = kind, ln_content = FileContent b m \<rparr>, snd (oracle_view orc n))"
  have v: "oracle_view ?orc = (oracle_view orc)(n := ?v)" and dead: "\<not> is_live (fst (oracle_view orc n))"
    using holds kind_known [OF bk] kind p
    by (auto simp: effect_holds_def known_def is_live_def Let_def split: if_splits)
  have at: "beside_at read schema_one baseline evidence scope n (oracle_view orc n) (fmlookup (snd st) n)
      (creates (DCreateFile path n b m # ks))"
    using rel by (simp add: beside_def)
  then have fresh: "snd (oracle_view orc n) = None" "fmlookup (snd st) n = None" "live_node_at baseline n = None"
    using dead by (auto simp: beside_at_def creates_def)
  have "view_text baseline evidence scope n ?v = Some c"
    if "resolver_blob_content read schema_one b = Ok (Some (BlobText, c))" "kind = TextFile" for c
    using content_known [OF that(1)] that(2) fresh by (simp add: view_text_def live_text_blob_def known_def)
  then have "beside_at read schema_one baseline evidence scope n ?v (fmlookup (snd st) n) (creates ks)"
    using fresh by (auto simp: beside_at_def is_live_def live_text_blob_def split: if_splits)
  then show ?thesis
    using run beside_step [OF rel creates_Cons, of ?orc st' n ?v] v st' by auto
qed

lemma delete_step:
  assumes wf: "wf_lifecycle (fst st)"
    and rel: "beside read schema_one baseline evidence scope orc st (creates (DDeleteNode path n pre # ks))"
    and gone: "n \<notin> creates ks" and plain: "\<not> symlink_op (DDeleteNode path n pre)"
    and ok: "apply_state_effect sha256 read schema_one (DDeleteNode path n pre) st = Ok st'"
  shows "\<exists>orc'. apply_operation sha256 baseline evidence scope (DDeleteNode path n pre) orc = Ok orc'
    \<and> beside read schema_one baseline evidence scope orc' st' (creates ks)"
proof -
  obtain kind b m where pre: "pre = DPreFile kind b m"
    using plain by (cases pre) auto
  obtain p x s' where p: "repo_path_parse path = Ok p"
    and s': "delete_node_checked n \<lparr> ln_path = p, ln_kind = kind, ln_content = FileContent b m \<rparr> (fst st) = (Ok x, s')"
    and st': "st' = (s', fmdrop n (snd st))"
    using ok by (cases st) (auto simp: pre parse_repo_path_Ok effect_Ok expected_deleted_node_def)
  let ?orc = "orc\<lparr> os_lifecycle := s' \<rparr>"
  have same: "os_lifecycle orc = fst st"
    using rel by (simp add: beside_def)
  have run: "apply_operation sha256 baseline evidence scope (DDeleteNode path n pre) orc = Ok ?orc"
    using p s' same by (simp add: pre apply_operation_def apply_delete_file_def oracle_effect_Ok)
  then have "effect_holds sha256 baseline evidence scope (DDeleteNode path n pre) orc ?orc"
    using apply_operation_iff [of orc "DDeleteNode path n pre"] wf same by simp
  then obtain t where v: "oracle_view ?orc = (oracle_view orc)(n := (Tombstoned t, snd (oracle_view orc n)))"
    by (auto simp: effect_holds_def pre Let_def split: if_splits)
  have "beside_at read schema_one baseline evidence scope n (Tombstoned t, snd (oracle_view orc n)) None (creates ks)"
    using gone by (simp add: beside_at_def is_live_def live_text_blob_def)
  then show ?thesis
    using run beside_step [OF rel creates_Cons, of ?orc st' n] v st' by auto
qed

lemma file_step:
  assumes wf: "wf_lifecycle (os_lifecycle orc)"
    and rel: "beside read schema_one baseline evidence scope orc st (creates (k # ks))"
    and run: "apply_operation sha256 baseline evidence scope k orc = Ok orc'" and same: "os_lifecycle orc' = fst st'"
    and k: "k = DChangePerm n old_mode new_mode \<or> k = DReplaceBinary n old_blob_id new_blob_id"
    and texts: "snd st' = snd st"
  shows "beside read schema_one baseline evidence scope orc' st' (creates ks)"
proof -
  have "effect_holds sha256 baseline evidence scope k orc orc'"
    using apply_operation_iff [OF wf, of k] run k by auto
  then obtain st1 f where st1: "on_file (fst (oracle_view orc n)) f = Some st1"
    and f: "f = set_mode old_mode new_mode \<or> f = set_blob old_blob_id new_blob_id"
    and v: "oracle_view orc' = (oracle_view orc)(n := (st1, snd (oracle_view orc n)))"
    using k by (auto simp: effect_holds_def split: if_splits)
  obtain node b m content where node: "fst (oracle_view orc n) = Live node" "ln_content node = FileContent b m"
    and content: "f node b m = Some content" "st1 = Live (node\<lparr> ln_content := content \<rparr>)"
    using st1 by (auto simp: on_file_Some)
  then have "live_text_blob st1 = live_text_blob (fst (oracle_view orc n))"
    using f by (auto simp: set_mode_def set_blob_def live_text_blob_def split: if_splits)
  moreover have "beside_at read schema_one baseline evidence scope n (oracle_view orc n)
      (fmlookup (snd st) n) (creates (k # ks))"
    using rel by (simp add: beside_def)
  ultimately have "beside_at read schema_one baseline evidence scope n (st1, snd (oracle_view orc n))
      (fmlookup (snd st) n) (creates ks)"
    using beside_at_same_blob [OF _ creates_Cons, where w = "(st1, snd (oracle_view orc n))"] node content
    by (simp add: is_live_def)
  then show ?thesis
    using beside_step [OF rel creates_Cons same v] texts by simp
qed

lemma chmod_step:
  assumes wf: "wf_lifecycle (fst st)"
    and rel: "beside read schema_one baseline evidence scope orc st (creates (DChangePerm n old new # ks))"
    and ok: "apply_state_effect sha256 read schema_one (DChangePerm n old new) st = Ok st'"
  shows "\<exists>orc'. apply_operation sha256 baseline evidence scope (DChangePerm n old new) orc = Ok orc'
    \<and> beside read schema_one baseline evidence scope orc' st' (creates ks)"
proof -
  have same: "os_lifecycle orc = fst st"
    using rel by (simp add: beside_def)
  obtain x s' where s': "change_file_mode n old new (fst st) = (Ok x, s')" and st': "st' = (s', snd st)"
    using ok by (cases st) (auto simp: effect_Ok)
  have run: "apply_operation sha256 baseline evidence scope (DChangePerm n old new) orc =
      Ok (orc\<lparr> os_lifecycle := s' \<rparr>)"
    using s' same by (simp add: apply_operation_def oracle_effect_Ok)
  then show ?thesis
    using file_step [OF _ rel run, where st' = st' and n = n] wf same st' by simp
qed

lemma replace_step:
  assumes wf: "wf_lifecycle (fst st)"
    and rel: "beside read schema_one baseline evidence scope orc st (creates (DReplaceBinary n old new # ks))"
    and ok: "apply_state_effect sha256 read schema_one (DReplaceBinary n old new) st = Ok st'"
  shows "\<exists>orc'. apply_operation sha256 baseline evidence scope (DReplaceBinary n old new) orc = Ok orc'
    \<and> beside read schema_one baseline evidence scope orc' st' (creates ks)"
proof -
  have same: "os_lifecycle orc = fst st"
    using rel by (simp add: beside_def)
  obtain x s' where s': "replace_file_blob n old new (fst st) = (Ok x, s')" and st': "st' = (s', snd st)"
    and binary: "resolver_blob_kind read schema_one new = Ok (Some BlobBinary)"
    using ok by (cases st) (auto simp: effect_Ok require_binary_blob_def split: if_splits)
  have run: "apply_operation sha256 baseline evidence scope (DReplaceBinary n old new) orc =
      Ok (orc\<lparr> os_lifecycle := s' \<rparr>)"
    using s' same kind_known [OF binary] by (simp add: apply_operation_def apply_replace_binary_def oracle_effect_Ok)
  then show ?thesis
    using file_step [OF _ rel run, where st' = st' and n = n] wf same st' by simp
qed

lemma edit_step:
  assumes k: "k = DEditText n span_id old_hash left right replacement old_text llen rlen"
    and wf: "wf_lifecycle (fst st)"
    and rel: "beside read schema_one baseline evidence scope orc st (creates (k # ks))"
    and ok: "apply_state_effect sha256 read schema_one k st = Ok st'"
  shows "\<exists>orc'. apply_operation sha256 baseline evidence scope k orc = Ok orc'
    \<and> beside read schema_one baseline evidence scope orc' st' (creates ks)"
proof -
  have same: "os_lifecycle orc = fst st"
    using rel by (simp add: beside_def)
  obtain live where live: "live_node_at (fst st) n = Some live" and kind: "ln_kind live = TextFile"
    using ok by (cases st) (auto simp: k apply_edit_text_def)
  obtain b m where content: "ln_content live = FileContent b m"
    using ok live by (cases st; cases "ln_content live") (auto simp: k apply_edit_text_def)
  obtain current start stop t blob_id x s' where
    current: "replay_current_text read schema_one (snd st) n b = Ok current"
    and span: "resolve_text_span sha256 current old_text left right span_id n old_hash llen rlen = Ok (start, stop)"
    and t: "splice_text current start stop replacement = Ok t" and blob_id: "text_blob_id sha256 t = Ok blob_id"
    and s': "set_text_blob n blob_id (fst st) = (Ok x, s')" and st': "st' = (s', fmupd n t (snd st))"
    using ok live kind content by (cases st) (auto simp: k apply_edit_text_def effect_Ok)
  let ?orc = "orc\<lparr> os_lifecycle := s', os_texts := fmupd n t (fmupd n current (os_texts orc)) \<rparr>"
  have fst_view: "fst (oracle_view orc n) = Live live"
    using live same by (simp add: oracle_view_def live_node_at_def)
  have "oracle_current_text baseline evidence scope n orc =
      Ok (current, orc\<lparr> os_texts := fmupd n current (os_texts orc) \<rparr>)"
    by (rule beside_current_text [OF rel live kind content current])
  then have run: "apply_operation sha256 baseline evidence scope k orc = Ok ?orc"
    using span t blob_id s' same by (simp add: k apply_operation_def oracle_effect_def)
  then have "effect_holds sha256 baseline evidence scope k orc ?orc"
    using apply_operation_iff [of orc k] wf same by (simp add: k)
  then obtain st1 b' where st1: "on_file (Live live) (set_text b') = Some st1"
    and v: "oracle_view ?orc = (oracle_view orc)(n := (st1, snd (oracle_view ?orc n)))"
    using fst_view by (auto simp: effect_holds_def k)
  have "snd (oracle_view ?orc n) = Some t"
    by (simp add: oracle_view_def)
  then have "beside_at read schema_one baseline evidence scope n (st1, snd (oracle_view ?orc n)) (Some t) (creates ks)"
    using st1 by (auto simp: beside_at_def view_text_def is_live_def on_file_Some)
  then show ?thesis
    using run beside_step [OF rel creates_Cons _ v, of st'] st' by auto
qed

lemma operation_step:
  assumes wf: "wf_lifecycle (fst st)"
    and rel: "beside read schema_one baseline evidence scope orc st (creates (k # ks))"
    and plain: "\<not> symlink_op k" and fresh: "no_restore (k # ks)"
    and ok: "apply_state_effect sha256 read schema_one k st = Ok st'"
  shows "\<exists>orc'. apply_operation sha256 baseline evidence scope k orc = Ok orc'
    \<and> wf_lifecycle (fst st') \<and> beside read schema_one baseline evidence scope orc' st' (creates ks)"
proof -
  have "\<exists>orc'. apply_operation sha256 baseline evidence scope k orc = Ok orc'
      \<and> beside read schema_one baseline evidence scope orc' st' (creates ks)"
  proof (cases k)
    case (DCreateFile path n b m)
    then show ?thesis
      using create_step [OF wf] rel ok by simp
  next
    case (DDeleteNode path n pre)
    then show ?thesis
      using delete_step [OF wf] rel ok plain fresh by simp
  next
    case (DChangePerm n old new)
    then show ?thesis
      using chmod_step [OF wf] rel ok by simp
  next
    case (DReplaceBinary n old new)
    then show ?thesis
      using replace_step [OF wf] rel ok by (simp del: apply_state_effect.simps)
  next
    case (DEditText n span_id old_hash left right replacement old_text llen rlen)
    from edit_step [OF this wf rel ok] show ?thesis .
  next
    case (DRenamePath n old new)
    then show ?thesis
      using ok by (cases st) simp
  next
    case (DCreateSymlink path n target)
    then show ?thesis
      using plain by simp
  qed
  moreover have "wf_lifecycle (fst st')"
    using effect_spec [OF wf, of sha256 read schema_one k "snd st" "fst st'" "snd st'"] ok by auto
  ultimately show ?thesis
    by blast
qed

end

lemma moved_cases:
  "moved batch T n = T n \<or> (\<exists>node p. T n = Live node \<and> moved batch T n = Live (node\<lparr> ln_path := p \<rparr>))"
  by (auto simp: moved_def split: node_status.splits option.splits)

lemma rename_run_step:
  assumes wf: "wf_lifecycle (fst st)"
    and rel: "beside read schema_one baseline evidence scope orc st wider" and fewer: "coming \<subseteq> wider"
    and ok: "apply_rename_run batch (fst st) = Ok s'"
  shows "oracle_effect (rename_nodes_checked_batch batch (os_lifecycle orc)) orc = Ok (orc\<lparr> os_lifecycle := s' \<rparr>)"
    and "wf_lifecycle s'"
    and "beside read schema_one baseline evidence scope (orc\<lparr> os_lifecycle := s' \<rparr>) (s', snd st) coming"
proof -
  have same: "os_lifecycle orc = fst st"
    using rel by (simp add: beside_def)
  note eff = effect_rename [OF wf ok [unfolded apply_rename_run_def]]
  show "oracle_effect (rename_nodes_checked_batch batch (os_lifecycle orc)) orc = Ok (orc\<lparr> os_lifecycle := s' \<rparr>)"
    using ok same by (auto simp: apply_rename_run_def effect_Ok oracle_effect_def)
  show "wf_lifecycle s'"
    by (rule eff(1))
  have status: "status s' = moved batch (status (fst st))"
    using batch_fits_spec(2) [OF wf eff(2)] .
  have "beside_at read schema_one baseline evidence scope n (status s' n, fmlookup (os_texts orc) n)
      (fmlookup (snd st) n) coming" for n
  proof -
    have at: "beside_at read schema_one baseline evidence scope n (status (fst st) n, fmlookup (os_texts orc) n)
        (fmlookup (snd st) n) wider"
      using rel same by (auto simp: beside_def oracle_view_def)
    show ?thesis
      using moved_cases [of batch "status (fst st)" n]
    proof
      assume "moved batch (status (fst st)) n = status (fst st) n"
      then show ?thesis
        using beside_at_fewer [OF at fewer] by (simp add: status)
    next
      assume "\<exists>node p. status (fst st) n = Live node
        \<and> moved batch (status (fst st)) n = Live (node\<lparr> ln_path := p \<rparr>)"
      then obtain node p where "status (fst st) n = Live node" "status s' n = Live (node\<lparr> ln_path := p \<rparr>)"
        by (auto simp: status simp del: status_Live)
      then show ?thesis
        using beside_at_same_blob [OF at fewer, of "(status s' n, fmlookup (os_texts orc) n)"]
        by (simp add: is_live_def del: status_Live)
    qed
  qed
  then show "beside read schema_one baseline evidence scope (orc\<lparr> os_lifecycle := s' \<rparr>) (s', snd st) coming"
    by (simp add: beside_def oracle_view_def)
qed

section \<open>Sides\<close>

text \<open>A patch names itself on its operations (\<open>candidate_sequence\<close>), so that its runs of renames stay together.\<close>

definition declared :: "object_id \<Rightarrow> decoded_patch_operation list \<Rightarrow> decoded_patch_operation list" where
  "declared patch_id operations = map (\<lambda>operation. operation\<lparr> dop_patch_id := Some patch_id \<rparr>) operations"

lemma renames_rename_op: "renames = rename_op"
proof
  show "renames operation = rename_op operation" for operation
    by (cases "dop_kind operation") (auto simp: renames_def rename_op_def)
qed

lemma renames_declared [simp]: "renames (operation\<lparr> dop_patch_id := i \<rparr>) = rename_op operation"
  by (simp add: renames_rename_op rename_op_def)

lemma declared_runs:
  assumes "rename_op operation"
  shows "takeWhile (same_rename_batch (operation\<lparr> dop_patch_id := Some i \<rparr>)) (declared i rest) =
      declared i (takeWhile rename_op rest)"
    and "dropWhile (same_rename_batch (operation\<lparr> dop_patch_id := Some i \<rparr>)) (declared i rest) =
      declared i (dropWhile rename_op rest)"
  using assms by (auto simp: declared_def takeWhile_map dropWhile_map same_rename_batch_def o_def)

lemma declared_batch:
  assumes "collect_rename_run operation rest = Ok run"
  shows "rmap (\<lambda>next. oracle_rename_triple scope (dop_kind next))
    (declared i (operation # takeWhile rename_op rest)) = Ok run"
proof -
  have "oracle_rename_triple scope k = Ok entry" if "rename_triple k = Ok entry" for k entry
    using that by (cases k) (auto simp: parse_repo_path_Ok)
  then show ?thesis
    using assms unfolding collect_rename_run_def rmap_eq_Ok declared_def list_all2_map1
    by (auto elim!: list_all2_mono simp del: list_all2_Cons1 list_all2_Cons2)
qed

lemma creates_append: "creates ys \<subseteq> creates (xs @ ys)"
  by (auto simp: creates_def)

lemma no_restore_append: "no_restore (xs @ ys) \<Longrightarrow> no_restore ys"
  by (induction xs) auto

lemma declared_kinds [simp]: "map dop_kind (declared i operations) = map dop_kind operations"
  by (simp add: declared_def)

lemma declared_patch: "operation \<in> set (declared i operations) \<Longrightarrow> dop_patch_id operation = Some i"
  by (auto simp: declared_def)

definition side_of :: "(object_id \<times> decoded_patch_operation list) list \<Rightarrow> decoded_patch_operation list" where
  "side_of patches = concat (map (\<lambda>(patch_id, operations). declared patch_id operations) patches)"

lemma side_of_simps [simp]:
  "side_of [] = []" "side_of ((i, operations) # patches) = declared i operations @ side_of patches"
  by (simp_all add: side_of_def)

lemma side_of_patch: "operation \<in> set (side_of patches) \<Longrightarrow> \<exists>i \<in> fst ` set patches. dop_patch_id operation = Some i"
  by (induction patches) (auto dest: declared_patch)

lemma declared_apart:
  assumes "i \<notin> fst ` set patches"
  shows "\<forall>x \<in> set (declared i operations). \<forall>y \<in> set (side_of patches). \<not> same_rename_batch x y"
proof (intro ballI notI)
  fix x y assume "x \<in> set (declared i operations)" "y \<in> set (side_of patches)" "same_rename_batch x y"
  then show False
    using assms declared_patch [of x i operations] side_of_patch [of y patches]
    by (force simp: same_rename_batch_def)
qed

context algebra_evidence
begin

lemma patch_replays:
  assumes "fold_operations (apply_state_effect sha256 read schema_one) wrap operations st = Ok st'"
    and "wf_lifecycle (fst st)" and "no_restore (map dop_kind operations @ later)"
    and "beside read schema_one baseline evidence scope orc st (creates (map dop_kind operations @ later))"
    and "\<forall>operation \<in> set operations. \<not> symlink_op (dop_kind operation)"
  shows "\<exists>orc'. replay_loop sha256 baseline evidence scope (declared i operations) orc = Ok orc'
    \<and> wf_lifecycle (fst st') \<and> beside read schema_one baseline evidence scope orc' st' (creates later)"
  using assms
proof (induction operations arbitrary: st orc rule: measure_induct_rule [of length])
  case (less operations)
  show ?case
  proof (cases operations)
    case Nil
    then show ?thesis
      using less.prems by (simp add: declared_def)
  next
    case (Cons operation rest)
    show ?thesis
    proof (cases "rename_op operation")
      case True
      let ?rest = "dropWhile rename_op rest"
      obtain run s' where run: "collect_rename_run operation rest = Ok run"
        and s': "apply_rename_run run (fst st) = Ok s'"
        and tail: "fold_operations (apply_state_effect sha256 read schema_one) wrap ?rest (s', snd st) = Ok st'"
        using less.prems(1) True by (auto simp: Cons)
      let ?gone = "map dop_kind (operation # takeWhile rename_op rest)"
      have ks: "map dop_kind operations @ later = ?gone @ (map dop_kind ?rest @ later)"
        unfolding Cons by (metis append_Cons append_assoc map_append takeWhile_dropWhile_id)
      note step = rename_run_step [OF less.prems(2,4) creates_append [of "map dop_kind ?rest @ later" ?gone,
          folded ks] s']
      have "\<exists>orc'. replay_loop sha256 baseline evidence scope (declared i ?rest) (orc\<lparr> os_lifecycle := s' \<rparr>) = Ok orc'
          \<and> wf_lifecycle (fst st') \<and> beside read schema_one baseline evidence scope orc' st' (creates later)"
      proof (rule less.IH [OF _ tail])
        show "length ?rest < length operations"
          using length_dropWhile_le [of rename_op rest] by (simp add: Cons)
        show "no_restore (map dop_kind ?rest @ later)"
          using less.prems(3) no_restore_append unfolding ks by blast
        show "\<forall>operation \<in> set ?rest. \<not> symlink_op (dop_kind operation)"
          using less.prems(5) by (auto simp: Cons dest: set_dropWhileD)
      qed (use step(2,3) in simp_all)
      moreover have "replay_loop sha256 baseline evidence scope (declared i operations) orc =
          replay_loop sha256 baseline evidence scope (declared i ?rest) (orc\<lparr> os_lifecycle := s' \<rparr>)"
        using True declared_runs [OF True, of i rest] declared_batch [OF run, of scope i] step(1)
        by (simp add: Cons declared_def del: rmap.simps)
      ultimately show ?thesis
        by simp
    next
      case False
      obtain st1 where st1: "apply_state_effect sha256 read schema_one (dop_kind operation) st = Ok st1"
        and tail: "fold_operations (apply_state_effect sha256 read schema_one) wrap rest st1 = Ok st'"
        using less.prems(1) False by (auto simp: Cons)
      have "\<exists>orc1. apply_operation sha256 baseline evidence scope (dop_kind operation) orc = Ok orc1
          \<and> wf_lifecycle (fst st1)
          \<and> beside read schema_one baseline evidence scope orc1 st1 (creates (map dop_kind rest @ later))"
        using less.prems(3,4,5) by (intro operation_step [OF less.prems(2) _ _ _ st1]) (simp_all add: Cons)
      then obtain orc1 where orc1: "apply_operation sha256 baseline evidence scope (dop_kind operation) orc = Ok orc1"
        and wf: "wf_lifecycle (fst st1)"
        and rel: "beside read schema_one baseline evidence scope orc1 st1 (creates (map dop_kind rest @ later))"
        by blast
      have "\<exists>orc'. replay_loop sha256 baseline evidence scope (declared i rest) orc1 = Ok orc'
          \<and> wf_lifecycle (fst st') \<and> beside read schema_one baseline evidence scope orc' st' (creates later)"
        using less.prems(3,5) by (intro less.IH [OF _ tail wf _ rel]) (simp_all add: Cons)
      then show ?thesis
        using orc1 False by (simp add: Cons declared_def)
    qed
  qed
qed

lemma side_replays:
  assumes "rfold (\<lambda>(_, operations). fold_operations (apply_state_effect sha256 read schema_one) wrap operations)
      patches st = Ok st'"
    and "wf_lifecycle (fst st)" "distinct (map fst patches)" "no_restore (map dop_kind (side_of patches))"
    and "beside read schema_one baseline evidence scope orc st (creates (map dop_kind (side_of patches)))"
    and "\<forall>operation \<in> set (side_of patches). \<not> symlink_op (dop_kind operation)"
  shows "\<exists>orc'. replay_loop sha256 baseline evidence scope (side_of patches) orc = Ok orc'
    \<and> wf_lifecycle (fst st') \<and> beside read schema_one baseline evidence scope orc' st' {}"
  using assms
proof (induction patches arbitrary: st orc)
  case Nil
  then show ?case
    by (simp add: creates_def)
next
  case (Cons patch patches)
  obtain i operations where patch: "patch = (i, operations)"
    by (cases patch)
  obtain st1 where st1: "fold_operations (apply_state_effect sha256 read schema_one) wrap operations st = Ok st1"
    and tail: "rfold (\<lambda>(_, operations). fold_operations (apply_state_effect sha256 read schema_one) wrap operations)
      patches st1 = Ok st'"
    using Cons.prems(1) by (auto simp: patch)
  let ?later = "map dop_kind (side_of patches)"
  have plain: "\<forall>operation \<in> set operations. \<not> symlink_op (dop_kind operation)"
    using Cons.prems(6) by (simp add: patch declared_def ball_Un)
  have "\<exists>orc1. replay_loop sha256 baseline evidence scope (declared i operations) orc = Ok orc1
      \<and> wf_lifecycle (fst st1) \<and> beside read schema_one baseline evidence scope orc1 st1 (creates ?later)"
    using Cons.prems(4,5) by (intro patch_replays [OF st1 Cons.prems(2) _ _ plain]) (simp_all add: patch)
  then obtain orc1 where orc1: "replay_loop sha256 baseline evidence scope (declared i operations) orc = Ok orc1"
    and wf: "wf_lifecycle (fst st1)" and rel: "beside read schema_one baseline evidence scope orc1 st1 (creates ?later)"
    by blast
  have "\<exists>orc'. replay_loop sha256 baseline evidence scope (side_of patches) orc1 = Ok orc'
      \<and> wf_lifecycle (fst st') \<and> beside read schema_one baseline evidence scope orc' st' {}"
    using Cons.prems(3,6) no_restore_append [of "map dop_kind operations" ?later] Cons.prems(4)
    by (intro Cons.IH [OF tail wf _ _ rel]) (simp_all add: patch)
  moreover have "i \<notin> fst ` set patches"
    using Cons.prems(3) by (simp add: patch)
  ultimately show ?case
    using orc1 by (simp add: patch replay_append [OF declared_apart])
qed

lemma start_beside: "beside read schema_one baseline evidence scope (start_oracle baseline) (baseline, base_texts) coming"
proof -
  have "beside_at read schema_one baseline evidence scope n (status baseline n, None) (fmlookup base_texts n) coming" for n
  proof (cases "live_node_at baseline n")
    case None
    then have "fmlookup base_texts n = None"
      using texts_live by blast
    moreover have "\<not> is_live (status baseline n)"
      using None by (auto simp: is_live_def live_node_at_def split: node_status.splits)
    ultimately show ?thesis
      using None by (auto simp: beside_at_def is_live_def live_text_blob_def split: node_status.splits)
  next
    case (Some node)
    then have st: "status baseline n = Live node"
      by (simp add: live_node_at_def)
    show ?thesis
    proof (cases "live_text_blob (Live node)")
      case None
      then show ?thesis
        by (simp add: beside_at_def st is_live_def)
    next
      case (Some b)
      then obtain m where node: "ln_kind node = TextFile" "ln_content node = FileContent b m"
        by (auto simp: live_text_blob_def split: if_splits node_content.splits)
      note \<open>live_node_at baseline n = Some node\<close>
      then show ?thesis
        using edited_known [OF _ node] stored_known [OF _ node]
        by (auto simp: beside_at_def st is_live_def Some view_text_def known_def split: option.splits)
    qed
  qed
  then show ?thesis
    by (simp add: beside_def start_oracle_def oracle_view_def)
qed

lemma side_agrees:
  assumes "rfold (\<lambda>(_, operations). fold_operations (apply_state_effect sha256 read schema_one) wrap operations)
      patches (baseline, base_texts) = Ok st'"
    and "wf_lifecycle baseline" "distinct (map fst patches)" "no_restore (map dop_kind (side_of patches))"
    and "\<forall>operation \<in> set (side_of patches). \<not> symlink_op (dop_kind operation)"
  shows "\<exists>orc. replay_operations sha256 baseline evidence scope (side_of patches) = Ok orc
    \<and> os_lifecycle orc = fst st'
    \<and> (\<forall>n t. fmlookup (os_texts orc) n = Some t \<and> live_node_at (fst st') n \<noteq> None \<longrightarrow> fmlookup (snd st') n = Some t)
    \<and> (\<forall>n node b m c. live_node_at (fst st') n = Some node \<and> ln_kind node = TextFile
         \<and> ln_content node = FileContent b m \<and> replay_current_text read schema_one (snd st') n b = Ok c \<longrightarrow>
           (\<exists>orc'. oracle_current_text baseline evidence scope n orc = Ok (c, orc')))"
proof -
  obtain orc where orc: "replay_loop sha256 baseline evidence scope (side_of patches) (start_oracle baseline) = Ok orc"
    and rel: "beside read schema_one baseline evidence scope orc st' {}"
    using side_replays [OF assms(1) _ assms(3,4) start_beside assms(5)] assms(2) by auto
  have "fmlookup (snd st') n = Some t"
    if text_of: "fmlookup (os_texts orc) n = Some t" and live: "live_node_at (fst st') n \<noteq> None" for n t
  proof (rule beside_at_text)
    show "beside_at read schema_one baseline evidence scope n (oracle_view orc n) (fmlookup (snd st') n) {}"
      using rel by (simp add: beside_def)
    show "snd (oracle_view orc n) = Some t"
      using text_of by (simp add: oracle_view_def)
    show "is_live (fst (oracle_view orc n))"
      using live rel by (auto simp: oracle_view_def beside_def is_live_def live_node_at_def)
  qed
  moreover have "os_lifecycle orc = fst st'"
    using rel by (simp add: beside_def)
  ultimately show ?thesis
    using orc beside_current_text [OF rel] unfolding replay_operations_def by blast
qed

end

end
