(* ===== verification/Algebra_Sides.thy ===== *)
theory Algebra_Sides
  imports Algebra_Evidence Replay_Props Snapshot
begin

text \<open>
  The evidence of a store meets the laws of the algebra's evidence: after the replay of a lineage, it
  knows the text of every live text file that the replay knows. A text that the lineage edited is named
  by its blob id only, and comes from the second replay that \<open>materialize_edited_text\<close> runs.
\<close>

section \<open>Stored blobs are known\<close>

lemma resolved_stored:
  assumes "resolve_blob read schema_one b = Ok (Some blob)"
  shows "\<exists>e. read b = Ok (Some e) \<and> env_type e = Blob \<and> decode_blob (env_payload e) = Ok blob"
  using assms by (auto simp: resolve_blob_def split: option.splits if_splits)

lemma evidence_read_resolved:
  "resolve_blob read schema_one b = Ok (Some blob) \<Longrightarrow> evidence_read_blob read scope wanted b = Known blob"
  by (auto simp: evidence_read_blob_def dest!: resolved_stored)

lemma store_evidence_laws:
  assumes "\<And>n node b m t. live_node_at baseline n = Some node \<Longrightarrow> ln_kind node = TextFile \<Longrightarrow>
      ln_content node = FileContent b m \<Longrightarrow> fmlookup texts n = Some t \<Longrightarrow>
      store_baseline_text read materialize baseline SealedBaselineRequired n b = Known t"
    and "\<And>n. fmlookup texts n \<noteq> None \<Longrightarrow> live_node_at baseline n \<noteq> None"
  shows "algebra_evidence read schema_one baseline texts (store_evidence read materialize baseline) scope"
proof
  show "ev_baseline_text (store_evidence read materialize baseline) SealedBaselineRequired n b = Known c"
    if "live_node_at baseline n = Some node" "ln_kind node = TextFile" "ln_content node = FileContent b m"
      "resolver_blob_content read schema_one b = Ok (Some (BlobText, c))" for n node b m c
    using that
    by (auto simp: store_evidence_def store_baseline_text_def resolver_content_Ok evidence_read_resolved)
qed (use assms in \<open>auto simp: store_evidence_def map_blob_payload_evidence_def resolver_kind_Ok
    resolver_content_Ok evidence_read_resolved\<close>)

text \<open>A baseline with stored texts only.\<close>

interpretation stored: algebra_evidence read schema_one baseline fmempty
  "store_evidence read materialize baseline" scope for read schema_one baseline materialize scope
  by (rule store_evidence_laws) simp_all

section \<open>Edited texts are named by their blob ids\<close>

definition texts_named :: "(bytes \<Rightarrow> bytes) \<Rightarrow> tree \<Rightarrow> text_cache \<Rightarrow> bool" where
  "texts_named H T texts \<longleftrightarrow> (\<forall>n t. fmlookup texts n = Some t \<longrightarrow>
     (\<exists>node b m. T n = Live node \<and> ln_kind node = TextFile \<and> ln_content node = FileContent b m
        \<and> text_blob_id H t = Ok b))"

lemma texts_namedD:
  "texts_named H T texts \<Longrightarrow> fmlookup texts n = Some t \<Longrightarrow> \<exists>node b m. T n = Live node \<and> ln_kind node = TextFile
     \<and> ln_content node = FileContent b m \<and> text_blob_id H t = Ok b"
  by (simp add: texts_named_def)

lemma texts_named_update:
  assumes "texts_named H T texts" "\<And>m. m \<noteq> n \<Longrightarrow> fmlookup texts' m = fmlookup texts m"
    and "\<And>t. fmlookup texts' n = Some t \<Longrightarrow> \<exists>node b m. st = Live node \<and> ln_kind node = TextFile
      \<and> ln_content node = FileContent b m \<and> text_blob_id H t = Ok b"
  shows "texts_named H (T(n := st)) texts'"
  unfolding texts_named_def
proof (intro allI impI)
  fix m t assume "fmlookup texts' m = Some t"
  then show "\<exists>node b mode. (T(n := st)) m = Live node \<and> ln_kind node = TextFile
      \<and> ln_content node = FileContent b mode \<and> text_blob_id H t = Ok b"
    using assms by (cases "m = n") (auto simp: texts_named_def)
qed

lemma create_keeps_names:
  assumes wf: "wf_lifecycle s" and named: "texts_named H (status s) texts"
    and eff: "effect (create_node n node s) = Ok s'"
  shows "texts_named H (status s') texts"
proof -
  have fresh: "status s n = Unseen \<or> status s n = Tombstoned (tombstone_of node)"
    and s': "status s' = (status s)(n := Live node)"
    using effect_create(2) [OF wf eff] by (auto simp del: status_Live split: if_splits)
  have "fmlookup texts n = None"
  proof (cases "fmlookup texts n")
    case (Some t)
    then show ?thesis
      using texts_namedD [OF named Some] fresh by (auto simp del: status_Live)
  qed
  then show ?thesis
    using texts_named_update [OF named, of n texts "Live node"] by (simp add: s')
qed

lemma effect_keeps_names:
  assumes wf: "wf_lifecycle s" and named: "texts_named H (status s) texts"
    and ok: "apply_state_effect H read schema_one k (s, texts) = Ok (s', texts')"
  shows "texts_named H (status s') texts'"
proof (cases k)
  case (DCreateFile path n b m)
  then obtain node where "effect (create_node n node s) = Ok s'" "texts' = texts"
    using ok by auto
  then show ?thesis
    using create_keeps_names [OF wf named] by simp
next
  case (DCreateSymlink path n target)
  then obtain node where "effect (create_node n node s) = Ok s'" "texts' = texts"
    using ok by auto
  then show ?thesis
    using create_keeps_names [OF wf named] by simp
next
  case (DDeleteNode path n pre)
  then obtain node where eff: "effect (delete_node_checked n node s) = Ok s'" and texts: "texts' = fmdrop n texts"
    using ok by auto
  then have "status s' = (status s)(n := Tombstoned (tombstone_of node))"
    using effect_delete(2) [OF wf eff] by (auto simp del: status_Live split: if_splits)
  then show ?thesis
    using texts_named_update [OF named, of n texts'] by (simp add: texts)
next
  case (DChangePerm n old new)
  then have eff: "effect (change_file_mode n old new s) = Ok s'" and texts: "texts' = texts"
    using ok by auto
  obtain node b where "status s n = Live node" "ln_content node = FileContent b old"
    "status s' = (status s)(n := Live (node\<lparr> ln_content := FileContent b new \<rparr>))"
    using effect_chmod(2) [OF wf eff]
    by (auto simp del: status_Live split: node_status.splits node_content.splits if_splits)
  then show ?thesis
    using texts_named_update [OF named, of n texts "Live (node\<lparr> ln_content := FileContent b new \<rparr>)"] texts_namedD [OF named, of n]
    by (auto simp: texts simp del: status_Live)
next
  case (DReplaceBinary n old new)
  then have eff: "effect (replace_file_blob n old new s) = Ok s'" and texts: "texts' = texts"
    using ok by auto
  obtain node m where "status s n = Live node" "ln_kind node = BinaryFile"
    "(status s)(n := Live (node\<lparr> ln_content := FileContent new m \<rparr>)) = status s'"
    using effect_replace(2) [OF wf eff]
    by (auto simp del: status_Live split: node_status.splits node_content.splits if_splits)
  then show ?thesis
    using texts_named_update [OF named, of n texts "Live (node\<lparr> ln_content := FileContent new m \<rparr>)"] texts_namedD [OF named, of n]
    by (auto simp: texts simp del: status_Live)
next
  case (DEditText n span osh la ra repl ost ll rl)
  then obtain t b where eff: "effect (set_text_blob n b s) = Ok s'" and b: "text_blob_id H t = Ok b"
    and texts: "texts' = fmupd n t texts"
    using ok by (auto elim: apply_edit_text_Ok)
  obtain node m where "ln_kind node = TextFile"
    "(status s)(n := Live (node\<lparr> ln_content := FileContent b m \<rparr>)) = status s'"
    using effect_set_text(2) [OF wf eff]
    by (auto simp del: status_Live split: node_status.splits node_content.splits if_splits)
  then show ?thesis
    using texts_named_update [OF named, of n texts' "Live (node\<lparr> ln_content := FileContent b m \<rparr>)"] b
    by (simp add: texts)
next
  case (DRenamePath n old new)
  then show ?thesis
    using ok by simp
qed

lemma moved_keeps_names: "texts_named H T texts \<Longrightarrow> texts_named H (moved batch T) texts"
  unfolding texts_named_def
proof (intro allI impI)
  fix n t assume named: "\<forall>n t. fmlookup texts n = Some t \<longrightarrow> (\<exists>node b m. T n = Live node
    \<and> ln_kind node = TextFile \<and> ln_content node = FileContent b m \<and> text_blob_id H t = Ok b)"
    and "fmlookup texts n = Some t"
  then obtain node b m where "T n = Live node" "ln_kind node = TextFile" "ln_content node = FileContent b m"
    "text_blob_id H t = Ok b"
    by blast
  then show "\<exists>node b m. moved batch T n = Live node \<and> ln_kind node = TextFile
      \<and> ln_content node = FileContent b m \<and> text_blob_id H t = Ok b"
    using moved_cases [of batch T n] by auto
qed

definition named_state :: "(bytes \<Rightarrow> bytes) \<Rightarrow> replay_state \<Rightarrow> bool" where
  "named_state H st \<longleftrightarrow> wf_lifecycle (fst st) \<and> texts_named H (status (fst st)) (snd st)"

lemma named_new: "named_state H (new_lifecycle, fmempty)"
  by (simp add: named_state_def texts_named_def wf_new_lifecycle)

lemma fold_operations_names:
  assumes "fold_operations (apply_state_effect H read schema_one) wrap operations st = Ok st'" "named_state H st"
  shows "named_state H st'"
  using assms
proof (induction operations arbitrary: st rule: measure_induct_rule [of length])
  case (less operations)
  have wf: "wf_lifecycle (fst st)" and named: "texts_named H (status (fst st)) (snd st)"
    using less.prems(2) by (auto simp: named_state_def)
  show ?case
  proof (cases operations)
    case Nil
    then show ?thesis
      using less.prems by simp
  next
    case (Cons operation rest)
    show ?thesis
    proof (cases "rename_op operation")
      case True
      then obtain run s' where s': "apply_rename_run run (fst st) = Ok s'"
        and tail: "fold_operations (apply_state_effect H read schema_one) wrap (dropWhile rename_op rest)
          (s', snd st) = Ok st'"
        using less.prems(1) by (auto simp: Cons)
      note spec = effect_rename [OF wf s' [unfolded apply_rename_run_def]]
      have "named_state H (s', snd st)"
        using spec(1) moved_keeps_names [OF named] batch_fits_spec(2) [OF wf spec(2)]
        by (simp add: named_state_def)
      then show ?thesis
        using less.IH [OF _ tail] length_dropWhile_le [of rename_op rest] by (simp add: Cons)
    next
      case False
      then obtain s1 texts1 where
        st1: "apply_state_effect H read schema_one (dop_kind operation) (fst st, snd st) = Ok (s1, texts1)"
        and tail: "fold_operations (apply_state_effect H read schema_one) wrap rest (s1, texts1) = Ok st'"
        using less.prems(1) by (auto simp: Cons)
      have "named_state H (s1, texts1)"
        using effect_spec [OF wf st1] effect_keeps_names [OF wf named st1] by (auto simp: named_state_def)
      then show ?thesis
        using less.IH [OF _ tail] by (simp add: Cons)
    qed
  qed
qed

lemma patches_names:
  assumes "apply_patch_ids H read schema_one ids st = Ok st'" "named_state H st"
  shows "named_state H st'"
  using assms unfolding apply_patch_ids_def
  by (rule rfold_invariant) (auto elim: fold_operations_names)

lemma lineage_names:
  assumes "replay_lineage_with_materialized_text H read base horizon = Some (Ok st)"
  shows "named_state H st"
proof -
  obtain chain :: "walked_block list" and mid where mid: "rfold (\<lambda>(_, block). apply_patch_ids H read False (block_patch_ids block)) chain
      (new_lifecycle, fmempty) = Ok mid" and st: "apply_patch_ids H read False [] mid = Ok st"
    using assms by (auto simp: replay_lineage_with_materialized_text_def replay_chain_with_appended_patches_def)
  from mid have "named_state H mid"
    by (rule rfold_invariant) (auto simp: named_new elim: patches_names)
  then show ?thesis
    using patches_names [OF st] by simp
qed

section \<open>Sides after a replayed lineage\<close>

text \<open>
  A stored object that has the id of an edited text and is not that text.
\<close>

definition text_collision :: "(bytes \<Rightarrow> bytes) \<Rightarrow> reader \<Rightarrow> replay_state \<Rightarrow> bool" where
  "text_collision H read st \<longleftrightarrow> (\<exists>n t node b m e. fmlookup (snd st) n = Some t
     \<and> live_node_at (fst st) n = Some node \<and> ln_content node = FileContent b m \<and> read b = Ok (Some e)
     \<and> collide H {object_id_preimage (env_type e) (env_schema e) (env_payload e)}
         {object_id_preimage Blob 1 (fields_bytes (blob_fields (new_blob BlobText t)))})"

definition small_payloads :: "reader \<Rightarrow> bool" where
  "small_payloads read \<longleftrightarrow> (\<forall>i e. read i = Ok (Some e) \<longrightarrow> length (env_payload e) < usize_limit)"

lemma stored_text:
  assumes id: "text_blob_id H t = Ok b" and e: "read b = Ok (Some e)"
    and reader: "addressed H read" "small_payloads read"
    and nc: "\<not> collide H {object_id_preimage (env_type e) (env_schema e) (env_payload e)}
         {object_id_preimage Blob 1 (fields_bytes (blob_fields (new_blob BlobText t)))}"
  shows "evidence_read_blob read scope wanted b = Known (new_blob BlobText t)"
proof -
  have b: "b = from_canonical_payload H Blob 1 (fields_bytes (blob_fields (new_blob BlobText t)))"
    using id by (simp add: text_blob_id_Ok file_blob_id_for_kind_Ok)
  have "envelope_object_id H e = b"
    using reader(1) e by (simp add: addressed_def)
  then have "env_type e = Blob \<and> env_schema e = 1 \<and>
      env_payload e = fields_bytes (blob_fields (new_blob BlobText t))"
    using nc b by (auto simp: envelope_object_id_def from_canonical_payload_def collide_def
        object_id_preimage_inject)
  moreover have "length (env_payload e) < usize_limit"
    using reader(2) e by (simp add: small_payloads_def)
  ultimately show ?thesis
    using e decode_blob_fields [of "new_blob BlobText t"]
    by (simp add: evidence_read_blob_def wf_blob_def new_blob_def)
qed

lemma lineage_evidence:
  assumes store: "wf_memory H store" "small_payloads (memory_read_object store)"
    and replay: "replay_lineage_with_materialized_text H (memory_read_object store) base horizon =
      Some (Ok (baseline, texts))"
    and mat: "\<And>n b. materialize_edited_text H (memory_read_object store) base horizon n = Some (materialize n b)"
    and nc: "\<not> text_collision H (memory_read_object store) (baseline, texts)"
  shows "algebra_evidence (memory_read_object store) schema_one baseline texts
    (store_evidence (memory_read_object store) materialize baseline) scope"
proof (rule store_evidence_laws)
  let ?read = "memory_read_object store"
  have ad: "addressed H ?read"
    using memory.addressed [OF store(1)] by (simp add: addressed_def)
  have named: "texts_named H (status baseline) texts"
    using lineage_names [OF replay] by (simp add: named_state_def)
  have mat_text: "materialize n b = Ok (fmlookup texts n)" for n b
    using mat [of n b] replay by (simp add: materialize_edited_text_def)
  show "live_node_at baseline n \<noteq> None" if "fmlookup texts n \<noteq> None" for n
    using that texts_namedD [OF named, of n] by (auto simp: live_node_at_def)
  fix n node b m t
  assume node: "live_node_at baseline n = Some node" "ln_kind node = TextFile"
    "ln_content node = FileContent b m" and t: "fmlookup texts n = Some t"
  have id: "text_blob_id H t = Ok b"
    using texts_namedD [OF named t] node by (auto simp: live_node_at_def)
  show "store_baseline_text ?read materialize baseline SealedBaselineRequired n b = Known t"
  proof (cases "fmlookup (objects store) b")
    case None
    then have "?read b = Ok None"
      by (simp add: memory_read_object_def)
    then show ?thesis
      using node t mat_text by (simp add: store_baseline_text_def evidence_read_blob_def)
  next
    case (Some e)
    then have e: "?read b = Ok (Some e)"
      by (simp add: memory_read_object_def)
    have "\<not> collide H {object_id_preimage (env_type e) (env_schema e) (env_payload e)}
         {object_id_preimage Blob 1 (fields_bytes (blob_fields (new_blob BlobText t)))}"
      using nc t node(1,3) e unfolding text_collision_def fst_conv snd_conv by blast
    from stored_text [OF id e ad store(2) this] show ?thesis
      using node by (simp add: store_baseline_text_def new_blob_def)
  qed
qed

lemma apply_patches_listed:
  assumes "apply_patch_ids H read schema_one ids st = Ok st'"
    and "rmap (\<lambda>i. read_patch_operations H read i schema_one) ids = Ok listed"
  shows "rfold (\<lambda>(_, operations). fold_operations (apply_state_effect H read schema_one) id operations)
    (zip ids listed) st = Ok st'"
  using assms
proof (induction ids arbitrary: st listed)
  case (Cons i ids)
  obtain operations st1 rest where ops: "read_patch_operations H read i schema_one = Ok operations"
    and st1: "fold_operations (apply_state_effect H read schema_one) id operations st = Ok st1"
    and tail: "apply_patch_ids H read schema_one ids st1 = Ok st'"
    and rest: "rmap (\<lambda>i. read_patch_operations H read i schema_one) ids = Ok rest" "listed = operations # rest"
    using Cons.prems by (auto simp: apply_patch_ids_def)
  show ?case
    unfolding rest(2) zip_Cons_Cons rfold.simps prod.case st1 rbind.simps
    using Cons.IH [OF tail rest(1)] .
qed (simp add: apply_patch_ids_def)

lemma listed_length: "rmap f xs = Ok ys \<Longrightarrow> length ys = length xs"
  by (auto simp: rmap_eq_Ok dest: list_all2_lengthD)

lemma listed_side_replays:
  assumes "wf_memory H store" "small_payloads (memory_read_object store)"
    and "replay_lineage_with_materialized_text H (memory_read_object store) base horizon = Some (Ok (baseline, texts))"
    and "\<forall>n b. materialize_edited_text H (memory_read_object store) base horizon n = Some (materialize n b)"
    and "apply_patch_ids H (memory_read_object store) False ids (baseline, texts) = Ok st"
    and "rmap (\<lambda>i. read_patch_operations H (memory_read_object store) i False) ids = Ok listed" "distinct ids"
    and "no_restore (map dop_kind (side_of (zip ids listed)))"
    and "\<forall>operation \<in> set (side_of (zip ids listed)). \<not> symlink_op (dop_kind operation)"
  shows "(\<exists>orc. replay_operations H baseline (store_evidence (memory_read_object store) materialize baseline) scope
        (side_of (zip ids listed)) = Ok orc
      \<and> os_lifecycle orc = fst st
      \<and> (\<forall>n t. fmlookup (os_texts orc) n = Some t \<and> live_node_at (fst st) n \<noteq> None \<longrightarrow> fmlookup (snd st) n = Some t)
      \<and> (\<forall>n node b m c. live_node_at (fst st) n = Some node \<and> ln_kind node = TextFile \<and> ln_content node = FileContent b m
           \<and> replay_current_text (memory_read_object store) False (snd st) n b = Ok c \<longrightarrow>
             (\<exists>orc'. oracle_current_text baseline (store_evidence (memory_read_object store) materialize baseline) scope
                n orc = Ok (c, orc'))))
    \<or> text_collision H (memory_read_object store) (baseline, texts)"
proof (rule disjCI)
  assume nc: "\<not> text_collision H (memory_read_object store) (baseline, texts)"
  have laws: "algebra_evidence (memory_read_object store) False baseline texts
      (store_evidence (memory_read_object store) materialize baseline) scope"
    using lineage_evidence [OF assms(1-3) _ nc] assms(4) by blast
  have wf: "wf_lifecycle baseline"
    using lineage_names [OF assms(3)] by (simp add: named_state_def)
  have "distinct (map fst (zip ids listed))"
    using assms(7) listed_length [OF assms(6)] by simp
  from algebra_evidence.side_agrees [OF laws apply_patches_listed [OF assms(5,6)] wf this assms(8,9)]
  show "\<exists>orc. replay_operations H baseline (store_evidence (memory_read_object store) materialize baseline) scope
        (side_of (zip ids listed)) = Ok orc
      \<and> os_lifecycle orc = fst st
      \<and> (\<forall>n t. fmlookup (os_texts orc) n = Some t \<and> live_node_at (fst st) n \<noteq> None \<longrightarrow> fmlookup (snd st) n = Some t)
      \<and> (\<forall>n node b m c. live_node_at (fst st) n = Some node \<and> ln_kind node = TextFile \<and> ln_content node = FileContent b m
           \<and> replay_current_text (memory_read_object store) False (snd st) n b = Ok c \<longrightarrow>
             (\<exists>orc'. oracle_current_text baseline (store_evidence (memory_read_object store) materialize baseline) scope
                n orc = Ok (c, orc')))" .
qed

end
