(* ===== verification/Merge_Props.thy ===== *)
theory Merge_Props
  imports Merge_Order Algebra_Sides
begin

text \<open>
  What a merge can rely on: the candidate blocks are exactly the new ones, parents first, and a side read
  from them replays in the oracle as lifecycle replay would replay it.
\<close>

section \<open>Candidate blocks\<close>

lemma run_then_simps [simp]:
  "run_then (Some (Ok x)) f = f x" "run_then (Some (Err e)) f = Some (Err e)"
  by (simp_all add: run_then_def)

lemma run_then_Ok: "run_then r f = Some (Ok y) \<longleftrightarrow> (\<exists>x. r = Some (Ok x) \<and> f x = Some (Ok y))"
proof (cases r)
  case (Some a)
  then show ?thesis
    by (cases a) simp_all
qed (simp add: run_then_def)

lemma inner_links_sub:
  assumes "\<And>i block. fmlookup ancestors i = Some block \<Longrightarrow> block_at read i block"
  shows "inner_links (fset new_ids) (inner_parents new_ids ancestors) \<subseteq> parent_links read"
  by (auto simp: inner_links_def inner_parents_def parent_links_def split: option.splits)
    (metis assms)

lemma listed_blocks:
  assumes "set order \<subseteq> fset (fmdom ancestors)"
  shows "rmap (\<lambda>i. rbind (ok_or (err i) (fmlookup ancestors i)) (\<lambda>payload. Ok (i, payload))) order =
    Ok (map (\<lambda>i. (i, the (fmlookup ancestors i))) order)"
  using assms by (induction order) (auto simp: fmlookup_dom_iff)

definition candidates_exact :: "reader \<Rightarrow> object_id \<Rightarrow> object_id \<Rightarrow> (object_id \<times> block_payload) list \<Rightarrow> bool" where
  "candidates_exact read baseline target blocks \<longleftrightarrow>
     baseline \<in> reach read target \<and> distinct (map fst blocks)
     \<and> fst ` set blocks = reach read target - reach read baseline
     \<and> (\<forall>(i, block) \<in> set blocks. block_at read i block)
     \<and> (\<forall>k < length blocks. \<forall>parent \<in> set (parent_block_ids (snd (blocks ! k))).
          parent \<in> reach read baseline \<or> parent \<in> fst ` set (take k blocks))"

lemma ordered_candidates:
  assumes anc: "fset (fmdom ancestors) = reach read target"
    "\<And>i block. fmlookup ancestors i = Some block \<Longrightarrow> block_at read i block"
    and old: "fset (fmdom old) = reach read baseline" "baseline \<in> reach read target"
    and order: "distinct order" "set order = fset (fmdom ancestors |-| fmdom old)"
    and topo: "\<forall>k < length order. set (inner_parents (fmdom ancestors |-| fmdom old) ancestors (order ! k))
      \<subseteq> set (take k order)"
  shows "candidates_exact read baseline target (map (\<lambda>i. (i, the (fmlookup ancestors i))) order)"
proof -
  have found: "\<exists>block. fmlookup ancestors i = Some block \<and> block_at read i block" if "i \<in> set order" for i
    using that order(2) anc(2) by (auto simp: fmlookup_dom_iff)
  have "parent \<in> reach read baseline \<or> parent \<in> set (take k order)"
    if k: "k < length order" and parent: "parent \<in> set (parent_block_ids (the (fmlookup ancestors (order ! k))))"
    for k parent
  proof (rule disjCI)
    assume "parent \<notin> set (take k order)"
    obtain block where block: "fmlookup ancestors (order ! k) = Some block" "block_at read (order ! k) block"
      using found [OF nth_mem [OF k]] by blast
    then have "order ! k \<in> reach read target"
      using anc(1) by (metis fmdomI)
    then have target: "parent \<in> reach read target"
      using reach_trans [OF reach_parent [OF block(2)]] parent block(1) by simp
    have "parent \<notin> set (inner_parents (fmdom ancestors |-| fmdom old) ancestors (order ! k))"
      using topo k \<open>parent \<notin> set (take k order)\<close> by blast
    then have "parent |\<notin>| fmdom ancestors |-| fmdom old"
      using parent block(1) by (simp add: inner_parents_def)
    then show "parent \<in> reach read baseline"
      using target by (simp flip: anc(1) old(1))
  qed
  moreover have "fst ` set (map (\<lambda>i. (i, the (fmlookup ancestors i))) order) = reach read target - reach read baseline"
    using order(2) anc(1) old(1) by (auto simp: image_image)
  ultimately show ?thesis
    using order(1) old(2) found by (force simp: candidates_exact_def o_def take_map image_image)
qed

lemma candidate_blocks_found:
  assumes walks: "ancestors_inclusive read target = Some (Ok ancestors)" "ancestors_inclusive read baseline = Some (Ok old)"
    and anc: "fset (fmdom ancestors) = reach read target"
      "\<And>i block. fmlookup ancestors i = Some block \<Longrightarrow> block_at read i block"
    and old: "fset (fmdom old) = reach read baseline" and base: "baseline \<in> reach read target"
  shows "\<exists>r. candidate_blocks read baseline target = Some r \<and> (case r of
      Ok blocks \<Rightarrow> candidates_exact read baseline target blocks | Err _ \<Rightarrow> \<not> acyclic (parent_links read))"
proof -
  let ?new = "fmdom ancestors |-| fmdom old"
  have "fset ?new \<subseteq> fset (fmdom ancestors)"
    by auto
  from topological_order_spec [OF this] obtain t where t: "topological_order ?new ancestors = Some t"
    "case t of Ok order \<Rightarrow> distinct order \<and> set order = fset ?new
       \<and> (\<forall>k < length order. set (inner_parents ?new ancestors (order ! k)) \<subseteq> set (take k order))
     | Err _ \<Rightarrow> \<not> acyclic (inner_links (fset ?new) (inner_parents ?new ancestors))"
    by blast
  have "baseline |\<in>| fmdom ancestors"
    using base anc(1) by simp
  then have run: "candidate_blocks read baseline target = run_then (Some t) (\<lambda>order. Some (rmap
      (\<lambda>i. rbind (ok_or (Integrity (''missing Block '' @ show_id i @ '' in candidate set''))
        (fmlookup ancestors i)) (\<lambda>payload. Ok (i, payload))) order))"
    using walks t(1) by (simp add: candidate_blocks_def Let_def)
  show ?thesis
  proof (cases t)
    case (Err e)
    have "inner_links (fset ?new) (inner_parents ?new ancestors) \<subseteq> parent_links read"
      by (rule inner_links_sub) (rule anc(2))
    then have "\<not> acyclic (parent_links read)"
      using t(2) acyclic_subset unfolding Err result.case by blast
    then show ?thesis
      using run by (simp add: Err)
  next
    case (Ok order)
    then have "set order \<subseteq> fset (fmdom ancestors)"
      using t(2) by auto
    then show ?thesis
      using run t(2) ordered_candidates [OF anc old base, of order] by (simp add: Ok listed_blocks)
  qed
qed

lemma candidate_blocks_spec:
  assumes fin: "finite (readable read)"
  shows "\<exists>r. candidate_blocks read baseline target = Some r \<and> (case r of
      Ok blocks \<Rightarrow> candidates_exact read baseline target blocks
    | Err _ \<Rightarrow> (\<exists>i \<in> reach read target. \<nexists>block. block_at read i block) \<or> baseline \<notin> reach read target
        \<or> \<not> acyclic (parent_links read))"
proof -
  obtain r where r: "ancestors_inclusive read target = Some r" "case r of
      Ok found \<Rightarrow> fset (fmdom found) = reach read target
        \<and> (\<forall>i block. fmlookup found i = Some block \<longrightarrow> block_at read i block)
    | Err _ \<Rightarrow> \<exists>i \<in> reach read target. \<nexists>block. block_at read i block"
    using ancestors_inclusive_spec [OF fin] by blast
  obtain q where q: "ancestors_inclusive read baseline = Some q" "case q of
      Ok found \<Rightarrow> fset (fmdom found) = reach read baseline
        \<and> (\<forall>i block. fmlookup found i = Some block \<longrightarrow> block_at read i block)
    | Err _ \<Rightarrow> \<exists>i \<in> reach read baseline. \<nexists>block. block_at read i block"
    using ancestors_inclusive_spec [OF fin] by blast
  consider (unread) e where "r = Err e"
    | (apart) ancestors where "r = Ok ancestors" "baseline |\<notin>| fmdom ancestors"
    | (unread_base) ancestors e where "r = Ok ancestors" "baseline |\<in>| fmdom ancestors" "q = Err e"
    | (found) ancestors old where "r = Ok ancestors" "baseline |\<in>| fmdom ancestors" "q = Ok old"
    by (cases r; cases q) auto
  then show ?thesis
  proof cases
    case unread
    then show ?thesis
      using r by (simp add: candidate_blocks_def)
  next
    case apart
    then show ?thesis
      using r by (auto simp: candidate_blocks_def)
  next
    case unread_base
    then have base: "baseline \<in> reach read target"
      using r(2) by auto
    obtain i where "i \<in> reach read baseline" "\<nexists>block. block_at read i block"
      using q(2) unread_base by auto
    then show ?thesis
      using r(1) q(1) unread_base reach_trans [OF _ base] by (auto simp: candidate_blocks_def)
  next
    case found
    then have "fset (fmdom ancestors) = reach read target" "fset (fmdom old) = reach read baseline"
      and anc: "\<And>i block. fmlookup ancestors i = Some block \<Longrightarrow> block_at read i block"
      using r(2) q(2) by auto
    from candidate_blocks_found [OF r(1) [unfolded found] q(1) [unfolded found] this(1) anc this(2)] found(2) this(1)
    show ?thesis
      by (auto split: result.splits)
  qed
qed

section \<open>The operations of a side\<close>

lemma candidate_operation_Ok:
  "candidate_operation H i envelope operation (operations, keys) = Ok st' \<Longrightarrow>
     \<exists>key. st' = (operations @ [operation\<lparr> dop_patch_id := Some i \<rparr>], keys @ [key])"
  by (auto simp: candidate_operation_def)

lemma candidate_operations:
  assumes "rfold (candidate_operation H i envelope) decoded (operations, keys) = Ok (operations', keys')"
  shows "operations' = operations @ declared i decoded"
  using assms
proof (induction decoded arbitrary: operations keys)
  case (Cons operation decoded)
  then obtain key where "rfold (candidate_operation H i envelope) decoded
      (operations @ [operation\<lparr> dop_patch_id := Some i \<rparr>], keys @ [key]) = Ok (operations', keys')"
    by (auto dest: candidate_operation_Ok)
  from Cons.IH [OF this] show ?case
    by (simp add: declared_def)
qed (simp add: declared_def)

lemma candidate_patch_read:
  assumes "candidate_patch H read excluded i (operations, keys) = Ok (operations', keys')" "i \<notin> excluded"
  shows "\<exists>decoded. read_patch_operations H read i False = Ok decoded \<and> operations' = operations @ declared i decoded"
proof -
  obtain envelope decoded where "read_patch read i = Ok envelope"
    and decoded: "decode_patch_operations H (env_payload envelope) (env_schema envelope) = Ok decoded"
    and fold: "rfold (candidate_operation H i envelope) decoded (operations, keys) = Ok (operations', keys')"
    using assms by (auto simp: candidate_patch_def)
  then have "read i = Ok (Some envelope)" "env_type envelope = Patch"
    by (auto simp: read_patch_def read_typed_def split: option.splits if_splits)
  then show ?thesis
    using decoded candidate_operations [OF fold] by (simp add: read_patch_operations_def)
qed

lemma candidate_patches_read:
  assumes "rfold (candidate_patch H read excluded) ids st = Ok st'"
  shows "\<exists>listed. rmap (\<lambda>i. read_patch_operations H read i False) (filter (\<lambda>i. i \<notin> excluded) ids) = Ok listed
    \<and> fst st' = fst st @ side_of (zip (filter (\<lambda>i. i \<notin> excluded) ids) listed)"
  using assms
proof (induction ids arbitrary: st)
  case (Cons i ids)
  obtain st1 where st1: "candidate_patch H read excluded i st = Ok st1"
    and tail: "rfold (candidate_patch H read excluded) ids st1 = Ok st'"
    using Cons.prems by (cases st) auto
  obtain listed where listed: "rmap (\<lambda>i. read_patch_operations H read i False) (filter (\<lambda>i. i \<notin> excluded) ids) = Ok listed"
    "fst st' = fst st1 @ side_of (zip (filter (\<lambda>i. i \<notin> excluded) ids) listed)"
    using Cons.IH [OF tail] by blast
  show ?case
  proof (cases "i \<in> excluded")
    case True
    then show ?thesis
      using st1 listed by (simp add: candidate_patch_def)
  next
    case False
    obtain decoded where "read_patch_operations H read i False = Ok decoded" "fst st1 = fst st @ declared i decoded"
      using candidate_patch_read [of H read excluded i "fst st" "snd st" "fst st1" "snd st1"] st1 False by auto
    then show ?thesis
      using False listed by simp
  qed
qed simp

lemma rfold_concat: "rfold (\<lambda>x. rfold f (g x)) xs s = rfold f (concat (map g xs)) s"
proof (induction xs arbitrary: s)
  case (Cons x xs)
  then show ?case
    by (simp add: rfold_append) (metis (lifting) Cons.IH)
qed simp

lemma candidate_sequence_side:
  assumes "candidate_sequence H read baseline target = Some (Ok (operations, keys))"
    and "candidate_patch_ids read baseline target = Some (Ok ids)"
  shows "\<exists>listed. rmap (\<lambda>i. read_patch_operations H read i False) ids = Ok listed
    \<and> operations = side_of (zip ids listed)"
proof -
  obtain excluded where ex: "baseline_reachable_patch_ids read baseline = Some (Ok excluded)"
    using assms(2) by (auto simp: candidate_patch_ids_def run_then_Ok)
  obtain blocks where blocks: "candidate_blocks read baseline target = Some (Ok blocks)"
    using assms(2) ex by (auto simp: candidate_patch_ids_def run_then_Ok)
  let ?all = "concat (map (block_patch_ids \<circ> snd) blocks)"
  have "rfold (\<lambda>entry. rfold (candidate_patch H read excluded) ((block_patch_ids \<circ> snd) entry)) blocks ([], []) =
      Ok (operations, keys)"
    using assms(1) ex blocks by (simp add: candidate_sequence_def split_def)
  then have "rfold (candidate_patch H read excluded) ?all ([], []) = Ok (operations, keys)"
    by (simp only: rfold_concat)
  moreover have "ids = filter (\<lambda>i. i \<notin> excluded) ?all"
    using assms(2) ex blocks by (simp add: candidate_patch_ids_def)
  ultimately show ?thesis
    using candidate_patches_read [of H read excluded ?all "([], [])"] by simp
qed

section \<open>A sample merge\<close>

text \<open>A root block without patches, and on it a block with the sample patch.\<close>

definition bare_root :: block_payload where
  "bare_root = demo_block_payload\<lparr> block_patch_ids := [] \<rparr>"

definition bare_block :: object_envelope where
  "bare_block = demo_block\<lparr> env_payload := fields_bytes (block_fields bare_root) \<rparr>"

definition bare_id :: object_id where
  "bare_id = ObjectId (replicate 32 88)"

definition tip_payload :: block_payload where
  "tip_payload = demo_block_payload\<lparr> parent_block_ids := [bare_id], block_kind_of := BNormal \<rparr>"

definition tip_block :: object_envelope where
  "tip_block = demo_block\<lparr> env_payload := fields_bytes (block_fields tip_payload) \<rparr>"

definition tip_id :: object_id where
  "tip_id = ObjectId (replicate 32 174)"

definition side_store :: memory_object_store where
  "side_store = snd (memory_write_object demo_hash tip_block (snd (memory_write_object demo_hash bare_block demo_store)))"

definition side_operation :: decoded_patch_operation where
  "side_operation = \<lparr> dop_seq = 1, dop_kind = DCreateFile [0x61] demo_node demo_blob_id 0x81A4, dop_patch_id = None \<rparr>"

lemma bare_id: "envelope_object_id demo_hash bare_block = bare_id"
  by (simp add: envelope_object_id_def from_canonical_payload_def object_id_preimage_def demo_hash_def
      OBJECT_ID_DOMAIN_def bare_block_def bare_root_def demo_block_def demo_block_payload_def block_fields_def
      opt_field_def length_fbytes ascii_def bare_id_def)

lemma tip_id: "envelope_object_id demo_hash tip_block = tip_id"
  by (simp add: envelope_object_id_def from_canonical_payload_def object_id_preimage_def demo_hash_def
      OBJECT_ID_DOMAIN_def tip_block_def tip_payload_def demo_block_def demo_block_payload_def block_fields_def
      opt_field_def length_fbytes ascii_def tip_id_def bare_id_def demo_patch_id_def)

lemma side_reads:
  "memory_read_object side_store i = (if i = tip_id then Ok (Some tip_block) else
     if i = bare_id then Ok (Some bare_block) else memory_read_object demo_store i)"
proof -
  have "validate_strict bare_block = Ok ()" "validate_strict tip_block = Ok ()"
    by (simp_all add: bare_block_def tip_block_def demo_block_def validate_strict_iff strict_envelope_def)
  then show ?thesis
    by (simp add: side_store_def memory_write_object_def memory_read_object_def bare_id tip_id)
qed

lemma side_store_wf: "wf_memory demo_hash side_store" "small_payloads (memory_read_object side_store)"
proof -
  show "wf_memory demo_hash side_store"
    unfolding side_store_def demo_store_def by (intro wf_memory_write wf_new_memory_store)
  show "small_payloads (memory_read_object side_store)"
    by (auto simp: small_payloads_def side_reads demo_reads bare_block_def bare_root_def tip_block_def tip_payload_def demo_block_def
        demo_block_payload_def demo_patch_def demo_patch_bytes_def demo_blob_def new_blob_def blob_fields_def
        block_fields_def opt_field_def length_fbytes usize_limit_def demo_patch_id_def bare_id_def split: if_splits)
qed

lemma side_lineage:
  "replay_lineage_with_materialized_text demo_hash (memory_read_object side_store) bare_id bare_id =
     Some (Ok (new_lifecycle, fmempty))"
proof -
  have "decode_block (fields_bytes (block_fields bare_root)) = Ok bare_root"
    by (rule decode_block_fields)
      (simp_all add: bare_root_def demo_block_payload_def wf_block_def wf_id_def block_fields_def
        opt_field_def is_strictly_sorted_iff length_fbytes usize_limit_def)
  then have "lineage_read_block (memory_read_object side_store) bare_id = Ok bare_root"
    by (simp add: lineage_read_block_def side_reads bare_id_def tip_id_def bare_block_def demo_block_def)
  moreover have "parents_of bare_root = []" "block_patch_ids bare_root = []"
    by (simp_all add: parents_of_def bare_root_def demo_block_payload_def)
  ultimately have "walk_lineage (memory_read_object side_store) bare_id bare_id = Some (Ok [(bare_id, bare_root)])"
    by (subst walk_lineage_def, subst lineage_loop.simps) simp
  then show ?thesis
    using \<open>block_patch_ids bare_root = []\<close>
    by (simp add: replay_lineage_with_materialized_text_def replay_chain_with_appended_patches_def apply_patch_ids_def)
qed

lemma side_listed:
  "read_patch_operations demo_hash (memory_read_object side_store) demo_patch_id f = Ok [side_operation]"
  using demo_operations_read [of f]
  by (simp add: read_patch_operations_def side_reads bare_id_def tip_id_def demo_patch_id_def side_operation_def)

lemma side_state:
  "\<exists>st. apply_patch_ids demo_hash (memory_read_object side_store) False [demo_patch_id] (new_lifecycle, fmempty) = Ok st
     \<and> fmlookup (live_by_id (fst st)) demo_node = Some demo_live"
proof -
  have path: "repo_path_parse [0x61] = Ok (RepoPath [0x61])"
    using sample_paths by (simp add: repo_path_parse_def validate_repo_path_iff)
  have kind: "resolver_blob_kind (memory_read_object side_store) False demo_blob_id = Ok (Some BlobText)"
    using demo_payloads(1)
    by (simp add: resolver_blob_kind_def resolve_blob_def side_reads demo_reads demo_blob_id_def demo_patch_id_def
        demo_block_id_def bare_id_def tip_id_def demo_blob_def validate_blob_schema_def new_blob_def)
  have "node_bytes demo_node \<noteq> replicate 32 0"
    by (simp add: demo_node_def)
  then show ?thesis
    using path kind
    by (simp add: apply_patch_ids_def side_listed side_operation_def rename_op_def parse_repo_path_def
        create_node_def new_lifecycle_def demo_live_def effect_def guarded_def ensure_node_id_nonzero_def
        validate_kind_content_shape_def)
qed


lemma side_blocks:
  "read_block (memory_read_object side_store) bare_id = Ok bare_root"
  "read_block (memory_read_object side_store) tip_id = Ok tip_payload"
proof -
  have "decode_block (fields_bytes (block_fields bare_root)) = Ok bare_root"
    by (rule decode_block_fields)
      (simp_all add: bare_root_def demo_block_payload_def wf_block_def wf_id_def block_fields_def
        opt_field_def is_strictly_sorted_iff length_fbytes usize_limit_def)
  then show "read_block (memory_read_object side_store) bare_id = Ok bare_root"
    by (simp add: read_block_def read_typed_def side_reads bare_id_def tip_id_def bare_block_def demo_block_def)
  have "decode_block (fields_bytes (block_fields tip_payload)) = Ok tip_payload"
    by (rule decode_block_fields)
      (simp_all add: tip_payload_def demo_block_payload_def bare_id_def demo_patch_id_def wf_block_def wf_id_def
        block_fields_def opt_field_def is_strictly_sorted_iff length_fbytes usize_limit_def)
  then show "read_block (memory_read_object side_store) tip_id = Ok tip_payload"
    by (simp add: read_block_def read_typed_def side_reads bare_id_def tip_id_def tip_block_def demo_block_def)
qed

lemma side_shapes: "validate_block_v2_shape bare_root = Ok ()" "validate_block_v2_shape tip_payload = Ok ()"
  by (simp_all add: validate_block_v2_shape_def validate_non_merge_shape_def bare_root_def tip_payload_def
      demo_block_payload_def)

lemma side_ids: "tip_id \<noteq> bare_id"
  by (simp add: tip_id_def bare_id_def)

lemma side_parents: "parent_block_ids bare_root = []" "parent_block_ids tip_payload = [bare_id]"
  by (simp_all add: bare_root_def tip_payload_def demo_block_payload_def)

lemma side_ancestors:
  "ancestors_inclusive (memory_read_object side_store) bare_id = Some (Ok (fmupd bare_id bare_root fmempty))"
  "ancestors_inclusive (memory_read_object side_store) tip_id =
     Some (Ok (fmupd bare_id bare_root (fmupd tip_id tip_payload fmempty)))"
  using side_ids unfolding ancestors_inclusive_def
  by (simp_all add: ancestors_loop.simps [of _ fmempty] ancestors_loop.simps [of _ "fmupd _ _ _"] side_blocks
      side_shapes side_parents)

lemma side_candidates:
  "candidate_blocks (memory_read_object side_store) bare_id tip_id = Some (Ok [(tip_id, tip_payload)])"
proof -
  have "fmdom (fmupd bare_id bare_root (fmupd tip_id tip_payload fmempty)) |-| fmdom (fmupd bare_id bare_root fmempty) =
      {|tip_id|}"
    using side_ids by auto
  moreover have "sorted_list_of_fset {|tip_id|} = [tip_id]"
    by (simp add: sorted_list_of_fset.rep_eq)
  then have "topological_order {|tip_id|} (fmupd bare_id bare_root (fmupd tip_id tip_payload fmempty)) =
      Some (Ok [tip_id])"
    using side_ids
    by (simp add: topological_order_def pending_step_def side_parents in_key_order_def children_of_def fcard.rep_eq
        order_loop.simps [of _ _ "_ # _"] order_loop.simps [of _ _ "[]"])
  ultimately show ?thesis
    using side_ids by (simp add: candidate_blocks_def side_ancestors Let_def)
qed

lemma side_sequence:
  "candidate_patch_ids (memory_read_object side_store) bare_id tip_id = Some (Ok [demo_patch_id])"
  "candidate_sequence demo_hash (memory_read_object side_store) bare_id tip_id =
     Some (Ok (declared demo_patch_id [side_operation], [None]))"
proof -
  have ex: "baseline_reachable_patch_ids (memory_read_object side_store) bare_id = Some (Ok {})"
    by (auto simp: baseline_reachable_patch_ids_def side_ancestors fmran'_def bare_root_def split: if_splits)
  have patches: "block_patch_ids tip_payload = [demo_patch_id]"
    by (simp add: tip_payload_def demo_block_payload_def)
  show "candidate_patch_ids (memory_read_object side_store) bare_id tip_id = Some (Ok [demo_patch_id])"
    by (simp add: candidate_patch_ids_def ex side_candidates patches)
  have "read_patch (memory_read_object side_store) demo_patch_id = Ok demo_patch"
    by (simp add: read_patch_def read_typed_def side_reads demo_reads bare_id_def tip_id_def demo_patch_id_def
        demo_block_id_def demo_patch_def)
  then show "candidate_sequence demo_hash (memory_read_object side_store) bare_id tip_id =
     Some (Ok (declared demo_patch_id [side_operation], [None]))"
    using demo_operations [of demo_hash]
    by (simp add: candidate_sequence_def ex side_candidates patches candidate_patch_def candidate_operation_def
        declared_def side_operation_def demo_patch_def)
qed

section \<open>Properties\<close>

text \<open>C10 (functional): the candidate blocks of a merge. On every in-memory store the walk and the ordering
  return. When they succeed, they list every block that parent links reach from the target and not from
  the baseline, once each, with every parent before its child, and the baseline is an ancestor of the
  target. They refuse only when a reachable block is missing or malformed, when the baseline is not an
  ancestor, or when parent links form a cycle.\<close>

theorem merge_candidates_exact:
  assumes "wf_memory H store"
  shows "\<exists>r. candidate_blocks (memory_read_object store) baseline target = Some r \<and> (case r of
      Ok blocks \<Rightarrow> candidates_exact (memory_read_object store) baseline target blocks
    | Err _ \<Rightarrow> (\<exists>i \<in> reach (memory_read_object store) target. \<nexists>block. block_at (memory_read_object store) i block)
        \<or> baseline \<notin> reach (memory_read_object store) target
        \<or> \<not> acyclic (parent_links (memory_read_object store)))"
  by (rule candidate_blocks_spec [OF memory.finite_readable [OF assms]])

theorem merge_candidates_exact_witness:
  "candidate_blocks (memory_read_object side_store) bare_id tip_id = Some (Ok [(tip_id, tip_payload)])
     \<and> candidates_exact (memory_read_object side_store) bare_id tip_id [(tip_id, tip_payload)]"
  using merge_candidates_exact [OF side_store_wf(1), of bare_id tip_id] by (simp add: side_candidates)

text \<open>C13 (refinement): the replay oracle follows the lifecycle replay of a side. Take the state and the texts
  that the replay of the baseline's lineage leaves, the evidence of the same store over that state, and
  the candidate operations of a target, whose patches have different ids and which lifecycle replay accepts
  next, without symlinks and without a node that comes back after its deletion. Then the oracle replays
  the operations too, to the same node index. Every text it holds of a live node is the text that lifecycle
  replay holds, and the text of every live text file that lifecycle replay can read is the text that the
  oracle reads. The only alternative is that a stored object and an edited text collide.\<close>

theorem merge_side_replays:
  assumes "wf_memory H store" "small_payloads (memory_read_object store)"
    and "replay_lineage_with_materialized_text H (memory_read_object store) base horizon = Some (Ok (baseline, texts))"
    and "\<forall>n b. materialize_edited_text H (memory_read_object store) base horizon n = Some (materialize n b)"
    and "candidate_sequence H (memory_read_object store) base target = Some (Ok (operations, keys))"
    and "candidate_patch_ids (memory_read_object store) base target = Some (Ok ids)" "distinct ids"
    and "apply_patch_ids H (memory_read_object store) False ids (baseline, texts) = Ok st"
    and "no_restore (map dop_kind operations)"
    and "\<forall>operation \<in> set operations. \<not> symlink_op (dop_kind operation)"
  shows "(\<exists>orc. replay_operations H baseline (store_evidence (memory_read_object store) materialize baseline) scope
        operations = Ok orc
      \<and> os_lifecycle orc = fst st
      \<and> (\<forall>n t. fmlookup (os_texts orc) n = Some t \<and> live_node_at (fst st) n \<noteq> None \<longrightarrow> fmlookup (snd st) n = Some t)
      \<and> (\<forall>n node b m c. live_node_at (fst st) n = Some node \<and> ln_kind node = TextFile \<and> ln_content node = FileContent b m
           \<and> replay_current_text (memory_read_object store) False (snd st) n b = Ok c \<longrightarrow>
             (\<exists>orc'. oracle_current_text baseline (store_evidence (memory_read_object store) materialize baseline) scope
                n orc = Ok (c, orc'))))
    \<or> text_collision H (memory_read_object store) (baseline, texts)"
proof -
  obtain listed where "rmap (\<lambda>i. read_patch_operations H (memory_read_object store) i False) ids = Ok listed"
    and side: "operations = side_of (zip ids listed)"
    using candidate_sequence_side [OF assms(5,6)] by blast
  from listed_side_replays [OF assms(1-4,8) this(1) assms(7)] assms(9,10) show ?thesis
    unfolding side by blast
qed

theorem merge_side_replays_witness:
  "\<exists>orc. replay_operations demo_hash new_lifecycle
      (store_evidence (memory_read_object side_store) (\<lambda>_ _. Ok None) new_lifecycle) SealedCandidateRequired
      (declared demo_patch_id [side_operation]) = Ok orc
    \<and> fmlookup (live_by_id (os_lifecycle orc)) demo_node = Some demo_live"
proof -
  obtain st where st: "apply_patch_ids demo_hash (memory_read_object side_store) False [demo_patch_id]
      (new_lifecycle, fmempty) = Ok st" "fmlookup (live_by_id (fst st)) demo_node = Some demo_live"
    using side_state by blast
  have mat: "\<forall>n (b :: object_id). materialize_edited_text demo_hash (memory_read_object side_store) bare_id bare_id n =
      Some ((\<lambda>_ _. Ok None) n b)"
    by (simp add: materialize_edited_text_def side_lineage)
  have "distinct [demo_patch_id]" "no_restore (map dop_kind (declared demo_patch_id [side_operation]))"
    "\<forall>operation \<in> set (declared demo_patch_id [side_operation]). \<not> symlink_op (dop_kind operation)"
    "\<not> text_collision demo_hash (memory_read_object side_store) (new_lifecycle, fmempty)"
    by (simp_all add: declared_def side_operation_def text_collision_def)
  then show ?thesis
    using merge_side_replays [OF side_store_wf side_lineage mat side_sequence(2,1) _ st(1), of SealedCandidateRequired]
      st(2) by auto
qed

end
