(* ===== verification/Spec2Isabelle.thy ===== *)
theory Spec2Isabelle
  imports File_Codec Blob_Block Patch_Codec Lifecycle_Props Text_Edit Anchor_Props Algebra_Props Algebra_Fold Merge_Props
begin

text \<open>
  \<^bold>\<open>A verification library for prikk\<close>

  prikk is a version-control system. Its history is a chain of blocks, a block lists patches, a patch is
  a numbered list of operations on nodes (files and symlinks with a permanent identity), and all of them
  are objects stored under the SHA-256 id of their canonical encoding. Two independent replays rebuild a
  state from a chain: the lifecycle replay, which keeps an index of node identities, and the materializing
  replay, which keeps paths and bytes. The state of a block is committed to by a Merkle root, and
  checkpoint snapshots are checked against that root.

  \<^bold>\<open>Conventions.\<close> A byte string is a list of 8-bit words, fixed-width integers are words and \<open>usize\<close> is a
  natural number with the bound \<open>usize_limit\<close> written out where the code converts. A Rust \<open>Result\<close> is the
  datatype \<open>result\<close> with \<open>Err\<close> and \<open>Ok\<close>, every \<open>?\<close> is \<open>rbind\<close>, and every error is the source's variant
  with the source's message. A method on \<open>&mut self\<close> is a function to a result and the new state. A
  \<open>BTreeMap\<close> is a finite map, a \<open>BTreeSet\<close> a finite set. SHA-256 (the \<open>sha2\<close> crate) is the argument \<open>H\<close> or
  \<open>sha256\<close> of every definition that hashes. Where a theorem needs the digest to keep inputs apart, its
  conclusion names the preimages that would collide, so it says something of every digest.

  \<^bold>\<open>Theories and sources\<close> (crates under \<open>src/crates\<close>).

  \<^item> \<open>Prelude\<close>, \<open>Prikk_Error\<close>: results, folds, big-endian integers, the collections \<open>codec_simps\<close> and its
    like; \<open>prikk-error/src/lib.rs\<close>.
  \<^item> \<open>Canonical\<close>: the tag-length-value writer and cursor (\<open>prikk-object/src/canonical.rs\<close>,
    \<open>prikk-store/src/patch_replay/decode/tlv.rs\<close>). The cursor accepts exactly what the writer can write.
  \<^item> \<open>Repo_Path\<close>, \<open>Object_Id\<close>, \<open>Envelope\<close>, \<open>File_Codec\<close>: paths, identities, signatures and envelopes, and
    the envelope file format (\<open>path.rs\<close>, \<open>id.rs\<close>, \<open>signature.rs\<close>, \<open>envelope.rs\<close>, \<open>foundation/*\<close>).
    Validation is characterised exactly, accepted paths stay inside the repository, signed bytes and object
    ids bind what they sign and name.
  \<^item> \<open>Codec\<close>: the contract of a payload codec as a locale, with what follows for identities;
    \<open>Blob_Block\<close>, \<open>Patch_Payload\<close>, \<open>Patch_Decode\<close>, \<open>Patch_Codec\<close>, \<open>Snapshot\<close> and \<open>Envelope\<close> interpret it
    (\<open>payload/*.rs\<close>, \<open>patch_replay/decode/*.rs\<close>). Patches survive encoding and decoding at every schema
    that admits them.
  \<^item> \<open>Refinement\<close>, \<open>Node_Lifecycle\<close>, \<open>Lifecycle_Spec\<close>, \<open>Lifecycle_Props\<close>: the node index of
    \<open>prikk-replay/src/node_lifecycle\<close> with its three maps, an abstract tree that gives each identity one
    status, and the proof, through the locale \<open>atomic_refinement\<close>, that every history of operations gives
    the abstract tree and that a refused operation changes nothing.
  \<^item> \<open>Utf8\<close>, \<open>Text_Span\<close>, \<open>Text_Edit\<close>: text spans (\<open>text_span.rs\<close>, \<open>text_span/*\<close>). An authored edit
    resolves and splices to the new text and its inverse undoes it.
  \<^item> \<open>Object_Store\<close>: the reader interface, the in-memory store and the blob roles (\<open>object_store.rs\<close>,
    \<open>memory_store.rs\<close>, \<open>blob_access.rs\<close>). The locale \<open>object_store\<close> is what clients rely on, the in-memory
    store is its instance.
  \<^item> \<open>Lifecycle_Replay\<close> (\<open>lifecycle_cache/replay.rs\<close>, \<open>replay/effect.rs\<close>) and \<open>Patch_Apply\<close>
    (\<open>patch_replay.rs\<close>, \<open>patch_replay/apply.rs\<close>, \<open>patch_replay/anchor.rs\<close>): the two replays.
    \<open>Replay_Agreement\<close>, \<open>Replay_Chain\<close>, \<open>Replay_Props\<close>: a simulation between them for every operation,
    rename batch, patch, block and chain, with the exact place and error of the operations that only the
    materializing replay refuses, and that the ancestry walks return.
  \<^item> \<open>State_Root\<close>, \<open>Snapshot\<close>, \<open>Snapshot_Props\<close> (\<open>state_root.rs\<close>, \<open>snapshot.rs\<close>): the Merkle root binds
    the entries, a checkpoint written through any store that meets the contract loads back.
  \<^item> \<open>Trust\<close> (\<open>prikk-crypto/src/lib.rs\<close>, \<open>trust.rs\<close>): the verdict on the maintainer signatures of an
    envelope. The two calls into the \<open>ed25519-dalek\<close> crate are the fields of the record \<open>ed25519\<close>.
  \<^item> \<open>Anchor\<close>, \<open>Anchor_Replay\<close>, \<open>Anchor_Props\<close> (\<open>anchor_trust.rs\<close>, \<open>anchor_fallback.rs\<close>,
    \<open>patch_replay/anchor.rs\<close>): which snapshots a replay may start from, and that starting from one
    returns what the replay from genesis returns.
  \<^item> \<open>Algebra_Types\<close>, \<open>Algebra_Classify\<close>, \<open>Algebra_Oracle\<close>, \<open>Algebra_Fold\<close> (\<open>patch_algebra/*.rs\<close>): how two
    operations over one baseline relate, the replay that decides it, commutation of a pair, confluence of
    two sides, and the folding of a side to one net operation for each node.
    \<open>Algebra_Effects\<close> reads every replayed operation as an effect on the status and text of one node, and
    \<open>Algebra_Confluence\<close> has the diamond of two effects and its lifting to sequences.
    \<open>Algebra_Props\<close>: independent operations commute, commuting sides are confluent, and a confluent
    verdict means one state in both orders that keeps what each side did. Folding keeps the side.
  \<^item> \<open>Algebra_Evidence\<close>, \<open>Algebra_Sides\<close> (\<open>patch_algebra/evidence.rs\<close>): the evidence read from a store. The
    locale \<open>algebra_evidence\<close> says what the algebra needs of it; under it the replay oracle follows the
    lifecycle replay of a side, operation by operation, and the store evidence is its instance.
  \<^item> \<open>Merge_Candidates\<close>, \<open>Merge_Order\<close>, \<open>Merge_Props\<close> (\<open>merge/evidence.rs\<close>, the shape check of
    \<open>block_state.rs\<close>): which blocks, patches and operations a merge looks at. The candidate blocks are exactly
    the new ones, each after its parents, and a side read from them replays as lifecycle replay does.

  \<^bold>\<open>Loops and bounds.\<close> Loops over slices are structural recursion or \<open>function\<close> with a length measure. The
  walks over the ancestry may meet a cycle of blocks, so they are \<open>partial_function (option)\<close>, as is the
  ordering loop of a merge, and separate theorems show that they return on every finite store. No fuel is used. The anchor-length search
  is modelled at the width of its counters, and its failure at lengths just above a multiple of 4 GiB is a theorem.

  \<^bold>\<open>Not modelled.\<close> Everything that is file-system state: containers, indexes and generations on disk, the
  write-ahead log, locks, worktree scanning and writing, caches; the command line and the C interface;
  the \<open>ed25519-dalek\<close> crate behind the record \<open>ed25519\<close>. Of the patch algebra,
  the module \<open>report\<close>, which words conflicts for the reader. Merge execution, inverse patches and the remaining
  payloads (refs, tags, claims, attestations) are not translated.
\<close>

end
